(* ===== verification/Binary64.thy ===== *)
theory Binary64
  imports Complex_Main Prelude
begin

text \<open>
  IEEE 754 binary64 rounding on the rationals, exactly and executably: round to nearest,
  ties to even, gradual underflow. Every finite value of a JavaScript number is a rational, and
  the result of each arithmetic operation of the language is the exact rational result
  rounded once. The interface \<open>rounding\<close> states what the components rely on (monotone,
  odd, exact on its own results and on small integers); it is interpreted on the rounding of
  the language at the end of the theory.
\<close>

subsection \<open>Round to the nearest integer, ties to even\<close>

definition rne :: "rat \<Rightarrow> int" where
  "rne x = (let f = \<lfloor>x\<rfloor>; r = x - of_int f in
     if r < 1 / 2 then f else if 1 / 2 < r then f + 1 else if even f then f else f + 1)"

lemma rne_of_int [simp]: "rne (of_int n) = n"
  by (simp add: rne_def)

lemma rne_bounds: "\<lfloor>x\<rfloor> \<le> rne x" "rne x \<le> \<lfloor>x\<rfloor> + 1"
  by (auto simp: rne_def Let_def)

lemma rne_error: "\<bar>of_int (rne x) - x\<bar> \<le> 1 / 2"
proof -
  define f where "f = \<lfloor>x\<rfloor>"
  have "of_int f \<le> x" "x < of_int f + 1" unfolding f_def by linarith+
  then show ?thesis by (simp add: rne_def Let_def f_def [symmetric] abs_if)
qed

lemma rne_mono: "x \<le> y \<Longrightarrow> rne x \<le> rne y"
proof -
  assume xy: "x \<le> y"
  then have "\<lfloor>x\<rfloor> \<le> \<lfloor>y\<rfloor>" by (rule floor_mono)
  then consider "\<lfloor>x\<rfloor> = \<lfloor>y\<rfloor>" | "\<lfloor>x\<rfloor> + 1 \<le> \<lfloor>y\<rfloor>" by linarith
  then show ?thesis
  proof cases
    case 1
    with xy show ?thesis by (auto simp: rne_def Let_def)
  next
    case 2
    then show ?thesis using rne_bounds [of x] rne_bounds [of y] by linarith
  qed
qed

lemma rne_minus: "rne (- x) = - rne x"
proof -
  define f where "f = \<lfloor>x\<rfloor>"
  have lo: "of_int f \<le> x" and hi: "x < of_int f + 1" unfolding f_def by linarith+
  show ?thesis
  proof (cases "x = of_int f")
    case True
    then have "- x = of_int (- f)" by simp
    with True show ?thesis by (simp only: rne_of_int)
  next
    case False
    with lo have lo': "of_int f < x" by simp
    have "\<lfloor>- x\<rfloor> = - f - 1" using lo' hi by (intro floor_unique) auto
    then show ?thesis using lo' hi by (auto simp: rne_def Let_def f_def [symmetric])
  qed
qed

subsection \<open>The binade of a positive rational\<close>

function bits :: "int \<Rightarrow> int" where
  "bits n = (if n \<le> 0 then 0 else 1 + bits (n div 2))"
  by pat_completeness auto
termination
  by (relation "measure nat") auto

declare bits.simps [simp del]

lemma bits_nonneg: "0 \<le> bits n"
proof (induction n rule: bits.induct)
  case (1 n)
  then show ?case by (subst bits.simps) auto
qed

lemma bits_bounds: "0 < n \<Longrightarrow> 0 < bits n \<and> 2 ^ nat (bits n - 1) \<le> n \<and> n < 2 ^ nat (bits n)"
proof (induction n rule: bits.induct)
  case (1 n)
  define m where "m = n div 2"
  have b: "bits n = 1 + bits m" using "1.prems" unfolding m_def by (subst bits.simps) simp
  have n: "2 * m \<le> n" "n < 2 * m + 2" unfolding m_def by linarith+
  show ?case
  proof (cases "0 < m")
    case True
    then have IH: "0 < bits m" "2 ^ nat (bits m - 1) \<le> m" "m < 2 ^ nat (bits m)"
      using "1.IH" "1.prems" unfolding m_def by auto
    have s: "nat (bits m) = Suc (nat (bits m - 1))" "nat (bits n) = Suc (nat (bits m))"
      "nat (bits n - 1) = nat (bits m)" using IH(1) b by auto
    show ?thesis using IH n b s by simp
  next
    case False
    then have "bits m = 0" by (subst bits.simps) simp
    then show ?thesis using b n False "1.prems" by simp
  qed
qed

definition ilog2 :: "rat \<Rightarrow> int" where
  "ilog2 x = (let (n, d) = quotient_of x; k = bits n - bits d
     in if 2 powi k \<le> x then k else k - 1)"

lemma bits_powi:
  assumes "0 < n"
  shows "0 < bits n" "(2::rat) powi (bits n - 1) \<le> of_int n" "of_int n < (2::rat) powi bits n"
proof -
  note b = bits_bounds [OF assms]
  show "0 < bits n" using b by simp
  have "(of_int (2 ^ nat (bits n - 1)) :: rat) \<le> of_int n" using b by (simp only: of_int_le_iff)
  then show "(2::rat) powi (bits n - 1) \<le> of_int n" using b by (simp add: power_int_def)
  have "(of_int n :: rat) < of_int (2 ^ nat (bits n))" using b by (simp only: of_int_less_iff)
  then show "of_int n < (2::rat) powi bits n" using b by (simp add: power_int_def)
qed

lemma ilog2_bounds:
  assumes "0 < x"
  shows "2 powi ilog2 x \<le> x" "x < 2 powi (ilog2 x + 1)"
proof -
  obtain n d where q: "quotient_of x = (n, d)" by fastforce
  have d: "0 < d" using q by (rule quotient_of_denom_pos)
  have x: "x = of_int n / of_int d" using q by (rule quotient_of_div)
  have n: "0 < n" using assms x d by (simp add: zero_less_divide_iff)
  define a b where "a = bits n" and "b = bits d"
  note ra = bits_powi [OF n, folded a_def] and rb = bits_powi [OF d, folded b_def]
  define k where "k = a - b"
  have up: "x < 2 powi (k + 1)"
  proof -
    have "of_int n < (2::rat) powi (k + 1) * 2 powi (b - 1)"
      using ra(3) by (simp add: power_int_add [symmetric] k_def)
    also have "\<dots> \<le> 2 powi (k + 1) * of_int d" using rb(2) by (simp add: mult_left_mono)
    finally show ?thesis using d by (simp add: x divide_less_eq)
  qed
  have lo: "2 powi (k - 1) \<le> x"
  proof -
    have "2 powi (k - 1) * of_int d \<le> (2::rat) powi (k - 1) * 2 powi b"
      using rb(3) by (simp add: mult_left_mono less_imp_le)
    also have "\<dots> = 2 powi (a - 1)"
      by (subst power_int_add [symmetric]) (simp_all add: k_def)
    also have "\<dots> \<le> of_int n" by (rule ra(2))
    finally show ?thesis using d by (simp add: x le_divide_eq)
  qed
  have i: "ilog2 x = (if 2 powi k \<le> x then k else k - 1)"
    by (simp add: ilog2_def q k_def a_def b_def)
  show "2 powi ilog2 x \<le> x" using lo i by simp
  show "x < 2 powi (ilog2 x + 1)" using up i by (auto split: if_splits)
qed

lemma powi_le_cancel: "(2::rat) powi a \<le> 2 powi b \<Longrightarrow> a \<le> b"
  by (metis not_le one_less_numeral_iff power_int_strict_increasing semiring_norm(76))

lemma powi_less_cancel: "(2::rat) powi a < 2 powi b \<Longrightarrow> a < b"
  by (metis le_less_linear not_le power_int_increasing one_le_numeral)

lemma ilog2_less: "0 < x \<Longrightarrow> x < 2 powi k \<Longrightarrow> ilog2 x < k"
  using ilog2_bounds(1) [of x] by (meson le_less_trans powi_less_cancel)

lemma ilog2_mono: "0 < x \<Longrightarrow> x \<le> y \<Longrightarrow> ilog2 x \<le> ilog2 y"
  using ilog2_bounds(1) [of x] ilog2_bounds(2) [of y] powi_less_cancel [of "ilog2 x" "ilog2 y + 1"]
  by linarith

subsection \<open>Rounding to binary64\<close>

text \<open>The exponent of the last place of a value, no less than that of the subnormal numbers.\<close>

definition expo :: "rat \<Rightarrow> int" where
  "expo x = max (- 1074) (ilog2 \<bar>x\<bar> - 52)"

definition rnd64 :: "rat \<Rightarrow> rat" where
  "rnd64 x = (if x = 0 then 0 else of_int (rne (x / 2 powi expo x)) * 2 powi expo x)"

lemma rnd64_minus: "rnd64 (- x) = - rnd64 x"
  by (simp add: rnd64_def expo_def rne_minus)

lemma scaled_less:
  assumes "0 < x"
  shows "x / 2 powi expo x < 2 ^ 53"
proof -
  have "x < 2 powi (ilog2 x + 1)" using assms by (rule ilog2_bounds)
  also have "\<dots> \<le> 2 powi (53 + expo x)"
    using assms by (intro power_int_increasing) (auto simp: expo_def)
  also have "\<dots> = 2 ^ 53 * 2 powi expo x" by (subst power_int_add) simp_all
  finally show ?thesis by (simp add: divide_less_eq)
qed

lemma rnd64_upper:
  assumes "0 < x"
  shows "rnd64 x \<le> 2 powi (53 + expo x)"
proof -
  have "rne (x / 2 powi expo x) \<le> rne (of_int (2 ^ 53))"
    using scaled_less [OF assms] by (intro rne_mono) simp
  then have le: "rne (x / 2 powi expo x) \<le> 2 ^ 53" unfolding rne_of_int .
  have "(of_int (rne (x / 2 powi expo x)) :: rat) \<le> of_int (2 ^ 53)"
    using le by (simp only: of_int_le_iff)
  then have "of_int (rne (x / 2 powi expo x)) * 2 powi expo x \<le> (2::rat) ^ 53 * 2 powi expo x"
    by (intro mult_right_mono) simp_all
  also have "\<dots> = 2 powi (53 + expo x)" by (subst power_int_add) simp_all
  finally show ?thesis using assms by (simp add: rnd64_def)
qed

lemma rnd64_lower:
  assumes "0 < x" "- 1074 < expo x"
  shows "2 powi (52 + expo x) \<le> rnd64 x"
proof -
  have e: "ilog2 x = 52 + expo x" using assms by (simp add: expo_def max_def split: if_splits)
  have "2 ^ 52 * 2 powi expo x = (2::rat) powi (52 + expo x)" by (subst power_int_add) simp_all
  also have "\<dots> \<le> x" using ilog2_bounds(1) [OF assms(1)] by (simp add: e)
  finally have "of_int (2 ^ 52) \<le> x / 2 powi expo x" by (simp add: le_divide_eq)
  then have "rne (of_int (2 ^ 52)) \<le> rne (x / 2 powi expo x)" by (rule rne_mono)
  then have le: "2 ^ 52 \<le> rne (x / 2 powi expo x)" unfolding rne_of_int .
  have "(of_int (2 ^ 52) :: rat) \<le> of_int (rne (x / 2 powi expo x))"
    using le by (simp only: of_int_le_iff)
  then have "(2::rat) ^ 52 * 2 powi expo x \<le> of_int (rne (x / 2 powi expo x)) * 2 powi expo x"
    by (intro mult_right_mono) simp_all
  also have "\<dots> = rnd64 x" using assms by (simp add: rnd64_def)
  finally show ?thesis by (simp add: power_int_add)
qed

lemma rnd64_nonneg: "0 \<le> x \<Longrightarrow> 0 \<le> rnd64 x"
proof -
  assume "0 \<le> x"
  then have "rne 0 \<le> rne (x / 2 powi expo x)" by (intro rne_mono) simp
  then show ?thesis using rne_of_int [of 0] by (simp add: rnd64_def)
qed

lemma rnd64_mono_pos:
  assumes "0 < x" "x \<le> y"
  shows "rnd64 x \<le> rnd64 y"
proof -
  have y: "0 < y" using assms by simp
  have "expo x \<le> expo y" using assms ilog2_mono [of x y] by (auto simp: expo_def)
  then consider "expo x = expo y" | "expo x + 1 \<le> expo y" by linarith
  then show ?thesis
  proof cases
    case 1
    have "rne (x / 2 powi expo y) \<le> rne (y / 2 powi expo y)"
      using assms by (intro rne_mono divide_right_mono) simp_all
    then show ?thesis using assms y 1 by (simp add: rnd64_def mult_right_mono)
  next
    case 2
    have "- 1074 < expo y" using 2 by (simp add: expo_def)
    with y have low: "2 powi (52 + expo y) \<le> rnd64 y" by (rule rnd64_lower)
    have "rnd64 x \<le> 2 powi (53 + expo x)" using assms(1) by (rule rnd64_upper)
    also have "\<dots> \<le> 2 powi (52 + expo y)" using 2 by (intro power_int_increasing) auto
    finally show ?thesis using low by simp
  qed
qed

lemma rnd64_mono:
  assumes "x \<le> y"
  shows "rnd64 x \<le> rnd64 y"
proof -
  consider "0 < x" | "x \<le> 0" "0 \<le> y" | "y < 0" by linarith
  then show ?thesis
  proof cases
    case 1
    then show ?thesis using assms by (rule rnd64_mono_pos)
  next
    case 2
    then have "0 \<le> rnd64 (- x)" "0 \<le> rnd64 y" by (simp_all add: rnd64_nonneg)
    then show ?thesis by (simp add: rnd64_minus)
  next
    case 3
    with assms have "rnd64 (- y) \<le> rnd64 (- x)" by (intro rnd64_mono_pos) simp_all
    then show ?thesis by (simp add: rnd64_minus)
  qed
qed

text \<open>Every integer of at most 53 bits, scaled by a power of two in range, is representable.\<close>

lemma rnd64_scaled:
  assumes "\<bar>m\<bar> \<le> 2 ^ 53" "- 1074 \<le> e"
  shows "rnd64 (of_int m * 2 powi e) = of_int m * 2 powi e"
proof (cases "m = 0")
  case True
  then show ?thesis by (simp add: rnd64_def)
next
  case False
  define x :: rat where "x = of_int m * 2 powi e"
  have ax: "\<bar>x\<bar> = of_int \<bar>m\<bar> * 2 powi e" by (simp add: x_def abs_mult)
  have pos: "0 < \<bar>x\<bar>" using False by (simp add: x_def)
  define k where "k = expo x"
  have "\<exists>n. x / 2 powi k = of_int n"
  proof (cases "k \<le> e")
    case True
    have "x / 2 powi k = of_int m * 2 powi (e - k)"
      by (simp add: x_def power_int_diff)
    also have "\<dots> = of_int (m * 2 ^ nat (e - k))"
      using True by (simp add: power_int_def)
    finally show ?thesis by blast
  next
    case F: False
    have le: "\<bar>x\<bar> \<le> 2 powi (53 + e)"
    proof -
      have "(of_int \<bar>m\<bar> :: rat) \<le> of_int (2 ^ 53)" using assms(1) by (simp only: of_int_le_iff)
      then have "\<bar>x\<bar> \<le> 2 ^ 53 * 2 powi e" unfolding ax by (intro mult_right_mono) simp_all
      also have "\<dots> = 2 powi (53 + e)" by (subst power_int_add) simp_all
      finally show ?thesis .
    qed
    have "ilog2 \<bar>x\<bar> - 52 > e" using F assms(2) by (simp add: k_def expo_def max_def split: if_splits)
    then have ge: "2 powi (53 + e) \<le> \<bar>x\<bar>"
      using ilog2_bounds(1) [OF pos] power_int_increasing [of "53 + e" "ilog2 \<bar>x\<bar>" "2::rat"]
      by linarith
    with le have eq: "\<bar>x\<bar> = 2 powi (53 + e)" by simp
    have "\<bar>x\<bar> < 2 powi (54 + e)" unfolding eq by (intro power_int_strict_increasing) simp_all
    then have "ilog2 \<bar>x\<bar> = 53 + e"
      using ilog2_less [OF pos, of "54 + e"] \<open>ilog2 \<bar>x\<bar> - 52 > e\<close> by simp
    then have k: "k = e + 1" using assms(2) by (simp add: k_def expo_def)
    have "\<bar>x\<bar> / 2 powi k = 2 powi (53 + e - k)" unfolding eq by (simp add: power_int_diff)
    then have "\<bar>x\<bar> / 2 powi k = of_int (2 ^ 52)" by (simp add: k)
    then have "x / 2 powi k = of_int (2 ^ 52) \<or> x / 2 powi k = of_int (- (2 ^ 52))"
      by (simp add: abs_if split: if_splits)
    then show ?thesis by blast
  qed
  then have "of_int (rne (x / 2 powi k)) = x / 2 powi k" by auto
  then show ?thesis using pos by (simp add: rnd64_def k_def x_def [symmetric])
qed

lemma rnd64_int: "\<bar>n\<bar> \<le> 2 ^ 53 \<Longrightarrow> rnd64 (of_int n) = of_int n"
  using rnd64_scaled [of n 0] by simp

lemma rnd64_rnd64: "rnd64 (rnd64 x) = rnd64 x"
proof (cases "x = 0")
  case True
  then show ?thesis by (simp add: rnd64_def)
next
  case False
  define m where "m = rne (x / 2 powi expo x)"
  have r: "rnd64 x = of_int m * 2 powi expo x" using False by (simp add: rnd64_def m_def)
  have "\<bar>x\<bar> / 2 powi expo x < 2 ^ 53"
    using False scaled_less [of "\<bar>x\<bar>"] by (simp add: expo_def)
  then have b: "x / 2 powi expo x \<le> of_int (2 ^ 53)" "of_int (- (2 ^ 53)) \<le> x / 2 powi expo x"
    by (auto simp: abs_if field_simps split: if_splits)
  have "m \<le> 2 ^ 53" "- (2 ^ 53) \<le> m"
    using rne_mono [OF b(1)] rne_mono [OF b(2)] unfolding m_def rne_of_int by simp_all
  then have "\<bar>m\<bar> \<le> 2 ^ 53" by simp
  then show ?thesis unfolding r by (rule rnd64_scaled) (simp add: expo_def)
qed

lemma rnd64_error: "\<bar>rnd64 x - x\<bar> \<le> 2 powi (expo x - 1)"
proof (cases "x = 0")
  case True
  then show ?thesis by (simp add: rnd64_def)
next
  case False
  define y where "y = x / 2 powi expo x"
  have "rnd64 x - x = (of_int (rne y) - y) * 2 powi expo x"
    using False by (simp add: rnd64_def y_def algebra_simps)
  then have "\<bar>rnd64 x - x\<bar> = \<bar>of_int (rne y) - y\<bar> * 2 powi expo x" by (simp add: abs_mult)
  also have "\<dots> \<le> 1 / 2 * 2 powi expo x" by (intro mult_right_mono rne_error) simp
  also have "\<dots> = 2 powi (expo x - 1)" by (simp add: power_int_diff)
  finally show ?thesis .
qed

subsection \<open>The interface of the rounding\<close>

text \<open>
  What the components use of the rounding. \<open>exact x\<close> says that \<open>x\<close> is a value the
  format represents.
\<close>

locale rounding =
  fixes rnd :: "rat \<Rightarrow> rat"
  assumes rnd_mono: "x \<le> y \<Longrightarrow> rnd x \<le> rnd y"
    and rnd_minus: "rnd (- x) = - rnd x"
    and rnd_rnd: "rnd (rnd x) = rnd x"
    and rnd_int: "\<bar>n\<bar> \<le> 2 ^ 53 \<Longrightarrow> rnd (of_int n) = of_int n"
begin

lemma rnd_0: "rnd 0 = 0"
  using rnd_int [of 0] by simp

lemma rnd_1: "rnd 1 = 1"
  using rnd_int [of 1] by simp

lemma rnd_nonneg: "0 \<le> x \<Longrightarrow> 0 \<le> rnd x"
  using rnd_mono [of 0 x] by (simp add: rnd_0)

lemma rnd_nonpos: "x \<le> 0 \<Longrightarrow> rnd x \<le> 0"
  using rnd_mono [of x 0] by (simp add: rnd_0)

lemma rnd_pos_iff: "0 < rnd x \<Longrightarrow> 0 < x"
  using rnd_nonpos [of x] by (cases "0 < x") auto

lemma rnd_le_exact: "x \<le> y \<Longrightarrow> rnd y = y \<Longrightarrow> rnd x \<le> y"
  using rnd_mono [of x y] by simp

lemma rnd_ge_exact: "y \<le> x \<Longrightarrow> rnd y = y \<Longrightarrow> y \<le> rnd x"
  using rnd_mono [of y x] by simp

lemma rnd_abs: "rnd \<bar>x\<bar> = \<bar>rnd x\<bar>"
  using rnd_nonneg [of x] rnd_nonpos [of x] by (auto simp: abs_if rnd_minus not_less dest: antisym)

lemma rnd_numeral: "(numeral k :: int) \<le> 2 ^ 53 \<Longrightarrow> rnd (numeral k) = numeral k"
  using rnd_int [of "numeral k"] by simp

end

interpretation binary64: rounding rnd64
  by unfold_locales (simp_all add: rnd64_mono rnd64_minus rnd64_rnd64 rnd64_int)

end
