(* ===== verification/JsNumber.thy ===== *)
theory JsNumber
  imports Binary64
begin

text \<open>
  The \<open>number\<close> type of JavaScript: the finite binary64 values, the two infinities and
  NaN. A finite value is the rational it denotes; each operation computes the exact rational
  and rounds once, as the language requires. The operators are those of HOL's syntactic classes, so
  that an expression of the source reads the same here: \<open>x < y\<close> and \<open>x \<le> y\<close> are false when either side is
  NaN, and equality of the language is \<open>js_eq\<close>, not \<open>=\<close>. Negative zero is identified
  with zero: the sources never divide by it.
\<close>

datatype jsnum = N rat | PInf | NInf | NaN

definition max_finite :: rat where
  "max_finite = (2 ^ 53 - 1) * 2 ^ 971"

text \<open>The number that an exact result becomes: rounded, or infinite where it overflows.\<close>

definition js_of :: "rat \<Rightarrow> jsnum" where
  "js_of x = (let r = rnd64 x in
     if max_finite < r then PInf else if r < - max_finite then NInf else N r)"

text \<open>The values the type really has: every rational of the model is a binary64 value.\<close>

fun is_double :: "jsnum \<Rightarrow> bool" where
  "is_double (N x) \<longleftrightarrow> rnd64 x = x \<and> \<bar>x\<bar> \<le> max_finite"
| "is_double _ \<longleftrightarrow> True"

subsection \<open>Arithmetic\<close>

instantiation jsnum :: "{plus, minus, uminus, times, inverse, abs, ord}"
begin

fun plus_jsnum :: "jsnum \<Rightarrow> jsnum \<Rightarrow> jsnum" where
  "plus_jsnum (N a) (N b) = js_of (a + b)"
| "plus_jsnum NaN _ = NaN"
| "plus_jsnum _ NaN = NaN"
| "plus_jsnum PInf NInf = NaN"
| "plus_jsnum NInf PInf = NaN"
| "plus_jsnum PInf _ = PInf"
| "plus_jsnum NInf _ = NInf"
| "plus_jsnum (N _) PInf = PInf"
| "plus_jsnum (N _) NInf = NInf"

fun uminus_jsnum :: "jsnum \<Rightarrow> jsnum" where
  "uminus_jsnum (N a) = N (- a)"
| "uminus_jsnum PInf = NInf"
| "uminus_jsnum NInf = PInf"
| "uminus_jsnum NaN = NaN"

definition minus_jsnum :: "jsnum \<Rightarrow> jsnum \<Rightarrow> jsnum" where
  "x - y = x + (- (y :: jsnum))"

fun times_jsnum :: "jsnum \<Rightarrow> jsnum \<Rightarrow> jsnum" where
  "times_jsnum (N a) (N b) = js_of (a * b)"
| "times_jsnum NaN _ = NaN"
| "times_jsnum _ NaN = NaN"
| "times_jsnum (N a) PInf = (if a = 0 then NaN else if 0 < a then PInf else NInf)"
| "times_jsnum (N a) NInf = (if a = 0 then NaN else if 0 < a then NInf else PInf)"
| "times_jsnum PInf (N b) = (if b = 0 then NaN else if 0 < b then PInf else NInf)"
| "times_jsnum NInf (N b) = (if b = 0 then NaN else if 0 < b then NInf else PInf)"
| "times_jsnum PInf PInf = PInf"
| "times_jsnum PInf NInf = NInf"
| "times_jsnum NInf PInf = NInf"
| "times_jsnum NInf NInf = PInf"

fun divide_jsnum :: "jsnum \<Rightarrow> jsnum \<Rightarrow> jsnum" where
  "divide_jsnum (N a) (N b) =
     (if b = 0 then (if a = 0 then NaN else if 0 < a then PInf else NInf) else js_of (a / b))"
| "divide_jsnum NaN _ = NaN"
| "divide_jsnum _ NaN = NaN"
| "divide_jsnum (N _) _ = N 0"
| "divide_jsnum PInf (N b) = (if 0 \<le> b then PInf else NInf)"
| "divide_jsnum NInf (N b) = (if 0 \<le> b then NInf else PInf)"
| "divide_jsnum _ _ = NaN"

definition inverse_jsnum :: "jsnum \<Rightarrow> jsnum" where
  "inverse_jsnum x = divide (N 1) x"

fun abs_jsnum :: "jsnum \<Rightarrow> jsnum" where
  "abs_jsnum (N a) = N \<bar>a\<bar>"
| "abs_jsnum NaN = NaN"
| "abs_jsnum _ = PInf"

fun less_jsnum :: "jsnum \<Rightarrow> jsnum \<Rightarrow> bool" where
  "less_jsnum (N a) (N b) = (a < b)"
| "less_jsnum NaN _ = False"
| "less_jsnum _ NaN = False"
| "less_jsnum NInf y = (y \<noteq> NInf)"
| "less_jsnum (N _) PInf = True"
| "less_jsnum _ _ = False"

fun less_eq_jsnum :: "jsnum \<Rightarrow> jsnum \<Rightarrow> bool" where
  "less_eq_jsnum (N a) (N b) = (a \<le> b)"
| "less_eq_jsnum NaN _ = False"
| "less_eq_jsnum _ NaN = False"
| "less_eq_jsnum NInf _ = True"
| "less_eq_jsnum _ PInf = True"
| "less_eq_jsnum _ _ = False"

instance ..

end

subsection \<open>Equality, predicates and the functions of Math and Number\<close>

text \<open>\<open>===\<close> on numbers.\<close>

definition js_eq :: "jsnum \<Rightarrow> jsnum \<Rightarrow> bool" where
  "js_eq x y \<longleftrightarrow> x = y \<and> x \<noteq> NaN"

text \<open>A decimal literal of the source denotes the nearest binary64 value.\<close>

abbreviation lit :: "rat \<Rightarrow> jsnum" where
  "lit x \<equiv> js_of x"

fun is_finite :: "jsnum \<Rightarrow> bool" where
  "is_finite (N _) = True"
| "is_finite _ = False"

fun is_integer :: "jsnum \<Rightarrow> bool" where
  "is_integer (N a) = (of_int \<lfloor>a\<rfloor> = a)"
| "is_integer _ = False"

fun is_safe_integer :: "jsnum \<Rightarrow> bool" where
  "is_safe_integer (N a) = (of_int \<lfloor>a\<rfloor> = a \<and> \<bar>a\<bar> \<le> 9007199254740991)"
| "is_safe_integer _ = False"

text \<open>The truth value of a number: zero and NaN are false.\<close>

definition truthy :: "jsnum \<Rightarrow> bool" where
  "truthy x \<longleftrightarrow> x \<noteq> N 0 \<and> x \<noteq> NaN"

definition js_min :: "jsnum \<Rightarrow> jsnum \<Rightarrow> jsnum" where
  "js_min x y = (if x = NaN \<or> y = NaN then NaN else if x \<le> y then x else y)"

definition js_max :: "jsnum \<Rightarrow> jsnum \<Rightarrow> jsnum" where
  "js_max x y = (if x = NaN \<or> y = NaN then NaN else if x \<le> y then y else x)"

fun js_floor :: "jsnum \<Rightarrow> jsnum" where
  "js_floor (N a) = N (of_int \<lfloor>a\<rfloor>)"
| "js_floor x = x"

fun js_ceil :: "jsnum \<Rightarrow> jsnum" where
  "js_ceil (N a) = N (of_int \<lceil>a\<rceil>)"
| "js_ceil x = x"

text \<open>\<open>Math.round\<close>: the nearest integer, ties towards plus infinity.\<close>

fun js_round :: "jsnum \<Rightarrow> jsnum" where
  "js_round (N a) = N (of_int \<lfloor>a + 1 / 2\<rfloor>)"
| "js_round x = x"

text \<open>\<open>2 ** k\<close> for an integer \<open>k \<ge> 0\<close>.\<close>

definition js_pow2 :: "int \<Rightarrow> jsnum" where
  "js_pow2 k = js_of (2 powi k)"

text \<open>
  \<open>Number(x.toFixed(d))\<close>: the decimal with \<open>d\<close> places nearest to \<open>x\<close>, the one larger in
  magnitude on a tie, read back as a number. From \<open>10 ^ 21\<close> on \<open>toFixed\<close> prints the number itself.
\<close>

definition fixed_units :: "nat \<Rightarrow> rat \<Rightarrow> int" where
  "fixed_units d a = (if a < 0 then - \<lfloor>- a * 10 ^ d + 1 / 2\<rfloor> else \<lfloor>a * 10 ^ d + 1 / 2\<rfloor>)"

fun js_fixed :: "nat \<Rightarrow> jsnum \<Rightarrow> jsnum" where
  "js_fixed d (N a) = (if 10 ^ 21 \<le> \<bar>a\<bar> then N a else js_of (of_int (fixed_units d a) / 10 ^ d))"
| "js_fixed d x = x"

text \<open>
  \<open>Math.sqrt\<close>, rounded once: the integer square root at 60 bits below the radicand's
  leading bits, with one bit to tell an exact root from one that lies above it.
\<close>

function isqrt_from :: "int \<Rightarrow> int \<Rightarrow> int \<Rightarrow> int" where
  "isqrt_from n lo hi =
     (if hi - lo \<le> 1 then lo
      else let m = (lo + hi) div 2 in if m * m \<le> n then isqrt_from n m hi else isqrt_from n lo m)"
  by pat_completeness auto
termination
  by (relation "measure (\<lambda>(n, lo, hi). nat (hi - lo))") auto

declare isqrt_from.simps [simp del]

definition isqrt :: "int \<Rightarrow> int" where
  "isqrt n = isqrt_from n 0 (n + 1)"

fun js_sqrt :: "jsnum \<Rightarrow> jsnum" where
  "js_sqrt (N a) =
     (if a < 0 then NaN else if a = 0 then N 0
      else let k = 60 - ilog2 a div 2; y = a * 2 powi (2 * k); s = isqrt \<lfloor>y\<rfloor>
           in if of_int (s * s) = y then js_of (of_int s * 2 powi (- k))
              else js_of ((of_int s + 1 / 2) * 2 powi (- k)))"
| "js_sqrt PInf = PInf"
| "js_sqrt _ = NaN"

text \<open>\<open>values.reduce((sum, value) => sum + value, start)\<close>.\<close>

definition js_sum :: "jsnum \<Rightarrow> jsnum list \<Rightarrow> jsnum" where
  "js_sum start xs = foldl (\<lambda>s x. s + x) start xs"

subsection \<open>Evaluation and order\<close>

lemma js_of_0 [simp]: "js_of 0 = N 0"
  by (simp add: js_of_def binary64.rnd_0 max_finite_def)

lemma is_double_js_of [simp]: "is_double (js_of x)"
  by (auto simp: js_of_def Let_def binary64.rnd_rnd)

lemma js_of_exact: "is_double (N x) \<Longrightarrow> js_of x = N x"
  by (auto simp: js_of_def)

lemma max_finite_ge: "2 ^ 53 \<le> max_finite"
  by (simp add: max_finite_def)

lemma is_double_of_int: "\<bar>n\<bar> \<le> 2 ^ 53 \<Longrightarrow> is_double (N (of_int n))"
proof -
  assume n: "\<bar>n\<bar> \<le> 2 ^ 53"
  then have "(of_int \<bar>n\<bar> :: rat) \<le> of_int (2 ^ 53)" by (simp only: of_int_le_iff)
  then show ?thesis using n max_finite_ge by (simp add: binary64.rnd_int)
qed

lemma js_of_int: "\<bar>n\<bar> \<le> 2 ^ 53 \<Longrightarrow> js_of (of_int n) = N (of_int n)"
  by (intro js_of_exact is_double_of_int)

lemma js_of_numeral [simp]: "(numeral k :: int) \<le> 2 ^ 53 \<Longrightarrow> js_of (numeral k) = N (numeral k)"
  using js_of_int [of "numeral k"] by simp

lemma js_of_1 [simp]: "js_of 1 = N 1"
  using js_of_int [of 1] by simp

lemma js_half [simp]: "js_of (1 / 2) = N (1 / 2)"
  using rnd64_scaled [of 1 "- 1"] max_finite_ge by (simp add: js_of_def Let_def)

lemma js_of_minus: "js_of (- x) = - js_of x"
  by (auto simp: js_of_def Let_def binary64.rnd_minus max_finite_def)

lemma js_of_not_NaN [simp]: "js_of x \<noteq> NaN" "NaN \<noteq> js_of x"
  by (auto simp: js_of_def Let_def)

text \<open>The one fact of rounding that most bounds rest on: it is monotone.\<close>

lemma js_of_mono: "x \<le> y \<Longrightarrow> js_of x \<le> js_of y"
  using binary64.rnd_mono [of x y] by (auto simp: js_of_def Let_def)

lemma js_of_nonneg: "0 \<le> x \<Longrightarrow> N 0 \<le> js_of x"
  using js_of_mono [of 0 x] by simp

lemma js_of_nonpos: "x \<le> 0 \<Longrightarrow> js_of x \<le> N 0"
  using js_of_mono [of x 0] by simp

lemma js_of_le_exact: "x \<le> y \<Longrightarrow> is_double (N y) \<Longrightarrow> js_of x \<le> N y"
  using js_of_mono [of x y] by (simp add: js_of_exact)

lemma js_of_ge_exact: "y \<le> x \<Longrightarrow> is_double (N y) \<Longrightarrow> N y \<le> js_of x"
  using js_of_mono [of y x] by (simp add: js_of_exact)

lemma js_le_refl [simp]: "x \<le> (x :: jsnum) \<longleftrightarrow> x \<noteq> NaN"
  by (cases x) auto

lemma js_le_trans: "x \<le> y \<Longrightarrow> y \<le> z \<Longrightarrow> x \<le> (z :: jsnum)"
  by (cases x; cases y; cases z) auto

lemma js_less_le_trans: "x < y \<Longrightarrow> y \<le> z \<Longrightarrow> x < (z :: jsnum)"
  by (cases x; cases y; cases z) auto

lemma js_le_less_trans: "x \<le> y \<Longrightarrow> y < z \<Longrightarrow> x < (z :: jsnum)"
  by (cases x; cases y; cases z) auto

lemma js_less_imp_le: "x < y \<Longrightarrow> x \<le> (y :: jsnum)"
  by (cases x; cases y) auto

lemma js_not_less: "\<not> x < y \<longleftrightarrow> y \<le> x \<or> x = NaN \<or> y = (NaN :: jsnum)"
  by (cases x; cases y) auto

lemma js_not_le: "\<not> x \<le> y \<longleftrightarrow> y < x \<or> x = NaN \<or> y = (NaN :: jsnum)"
  by (cases x; cases y) auto

lemma js_NaN_order [simp]:
  "\<not> NaN < x" "\<not> x < NaN" "\<not> NaN \<le> x" "\<not> x \<le> NaN"
  by (cases x; simp)+

lemma js_inf_order [simp]:
  "x \<le> PInf \<longleftrightarrow> x \<noteq> NaN" "NInf \<le> x \<longleftrightarrow> x \<noteq> NaN" "\<not> PInf < x" "\<not> x < NInf"
  by (cases x; simp)+

lemma js_NaN_arith [simp]:
  "NaN + x = NaN" "x + NaN = NaN" "NaN - x = NaN" "x - NaN = NaN"
  "NaN * x = NaN" "x * NaN = NaN" "NaN / x = NaN" "x / NaN = NaN"
  by (cases x; simp add: minus_jsnum_def)+

lemma js_minus_N [simp]: "N a - N b = js_of (a - b)"
  by (simp add: minus_jsnum_def)

lemma is_finite_iff: "is_finite x \<longleftrightarrow> (\<exists>a. x = N a)"
  by (cases x) auto

lemma not_finite_NaN [simp]: "is_finite x \<Longrightarrow> x \<noteq> NaN"
  by auto

lemma js_min_N [simp]: "js_min (N a) (N b) = N (min a b)"
  by (simp add: js_min_def min_def)

lemma js_max_N [simp]: "js_max (N a) (N b) = N (max a b)"
  by (simp add: js_max_def max_def)

lemma js_min_le:
  "x \<noteq> NaN \<Longrightarrow> y \<noteq> NaN \<Longrightarrow> js_min x y \<le> x"
  "x \<noteq> NaN \<Longrightarrow> y \<noteq> NaN \<Longrightarrow> js_min x y \<le> y"
  by (cases x; cases y; auto simp: js_min_def)+

lemma js_min_glb: "z \<le> x \<Longrightarrow> z \<le> y \<Longrightarrow> z \<le> js_min x y"
  by (auto simp: js_min_def)

lemma js_max_ge:
  "x \<noteq> NaN \<Longrightarrow> y \<noteq> NaN \<Longrightarrow> x \<le> js_max x y"
  "x \<noteq> NaN \<Longrightarrow> y \<noteq> NaN \<Longrightarrow> y \<le> js_max x y"
  by (cases x; cases y; auto simp: js_max_def)+

lemma is_double_arith [simp]:
  "is_double (x + y)" "is_double (x - y)" "is_double (x * y)" "is_double (x / y)"
  by (cases x; cases y; simp add: minus_jsnum_def binary64.rnd_0 max_finite_def)+

lemma is_double_minus [simp]: "is_double (- x) \<longleftrightarrow> is_double x"
  by (cases x) (auto simp: binary64.rnd_minus)

lemma js_of_N_exact: "is_double (N a) \<Longrightarrow> N a + N 0 = N a" "is_double (N a) \<Longrightarrow> N a - N 0 = N a"
  by (simp_all add: js_of_exact del: is_double.simps)

lemma js_of_eq_NI: "js_of x = N y \<Longrightarrow> rnd64 x = y"
  by (auto simp: js_of_def Let_def split: if_splits)

lemma js_eq_simps [simp]: "js_eq (N a) (N b) \<longleftrightarrow> a = b" "\<not> js_eq NaN x" "\<not> js_eq x NaN"
  by (auto simp: js_eq_def)

lemma fixed_units_nonneg: "0 \<le> a \<Longrightarrow> 0 \<le> fixed_units d a"
  by (simp add: fixed_units_def)

lemma js_fixed_nonneg: "N 0 \<le> x \<Longrightarrow> N 0 \<le> js_fixed d x"
  by (cases x) (auto intro!: js_of_nonneg simp: fixed_units_nonneg)

lemma js_round_ge: "N n \<le> x \<Longrightarrow> of_int \<lfloor>n\<rfloor> = n \<Longrightarrow> N n \<le> js_round x"
proof (cases x)
  case (N a)
  assume "N n \<le> x" "of_int \<lfloor>n\<rfloor> = n"
  then have "\<lfloor>n\<rfloor> \<le> \<lfloor>a + 1 / 2\<rfloor>" using N by (intro floor_mono) simp
  then have "(of_int \<lfloor>n\<rfloor> :: rat) \<le> of_int \<lfloor>a + 1 / 2\<rfloor>" by (simp only: of_int_le_iff)
  with \<open>of_int \<lfloor>n\<rfloor> = n\<close> have "n \<le> of_int \<lfloor>a + 1 / 2\<rfloor>" by metis
  then show ?thesis by (simp add: N)
qed auto

subsection \<open>Signs and bounds of rounded arithmetic\<close>

lemma js_plus_nonneg: "N 0 \<le> x \<Longrightarrow> N 0 \<le> y \<Longrightarrow> N 0 \<le> x + y"
  by (cases x; cases y) (auto intro: js_of_nonneg)

lemma js_times_nonneg: "N 0 \<le> x \<Longrightarrow> 0 < b \<Longrightarrow> N 0 \<le> x * N b"
  by (cases x) (auto intro: js_of_nonneg)

lemma js_times_nonneg_fin: "0 \<le> a \<Longrightarrow> 0 \<le> b \<Longrightarrow> N 0 \<le> N a * N b"
  by (auto intro: js_of_nonneg)

lemma js_divide_nonneg: "N 0 \<le> x \<Longrightarrow> 0 < b \<Longrightarrow> N 0 \<le> x / N b"
  by (cases x) (auto intro: js_of_nonneg)

lemma js_minus_nonneg: "y \<le> x \<Longrightarrow> is_finite y \<Longrightarrow> N 0 \<le> x - y"
  by (cases x; cases y) (auto intro: js_of_nonneg simp: minus_jsnum_def)

lemma js_ceil_nonneg: "N 0 \<le> x \<Longrightarrow> N 0 \<le> js_ceil x"
  by (cases x) auto

lemma js_plus_ge: "is_finite x \<Longrightarrow> is_double x \<Longrightarrow> N 0 \<le> y \<Longrightarrow> x \<le> x + y"
  by (cases x; cases y) (auto intro: js_of_ge_exact)

lemma js_minus_le: "is_finite x \<Longrightarrow> is_double x \<Longrightarrow> N 0 \<le> y \<Longrightarrow> x - y \<le> x"
  by (cases x; cases y) (auto intro: js_of_le_exact simp: minus_jsnum_def)

lemma js_max_double: "is_double x \<Longrightarrow> is_double y \<Longrightarrow> is_double (js_max x y)"
  by (simp add: js_max_def)

lemma js_min_double: "is_double x \<Longrightarrow> is_double y \<Longrightarrow> is_double (js_min x y)"
  by (simp add: js_min_def)

lemma is_double_0 [simp]: "is_double (N 0)"
  using is_double_of_int [of 0] by simp

lemma js_between_finite: "N a \<le> x \<Longrightarrow> x \<le> N b \<Longrightarrow> \<exists>c. x = N c \<and> a \<le> c \<and> c \<le> b"
  by (cases x) auto

end
