(* ===== verification/JsString.thy ===== *)
theory JsString
  imports JsNumber
begin

text \<open>
  Strings of the language as lists of characters (ASCII: case conversion changes the letters
  of ASCII only) and the string functions the sources use: \<open>trim\<close>, case conversion,
  \<open>endsWith\<close>, \<open>split\<close>, padding, decimal digits, and the conversion of a number to its
  shortest decimal text.
\<close>

subsection \<open>Characters\<close>

definition ccode :: "char \<Rightarrow> int" where
  "ccode c = of_char c"

definition is_digit :: "char \<Rightarrow> bool" where
  "is_digit c \<longleftrightarrow> 48 \<le> ccode c \<and> ccode c \<le> 57"

definition is_upper :: "char \<Rightarrow> bool" where
  "is_upper c \<longleftrightarrow> 65 \<le> ccode c \<and> ccode c \<le> 90"

definition is_lower :: "char \<Rightarrow> bool" where
  "is_lower c \<longleftrightarrow> 97 \<le> ccode c \<and> ccode c \<le> 122"

definition is_space :: "char \<Rightarrow> bool" where
  "is_space c \<longleftrightarrow> (9 \<le> ccode c \<and> ccode c \<le> 13) \<or> ccode c = 32 \<or> ccode c = 160"

definition char_upper :: "char \<Rightarrow> char" where
  "char_upper c = (if is_lower c then char_of (ccode c - 32) else c)"

definition char_lower :: "char \<Rightarrow> char" where
  "char_lower c = (if is_upper c then char_of (ccode c + 32) else c)"

definition js_upper :: "string \<Rightarrow> string" where
  "js_upper s = map char_upper s"

definition js_lower :: "string \<Rightarrow> string" where
  "js_lower s = map char_lower s"

definition js_trim :: "string \<Rightarrow> string" where
  "js_trim s = rev (dropWhile is_space (rev (dropWhile is_space s)))"

definition ends_with :: "string \<Rightarrow> string \<Rightarrow> bool" where
  "ends_with s t \<longleftrightarrow> length t \<le> length s \<and> drop (length s - length t) s = t"

definition starts_with :: "string \<Rightarrow> string \<Rightarrow> bool" where
  "starts_with s t \<longleftrightarrow> take (length t) s = t"

fun split_on :: "char \<Rightarrow> string \<Rightarrow> string list" where
  "split_on c [] = [[]]"
| "split_on c (x # xs) =
     (if x = c then [] # split_on c xs
      else (case split_on c xs of [] \<Rightarrow> [[x]] | w # ws \<Rightarrow> (x # w) # ws))"

definition pad_start :: "nat \<Rightarrow> char \<Rightarrow> string \<Rightarrow> string" where
  "pad_start n c s = replicate (n - length s) c @ s"

definition pad_end :: "nat \<Rightarrow> char \<Rightarrow> string \<Rightarrow> string" where
  "pad_end n c s = s @ replicate (n - length s) c"

text \<open>\<open>s.replace(/0+$/, "")\<close>\<close>

definition strip_zeros :: "string \<Rightarrow> string" where
  "strip_zeros s = rev (dropWhile (\<lambda>c. c = CHR ''0'') (rev s))"

lemma char_upper_idem [simp]: "char_upper (char_upper c) = char_upper c"
  by (auto simp: char_upper_def is_lower_def ccode_def)

lemma js_upper_idem [simp]: "js_upper (js_upper s) = js_upper s"
  by (simp add: js_upper_def)

lemma char_lower_idem [simp]: "char_lower (char_lower c) = char_lower c"
  by (auto simp: char_lower_def is_upper_def ccode_def)

lemma js_lower_idem [simp]: "js_lower (js_lower s) = js_lower s"
  by (simp add: js_lower_def)

lemma js_trim_idem [simp]: "js_trim (js_trim s) = js_trim s"
proof -
  define u where "u = dropWhile is_space s"
  define w where "w = dropWhile is_space (rev u)"
  have t: "js_trim s = rev w" by (simp add: js_trim_def u_def w_def)
  have "dropWhile is_space (rev w) = rev w"
  proof (cases "rev w")
    case (Cons a v)
    have "\<exists>x. rev u = x @ w" unfolding w_def by (metis takeWhile_dropWhile_id)
    then obtain x where "rev u = x @ w" by blast
    then have "u = rev w @ rev x" by (metis rev_append rev_rev_ident)
    with Cons have "hd u = a" "u \<noteq> []" by auto
    then have "\<not> is_space a" unfolding u_def by (metis hd_dropWhile)
    with Cons show ?thesis by simp
  qed simp
  moreover have "dropWhile is_space w = w" by (simp add: w_def)
  ultimately show ?thesis unfolding t by (simp add: js_trim_def)
qed

lemma ends_with_append [simp]: "ends_with (s @ t) t"
  by (simp add: ends_with_def)

lemma ends_withD: "ends_with s t \<Longrightarrow> take (length s - length t) s @ t = s"
  unfolding ends_with_def by (metis append_take_drop_id)

lemma split_on_nonempty [simp]: "split_on c s \<noteq> []"
  by (induction s) (auto split: list.splits)

lemma split_on_none: "c \<notin> set s \<Longrightarrow> split_on c s = [s]"
  by (induction s) auto

lemma split_on_append: "c \<notin> set s \<Longrightarrow> split_on c (s @ c # t) = s # split_on c t"
  by (induction s) auto

subsection \<open>Decimal digits\<close>

definition digit_char :: "int \<Rightarrow> char" where
  "digit_char d = char_of (48 + d)"

definition digit_val :: "char \<Rightarrow> int" where
  "digit_val c = ccode c - 48"

lemma ccode_digit_char: "0 \<le> d \<Longrightarrow> d < 10 \<Longrightarrow> ccode (digit_char d) = 48 + d"
  by (simp add: ccode_def digit_char_def)

lemma digit_val_char [simp]: "0 \<le> d \<Longrightarrow> d < 10 \<Longrightarrow> digit_val (digit_char d) = d"
  by (simp add: digit_val_def ccode_digit_char)

lemma is_digit_char [simp]: "0 \<le> d \<Longrightarrow> d < 10 \<Longrightarrow> is_digit (digit_char d)"
  by (simp add: is_digit_def ccode_digit_char)

lemma digit_char_val: "is_digit c \<Longrightarrow> digit_char (digit_val c) = c"
  by (simp add: digit_char_def digit_val_def ccode_def)

lemma digit_val_range: "is_digit c \<Longrightarrow> 0 \<le> digit_val c \<and> digit_val c < 10"
  by (simp add: is_digit_def digit_val_def)

text \<open>The digits of a non-negative integer: \<open>n.toString()\<close> of a bigint or an integral number.\<close>

function show_digits :: "int \<Rightarrow> string" where
  "show_digits n =
     (if n < 10 then [digit_char n] else show_digits (n div 10) @ [digit_char (n mod 10)])"
  by pat_completeness auto
termination
  by (relation "measure nat") auto

declare show_digits.simps [simp del]

definition parse_digits :: "string \<Rightarrow> int" where
  "parse_digits s = foldl (\<lambda>a c. a * 10 + digit_val c) 0 s"

lemma parse_digits_snoc [simp]: "parse_digits (s @ [c]) = parse_digits s * 10 + digit_val c"
  by (simp add: parse_digits_def)

lemma parse_digits_Nil [simp]: "parse_digits [] = 0"
  by (simp add: parse_digits_def)

lemma show_digits_nonempty [simp]: "show_digits n \<noteq> []"
  by (subst show_digits.simps) simp

lemma parse_show_digits: "0 \<le> n \<Longrightarrow> parse_digits (show_digits n) = n"
proof (induction n rule: show_digits.induct)
  case (1 n)
  show ?case
  proof (cases "n < 10")
    case True
    then have "show_digits n = [] @ [digit_char n]" by (subst show_digits.simps) simp
    with True "1.prems" show ?thesis by (simp only: parse_digits_snoc parse_digits_Nil) simp
  next
    case False
    then have "show_digits n = show_digits (n div 10) @ [digit_char (n mod 10)]"
      by (subst show_digits.simps) simp
    with False 1 show ?thesis by simp
  qed
qed

lemma show_digits_all: "0 \<le> n \<Longrightarrow> list_all is_digit (show_digits n)"
proof (induction n rule: show_digits.induct)
  case (1 n)
  then show ?case by (subst show_digits.simps) auto
qed

lemma show_digits_inj: "0 \<le> m \<Longrightarrow> 0 \<le> n \<Longrightarrow> show_digits m = show_digits n \<Longrightarrow> m = n"
  by (metis parse_show_digits)

lemma parse_digits_nonneg: "list_all is_digit s \<Longrightarrow> 0 \<le> parse_digits s"
  by (induction s rule: rev_induct) (auto dest: digit_val_range)

text \<open>\<open>n.toString().padStart(w, "0")\<close>\<close>

definition show_padded :: "nat \<Rightarrow> int \<Rightarrow> string" where
  "show_padded w n = pad_start w (CHR ''0'') (show_digits n)"

lemma digit_val_0 [simp]: "digit_val (CHR ''0'') = 0"
  by (simp add: digit_val_def ccode_def)

lemma is_digit_0 [simp]: "is_digit (CHR ''0'')"
  by (simp add: is_digit_def ccode_def)

lemma parse_digits_zeros [simp]: "parse_digits (replicate k (CHR ''0'') @ s) = parse_digits s"
proof (induction k)
  case (Suc k)
  then show ?case by (simp add: parse_digits_def)
qed simp

lemma parse_show_padded: "0 \<le> n \<Longrightarrow> parse_digits (show_padded w n) = n"
  by (simp add: show_padded_def pad_start_def parse_show_digits)

lemma show_padded_all: "0 \<le> n \<Longrightarrow> list_all is_digit (show_padded w n)"
  using show_digits_all [of n] by (auto simp: show_padded_def pad_start_def list_all_iff)

lemma length_show_digits: "0 \<le> n \<Longrightarrow> n < 10 ^ w \<Longrightarrow> 0 < w \<Longrightarrow> length (show_digits n) \<le> w"
proof (induction n arbitrary: w rule: show_digits.induct)
  case (1 n)
  show ?case
  proof (cases "n < 10")
    case True
    then show ?thesis using "1.prems" by (subst show_digits.simps) simp
  next
    case False
    obtain v where w: "w = Suc v" using "1.prems"(3) by (cases w) auto
    have v: "0 < v" using False "1.prems"(2) w by (cases v) auto
    have "n div 10 < 10 ^ v" using "1.prems"(2) w by (simp add: div_less_iff_less_mult)
    then have "length (show_digits (n div 10)) \<le> v" using "1.IH" [of v] False v by simp
    then show ?thesis using False w by (subst show_digits.simps) simp
  qed
qed

lemma length_show_padded: "0 \<le> n \<Longrightarrow> n < 10 ^ w \<Longrightarrow> 0 < w \<Longrightarrow> length (show_padded w n) = w"
  using length_show_digits [of n w] by (simp add: show_padded_def pad_start_def)

subsection \<open>The decimal text of a number\<close>

text \<open>
  \<open>String(x)\<close>: the shortest digits \<open>d\<close> and the position \<open>p\<close> of the point such that
  \<open>0.d * 10 ^ p\<close> reads back as \<open>x\<close>, laid out as the language prescribes.
\<close>

definition ilog10 :: "rat \<Rightarrow> int" where
  "ilog10 x = (let (n, d) = quotient_of x;
     k = int (length (show_digits n)) - int (length (show_digits d))
     in if 10 powi k \<le> x then k else k - 1)"

definition nearest_digits :: "rat \<Rightarrow> int \<Rightarrow> int \<Rightarrow> int option" where
  "nearest_digits x p k = (let u = 10 powi (p - k); f = \<lfloor>x / u\<rfloor>;
     lo_ok = (rnd64 (of_int f * u) = x); hi_ok = (rnd64 (of_int (f + 1) * u) = x)
     in if lo_ok \<and> (\<not> hi_ok \<or> x - of_int f * u \<le> of_int (f + 1) * u - x) then Some f
        else if hi_ok then Some (f + 1) else None)"

fun shortest_digits :: "rat \<Rightarrow> int \<Rightarrow> nat \<Rightarrow> int \<Rightarrow> int \<times> int" where
  "shortest_digits x p 0 k = (rne (x / 10 powi (p - k)), k)"
| "shortest_digits x p (Suc m) k =
     (case nearest_digits x p k of Some s \<Rightarrow> (s, k) | None \<Rightarrow> shortest_digits x p m (k + 1))"

definition layout :: "int \<Rightarrow> string \<Rightarrow> string" where
  "layout p ds = (let k = int (length ds); e = p - 1 in
     if k \<le> p \<and> p \<le> 21 then ds @ replicate (nat (p - k)) (CHR ''0'')
     else if 0 < p \<and> p \<le> 21 then take (nat p) ds @ ''.'' @ drop (nat p) ds
     else if - 6 < p \<and> p \<le> 0 then ''0.'' @ replicate (nat (- p)) (CHR ''0'') @ ds
     else (if k = 1 then ds else take 1 ds @ ''.'' @ drop 1 ds) @ ''e''
       @ (if 0 \<le> e then ''+'' @ show_digits e else ''-'' @ show_digits (- e)))"

definition show_pos :: "rat \<Rightarrow> string" where
  "show_pos x = (let p = ilog10 x + 1; (s, k) = shortest_digits x p 16 1
     in if s = 10 ^ nat k then layout (p + 1) ''1'' else layout p (show_digits s))"

fun js_show :: "jsnum \<Rightarrow> string" where
  "js_show (N a) = (if a = 0 then ''0'' else if a < 0 then ''-'' @ show_pos (- a) else show_pos a)"
| "js_show PInf = ''Infinity''"
| "js_show NInf = ''-Infinity''"
| "js_show NaN = ''NaN''"

end
