(* ===== verification/JsDate.thy ===== *)
theory JsDate
  imports JsString
begin

text \<open>
  Time values: \<open>new Date(ms)\<close>, \<open>toISOString\<close> and \<open>Date.parse\<close>, by the calendar
  algorithms of the language definition (days from year, month tables, time clip). \<open>date_parse\<close>
  accepts the date-time string format of the language with a \<open>Z\<close> or a numeric offset and the
  date-only form; every other text is NaN. The round trip \<open>date_parse_iso\<close> is what the
  components rely on when they store a time as text.
\<close>

subsection \<open>The calendar\<close>

definition is_leap :: "int \<Rightarrow> bool" where
  "is_leap y \<longleftrightarrow> y mod 4 = 0 \<and> (y mod 100 \<noteq> 0 \<or> y mod 400 = 0)"

definition day_from_year :: "int \<Rightarrow> int" where
  "day_from_year y = 365 * (y - 1970) + (y - 1969) div 4 - (y - 1901) div 100 + (y - 1601) div 400"

definition year_from_day :: "int \<Rightarrow> int" where
  "year_from_day d = (let y = 1970 + (d * 400) div 146097
     in if d < day_from_year y then y - 1 else if day_from_year (y + 1) \<le> d then y + 1 else y)"

definition month_starts :: "bool \<Rightarrow> int list" where
  "month_starts leap = (if leap then [0, 31, 60, 91, 121, 152, 182, 213, 244, 274, 305, 335, 366]
     else [0, 31, 59, 90, 120, 151, 181, 212, 243, 273, 304, 334, 365])"

text \<open>The month of a day of the year: the number of months (after the first) that have begun.\<close>

definition month_index :: "bool \<Rightarrow> int \<Rightarrow> nat" where
  "month_index leap d = length (takeWhile (\<lambda>m. m \<le> d) (tl (month_starts leap)))"

definition civil_from_day :: "int \<Rightarrow> int \<times> int \<times> int" where
  "civil_from_day d = (let y = year_from_day d; r = d - day_from_year y;
     m = month_index (is_leap y) r
     in (y, int m + 1, r - month_starts (is_leap y) ! m + 1))"

definition day_from_civil :: "int \<Rightarrow> int \<Rightarrow> int \<Rightarrow> int" where
  "day_from_civil y m d = day_from_year y + month_starts (is_leap y) ! nat (m - 1) + d - 1"

lemma div_lo: "0 < k \<Longrightarrow> k * (x div k) \<le> (x :: int)"
  by (metis le_add_same_cancel1 mult_div_mod_eq pos_mod_sign)

lemma div_hi: "0 < k \<Longrightarrow> (x :: int) < k * (x div k) + k"
  by (metis add_strict_left_mono mult_div_mod_eq pos_mod_bound)

lemma year_from_day_bounds:
  "day_from_year (year_from_day d) \<le> d" "d < day_from_year (year_from_day d + 1)"
proof -
  define q where "q = d * 400 div 146097"
  define y where "y = 1970 + q"
  have q: "146097 * q \<le> d * 400" "d * 400 < 146097 * q + 146097"
    unfolding q_def by (rule div_lo, simp) (rule div_hi, simp)
  define a1 a2 a3 where "a1 = q div 4" and "a2 = (q + 68) div 100" and "a3 = (q + 368) div 400"
  define c1 c2 c3 where "c1 = (q + 3) div 4" and "c2 = (q + 71) div 100" and "c3 = (q + 371) div 400"
  have A: "4 * a1 \<le> q" "q + 68 < 100 * a2 + 100" "400 * a3 \<le> q + 368"
    unfolding a1_def a2_def a3_def by (rule div_lo, simp) (rule div_hi, simp, rule div_lo, simp)
  have B: "q + 3 < 4 * c1 + 4" "100 * c2 \<le> q + 71" "q + 371 < 400 * c3 + 400"
    unfolding c1_def c2_def c3_def by (rule div_hi, simp) (rule div_lo, simp, rule div_hi, simp)
  have lo: "day_from_year (y - 1) = 365 * (q - 1) + a1 - a2 + a3"
    by (simp add: day_from_year_def y_def add.commute a1_def a2_def a3_def)
  have hi: "day_from_year (y + 2) = 365 * (q + 2) + c1 - c2 + c3"
    by (simp add: day_from_year_def y_def add.commute c1_def c2_def c3_def)
  have "400 * a1 \<le> 100 * q" "4 * q \<le> 400 * a2 + 124" "400 * a3 \<le> q + 368" using A by simp_all
  then have "400 * (365 * (q - 1) + a1 - a2 + a3) \<le> 400 * d" using q by simp
  then have b1: "day_from_year (y - 1) \<le> d" unfolding lo by simp
  have "100 * q \<le> 400 * c1" "400 * c2 \<le> 4 * q + 284" "q \<le> 400 * c3 + 28" using B by simp_all
  then have "400 * d < 400 * (365 * (q + 2) + c1 - c2 + c3)" using q by simp
  then have b2: "d < day_from_year (y + 2)" unfolding hi by simp
  have e: "year_from_day d =
      (if d < day_from_year y then y - 1 else if day_from_year (y + 1) \<le> d then y + 1 else y)"
    by (simp add: year_from_day_def Let_def y_def q_def)
  show "day_from_year (year_from_day d) \<le> d" "d < day_from_year (year_from_day d + 1)"
    using b1 b2 unfolding e by (simp_all add: add.assoc)
qed

lemma div_step:
  assumes "0 < k"
  shows "(x :: int) div k = (x - 1) div k + (if x mod k = 0 then 1 else 0)"
proof -
  define q r where "q = x div k" and "r = x mod k"
  have x: "x = k * q + r" and r: "0 \<le> r" "r < k" using assms by (simp_all add: q_def r_def)
  show ?thesis
  proof (cases "r = 0")
    case True
    then have "x - 1 = k * (q - 1) + (k - 1)" using x by (simp add: algebra_simps)
    then have "(x - 1) div k = q - 1"
      by (rule int_div_pos_eq) (use assms in auto)
    then show ?thesis using True by (simp add: q_def [symmetric] r_def [symmetric])
  next
    case False
    have "(x - 1) div k = q"
      using r False by (intro int_div_pos_eq [where r = "r - 1"]) (auto simp: x)
    then show ?thesis using False by (simp add: q_def [symmetric] r_def [symmetric])
  qed
qed

lemma div_step_shifted:
  assumes "0 < k" "(c - 1) mod k = 0"
  shows "(y + 1 - c) div k = (y - c) div k + (if y mod k = 0 then 1 else (0 :: int))"
proof -
  have "(y - (c - 1)) mod k = y mod k"
    using assms(2) mod_diff_right_eq [of y "c - 1" k] by simp
  moreover have "y - (c - 1) = y + 1 - c" "y - (c - 1) - 1 = y - c" by simp_all
  ultimately show ?thesis using div_step [OF assms(1), of "y - (c - 1)"] by (simp only:)
qed

lemma year_length: "day_from_year (y + 1) - day_from_year y = (if is_leap y then 366 else 365)"
proof -
  define a b c where "a = (y - 1969) div 4" and "b = (y - 1901) div 100" and "c = (y - 1601) div 400"
  define P Q R where "P \<longleftrightarrow> y mod 4 = 0" and "Q \<longleftrightarrow> y mod 100 = 0" and "R \<longleftrightarrow> y mod 400 = 0"
  have e: "(y + 1 - 1969) div 4 = a + (if P then 1 else 0)"
    "(y + 1 - 1901) div 100 = b + (if Q then 1 else 0)"
    "(y + 1 - 1601) div 400 = c + (if R then 1 else 0)"
    unfolding a_def b_def c_def P_def Q_def R_def by (rule div_step_shifted; simp)+
  have "R \<Longrightarrow> Q"
    unfolding R_def Q_def dvd_eq_mod_eq_0 [symmetric] by (erule dvd_trans [rotated]) simp
  moreover have "Q \<Longrightarrow> P"
    unfolding P_def Q_def dvd_eq_mod_eq_0 [symmetric] by (erule dvd_trans [rotated]) simp
  ultimately show ?thesis
    unfolding day_from_year_def e is_leap_def a_def [symmetric] b_def [symmetric] c_def [symmetric]
      P_def [symmetric] Q_def [symmetric] R_def [symmetric]
    by (cases P; cases Q; cases R) simp_all
qed

lemma month_index_bounds:
  assumes "0 \<le> r" "r < (if leap then 366 else 365)"
  shows "month_index leap r \<le> 11"
    "month_starts leap ! month_index leap r \<le> r"
    "r < month_starts leap ! Suc (month_index leap r)"
proof -
  define xs where "xs = tl (month_starts leap)"
  define n where "n = length (takeWhile (\<lambda>m. m \<le> r) xs)"
  have idx: "month_index leap r = n" by (simp add: month_index_def n_def xs_def)
  have xs: "length xs = 12" "month_starts leap = 0 # xs" "\<not> last xs \<le> r" "xs \<noteq> []"
    using assms(2) by (cases leap; simp add: xs_def month_starts_def)+
  have "n < length xs"
  proof (rule ccontr)
    assume "\<not> n < length xs"
    then have "n = length xs" using length_takeWhile_le [of "\<lambda>m. m \<le> r" xs] by (simp add: n_def)
    then have "takeWhile (\<lambda>m. m \<le> r) xs = xs" by (metis n_def take_all_iff order_refl takeWhile_eq_take)
    then have "last xs \<le> r" using xs(4) by (metis last_in_set set_takeWhileD)
    then show False using xs(3) by simp
  qed
  then show "month_index leap r \<le> 11" using xs(1) idx by simp
  show "r < month_starts leap ! Suc (month_index leap r)"
    using nth_length_takeWhile [of "\<lambda>m. m \<le> r" xs] \<open>n < length xs\<close> xs(2) idx by (simp add: n_def)
  show "month_starts leap ! month_index leap r \<le> r"
  proof (cases n)
    case 0
    then show ?thesis using idx xs(2) assms(1) by simp
  next
    case (Suc m)
    then have "takeWhile (\<lambda>m. m \<le> r) xs ! m \<in> set (takeWhile (\<lambda>m. m \<le> r) xs)"
      by (intro nth_mem) (simp add: n_def [symmetric])
    then have "xs ! m \<le> r" using Suc by (metis lessI n_def set_takeWhileD takeWhile_nth)
    then show ?thesis using idx xs(2) Suc by simp
  qed
qed

lemma month_gap: "i \<le> 11 \<Longrightarrow> month_starts l ! Suc i - month_starts l ! i \<le> 31"
proof -
  have "list_all (\<lambda>i. month_starts l ! Suc i - month_starts l ! i \<le> 31) [0..<12]"
    by (cases l) (simp_all add: month_starts_def upt_rec)
  then show "i \<le> 11 \<Longrightarrow> month_starts l ! Suc i - month_starts l ! i \<le> 31"
    by (auto simp: list_all_iff)
qed

text \<open>The fields of a date lie in their ranges and determine the day again.\<close>

lemma civil_from_day:
  assumes "civil_from_day t = (y, m, d)"
  shows "1 \<le> m" "m \<le> 12" "1 \<le> d" "d \<le> 31" "day_from_civil y m d = t"
    "d \<le> month_starts (is_leap y) ! nat m - month_starts (is_leap y) ! nat (m - 1)"
proof -
  define r where "r = t - day_from_year y"
  have y: "y = year_from_day t" and m: "m = int (month_index (is_leap y) r) + 1"
    and d: "d = r - month_starts (is_leap y) ! month_index (is_leap y) r + 1"
    using assms by (auto simp: civil_from_day_def Let_def r_def)
  have r: "0 \<le> r" "r < (if is_leap y then 366 else 365)"
    using year_from_day_bounds [of t] year_length [of y] by (auto simp: r_def y)
  note b = month_index_bounds [OF r]
  show "1 \<le> m" "m \<le> 12" using b(1) by (simp_all add: m)
  show "1 \<le> d" using b(2) by (simp add: d)
  have n: "nat (m - 1) = month_index (is_leap y) r" "nat m = Suc (month_index (is_leap y) r)"
    by (simp_all add: m)
  show "d \<le> month_starts (is_leap y) ! nat m - month_starts (is_leap y) ! nat (m - 1)"
    using b(3) by (simp add: n d)
  show "day_from_civil y m d = t" by (simp add: day_from_civil_def n d r_def)
  have "month_starts (is_leap y) ! Suc (month_index (is_leap y) r)
      - month_starts (is_leap y) ! month_index (is_leap y) r \<le> 31"
    using b(1) by (rule month_gap)
  then show "d \<le> 31" using b(3) by (simp add: d)
qed

subsection \<open>Time values and their text\<close>

text \<open>\<open>new Date(x)\<close>: the time value in milliseconds, \<open>None\<close> for the invalid date.\<close>

definition max_time :: int where
  "max_time = 8640000000000000"

fun to_date :: "jsnum \<Rightarrow> int option" where
  "to_date (N a) =
     (let t = (if 0 \<le> a then \<lfloor>a\<rfloor> else \<lceil>a\<rceil>) in if \<bar>a\<bar> \<le> of_int max_time then Some t else None)"
| "to_date _ = None"

definition date_ms :: "int option \<Rightarrow> jsnum" where
  "date_ms d = (case d of None \<Rightarrow> NaN | Some t \<Rightarrow> N (of_int t))"

definition iso_year :: "int \<Rightarrow> string" where
  "iso_year y = (if 0 \<le> y \<and> y \<le> 9999 then show_padded 4 y
     else (if 0 \<le> y then ''+'' else ''-'') @ show_padded 6 \<bar>y\<bar>)"

definition iso_text :: "int \<Rightarrow> string" where
  "iso_text t = (let (y, m, d) = civil_from_day (t div 86400000); r = t mod 86400000
     in iso_year y @ ''-'' @ show_padded 2 m @ ''-'' @ show_padded 2 d @ ''T''
        @ show_padded 2 (r div 3600000) @ '':'' @ show_padded 2 (r div 60000 mod 60) @ '':''
        @ show_padded 2 (r div 1000 mod 60) @ ''.'' @ show_padded 3 (r mod 1000) @ ''Z'')"

text \<open>\<open>date.toISOString()\<close>, which throws a RangeError on the invalid date.\<close>

datatype range_error = RangeError

definition to_iso :: "int option \<Rightarrow> (range_error, string) result" where
  "to_iso d = (case d of None \<Rightarrow> Inl RangeError | Some t \<Rightarrow> Inr (iso_text t))"

text \<open>A reader of a field of \<open>n\<close> digits, and one of a fixed character.\<close>

definition take_digits :: "nat \<Rightarrow> string \<Rightarrow> (int \<times> string) option" where
  "take_digits n s = (if n \<le> length s \<and> list_all is_digit (take n s)
     then Some (parse_digits (take n s), drop n s) else None)"

fun take_char :: "char \<Rightarrow> string \<Rightarrow> string option" where
  "take_char c (x # xs) = (if x = c then Some xs else None)"
| "take_char c [] = None"

definition parse_year :: "string \<Rightarrow> (int \<times> string) option" where
  "parse_year s = (case s of
     c # t \<Rightarrow> (if c = CHR ''+'' then take_digits 6 t
              else if c = CHR ''-'' then
                Option.bind (take_digits 6 t) (\<lambda>(y, u). if y = 0 then None else Some (- y, u))
              else take_digits 4 s)
   | [] \<Rightarrow> None)"

text \<open>The zone: \<open>Z\<close> or a signed offset, in milliseconds to subtract.\<close>

definition parse_zone :: "string \<Rightarrow> int option" where
  "parse_zone s = (case s of
     c # t \<Rightarrow>
       (if c = CHR ''Z'' then (if t = [] then Some 0 else None)
        else if c = CHR ''+'' \<or> c = CHR ''-'' then
          Option.bind (take_digits 2 t) (\<lambda>(h, t).
          Option.bind (take_char (CHR '':'') t) (\<lambda>t.
          Option.bind (take_digits 2 t) (\<lambda>(m, t).
            if t = [] \<and> h \<le> 23 \<and> m \<le> 59
            then Some ((if c = CHR ''+'' then 1 else - 1) * (h * 3600000 + m * 60000)) else None)))
        else None)
   | [] \<Rightarrow> None)"

text \<open>The seconds with their milliseconds, both optional.\<close>

definition parse_seconds :: "string \<Rightarrow> (int \<times> int \<times> string) option" where
  "parse_seconds s = (case take_char (CHR '':'') s of
     None \<Rightarrow> Some (0, 0, s)
   | Some t \<Rightarrow> Option.bind (take_digits 2 t) (\<lambda>(sec, t).
       (case take_char (CHR ''.'') t of
          None \<Rightarrow> Some (sec, 0, t)
        | Some t \<Rightarrow> Option.bind (take_digits 3 t) (\<lambda>(ms, t). Some (sec, ms, t)))))"

definition parse_clock :: "string \<Rightarrow> int option" where
  "parse_clock s =
     Option.bind (take_digits 2 s) (\<lambda>(h, t).
     Option.bind (take_char (CHR '':'') t) (\<lambda>t.
     Option.bind (take_digits 2 t) (\<lambda>(mi, t).
     Option.bind (parse_seconds t) (\<lambda>(sec, ms, t).
     Option.bind (parse_zone t) (\<lambda>off.
       if h \<le> 24 \<and> mi \<le> 59 \<and> sec \<le> 59 \<and> (h = 24 \<longrightarrow> mi = 0 \<and> sec = 0 \<and> ms = 0)
       then Some (h * 3600000 + mi * 60000 + sec * 1000 + ms - off) else None)))))"

definition parse_iso :: "string \<Rightarrow> int option" where
  "parse_iso s =
     Option.bind (parse_year s) (\<lambda>(y, t).
     Option.bind (take_char (CHR ''-'') t) (\<lambda>t.
     Option.bind (take_digits 2 t) (\<lambda>(m, t).
     Option.bind (take_char (CHR ''-'') t) (\<lambda>t.
     Option.bind (take_digits 2 t) (\<lambda>(d, t).
       if 1 \<le> m \<and> m \<le> 12 \<and> 1 \<le> d
          \<and> d \<le> month_starts (is_leap y) ! nat m - month_starts (is_leap y) ! nat (m - 1)
       then (if t = [] then Some (day_from_civil y m d * 86400000)
             else Option.bind (take_char (CHR ''T'') t) (\<lambda>t.
               map_option (\<lambda>c. day_from_civil y m d * 86400000 + c) (parse_clock t)))
       else None)))))"

definition date_parse :: "string \<Rightarrow> jsnum" where
  "date_parse s = (case parse_iso s of None \<Rightarrow> NaN
     | Some t \<Rightarrow> if \<bar>t\<bar> \<le> max_time then N (of_int t) else NaN)"

lemma take_digits_padded:
  "0 \<le> n \<Longrightarrow> n < 10 ^ w \<Longrightarrow> 0 < w \<Longrightarrow> take_digits w (show_padded w n @ s) = Some (n, s)"
  using length_show_padded [of n w] show_padded_all [of n w] parse_show_padded [of n w]
  by (simp add: take_digits_def)

lemma hd_padded_digit: "0 \<le> n \<Longrightarrow> n < 10 ^ w \<Longrightarrow> 0 < w \<Longrightarrow>
    \<exists>c s. show_padded w n = c # s \<and> is_digit c"
  using length_show_padded [of n w] show_padded_all [of n w]
  by (cases "show_padded w n") auto

lemma parse_year_iso:
  assumes "- 999999 \<le> y" "y \<le> 999999"
  shows "parse_year (iso_year y @ s) = Some (y, s)"
proof (cases "0 \<le> y \<and> y \<le> 9999")
  case True
  then obtain c r where c: "show_padded 4 y = c # r" "is_digit c" using hd_padded_digit [of y 4] by auto
  then have "c \<noteq> CHR ''+''" "c \<noteq> CHR ''-''" by (auto simp: is_digit_def ccode_def)
  moreover have "take_digits 4 (show_padded 4 y @ s) = Some (y, s)"
    using True by (intro take_digits_padded) auto
  ultimately show ?thesis using True c by (simp add: parse_year_def iso_year_def)
next
  case False
  have "take_digits 6 (show_padded 6 \<bar>y\<bar> @ s) = Some (\<bar>y\<bar>, s)"
    using assms by (intro take_digits_padded) auto
  then show ?thesis using False by (auto simp: parse_year_def iso_year_def)
qed

lemma parse_clock_iso:
  assumes "0 \<le> r" "r < 86400000"
  shows "parse_clock (show_padded 2 (r div 3600000) @ '':'' @ show_padded 2 (r div 60000 mod 60)
    @ '':'' @ show_padded 2 (r div 1000 mod 60) @ ''.'' @ show_padded 3 (r mod 1000) @ ''Z'') = Some r"
proof -
  define h mi sec ms where "h = r div 3600000" and "mi = r div 60000 mod 60"
    and "sec = r div 1000 mod 60" and "ms = r mod 1000"
  have split: "r = h * 3600000 + mi * 60000 + sec * 1000 + ms"
  proof -
    have "r = r div 1000 * 1000 + ms" by (simp add: ms_def)
    moreover have "r div 1000 = r div 1000 div 60 * 60 + sec" by (simp add: sec_def)
    moreover have "r div 1000 div 60 = r div 60000" by (simp add: zdiv_zmult2_eq [symmetric])
    moreover have "r div 60000 = r div 60000 div 60 * 60 + mi" by (simp add: mi_def)
    moreover have "r div 60000 div 60 = h" by (simp add: h_def zdiv_zmult2_eq [symmetric])
    ultimately show ?thesis by (simp add: algebra_simps)
  qed
  have range: "0 \<le> h" "0 \<le> mi" "mi < 60" "0 \<le> sec" "sec < 60" "0 \<le> ms" "ms < 1000"
    using assms by (simp_all add: h_def mi_def sec_def ms_def)
  with split assms have h: "h < 24" by simp
  have t: "take_digits 2 (show_padded 2 h @ u) = Some (h, u)"
    "take_digits 2 (show_padded 2 mi @ u) = Some (mi, u)"
    "take_digits 2 (show_padded 2 sec @ u) = Some (sec, u)"
    "take_digits 3 (show_padded 3 ms @ u) = Some (ms, u)" for u
    using range h by (auto intro!: take_digits_padded)
  show ?thesis
    using range h split unfolding h_def [symmetric] mi_def [symmetric] sec_def [symmetric] ms_def [symmetric]
    by (simp add: parse_clock_def parse_seconds_def parse_zone_def t)
qed

lemma day_from_year_linear:
  "146097 * (y - 1970) - 800 \<le> 400 * day_from_year y"
  "400 * day_from_year y \<le> 146097 * (y - 1970) + 800"
proof -
  define a b c where "a = (y - 1969) div 4" and "b = (y - 1901) div 100" and "c = (y - 1601) div 400"
  have lo: "4 * a \<le> y - 1969" "100 * b \<le> y - 1901" "400 * c \<le> y - 1601"
    unfolding a_def b_def c_def by (rule div_lo, simp)+
  have hi: "y - 1969 < 4 * a + 4" "y - 1901 < 100 * b + 100" "y - 1601 < 400 * c + 400"
    unfolding a_def b_def c_def by (rule div_hi, simp)+
  have "day_from_year y = 365 * (y - 1970) + a - b + c"
    by (simp add: day_from_year_def a_def b_def c_def)
  then show "146097 * (y - 1970) - 800 \<le> 400 * day_from_year y"
    "400 * day_from_year y \<le> 146097 * (y - 1970) + 800"
    using lo hi by simp_all
qed

lemma parse_iso_fields:
  assumes "- 999999 \<le> y" "y \<le> 999999" "1 \<le> m" "m \<le> 12" "1 \<le> d" "d \<le> 31"
    and "d \<le> month_starts (is_leap y) ! nat m - month_starts (is_leap y) ! nat (m - 1)"
    and clock: "parse_clock c = Some r"
  shows "parse_iso (iso_year y @ ''-'' @ show_padded 2 m @ ''-'' @ show_padded 2 d @ ''T'' @ c)
    = Some (day_from_civil y m d * 86400000 + r)"
proof -
  have "take_digits 2 (show_padded 2 m @ u) = Some (m, u)"
    "take_digits 2 (show_padded 2 d @ u) = Some (d, u)" for u
    using assms by (auto intro!: take_digits_padded)
  then show ?thesis
    using assms by (simp add: parse_iso_def parse_year_iso)
qed

text \<open>Writing a time as text and reading it back is the identity on the whole range of time values.\<close>

lemma date_parse_iso:
  assumes "\<bar>t\<bar> \<le> max_time"
  shows "date_parse (iso_text t) = N (of_int t)"
proof -
  define q r where "q = t div 86400000" and "r = t mod 86400000"
  obtain y m d where c: "civil_from_day q = (y, m, d)" using prod_cases3 by blast
  note f = civil_from_day [OF c]
  have "day_from_year y \<le> q" "q < day_from_year (y + 1)"
    using c year_from_day_bounds [of q] by (auto simp: civil_from_day_def Let_def)
  moreover have "\<bar>q\<bar> \<le> 100000001" unfolding q_def using assms by (simp add: max_time_def)
  ultimately have y: "- 999999 \<le> y" "y \<le> 999999"
    using day_from_year_linear [of y] day_from_year_linear [of "y + 1"] by simp_all
  have r: "0 \<le> r" "r < 86400000" by (simp_all add: r_def)
  have "parse_iso (iso_text t) = Some (q * 86400000 + r)"
    unfolding iso_text_def q_def [symmetric] r_def [symmetric] c Let_def prod.case
      parse_iso_fields [OF y f(1-4,6) parse_clock_iso [OF r]] f(5) ..
  moreover have "q * 86400000 + r = t" by (simp add: q_def r_def)
  ultimately show ?thesis using assms by (simp add: date_parse_def)
qed

lemma date_parse_to_iso:
  assumes "to_iso (to_date x) = Inr s"
  shows "\<exists>t. to_date x = Some t \<and> date_parse s = N (of_int t)"
proof -
  obtain a t where x: "x = N a" "to_date x = Some t" "s = iso_text t"
    using assms by (cases x) (auto simp: to_iso_def Let_def split: if_splits)
  then have "\<bar>a\<bar> \<le> of_int max_time" "t = (if 0 \<le> a then \<lfloor>a\<rfloor> else \<lceil>a\<rceil>)"
    by (auto simp: Let_def split: if_splits)
  then have "\<bar>t\<bar> \<le> max_time" by (cases "0 \<le> a") (simp_all add: abs_le_iff, linarith+)
  then show ?thesis using x date_parse_iso by blast
qed

text \<open>\<open>toISOString\<close> among calls that throw coded errors.\<close>

definition iso_or_throw :: "int option \<Rightarrow> (string, string) result" where
  "iso_or_throw d = (case to_iso d of Inl RangeError \<Rightarrow> Inl ''RangeError'' | Inr s \<Rightarrow> Inr s)"

lemma iso_or_throw_Inr: "iso_or_throw d = Inr s \<longleftrightarrow> to_iso d = Inr s"
  by (auto simp: iso_or_throw_def split: sum.splits range_error.splits)

end
