(* ===== verification/OrderIntent.thy ===== *)
theory OrderIntent
  imports JsDate
begin

text \<open>
  Order intents (\<open>packages/domain/src/execution/order-intent.ts\<close>) and the execution port's
  request, receipt and quantity conversion (\<open>execution-port.ts\<close>). An error is the code of the
  \<open>OrderIntentError\<close> the source throws; the human-readable message is not modelled.
\<close>

subsection \<open>Data\<close>

datatype order_side = Buy | Sell

datatype order_intent_status =
  IntentPending | IntentExecuting | IntentFilled | IntentPartial | IntentRejected | IntentExpired

record intent_provenance =
  decisionRoundId :: string
  traceId :: string
  strategyCode :: string
  contractHash :: string
  candleId :: string

record price_range =
  range_min :: jsnum
  range_max :: jsnum

record order_intent_draft =
  provenance :: intent_provenance
  symbol :: string
  side :: order_side
  targetPositionRatio :: jsnum
  entryPriceRange :: price_range
  stopLossPrice :: jsnum
  takeProfitPrice :: "jsnum option"
  validUntil :: string

record order_intent = order_intent_draft +
  intentId :: string
  intentStatus :: order_intent_status
  createdAt :: string

subsection \<open>Consistency of an intent\<close>

text \<open>\<open>assertValidOrderIntent\<close>: the checks in the order of the source, the first failure thrown.\<close>

definition range_valid :: "price_range \<Rightarrow> bool" where [guard_defs]:
  "range_valid r \<longleftrightarrow> is_finite (range_min r) \<and> is_finite (range_max r)
     \<and> \<not> range_min r \<le> N 0 \<and> \<not> range_max r < range_min r"

definition assertValidOrderIntent :: "'a order_intent_draft_scheme \<Rightarrow> (string, unit) result" where
  "assertValidOrderIntent i = (let r = entryPriceRange i; sl = stopLossPrice i in
     if CHR ''/'' \<notin> set (symbol i) then Inl ''INTENT_SYMBOL_INVALID''
     else if \<not> is_finite (targetPositionRatio i) \<or> targetPositionRatio i \<le> N 0
       \<or> N 1 < targetPositionRatio i then Inl ''INTENT_RATIO_INVALID''
     else if \<not> range_valid r then Inl ''INTENT_PRICE_RANGE_INVALID''
     else if \<not> is_finite sl \<or> sl \<le> N 0 then Inl ''INTENT_STOP_LOSS_INVALID''
     else (case side i of
       Buy \<Rightarrow>
         if range_min r \<le> sl then Inl ''INTENT_STOP_LOSS_ABOVE_ENTRY''
         else (case takeProfitPrice i of
           Some tp \<Rightarrow> if tp \<le> range_max r then Inl ''INTENT_TAKE_PROFIT_BELOW_ENTRY'' else Inr ()
         | None \<Rightarrow> Inr ())
     | Sell \<Rightarrow>
         if sl \<le> range_max r then Inl ''INTENT_STOP_LOSS_BELOW_EXIT''
         else (case takeProfitPrice i of
           Some tp \<Rightarrow> if range_min r \<le> tp then Inl ''INTENT_TAKE_PROFIT_ABOVE_EXIT'' else Inr ()
         | None \<Rightarrow> Inr ())))"

text \<open>\<open>isOrderIntentExpired\<close>: \<open>now\<close> is the Date passed in, its time value NaN if invalid.\<close>

definition isOrderIntentExpired ::
    "'a order_intent_draft_scheme \<Rightarrow> int option \<Rightarrow> (string, bool) result" where
  "isOrderIntentExpired i now = (let deadline = date_parse (validUntil i) in
     if \<not> is_finite deadline then Inl ''INTENT_VALID_UNTIL_INVALID''
     else Inr (deadline < date_ms now))"

text \<open>
  What the checks promise: every price and the ratio are finite and in range, the stop lies
  strictly on the losing side of the whole entry band and the target strictly on the winning side.
\<close>

definition protects :: "'a order_intent_draft_scheme \<Rightarrow> bool" where
  "protects i \<longleftrightarrow> (let r = entryPriceRange i in case side i of
       Buy \<Rightarrow> stopLossPrice i < range_min r
         \<and> (case takeProfitPrice i of None \<Rightarrow> True | Some tp \<Rightarrow> \<not> tp \<le> range_max r)
     | Sell \<Rightarrow> range_max r < stopLossPrice i
         \<and> (case takeProfitPrice i of None \<Rightarrow> True | Some tp \<Rightarrow> \<not> range_min r \<le> tp))"

lemma valid_intent_iff:
  "assertValidOrderIntent i = Inr () \<longleftrightarrow>
     CHR ''/'' \<in> set (symbol i)
     \<and> (\<exists>a. targetPositionRatio i = N a \<and> 0 < a \<and> a \<le> 1)
     \<and> (\<exists>lo hi. entryPriceRange i = \<lparr>range_min = N lo, range_max = N hi\<rparr> \<and> 0 < lo \<and> lo \<le> hi)
     \<and> (\<exists>s. stopLossPrice i = N s \<and> 0 < s)
     \<and> protects i"
  by (cases "targetPositionRatio i"; cases "stopLossPrice i"; cases "range_min (entryPriceRange i)";
      cases "range_max (entryPriceRange i)"; cases "entryPriceRange i")
    (auto simp: assertValidOrderIntent_def range_valid_def protects_def Let_def
      split: order_side.splits option.splits)

lemma valid_intent_protects: "assertValidOrderIntent i = Inr () \<Longrightarrow> protects i"
  by (simp add: valid_intent_iff)

subsection \<open>The execution port\<close>

datatype execution_venue = Paper | PlatformDemo | Live

datatype execution_outcome = OutFilled | OutPartial | OutRejected | OutExpired

record execution_receipt =
  rc_intentId :: string
  rc_venue :: execution_venue
  rc_outcome :: execution_outcome
  rc_filledQuantity :: jsnum
  rc_averagePrice :: jsnum
  rc_feeAmount :: jsnum
  rc_rejectionReason :: "string option"
  rc_externalOrderId :: "string option"
  rc_executedAt :: string

record execution_request =
  rq_intent :: order_intent
  rq_portfolioId :: string
  availableCapital :: jsnum
  capitalCapRatio :: jsnum

definition resolveOrderQuantity :: "execution_request \<Rightarrow> jsnum \<Rightarrow> (string, jsnum) result" where
  "resolveOrderQuantity rq referencePrice =
     (if \<not> is_finite referencePrice \<or> referencePrice \<le> N 0
      then Inl ''EXECUTION_REFERENCE_PRICE_INVALID''
      else let ratio = js_min (targetPositionRatio (rq_intent rq)) (capitalCapRatio rq) in
        if \<not> is_finite ratio \<or> ratio \<le> N 0 then Inr (N 0)
        else let notional = availableCapital rq * ratio in
          if \<not> is_finite notional \<or> notional \<le> N 0 then Inr (N 0)
          else Inr (notional / referencePrice))"

lemma mult_js_mono:
  assumes "0 \<le> c" "a \<le> b"
  shows "N c * N a \<le> N c * N b"
  using assms by (simp add: js_of_mono mult_left_mono)

lemma divide_js_mono:
  assumes "x \<le> y" "0 < p" "N 0 \<le> x"
  shows "x / N p \<le> y / N p"
  using assms by (cases x; cases y) (auto simp: js_of_mono divide_right_mono)

text \<open>
  The quantity is a finite non-negative amount (or infinite where the division overflows), and it
  is at most what either ratio alone would give: no intent passes the customer's own cap.
\<close>

lemma resolveOrderQuantity_nonneg:
  assumes "resolveOrderQuantity rq p = Inr q"
  shows "N 0 \<le> q"
proof -
  from assms obtain b where p: "p = N b" "0 < b"
    by (cases p) (auto simp: resolveOrderQuantity_def split: if_splits)
  show ?thesis
    using assms p by (auto simp: resolveOrderQuantity_def Let_def is_finite_iff js_of_nonneg split: if_splits)
qed

lemma resolveOrderQuantity_bound:
  assumes q: "resolveOrderQuantity rq p = Inr q"
    and cap: "availableCapital rq = N c" "0 \<le> c"
    and k: "k \<in> {targetPositionRatio (rq_intent rq), capitalCapRatio rq}" "k = N r" "0 \<le> r"
  shows "q \<le> availableCapital rq * k / p"
proof -
  from q obtain b where p: "p = N b" "0 < b"
    by (cases p) (auto simp: resolveOrderQuantity_def split: if_splits)
  define ratio where "ratio = js_min (targetPositionRatio (rq_intent rq)) (capitalCapRatio rq)"
  have lim: "N 0 \<le> N c * N r / N b"
    using cap k p js_of_nonneg [of "c * r"] by (cases "js_of (c * r)") (auto simp: js_of_nonneg)
  show ?thesis
  proof (cases "is_finite ratio \<and> \<not> ratio \<le> N 0 \<and> is_finite (N c * ratio) \<and> \<not> N c * ratio \<le> N 0")
    case False
    then have "q = N 0"
      using q p cap by (auto simp: resolveOrderQuantity_def Let_def ratio_def [symmetric] split: if_splits)
    then show ?thesis using lim cap k p by simp
  next
    case True
    then obtain a where a: "ratio = N a" "0 < a" by (auto simp: is_finite_iff)
    have le: "ratio \<le> k"
      using k(1) a js_min_le [of "targetPositionRatio (rq_intent rq)" "capitalCapRatio rq"]
      by (auto simp: ratio_def js_min_def split: if_splits)
    then have "N c * ratio \<le> N c * N r" using a k cap mult_js_mono [of c a r] by simp
    then have "N c * ratio / N b \<le> N c * N r / N b"
      using p cap a by (intro divide_js_mono) (auto simp: js_of_nonneg)
    moreover have "q = N c * ratio / N b"
      using q p cap True by (auto simp: resolveOrderQuantity_def Let_def ratio_def [symmetric] split: if_splits)
    ultimately show ?thesis using cap k p by simp
  qed
qed

subsection \<open>Properties\<close>

text \<open>The consistency check accepts exactly the intents whose symbol names both assets, whose
ratio lies in (0, 1], whose entry band and stop are finite and positive, and whose stop and target
lie on the losing and on the winning side of the whole band.\<close>

theorem order_intent_valid_iff:
  "assertValidOrderIntent i = Inr () \<longleftrightarrow>
     CHR ''/'' \<in> set (symbol i)
     \<and> (\<exists>a. targetPositionRatio i = N a \<and> 0 < a \<and> a \<le> 1)
     \<and> (\<exists>lo hi. entryPriceRange i = \<lparr>range_min = N lo, range_max = N hi\<rparr> \<and> 0 < lo \<and> lo \<le> hi)
     \<and> (\<exists>s. stopLossPrice i = N s \<and> 0 < s)
     \<and> protects i"
  by (rule valid_intent_iff)

text \<open>The order quantity is never negative and never more than either ratio alone would
give on the available capital: an intent cannot exceed the customer's own capital cap.\<close>

theorem order_quantity_capped:
  assumes "resolveOrderQuantity rq p = Inr q" "availableCapital rq = N c" "0 \<le> c"
    and "targetPositionRatio (rq_intent rq) = N t" "0 \<le> t" "capitalCapRatio rq = N r" "0 \<le> r"
  shows "N 0 \<le> q \<and> q \<le> availableCapital rq * targetPositionRatio (rq_intent rq) / p
    \<and> q \<le> availableCapital rq * capitalCapRatio rq / p"
  using resolveOrderQuantity_nonneg [OF assms(1)]
    resolveOrderQuantity_bound [OF assms(1-3), of "N t" t] resolveOrderQuantity_bound [OF assms(1-3), of "N r" r]
    assms(4-7) by simp

definition sample_intent :: order_intent where
  "sample_intent = \<lparr>provenance = \<lparr>decisionRoundId = ''r1'', traceId = ''t1'', strategyCode = ''s1'',
       contractHash = ''h1'', candleId = ''c1''\<rparr>,
     symbol = ''BTC/USDT'', side = Buy, targetPositionRatio = N 1,
     entryPriceRange = \<lparr>range_min = N 99, range_max = N 101\<rparr>, stopLossPrice = N 90,
     takeProfitPrice = Some (N 120), validUntil = iso_text 60000,
     intentId = ''i1'', intentStatus = IntentPending, createdAt = iso_text 0\<rparr>"

definition sample_request :: execution_request where
  "sample_request = \<lparr>rq_intent = sample_intent, rq_portfolioId = ''p1'', availableCapital = N 1000,
     capitalCapRatio = N 1\<rparr>"

lemma sample_quantity: "resolveOrderQuantity sample_request (N 100) = Inr (N 10)"
  by (simp add: resolveOrderQuantity_def sample_request_def sample_intent_def Let_def)

theorem order_quantity_capped_witness: "N 10 \<le> N 1000 * N 1 / N 100"
  using order_quantity_capped [OF sample_quantity, of 1000 1 1]
  by (simp add: sample_request_def sample_intent_def)

end
