(* ===== verification/IntentTranslation.thy ===== *)
theory IntentTranslation
  imports OrderIntent
begin

text \<open>
  From the runtime engine's intent to the execution port's
  (\<open>packages/domain/src/execution/intent-translation.ts\<close>): side, price band, protective prices,
  canonical symbol and validity, then the consistency check of \<open>OrderIntent\<close>. Everything that
  throws is an error code; \<open>RangeError\<close> is the code of \<open>toISOString\<close> on an invalid date.
\<close>

datatype position_side = LongSide | ShortSide

record runtime_order_intent =
  idempotencyKey :: string
  ri_action :: string
  ri_side :: "position_side option"
  requestedPrice :: jsnum
  confirmedAtCandleCloseTime :: jsnum

record translation_context =
  tc_symbol :: string
  tc_strategyCode :: string
  tc_decisionRoundId :: string
  tc_traceId :: string
  tc_contractHash :: string
  tc_targetPositionRatio :: jsnum
  tc_stopLossPct :: jsnum
  tc_takeProfitPct :: "jsnum option"
  slippageTolerancePct :: jsnum
  validForMs :: jsnum

definition assertPositive :: "jsnum \<Rightarrow> string \<Rightarrow> (string, jsnum) result" where
  "assertPositive v code = (if \<not> is_finite v \<or> v \<le> N 0 then Inl code else Inr v)"

definition resolveExecutionSide :: "string \<Rightarrow> (string, order_side) result" where
  "resolveExecutionSide act =
     (if act = ''enter_long'' then Inr Buy
      else if act = ''exit'' then Inr Sell
      else if act = ''enter_short'' then Inl ''SHORT_NOT_EXECUTABLE_ON_SPOT''
      else Inl ''UNKNOWN_RUNTIME_ACTION'')"

definition QUOTE_ASSETS :: "string list" where
  "QUOTE_ASSETS = [''USDT'', ''USDC'', ''USD'', ''BTC'', ''ETH'']"

definition is_symbol_char :: "char \<Rightarrow> bool" where
  "is_symbol_char c \<longleftrightarrow> is_upper c \<or> is_digit c"

definition toCanonicalSpotSymbol :: "string \<Rightarrow> (string, string) result" where
  "toCanonicalSpotSymbol smb = (let raw = js_upper (js_trim smb) in
     if CHR ''/'' \<in> set raw
     then (case split_on (CHR ''/'') raw of
         [base, quote] \<Rightarrow>
           if base = [] \<or> quote = [] then Inl ''INTENT_SYMBOL_INVALID'' else Inr (base @ ''/'' @ quote)
       | _ \<Rightarrow> Inl ''INTENT_SYMBOL_INVALID'')
     else let normalized = filter is_symbol_char raw in
       (case find (ends_with normalized) QUOTE_ASSETS of
          None \<Rightarrow> Inl ''INTENT_SYMBOL_INVALID''
        | Some quote \<Rightarrow>
            if length normalized \<le> length quote then Inl ''INTENT_SYMBOL_INVALID''
            else Inr (take (length normalized - length quote) normalized @ ''/'' @ quote)))"

definition takeProfitFor ::
    "order_side \<Rightarrow> price_range \<Rightarrow> jsnum option \<Rightarrow> (string, jsnum option) result" where
  "takeProfitFor sd r pct = (case pct of
     None \<Rightarrow> Inr None
   | Some v \<Rightarrow> ebind (assertPositive v ''TAKE_PROFIT_PCT_INVALID'') (\<lambda>v. Inr (Some (case sd of
       Buy \<Rightarrow> range_max r * (N 1 + v / N 100)
     | Sell \<Rightarrow> range_min r * (N 1 - v / N 100)))))"

definition stopLossFor :: "order_side \<Rightarrow> price_range \<Rightarrow> jsnum \<Rightarrow> jsnum" where
  "stopLossFor sd r pct = (case sd of
     Buy \<Rightarrow> range_min r * (N 1 - pct / N 100) | Sell \<Rightarrow> range_max r * (N 1 + pct / N 100))"

definition priceBand :: "jsnum \<Rightarrow> jsnum \<Rightarrow> price_range" where
  "priceBand price tolerance = (let band = price * (tolerance / N 100) in
     \<lparr>range_min = price - band, range_max = price + band\<rparr>)"

definition translationDraft ::
    "runtime_order_intent \<Rightarrow> translation_context \<Rightarrow> order_side \<Rightarrow> price_range \<Rightarrow> jsnum \<Rightarrow> jsnum option
     \<Rightarrow> string \<Rightarrow> string \<Rightarrow> order_intent_draft" where
  "translationDraft ri ctx sd r sl tp smb until = \<lparr>
     provenance = \<lparr>decisionRoundId = tc_decisionRoundId ctx, traceId = tc_traceId ctx,
       strategyCode = tc_strategyCode ctx, contractHash = tc_contractHash ctx,
       candleId = js_show (confirmedAtCandleCloseTime ri)\<rparr>,
     symbol = smb, side = sd, targetPositionRatio = tc_targetPositionRatio ctx,
     entryPriceRange = r, stopLossPrice = sl, takeProfitPrice = tp, validUntil = until\<rparr>"

definition toExecutionOrderIntent ::
    "runtime_order_intent \<Rightarrow> translation_context \<Rightarrow> int option \<Rightarrow> (string, order_intent) result" where
  "toExecutionOrderIntent ri ctx now =
     ebind (resolveExecutionSide (ri_action ri)) (\<lambda>sd.
     ebind (assertPositive (requestedPrice ri) ''REQUESTED_PRICE_INVALID'') (\<lambda>price.
     let tolerance = slippageTolerancePct ctx in
     if \<not> is_finite tolerance \<or> tolerance \<le> N 0 \<or> N 100 \<le> tolerance
     then Inl ''SLIPPAGE_TOLERANCE_INVALID''
     else let r = priceBand price tolerance in
     ebind (assertPositive (tc_stopLossPct ctx) ''STOP_LOSS_PCT_INVALID'') (\<lambda>slPct.
     ebind (takeProfitFor sd r (tc_takeProfitPct ctx)) (\<lambda>tp.
     ebind (toCanonicalSpotSymbol (tc_symbol ctx)) (\<lambda>smb.
     ebind (assertPositive (validForMs ctx) ''VALID_FOR_MS_INVALID'') (\<lambda>valid.
     ebind (iso_or_throw (to_date (date_ms now + valid))) (\<lambda>until.
     let draft = translationDraft ri ctx sd r (stopLossFor sd r slPct) tp smb until in
     ebind (assertValidOrderIntent draft) (\<lambda>_.
     ebind (iso_or_throw now) (\<lambda>created.
       Inr (order_intent_draft.extend draft
         \<lparr>intentId = idempotencyKey ri, intentStatus = IntentPending, createdAt = created\<rparr>))))))))))"

subsection \<open>The canonical symbol\<close>

text \<open>Exactly one separator, both sides non-empty, no lower-case letter and no blank at the ends.\<close>

definition canonical_symbol :: "string \<Rightarrow> bool" where
  "canonical_symbol s \<longleftrightarrow> (\<exists>base quote. s = base @ CHR ''/'' # quote \<and> base \<noteq> [] \<and> quote \<noteq> []
     \<and> CHR ''/'' \<notin> set base \<and> CHR ''/'' \<notin> set quote) \<and> js_upper s = s \<and> js_trim s = s"

lemma is_space_upper [simp]: "is_space (char_upper c) = is_space c"
  by (auto simp: is_space_def char_upper_def is_lower_def ccode_def)

lemma dropWhile_space_upper: "dropWhile is_space (map char_upper s) = map char_upper (dropWhile is_space s)"
  by (induction s) auto

lemma js_trim_upper: "js_trim (js_upper s) = js_upper (js_trim s)"
  by (simp add: js_trim_def js_upper_def dropWhile_space_upper rev_map)

lemma split_on_two:
  "split_on c s = [a, b] \<Longrightarrow> s = a @ c # b \<and> c \<notin> set a \<and> c \<notin> set b"
proof (induction s arbitrary: a)
  case Nil
  then show ?case by simp
next
  case (Cons x s)
  have one: "split_on c t = [u] \<Longrightarrow> t = u \<and> c \<notin> set u" for t u
    by (induction t arbitrary: u) (auto split: if_splits list.splits)
  show ?case
  proof (cases "x = c")
    case True
    with Cons.prems one show ?thesis by auto
  next
    case False
    with Cons.prems obtain w where "split_on c s = [w, b]" "a = x # w"
      by (auto split: list.splits)
    with Cons.IH [of w] False show ?thesis by auto
  qed
qed

lemma split_on_canonical:
  "CHR ''/'' \<notin> set base \<Longrightarrow> CHR ''/'' \<notin> set quote \<Longrightarrow>
   split_on (CHR ''/'') (base @ CHR ''/'' # quote) = [base, quote]"
  by (simp add: split_on_append split_on_none)

lemma symbol_chars:
  assumes "is_symbol_char c"
  shows "char_upper c = c" "\<not> is_space c" "c \<noteq> CHR ''/''"
  using assms by (auto simp: is_symbol_char_def is_upper_def is_digit_def char_upper_def is_lower_def
      is_space_def ccode_def)

lemma char_upper_slash: "char_upper (CHR ''/'') = CHR ''/''" "\<not> is_space (CHR ''/'')"
  by (auto simp: char_upper_def is_lower_def is_space_def ccode_def)

lemma dropWhile_none: "(\<And>x. x \<in> set s \<Longrightarrow> \<not> P x) \<Longrightarrow> dropWhile P s = s"
  by (cases s) auto

lemma quote_asset_chars:
  assumes "q \<in> set QUOTE_ASSETS"
  shows "list_all is_symbol_char q" "q \<noteq> []"
  using assms by (auto simp: QUOTE_ASSETS_def is_symbol_char_def is_upper_def ccode_def)

lemma toCanonicalSpotSymbol_canonical:
  assumes "toCanonicalSpotSymbol s = Inr r"
  shows "canonical_symbol r"
proof -
  define raw where "raw = js_upper (js_trim s)"
  have raw: "js_upper raw = raw" "js_trim raw = raw" by (simp_all add: raw_def js_trim_upper)
  show ?thesis
  proof (cases "CHR ''/'' \<in> set raw")
    case True
    then obtain base quote where "split_on (CHR ''/'') raw = [base, quote]" "base \<noteq> []" "quote \<noteq> []"
        "r = base @ ''/'' @ quote"
      using assms by (auto simp: toCanonicalSpotSymbol_def Let_def raw_def [symmetric]
          split: list.splits if_splits)
    with split_on_two [of "CHR ''/''" raw base quote] raw show ?thesis
      by (auto simp: canonical_symbol_def)
  next
    case False
    define n where "n = filter is_symbol_char raw"
    obtain q where q: "find (ends_with n) QUOTE_ASSETS = Some q" "length q < length n"
        "r = take (length n - length q) n @ CHR ''/'' # q"
      using assms False by (auto simp: toCanonicalSpotSymbol_def Let_def raw_def [symmetric] n_def [symmetric]
          split: option.splits if_splits)
    then have "q \<in> set QUOTE_ASSETS" by (auto dest: find_Some_set)
    note qc = quote_asset_chars [OF this]
    have n: "\<forall>c \<in> set n. is_symbol_char c" by (simp add: n_def)
    define base where "base = take (length n - length q) n"
    have b: "\<forall>c \<in> set base. is_symbol_char c" "base \<noteq> []"
      using n q(2) by (auto simp: base_def dest: in_set_takeD)
    have r: "r = base @ CHR ''/'' # q" by (simp add: q(3) base_def)
    have sc: "\<forall>c \<in> set r. is_symbol_char c \<or> c = CHR ''/''"
      using b qc by (auto simp: r list_all_iff)
    have "char_upper c = c \<and> \<not> is_space c" if "c \<in> set r" for c
      using sc that symbol_chars by (cases "is_symbol_char c") (auto simp: char_upper_slash)
    note keep = this
    have "js_upper r = r" using keep by (auto simp: js_upper_def intro!: map_idI)
    moreover have "js_trim r = r"
      using keep dropWhile_none [of r is_space] dropWhile_none [of "rev r" is_space]
      by (simp add: js_trim_def)
    moreover have "CHR ''/'' \<notin> set base" "CHR ''/'' \<notin> set q"
      using b qc symbol_chars(3) by (auto simp: list_all_iff)
    ultimately show ?thesis using b(2) qc(2) unfolding canonical_symbol_def r by blast
  qed
qed

lemma toCanonicalSpotSymbol_fixed:
  assumes "canonical_symbol s"
  shows "toCanonicalSpotSymbol s = Inr s"
proof -
  obtain base quote where s: "s = base @ CHR ''/'' # quote" "base \<noteq> []" "quote \<noteq> []"
      "CHR ''/'' \<notin> set base" "CHR ''/'' \<notin> set quote" "js_upper s = s" "js_trim s = s"
    using assms by (auto simp: canonical_symbol_def)
  then have "js_upper (js_trim s) = s" by simp
  moreover have "CHR ''/'' \<in> set s" "split_on (CHR ''/'') s = [base, quote]"
    unfolding s(1) using s split_on_canonical [of base quote] by simp_all
  ultimately show ?thesis using s(1-3) by (simp add: toCanonicalSpotSymbol_def)
qed

subsection \<open>What the translation produces\<close>

lemma assertPositive_Inr: "assertPositive v code = Inr w \<longleftrightarrow> w = v \<and> (\<exists>a. v = N a \<and> 0 < a)"
  by (cases v) (auto simp: assertPositive_def)

lemma resolveExecutionSide_Inr:
  "resolveExecutionSide act = Inr sd \<longleftrightarrow>
     act = ''enter_long'' \<and> sd = Buy \<or> act = ''exit'' \<and> sd = Sell"
  by (auto simp: resolveExecutionSide_def)

lemma assertValid_extend [simp]:
  "assertValidOrderIntent (order_intent_draft.extend d e) = assertValidOrderIntent d"
  by (simp add: assertValidOrderIntent_def order_intent_draft.defs Let_def cong: order_side.case_cong option.case_cong)

lemma toExecutionOrderIntent_cases:
  assumes "toExecutionOrderIntent ri ctx now = Inr i"
  obtains sd sl tp smb until created where
    "resolveExecutionSide (ri_action ri) = Inr sd"
    "toCanonicalSpotSymbol (tc_symbol ctx) = Inr smb"
    "to_iso (to_date (date_ms now + validForMs ctx)) = Inr until"
    "to_iso now = Inr created"
    "assertPositive (validForMs ctx) ''VALID_FOR_MS_INVALID'' = Inr (validForMs ctx)"
    "assertValidOrderIntent (translationDraft ri ctx sd
       (priceBand (requestedPrice ri) (slippageTolerancePct ctx)) sl tp smb until) = Inr ()"
    "i = order_intent_draft.extend (translationDraft ri ctx sd
       (priceBand (requestedPrice ri) (slippageTolerancePct ctx)) sl tp smb until)
       \<lparr>intentId = idempotencyKey ri, intentStatus = IntentPending, createdAt = created\<rparr>"
  using assms
  by (auto simp: toExecutionOrderIntent_def ebind_Inr_iff Let_def assertPositive_Inr iso_or_throw_Inr)

subsection \<open>Properties\<close>

text \<open>A translated intent is consistent, carries the engine's idempotency key as its id, buys
exactly on an entry and sells exactly on an exit, names a canonical symbol, is pending, and its
deadline and creation time read back as the instants they were written from.\<close>

theorem translation_sound:
  assumes "toExecutionOrderIntent ri ctx (to_date x) = Inr i"
  shows "assertValidOrderIntent i = Inr () \<and> intentId i = idempotencyKey ri
    \<and> intentStatus i = IntentPending \<and> canonical_symbol (symbol i)
    \<and> (side i = Buy \<longleftrightarrow> ri_action ri = ''enter_long'') \<and> (side i = Sell \<longleftrightarrow> ri_action ri = ''exit'')
    \<and> date_parse (createdAt i) = date_ms (to_date x)
    \<and> date_parse (validUntil i) = date_ms (to_date (date_ms (to_date x) + validForMs ctx))"
proof -
  obtain sd sl tp smb until created where t: "resolveExecutionSide (ri_action ri) = Inr sd"
      "toCanonicalSpotSymbol (tc_symbol ctx) = Inr smb"
      "to_iso (to_date (date_ms (to_date x) + validForMs ctx)) = Inr until" "to_iso (to_date x) = Inr created"
      "assertValidOrderIntent (translationDraft ri ctx sd
         (priceBand (requestedPrice ri) (slippageTolerancePct ctx)) sl tp smb until) = Inr ()"
      "i = order_intent_draft.extend (translationDraft ri ctx sd
         (priceBand (requestedPrice ri) (slippageTolerancePct ctx)) sl tp smb until)
         \<lparr>intentId = idempotencyKey ri, intentStatus = IntentPending, createdAt = created\<rparr>"
    using toExecutionOrderIntent_cases [OF assms] by metis
  have tv: "date_parse until = date_ms (to_date (date_ms (to_date x) + validForMs ctx))"
    using date_parse_to_iso [OF t(3)] by (auto simp: date_ms_def)
  have tc: "date_parse created = date_ms (to_date x)"
    using date_parse_to_iso [OF t(4)] by (auto simp: date_ms_def)
  have v: "assertValidOrderIntent i = Inr ()" using t(5) by (simp add: t(6))
  show ?thesis
    using t(1,6) v tv tc toCanonicalSpotSymbol_canonical [OF t(2)]
    by (auto simp: resolveExecutionSide_Inr translationDraft_def order_intent_draft.defs)
qed

definition sample_runtime_intent :: runtime_order_intent where
  "sample_runtime_intent = \<lparr>idempotencyKey = ''k1'', ri_action = ''enter_long'', ri_side = Some LongSide,
     requestedPrice = N 100, confirmedAtCandleCloseTime = N 0\<rparr>"

definition sample_context :: translation_context where
  "sample_context = \<lparr>tc_symbol = ''btcusdt'', tc_strategyCode = ''s1'', tc_decisionRoundId = ''r1'',
     tc_traceId = ''t1'', tc_contractHash = ''h1'', tc_targetPositionRatio = N 1, tc_stopLossPct = N 50,
     tc_takeProfitPct = None, slippageTolerancePct = N 50, validForMs = N 60000\<rparr>"

lemma sample_symbol: "toCanonicalSpotSymbol ''btcusdt'' = Inr ''BTC/USDT''"
  by code_simp

lemma sample_translated:
  "\<exists>i. toExecutionOrderIntent sample_runtime_intent sample_context (to_date (N 0)) = Inr i"
  by (simp add: toExecutionOrderIntent_def sample_runtime_intent_def sample_context_def sample_symbol
      resolveExecutionSide_def assertPositive_def takeProfitFor_def priceBand_def stopLossFor_def
      date_ms_def max_time_def iso_or_throw_def to_iso_def assertValidOrderIntent_def range_valid_def
      translationDraft_def order_intent_draft.defs Let_def)

theorem translation_sound_witness:
  "\<exists>i. toExecutionOrderIntent sample_runtime_intent sample_context (to_date (N 0)) = Inr i
     \<and> intentId i = ''k1'' \<and> side i = Buy"
  using sample_translated translation_sound [of sample_runtime_intent sample_context "N 0"]
  by (fastforce simp: sample_runtime_intent_def)

text \<open>The canonical form of a spot symbol names two assets around one separator, in
capitals and without blanks at its ends, and canonicalising it again changes nothing.\<close>

theorem canonical_symbol_stable:
  assumes "toCanonicalSpotSymbol s = Inr r"
  shows "canonical_symbol r \<and> toCanonicalSpotSymbol r = Inr r"
  using toCanonicalSpotSymbol_canonical [OF assms] toCanonicalSpotSymbol_fixed by blast

theorem canonical_symbol_stable_witness: "toCanonicalSpotSymbol ''BTC/USDT'' = Inr ''BTC/USDT''"
  using canonical_symbol_stable [OF sample_symbol] by blast

end
