(* ===== verification/FillAccounting.thy ===== *)
theory FillAccounting
  imports OrderIntent
begin

text \<open>
  What an order really filled: the classification of an exchange report
  (\<open>execution/fill-accounting.ts\<close>) and the single judgement that joins the receipt with its
  reconciliation (\<open>execution/effective-fill.ts\<close>).
\<close>

subsection \<open>Classification of a fill\<close>

datatype normalized_order_state = StLive | StPartiallyFilled | StFilled | StCanceled | StRejected

record fill_input =
  fi_requestedQuantity :: jsnum
  fi_filledQuantity :: jsnum
  fi_averagePrice :: jsnum
  fi_state :: normalized_order_state
  quantityTolerance :: "jsnum option"

record fill_classification =
  fc_outcome :: execution_outcome
  fc_filledQuantity :: jsnum
  fc_averagePrice :: jsnum
  fc_rejectionReason :: "string option"

definition assertFinite :: "jsnum \<Rightarrow> string \<Rightarrow> (string, jsnum) result" where
  "assertFinite v code = (if \<not> is_finite v then Inl code else Inr v)"

definition noFillReason :: "normalized_order_state \<Rightarrow> string" where
  "noFillReason st = (if st = StRejected then ''EXCHANGE_REJECTED''
     else if st = StCanceled then ''EXCHANGE_CANCELED''
     else if st = StLive then ''NOT_FILLED_YET'' else ''NO_FILL_REPORTED'')"

definition classifyFill :: "fill_input \<Rightarrow> (string, fill_classification) result" where
  "classifyFill input =
     ebind (assertFinite (fi_requestedQuantity input) ''FILL_REQUESTED_QUANTITY_INVALID'') (\<lambda>requested.
     ebind (assertFinite (fi_filledQuantity input) ''FILL_QUANTITY_INVALID'') (\<lambda>filled.
     let tolerance = (case quantityTolerance input of Some t \<Rightarrow> t | None \<Rightarrow> N 0) in
     if requested \<le> N 0 then Inl ''FILL_REQUESTED_QUANTITY_INVALID''
     else if filled < N 0 then Inl ''FILL_QUANTITY_INVALID''
     else if \<not> is_finite tolerance \<or> tolerance < N 0 then Inl ''FILL_TOLERANCE_INVALID''
     else if js_eq filled (N 0) then
       Inr \<lparr>fc_outcome = OutRejected, fc_filledQuantity = N 0, fc_averagePrice = N 0,
         fc_rejectionReason = Some (noFillReason (fi_state input))\<rparr>
     else ebind (assertFinite (fi_averagePrice input) ''FILL_AVERAGE_PRICE_INVALID'') (\<lambda>price.
     if price \<le> N 0 then Inl ''FILL_AVERAGE_PRICE_INVALID''
     else if requested - tolerance \<le> filled then
       Inr \<lparr>fc_outcome = OutFilled, fc_filledQuantity = filled, fc_averagePrice = price,
         fc_rejectionReason = None\<rparr>
     else Inr \<lparr>fc_outcome = OutPartial, fc_filledQuantity = filled, fc_averagePrice = price,
         fc_rejectionReason = None\<rparr>)))"

definition unfilledRemainder :: "jsnum \<Rightarrow> jsnum \<Rightarrow> jsnum" where
  "unfilledRemainder requested filled = (let remainder = requested - filled in
     if remainder \<le> N 0 then N 0 else js_fixed 8 remainder)"

text \<open>
  The classifier never rounds a fill up: the quantity is the reported one, an order with a gap
  beyond the tolerance is never \<open>OutFilled\<close>, and a classification without a fill names a reason.
\<close>

lemma classifyFill_finite:
  assumes "classifyFill input = Inr c"
  obtains q f where "fi_requestedQuantity input = N q" "0 < q" "fi_filledQuantity input = N f" "0 \<le> f"
  using assms
  by (cases "fi_requestedQuantity input"; cases "fi_filledQuantity input")
    (auto simp: classifyFill_def assertFinite_def Let_def split: if_splits)

text \<open>The four ways to classify, by the requested quantity, the reported one and the tolerance.\<close>

lemma classifyFill_Inr:
  assumes "classifyFill input = Inr c"
    and t: "t = (case quantityTolerance input of Some t \<Rightarrow> t | None \<Rightarrow> N 0)"
  shows "N 0 < fi_requestedQuantity input \<and> is_finite (fi_requestedQuantity input)
    \<and> is_finite (fi_filledQuantity input) \<and> is_finite t \<and> N 0 \<le> t \<and>
    (fi_filledQuantity input = N 0
       \<and> c = \<lparr>fc_outcome = OutRejected, fc_filledQuantity = N 0, fc_averagePrice = N 0,
              fc_rejectionReason = Some (noFillReason (fi_state input))\<rparr>
     \<or> N 0 < fi_filledQuantity input \<and> is_finite (fi_averagePrice input) \<and> N 0 < fi_averagePrice input
       \<and> c = \<lparr>fc_outcome = (if fi_requestedQuantity input - t \<le> fi_filledQuantity input
                then OutFilled else OutPartial),
              fc_filledQuantity = fi_filledQuantity input, fc_averagePrice = fi_averagePrice input,
              fc_rejectionReason = None\<rparr>)"
proof -
  obtain q f where qf: "fi_requestedQuantity input = N q" "0 < q" "fi_filledQuantity input = N f" "0 \<le> f"
    using assms(1) by (rule classifyFill_finite)
  note unf = classifyFill_def assertFinite_def Let_def t [symmetric] qf
  have fin: "is_finite t" "\<not> t < N 0" using assms(1) qf(2,4) by (simp_all add: unf split: if_splits)
  show ?thesis
  proof (cases "f = 0")
    case True
    then show ?thesis using assms(1) qf fin by (auto simp: unf is_finite_iff)
  next
    case False
    then obtain p where "fi_averagePrice input = N p" "0 < p"
      using assms(1) qf fin by (cases "fi_averagePrice input") (simp_all add: unf split: if_splits)
    then show ?thesis using assms(1) qf fin False by (auto simp: unf is_finite_iff less_le)
  qed
qed

lemma classifyFill_quantity:
  assumes "classifyFill input = Inr c"
  shows "fc_filledQuantity c = fi_filledQuantity input"
  using classifyFill_Inr [OF assms refl] by auto

lemma classifyFill_reason:
  assumes "classifyFill input = Inr c"
  shows "fc_outcome c = OutRejected \<longleftrightarrow> fc_filledQuantity c = N 0"
    and "fc_rejectionReason c = None \<longleftrightarrow> fc_outcome c \<noteq> OutRejected"
  using classifyFill_Inr [OF assms refl] by (auto split: if_splits)

lemma classifyFill_exact:
  assumes "classifyFill input = Inr c" "quantityTolerance input = None"
    and "is_double (fi_requestedQuantity input)"
  shows "fc_outcome c = OutFilled \<longleftrightarrow> fi_requestedQuantity input \<le> fi_filledQuantity input"
  using classifyFill_Inr [OF assms(1) refl] assms(2,3) js_of_N_exact(2)
  by (cases "fi_requestedQuantity input"; cases "fi_filledQuantity input")
    (auto simp: js_of_exact split: if_splits)

lemma unfilledRemainder_nonneg:
  assumes "is_finite requested" "is_finite filled"
  shows "N 0 \<le> unfilledRemainder requested filled"
  using assms js_fixed_nonneg [of "requested - filled" 8]
  by (auto simp: unfilledRemainder_def Let_def is_finite_iff js_not_le intro: js_less_imp_le)

subsection \<open>The effective fill\<close>

record receipt_snapshot =
  rs_outcome :: execution_outcome
  rs_filledQuantity :: jsnum
  rs_averagePrice :: jsnum
  rs_feeAmount :: jsnum
  rs_rejectionReason :: "string option"
  rs_executedAt :: string

datatype reconciliation_status = RecPending | RecResolved | RecEscalated

record reconciliation_snapshot =
  sn_status :: reconciliation_status
  sn_resolvedOutcome :: "execution_outcome option"
  sn_filledQuantity :: "jsnum option"
  sn_averagePrice :: "jsnum option"
  sn_feeAmount :: "jsnum option"
  sn_rejectionReason :: "string option"
  sn_resolvedAt :: "string option"
  sn_acknowledgedAt :: "string option"

datatype fill_source = FromReceipt | FromReconciliation

record settled_fill =
  sf_source :: fill_source
  sf_outcome :: execution_outcome
  sf_filledQuantity :: jsnum
  sf_averagePrice :: jsnum
  sf_feeAmount :: jsnum
  sf_rejectionReason :: "string option"
  sf_settledAt :: string
  contradictsReceipt :: bool

datatype effective_fill = Settled settled_fill | Unsettled string

definition js_close :: "jsnum \<Rightarrow> jsnum \<Rightarrow> bool" where
  "js_close a b \<longleftrightarrow> \<bar>a - b\<bar> \<le> lit (1 / 10 ^ 9) * js_max (js_max (N 1) \<bar>a\<bar>) \<bar>b\<bar>"

definition sameFacts :: "receipt_snapshot \<Rightarrow> execution_outcome \<Rightarrow> jsnum \<Rightarrow> jsnum \<Rightarrow> bool" where
  "sameFacts receipt outcome quantity price \<longleftrightarrow> rs_outcome receipt = outcome
     \<and> js_close (rs_filledQuantity receipt) quantity \<and> js_close (rs_averagePrice receipt) price"

definition resolveEffectiveFill ::
    "receipt_snapshot \<Rightarrow> reconciliation_snapshot option \<Rightarrow> effective_fill" where
  "resolveEffectiveFill receipt reconciliation = (case reconciliation of
     None \<Rightarrow> Settled \<lparr>sf_source = FromReceipt, sf_outcome = rs_outcome receipt,
       sf_filledQuantity = rs_filledQuantity receipt, sf_averagePrice = rs_averagePrice receipt,
       sf_feeAmount = rs_feeAmount receipt, sf_rejectionReason = rs_rejectionReason receipt,
       sf_settledAt = rs_executedAt receipt, contradictsReceipt = False\<rparr>
   | Some r \<Rightarrow> (case sn_status r of
       RecPending \<Rightarrow> Unsettled ''RECONCILIATION_PENDING''
     | RecEscalated \<Rightarrow> Unsettled ''RECONCILIATION_ESCALATED''
     | RecResolved \<Rightarrow>
       (case (sn_resolvedOutcome r, sn_filledQuantity r, sn_averagePrice r, sn_feeAmount r, sn_resolvedAt r) of
          (Some outcome, Some q, Some p, Some fee, Some stamp) \<Rightarrow>
            Settled \<lparr>sf_source = FromReconciliation, sf_outcome = outcome, sf_filledQuantity = q,
              sf_averagePrice = p, sf_feeAmount = fee, sf_rejectionReason = sn_rejectionReason r,
              sf_settledAt = stamp, contradictsReceipt = (\<not> sameFacts receipt outcome q p)\<rparr>
        | _ \<Rightarrow> Unsettled ''RECONCILIATION_RESOLVED_INCOMPLETE'')))"

definition isBookableFill :: "effective_fill \<Rightarrow> bool" where
  "isBookableFill fill = (case fill of
     Unsettled _ \<Rightarrow> False
   | Settled f \<Rightarrow> (sf_outcome f = OutFilled \<or> sf_outcome f = OutPartial)
       \<and> N 0 < sf_filledQuantity f \<and> N 0 < sf_averagePrice f)"

text \<open>A reconciliation that has not ended, or ended without all its facts, books nothing.\<close>

definition complete_snapshot :: "reconciliation_snapshot \<Rightarrow> bool" where
  "complete_snapshot r \<longleftrightarrow> sn_status r = RecResolved \<and> sn_resolvedOutcome r \<noteq> None
     \<and> sn_filledQuantity r \<noteq> None \<and> sn_averagePrice r \<noteq> None \<and> sn_feeAmount r \<noteq> None
     \<and> sn_resolvedAt r \<noteq> None"

lemma settled_iff_complete:
  "(\<exists>f. resolveEffectiveFill receipt (Some r) = Settled f) \<longleftrightarrow> complete_snapshot r"
  by (cases "sn_status r")
    (auto simp: resolveEffectiveFill_def complete_snapshot_def split: option.splits)

lemma resolveEffectiveFill_source:
  assumes "resolveEffectiveFill receipt rec = Settled f"
  shows "sf_source f = FromReceipt \<longleftrightarrow> rec = None"
  using assms
  by (cases rec) (auto simp: resolveEffectiveFill_def
      split: option.splits reconciliation_status.splits)

subsection \<open>Properties\<close>

text \<open>Without a tolerance, an order counts as filled exactly when the exchange reports at
least the requested quantity; it counts as rejected exactly when nothing was filled, with a reason
exactly then, and the quantity booked is the reported one.\<close>

theorem fill_classified_exactly:
  assumes "classifyFill input = Inr c" "quantityTolerance input = None"
    and "is_double (fi_requestedQuantity input)"
  shows "(fc_outcome c = OutFilled \<longleftrightarrow> fi_requestedQuantity input \<le> fi_filledQuantity input)
    \<and> (fc_outcome c = OutRejected \<longleftrightarrow> fi_filledQuantity input = N 0)
    \<and> (fc_rejectionReason c = None \<longleftrightarrow> fc_outcome c \<noteq> OutRejected)
    \<and> fc_filledQuantity c = fi_filledQuantity input"
  using classifyFill_exact [OF assms] classifyFill_reason [OF assms(1)] classifyFill_quantity [OF assms(1)]
  by simp

definition sample_fill :: fill_input where
  "sample_fill = \<lparr>fi_requestedQuantity = N 5, fi_filledQuantity = N 3, fi_averagePrice = N 100,
     fi_state = StCanceled, quantityTolerance = None\<rparr>"

lemma sample_classified: "classifyFill sample_fill = Inr \<lparr>fc_outcome = OutPartial, fc_filledQuantity = N 3,
    fc_averagePrice = N 100, fc_rejectionReason = None\<rparr>"
  by (simp add: classifyFill_def sample_fill_def assertFinite_def)

theorem fill_classified_exactly_witness:
  "\<not> fi_requestedQuantity sample_fill \<le> fi_filledQuantity sample_fill"
  using fill_classified_exactly [OF sample_classified] is_double_of_int [of 5]
  by (simp add: sample_fill_def)

text \<open>Once a reconciliation exists the receipt alone settles nothing: the fill is settled
exactly when the reconciliation is resolved with all its facts, and then on those facts.\<close>

theorem effective_fill_waits:
  "(\<exists>f. resolveEffectiveFill receipt (Some r) = Settled f \<and> sf_source f = FromReconciliation)
     \<longleftrightarrow> complete_snapshot r"
  using settled_iff_complete [of receipt r] resolveEffectiveFill_source [of receipt "Some r"]
  by (metis fill_source.exhaust option.distinct(1))

end
