(* ===== verification/Reconciliation.thy ===== *)
theory Reconciliation
  imports FillAccounting
begin

text \<open>
  The reconciliation state machine (\<open>execution/reconciliation.ts\<close>): one decision from a pending
  record and one observation of the exchange, and the admission of new entries while a
  reconciliation is open. The reasons are the strings of the source; the two that carry data
  (\<open>ORDER_STILL_OPEN:state\<close>, \<open>QUERY_FAILED:reason\<close>) are built the same way.
\<close>

record reconciliation_record =
  rec_clientOrderId :: string
  rec_accountId :: string
  rec_symbol :: string
  rec_requestedQuantity :: jsnum
  rec_attemptCount :: int
  rec_firstSeenAt :: string

datatype reconciliation_observation =
    OrderFound (of_state: normalized_order_state) (of_filledQuantity: jsnum)
      (of_averagePrice: jsnum) (of_feeAmount: jsnum)
  | OrderAbsent
  | QueryFailed string

record resolution =
  rv_outcome :: execution_outcome
  rv_filledQuantity :: jsnum
  rv_averagePrice :: jsnum
  rv_feeAmount :: jsnum
  rv_rejectionReason :: "string option"

datatype reconciliation_decision = Resolve resolution | Retry int jsnum | Escalate string

record reconciliation_policy =
  maxAttempts :: jsnum
  baseDelayMs :: jsnum
  maxDelayMs :: jsnum
  absenceTrustWindowMs :: jsnum

definition DEFAULT_RECONCILIATION_POLICY :: reconciliation_policy where
  "DEFAULT_RECONCILIATION_POLICY = \<lparr>maxAttempts = N 8, baseDelayMs = N 30000,
     maxDelayMs = N 15 * N 60000, absenceTrustWindowMs = N 10 * N 60000\<rparr>"

definition reconciliationRetryDelayMs :: "int \<Rightarrow> reconciliation_policy \<Rightarrow> jsnum" where
  "reconciliationRetryDelayMs attempt policy =
     js_min (maxDelayMs policy) (baseDelayMs policy * js_pow2 (max attempt 0))"

definition isTerminal :: "normalized_order_state \<Rightarrow> bool" where [guard_defs]:
  "isTerminal st \<longleftrightarrow> st = StFilled \<or> st = StCanceled \<or> st = StRejected"

definition assertNonNegativeFee :: "jsnum \<Rightarrow> (string, jsnum) result" where
  "assertNonNegativeFee v = (if \<not> is_finite v \<or> v < N 0 then Inl ''RECONCILED_FEE_INVALID'' else Inr v)"

definition state_text :: "normalized_order_state \<Rightarrow> string" where
  "state_text st = (case st of StLive \<Rightarrow> ''live'' | StPartiallyFilled \<Rightarrow> ''partially_filled''
     | StFilled \<Rightarrow> ''filled'' | StCanceled \<Rightarrow> ''canceled'' | StRejected \<Rightarrow> ''rejected'')"

definition retryAfter :: "int \<Rightarrow> jsnum \<Rightarrow> reconciliation_policy \<Rightarrow> reconciliation_decision" where
  "retryAfter attempt nowMs policy = Retry attempt (nowMs + reconciliationRetryDelayMs attempt policy)"

definition exhausted :: "int \<Rightarrow> reconciliation_policy \<Rightarrow> bool" where [guard_defs]:
  "exhausted attempt policy \<longleftrightarrow> maxAttempts policy \<le> N (of_int attempt)"

definition neverPlaced :: resolution where
  "neverPlaced = \<lparr>rv_outcome = OutRejected, rv_filledQuantity = N 0, rv_averagePrice = N 0,
     rv_feeAmount = N 0, rv_rejectionReason = Some ''ORDER_NEVER_PLACED''\<rparr>"

definition decideReconciliation ::
    "reconciliation_record \<Rightarrow> reconciliation_observation \<Rightarrow> jsnum \<Rightarrow> reconciliation_policy
     \<Rightarrow> (string, reconciliation_decision) result" where
  "decideReconciliation r obs nowMs policy = (let attempt = rec_attemptCount r + 1 in
     (case obs of
       OrderFound st filled price fee \<Rightarrow>
         if isTerminal st then
           ebind (classifyFill \<lparr>fi_requestedQuantity = rec_requestedQuantity r, fi_filledQuantity = filled,
             fi_averagePrice = price, fi_state = st, quantityTolerance = None\<rparr>) (\<lambda>c.
           ebind (assertNonNegativeFee fee) (\<lambda>fee.
             Inr (Resolve \<lparr>rv_outcome = fc_outcome c, rv_filledQuantity = fc_filledQuantity c,
               rv_averagePrice = fc_averagePrice c, rv_feeAmount = fee,
               rv_rejectionReason = fc_rejectionReason c\<rparr>)))
         else if exhausted attempt policy then Inr (Escalate (''ORDER_STILL_OPEN:'' @ state_text st))
         else Inr (retryAfter attempt nowMs policy)
     | OrderAbsent \<Rightarrow>
         let age = nowMs - date_parse (rec_firstSeenAt r) in
         if \<not> is_finite age then Inr (Escalate ''FIRST_SEEN_AT_INVALID'')
         else if age \<le> absenceTrustWindowMs policy then Inr (Resolve neverPlaced)
         else Inr (Escalate ''ABSENCE_NOT_TRUSTWORTHY'')
     | QueryFailed reason \<Rightarrow>
         if exhausted attempt policy then Inr (Escalate (''QUERY_FAILED:'' @ reason))
         else Inr (retryAfter attempt nowMs policy)))"

record account_reconciliation_state =
  hasEscalated :: bool
  pendingSymbols :: "string list"

record entry_admission =
  allowed :: bool
  adm_reason :: "string option"

definition admitNewEntry :: "account_reconciliation_state \<Rightarrow> string \<Rightarrow> entry_admission" where
  "admitNewEntry st smb =
     (if hasEscalated st then \<lparr>allowed = False, adm_reason = Some ''RECONCILIATION_ESCALATED''\<rparr>
      else if smb \<in> set (pendingSymbols st)
      then \<lparr>allowed = False, adm_reason = Some ''RECONCILIATION_PENDING_FOR_SYMBOL''\<rparr>
      else \<lparr>allowed = True, adm_reason = None\<rparr>)"

subsection \<open>When a decision resolves\<close>

lemma decide_QueryFailed:
  "decideReconciliation r (QueryFailed reason) nowMs policy =
     Inr (if exhausted (rec_attemptCount r + 1) policy then Escalate (''QUERY_FAILED:'' @ reason)
          else retryAfter (rec_attemptCount r + 1) nowMs policy)"
  by (simp add: decideReconciliation_def)

lemma decide_never_resolves_on_failure:
  "decideReconciliation r (QueryFailed reason) nowMs policy \<noteq> Inr (Resolve v)"
  by (simp add: decide_QueryFailed retryAfter_def)

lemma decide_open_order:
  "\<not> isTerminal st \<Longrightarrow> decideReconciliation r (OrderFound st f p fee) nowMs policy \<noteq> Inr (Resolve v)"
  by (simp add: decideReconciliation_def retryAfter_def Let_def)

lemma decide_absent_resolves:
  "decideReconciliation r OrderAbsent nowMs policy = Inr (Resolve v) \<longleftrightarrow>
     v = neverPlaced \<and> is_finite (nowMs - date_parse (rec_firstSeenAt r))
     \<and> nowMs - date_parse (rec_firstSeenAt r) \<le> absenceTrustWindowMs policy"
  by (auto simp: decideReconciliation_def Let_def)

lemma decide_absent_never_retries:
  "decideReconciliation r OrderAbsent nowMs policy \<noteq> Inr (Retry n t)"
  by (simp add: decideReconciliation_def Let_def)

lemma decide_found_resolves:
  assumes "decideReconciliation r (OrderFound st f p fee) nowMs policy = Inr (Resolve v)"
  obtains c where "isTerminal st"
    "classifyFill \<lparr>fi_requestedQuantity = rec_requestedQuantity r, fi_filledQuantity = f,
       fi_averagePrice = p, fi_state = st, quantityTolerance = None\<rparr> = Inr c"
    "v = \<lparr>rv_outcome = fc_outcome c, rv_filledQuantity = fc_filledQuantity c,
       rv_averagePrice = fc_averagePrice c, rv_feeAmount = fee, rv_rejectionReason = fc_rejectionReason c\<rparr>"
    "is_finite fee" "N 0 \<le> fee"
  using assms
  by (cases fee) (auto simp: decideReconciliation_def Let_def ebind_Inr_iff assertNonNegativeFee_def
      retryAfter_def split: if_splits)

text \<open>Every resolution rests on the exchange's own word, with facts that can be booked as they are.\<close>

lemma decide_resolve_grounds:
  assumes "decideReconciliation r obs nowMs policy = Inr (Resolve v)"
  shows "(\<exists>st f p fee. obs = OrderFound st f p fee \<and> isTerminal st \<and> rv_filledQuantity v = f
            \<and> rv_feeAmount v = fee)
       \<or> obs = OrderAbsent \<and> v = neverPlaced
            \<and> nowMs - date_parse (rec_firstSeenAt r) \<le> absenceTrustWindowMs policy"
proof (cases obs)
  case (OrderFound st f p fee)
  with assms have d: "decideReconciliation r (OrderFound st f p fee) nowMs policy = Inr (Resolve v)" by simp
  show ?thesis by (rule decide_found_resolves [OF d]) (auto simp: OrderFound dest: classifyFill_quantity)
qed (use assms in \<open>auto simp: decide_absent_resolves decide_never_resolves_on_failure\<close>)

lemma decide_resolve_facts:
  assumes "decideReconciliation r obs nowMs policy = Inr (Resolve v)"
  shows "N 0 \<le> rv_feeAmount v \<and> N 0 \<le> rv_filledQuantity v
    \<and> (rv_outcome v = OutRejected \<longleftrightarrow> rv_filledQuantity v = N 0)
    \<and> (rv_rejectionReason v = None \<longleftrightarrow> rv_outcome v \<noteq> OutRejected)"
proof (cases obs)
  case (OrderFound st f p fee)
  with assms have d: "decideReconciliation r (OrderFound st f p fee) nowMs policy = Inr (Resolve v)" by simp
  obtain c where c: "classifyFill \<lparr>fi_requestedQuantity = rec_requestedQuantity r, fi_filledQuantity = f,
       fi_averagePrice = p, fi_state = st, quantityTolerance = None\<rparr> = Inr c" (is "classifyFill ?in = _")
    and v: "v = \<lparr>rv_outcome = fc_outcome c, rv_filledQuantity = fc_filledQuantity c,
       rv_averagePrice = fc_averagePrice c, rv_feeAmount = fee, rv_rejectionReason = fc_rejectionReason c\<rparr>"
    and fee: "N 0 \<le> fee" using d by (rule decide_found_resolves)
  have "N 0 \<le> fc_filledQuantity c" using classifyFill_Inr [OF c refl] by (auto intro: js_less_imp_le)
  then show ?thesis using classifyFill_reason [OF c] v fee by simp
qed (use assms in \<open>auto simp: decide_absent_resolves decide_never_resolves_on_failure neverPlaced_def\<close>)

text \<open>A retry always counts one attempt more, and never when the attempts are used up.\<close>

lemma decide_retry:
  assumes "decideReconciliation r obs nowMs policy = Inr (Retry n t)"
  shows "n = rec_attemptCount r + 1 \<and> \<not> exhausted n policy
    \<and> t = nowMs + reconciliationRetryDelayMs n policy"
  using assms
  by (cases obs) (auto simp: decideReconciliation_def Let_def retryAfter_def ebind_Inr_iff split: if_splits)

lemma retry_delay_capped:
  assumes "maxDelayMs policy = N m" "0 \<le> m" "baseDelayMs policy = N b" "0 < b"
  shows "reconciliationRetryDelayMs n policy \<le> maxDelayMs policy"
    and "N 0 \<le> reconciliationRetryDelayMs n policy"
proof -
  have "js_pow2 (max n 0) \<noteq> NaN" "N 0 \<le> js_pow2 (max n 0)"
    by (simp_all add: js_pow2_def js_of_nonneg)
  then have p: "N b * js_pow2 (max n 0) \<noteq> NaN" "N 0 \<le> N b * js_pow2 (max n 0)"
    using assms by (cases "js_pow2 (max n 0)"; auto simp: js_of_nonneg)+
  show "reconciliationRetryDelayMs n policy \<le> maxDelayMs policy"
    using p assms by (simp add: reconciliationRetryDelayMs_def js_min_le)
  show "N 0 \<le> reconciliationRetryDelayMs n policy"
    using p assms by (simp add: reconciliationRetryDelayMs_def js_min_glb)
qed

lemma admitNewEntry_iff:
  "allowed (admitNewEntry st smb) \<longleftrightarrow> \<not> hasEscalated st \<and> smb \<notin> set (pendingSymbols st)"
  by (simp add: admitNewEntry_def)

subsection \<open>Properties\<close>


definition sample_record :: reconciliation_record where
  "sample_record = \<lparr>rec_clientOrderId = ''RV1'', rec_accountId = ''a1'', rec_symbol = ''BTC/USDT'',
     rec_requestedQuantity = N 5, rec_attemptCount = 0, rec_firstSeenAt = iso_text 0\<rparr>"

lemma sample_resolved:
  "decideReconciliation sample_record (OrderFound StCanceled (N 3) (N 100) (N 1)) (N 0) p
     = Inr (Resolve \<lparr>rv_outcome = OutPartial, rv_filledQuantity = N 3, rv_averagePrice = N 100,
         rv_feeAmount = N 1, rv_rejectionReason = None\<rparr>)"
  by (simp add: decideReconciliation_def sample_record_def isTerminal_def classifyFill_def
      assertFinite_def assertNonNegativeFee_def)


text \<open>A failed query is never evidence: it leads to another attempt or, once the attempts
are used up, to a human, and the attempt is counted.\<close>

theorem failed_query_is_no_evidence:
  "decideReconciliation r (QueryFailed reason) nowMs policy =
     Inr (if exhausted (rec_attemptCount r + 1) policy then Escalate (''QUERY_FAILED:'' @ reason)
          else Retry (rec_attemptCount r + 1)
            (nowMs + reconciliationRetryDelayMs (rec_attemptCount r + 1) policy))"
  by (simp add: decide_QueryFailed retryAfter_def)

text \<open>The absence of an order means it was never placed exactly while the record is younger
than the trust window; after it, or if the age is not a number, a human decides and nothing is
retried.\<close>

theorem absence_decided:
  "decideReconciliation r OrderAbsent nowMs policy =
     Inr (if is_finite (nowMs - date_parse (rec_firstSeenAt r))
            \<and> nowMs - date_parse (rec_firstSeenAt r) \<le> absenceTrustWindowMs policy then Resolve neverPlaced
          else Escalate (if is_finite (nowMs - date_parse (rec_firstSeenAt r))
            then ''ABSENCE_NOT_TRUSTWORTHY'' else ''FIRST_SEEN_AT_INVALID''))"
  by (simp add: decideReconciliation_def Let_def)

text \<open>A retry counts one attempt more, happens only below the maximum, and waits no longer
than the policy's cap.\<close>

theorem retry_bounded:
  assumes "decideReconciliation r obs nowMs policy = Inr (Retry n t)"
    and "maxDelayMs policy = N m" "0 \<le> m" "baseDelayMs policy = N b" "0 < b"
  shows "n = rec_attemptCount r + 1 \<and> \<not> maxAttempts policy \<le> N (of_int n)
    \<and> t = nowMs + reconciliationRetryDelayMs n policy
    \<and> N 0 \<le> reconciliationRetryDelayMs n policy \<and> reconciliationRetryDelayMs n policy \<le> maxDelayMs policy"
  using decide_retry [OF assms(1)] retry_delay_capped [OF assms(2-5), of n]
  unfolding exhausted_def by blast

theorem retry_bounded_witness:
  "\<exists>n t. decideReconciliation sample_record (QueryFailed ''TIMEOUT'') (N 0) DEFAULT_RECONCILIATION_POLICY
      = Inr (Retry n t) \<and> n = 1 \<and> t = N 0 + reconciliationRetryDelayMs 1 DEFAULT_RECONCILIATION_POLICY"
proof -
  have d: "decideReconciliation sample_record (QueryFailed ''TIMEOUT'') (N 0) DEFAULT_RECONCILIATION_POLICY
      = Inr (Retry 1 (N 0 + reconciliationRetryDelayMs 1 DEFAULT_RECONCILIATION_POLICY))"
    by (simp add: decideReconciliation_def sample_record_def exhausted_def retryAfter_def
        DEFAULT_RECONCILIATION_POLICY_def)
  show ?thesis
    using retry_bounded [OF d, of 900000 30000] d
    by (simp add: DEFAULT_RECONCILIATION_POLICY_def sample_record_def)
qed

end
