(* ===== verification/ReconciliationStore.thy ===== *)
theory ReconciliationStore
  imports Reconciliation
begin

text \<open>
  The reconciliation table and its worker (\<open>lib/execution/server/reconciliation-repository.ts\<close>,
  \<open>reconciliation-worker.ts\<close>). The table is a list of rows in insertion order; each SQL statement
  of the source is one atomic operation on it, with the constraints and the terminal trigger of
  migrations 0050 and 0061 (PostgreSQL orders NaN above every number, so \<open>x >= 0\<close> is
  \<open>\<not> x < N 0\<close>). Times are milliseconds; a date that cannot be printed is the code
  \<open>RangeError\<close>. Credentials and exchange adapters are arguments.
\<close>

record reconciliation_row =
  rr_id :: string
  rr_clientOrderId :: string
  rr_accountId :: string
  rr_customerId :: string
  rr_exchange :: string
  rr_symbol :: string
  rr_requestedQuantity :: jsnum
  rr_decisionRoundId :: "string option"
  rr_portfolioId :: "string option"
  rr_intentId :: "string option"
  rr_externalOrderId :: "string option"
  rr_status :: reconciliation_status
  rr_attemptCount :: int
  rr_firstSeenAt :: int
  rr_nextAttemptAt :: int
  rr_resolvedOutcome :: "execution_outcome option"
  rr_filledQuantity :: "jsnum option"
  rr_averagePrice :: "jsnum option"
  rr_feeAmount :: "jsnum option"
  rr_rejectionReason :: "string option"
  rr_resolvedAt :: "int option"
  rr_escalationReason :: "string option"
  rr_escalatedAt :: "int option"
  rr_acknowledgedAt :: "int option"
  rr_acknowledgedBy :: "string option"
  rr_leasedBy :: "string option"
  rr_leasedUntil :: "int option"

type_synonym table = "reconciliation_row list"

subsection \<open>The constraints of the table\<close>

definition opt_nonneg :: "jsnum option \<Rightarrow> bool" where
  "opt_nonneg x \<longleftrightarrow> (case x of None \<Rightarrow> True | Some v \<Rightarrow> \<not> v < N 0)"

definition row_checks :: "reconciliation_row \<Rightarrow> bool" where
  "row_checks r \<longleftrightarrow> \<not> rr_requestedQuantity r \<le> N 0 \<and> 0 \<le> rr_attemptCount r
     \<and> opt_nonneg (rr_filledQuantity r) \<and> opt_nonneg (rr_averagePrice r) \<and> opt_nonneg (rr_feeAmount r)
     \<and> (rr_status r = RecResolved \<longrightarrow>
          rr_resolvedOutcome r \<noteq> None \<and> rr_resolvedAt r \<noteq> None \<and> rr_feeAmount r \<noteq> None)
     \<and> (rr_status r = RecEscalated \<longrightarrow> rr_escalationReason r \<noteq> None \<and> rr_escalatedAt r \<noteq> None)"

definition terminal_trigger :: "reconciliation_row \<Rightarrow> reconciliation_row \<Rightarrow> bool" where
  "terminal_trigger old new \<longleftrightarrow> (rr_status old = RecResolved \<longrightarrow>
     rr_status new = RecResolved \<and> rr_resolvedOutcome new = rr_resolvedOutcome old
     \<and> rr_filledQuantity new = rr_filledQuantity old \<and> rr_averagePrice new = rr_averagePrice old)"

text \<open>An UPDATE: all matching rows or, when one of them breaks a constraint, none.\<close>

definition db_update ::
    "(reconciliation_row \<Rightarrow> bool) \<Rightarrow> (reconciliation_row \<Rightarrow> reconciliation_row) \<Rightarrow> table
     \<Rightarrow> (string, table) result" where
  "db_update P f t =
     (if list_all (\<lambda>r. P r \<longrightarrow> terminal_trigger r (f r) \<and> row_checks (f r)) t
      then Inr (map (\<lambda>r. if P r then f r else r) t) else Inl ''CONSTRAINT'')"

subsection \<open>The repository\<close>

record enqueue_input =
  eq_clientOrderId :: string
  eq_accountId :: string
  eq_customerId :: string
  eq_exchange :: string
  eq_symbol :: string
  eq_requestedQuantity :: jsnum
  eq_decisionRoundId :: "string option"
  eq_portfolioId :: "string option"
  eq_intentId :: "string option"
  eq_externalOrderId :: "string option"
  eq_now :: "int option option"

definition new_row :: "string \<Rightarrow> enqueue_input \<Rightarrow> int \<Rightarrow> reconciliation_row" where
  "new_row uuid input stamp = \<lparr>rr_id = uuid, rr_clientOrderId = eq_clientOrderId input,
     rr_accountId = eq_accountId input, rr_customerId = eq_customerId input,
     rr_exchange = eq_exchange input, rr_symbol = eq_symbol input,
     rr_requestedQuantity = eq_requestedQuantity input,
     rr_decisionRoundId = eq_decisionRoundId input, rr_portfolioId = eq_portfolioId input,
     rr_intentId = eq_intentId input, rr_externalOrderId = eq_externalOrderId input,
     rr_status = RecPending, rr_attemptCount = 0, rr_firstSeenAt = stamp, rr_nextAttemptAt = stamp,
     rr_resolvedOutcome = None, rr_filledQuantity = None, rr_averagePrice = None, rr_feeAmount = None,
     rr_rejectionReason = None, rr_resolvedAt = None, rr_escalationReason = None,
     rr_escalatedAt = None, rr_acknowledgedAt = None, rr_acknowledgedBy = None,
     rr_leasedBy = None, rr_leasedUntil = None\<rparr>"

text \<open>\<open>eq_now\<close>: not passed, or a Date that may be invalid; \<open>db_now\<close> is the database clock.\<close>

definition enqueueReconciliation ::
    "string \<Rightarrow> int \<Rightarrow> enqueue_input \<Rightarrow> table \<Rightarrow> (string, table \<times> bool) result" where
  "enqueueReconciliation uuid db_now input t =
     ebind (case eq_now input of None \<Rightarrow> Inr db_now
            | Some None \<Rightarrow> Inl ''RangeError'' | Some (Some ms) \<Rightarrow> Inr ms) (\<lambda>stamp.
     let r = new_row uuid input stamp in
     if \<not> row_checks r then Inl ''CONSTRAINT''
     else if list_ex (\<lambda>x. rr_clientOrderId x = eq_clientOrderId input) t then Inr (t, False)
     else if list_ex (\<lambda>x. rr_id x = uuid) t then Inl ''CONSTRAINT''
     else Inr (t @ [r], True))"

definition lease_due :: "int \<Rightarrow> reconciliation_row \<Rightarrow> bool" where
  "lease_due now r \<longleftrightarrow> rr_status r = RecPending \<and> rr_nextAttemptAt r \<le> now
     \<and> (case rr_leasedUntil r of None \<Rightarrow> True | Some u \<Rightarrow> u \<le> now)"

definition leaseDueReconciliation ::
    "string \<Rightarrow> int \<Rightarrow> jsnum \<Rightarrow> table \<Rightarrow> (string, table \<times> reconciliation_row option) result" where
  "leaseDueReconciliation workerId now leaseMs t =
     (case to_date (N (of_int now) + leaseMs) of
        None \<Rightarrow> Inl ''RangeError''
      | Some leaseUntil \<Rightarrow>
        (case sort_key rr_nextAttemptAt (filter (lease_due now) t) of
           [] \<Rightarrow> Inr (t, None)
         | r # _ \<Rightarrow>
             let leased = r\<lparr>rr_leasedBy := Some workerId, rr_leasedUntil := Some leaseUntil\<rparr> in
             Inr (map (\<lambda>x. if rr_id x = rr_id r then leased else x) t, Some leased)))"

definition resolved_row :: "resolution \<Rightarrow> int \<Rightarrow> string option \<Rightarrow> reconciliation_row \<Rightarrow> reconciliation_row" where
  "resolved_row v now ext r = r\<lparr>rr_status := RecResolved, rr_resolvedOutcome := Some (rv_outcome v),
     rr_filledQuantity := Some (rv_filledQuantity v), rr_averagePrice := Some (rv_averagePrice v),
     rr_rejectionReason := rv_rejectionReason v, rr_resolvedAt := Some now,
     rr_externalOrderId := (case ext of Some e \<Rightarrow> Some e | None \<Rightarrow> rr_externalOrderId r),
     rr_feeAmount := Some (rv_feeAmount v), rr_leasedBy := None, rr_leasedUntil := None\<rparr>"

definition escalated_row :: "string \<Rightarrow> int \<Rightarrow> reconciliation_row \<Rightarrow> reconciliation_row" where
  "escalated_row reason now r = r\<lparr>rr_status := RecEscalated, rr_escalationReason := Some reason,
     rr_escalatedAt := Some now, rr_leasedBy := None, rr_leasedUntil := None\<rparr>"

definition retried_row :: "int \<Rightarrow> int \<Rightarrow> reconciliation_row \<Rightarrow> reconciliation_row" where
  "retried_row n next r = r\<lparr>rr_attemptCount := n, rr_nextAttemptAt := next,
     rr_leasedBy := None, rr_leasedUntil := None\<rparr>"

definition applyReconciliationDecision ::
    "string \<Rightarrow> reconciliation_decision \<Rightarrow> int \<Rightarrow> string option \<Rightarrow> table \<Rightarrow> (string, table) result" where
  "applyReconciliationDecision rid decision now ext t = (case decision of
       Resolve v \<Rightarrow> db_update (\<lambda>r. rr_id r = rid) (resolved_row v now ext) t
     | Escalate reason \<Rightarrow> db_update (\<lambda>r. rr_id r = rid) (escalated_row reason now) t
     | Retry n nextMs \<Rightarrow> (case to_date nextMs of
           None \<Rightarrow> Inl ''RangeError''
         | Some next \<Rightarrow> db_update (\<lambda>r. rr_id r = rid) (retried_row n next) t))"

definition loadAccountReconciliationState :: "string \<Rightarrow> table \<Rightarrow> account_reconciliation_state" where
  "loadAccountReconciliationState acct t =
     (let rows = filter (\<lambda>r. rr_accountId r = acct
          \<and> (rr_status r = RecPending \<or> rr_status r = RecEscalated \<and> rr_acknowledgedAt r = None)) t in
      \<lparr>hasEscalated = list_ex (\<lambda>r. rr_status r = RecEscalated) rows,
       pendingSymbols = map rr_symbol (filter (\<lambda>r. rr_status r = RecPending) rows)\<rparr>)"

definition ack_target :: "string \<Rightarrow> reconciliation_row \<Rightarrow> bool" where
  "ack_target cid r \<longleftrightarrow> rr_clientOrderId r = cid \<and> rr_status r = RecEscalated \<and> rr_acknowledgedAt r = None"

definition acknowledgeReconciliationEscalation ::
    "string \<Rightarrow> string \<Rightarrow> int \<Rightarrow> table \<Rightarrow> (string, table \<times> bool) result" where
  "acknowledgeReconciliationEscalation cid actor now t =
     ebind (db_update (ack_target cid)
       (\<lambda>r. r\<lparr>rr_acknowledgedAt := Some now, rr_acknowledgedBy := Some actor\<rparr>) t)
       (\<lambda>t'. Inr (t', list_ex (ack_target cid) t))"

subsection \<open>The worker\<close>

record adapter_order =
  ao_externalOrderId :: "string option"
  ao_state :: normalized_order_state
  ao_filledQuantity :: jsnum
  ao_averagePrice :: jsnum
  ao_feeAmount :: jsnum

text \<open>What a rejected promise carries: an Error with its name, or anything else.\<close>

datatype thrown = ErrorNamed string | ThrownOther

definition thrown_name :: "thrown \<Rightarrow> string" where
  "thrown_name e = (case e of ErrorNamed n \<Rightarrow> n | ThrownOther \<Rightarrow> ''UNKNOWN'')"

record 'c worker_deps =
  workerId :: string
  wd_loadCredential :: "string \<Rightarrow> string \<Rightarrow> thrown + 'c"
  wd_adapterFor :: "string \<Rightarrow> ('c \<Rightarrow> string \<Rightarrow> string \<Rightarrow> thrown + adapter_order option) option"
  wd_policy :: "reconciliation_policy option"
  wd_leaseMs :: "jsnum option"

text \<open>\<open>observe\<close>: the observation and the exchange's order id when there is one.\<close>

definition observe ::
    "reconciliation_row \<Rightarrow> 'c worker_deps \<Rightarrow> reconciliation_observation \<times> string option" where
  "observe r deps = (case wd_adapterFor deps (rr_exchange r) of
     None \<Rightarrow> (QueryFailed ''EXCHANGE_ADAPTER_NOT_AVAILABLE'', None)
   | Some getOrder \<Rightarrow>
       (case wd_loadCredential deps (rr_accountId r) (rr_customerId r) of
          Inl e \<Rightarrow> (QueryFailed (thrown_name e), None)
        | Inr credentials \<Rightarrow>
          (case getOrder credentials (rr_symbol r) (rr_clientOrderId r) of
             Inl e \<Rightarrow> (QueryFailed (thrown_name e), None)
           | Inr None \<Rightarrow> (OrderAbsent, None)
           | Inr (Some ord) \<Rightarrow> (OrderFound (ao_state ord) (ao_filledQuantity ord) (ao_averagePrice ord)
               (ao_feeAmount ord), ao_externalOrderId ord))))"

definition row_record :: "reconciliation_row \<Rightarrow> reconciliation_record" where
  "row_record r = \<lparr>rec_clientOrderId = rr_clientOrderId r, rec_accountId = rr_accountId r,
     rec_symbol = rr_symbol r, rec_requestedQuantity = rr_requestedQuantity r,
     rec_attemptCount = rr_attemptCount r, rec_firstSeenAt = iso_text (rr_firstSeenAt r)\<rparr>"

text \<open>
  One cycle: the table after it (the lease stays when a later call throws) and what the call
  returns: nothing due, or the order and the decision taken.
\<close>

definition processNextReconciliation ::
    "int \<Rightarrow> 'c worker_deps \<Rightarrow> table
     \<Rightarrow> table \<times> (string, (string \<times> reconciliation_decision) option) result" where
  "processNextReconciliation now deps t =
     (case leaseDueReconciliation (workerId deps) now
         (case wd_leaseMs deps of Some ms \<Rightarrow> ms | None \<Rightarrow> N 60000) t of
        Inl e \<Rightarrow> (t, Inl e)
      | Inr (t1, None) \<Rightarrow> (t1, Inr None)
      | Inr (t1, Some r) \<Rightarrow>
        (case decideReconciliation (row_record r) (fst (observe r deps)) (N (of_int now))
            (case wd_policy deps of Some p \<Rightarrow> p | None \<Rightarrow> DEFAULT_RECONCILIATION_POLICY) of
           Inl e \<Rightarrow> (t1, Inl e)
         | Inr decision \<Rightarrow>
           (case applyReconciliationDecision (rr_id r) decision now (snd (observe r deps)) t1 of
              Inl e \<Rightarrow> (t1, Inl e)
            | Inr t2 \<Rightarrow> (t2, Inr (Some (rr_clientOrderId r, decision))))))"

text \<open>
  The drain loop: at most \<open>maxBatch\<close> cycles, each with the clock and the outside world of its
  moment; a throw ends it.
\<close>

fun drainReconciliations ::
    "(int \<times> 'c worker_deps) list \<Rightarrow> nat \<Rightarrow> table \<Rightarrow> table \<times> (string, nat) result" where
  "drainReconciliations [] processed t = (t, Inr processed)"
| "drainReconciliations ((now, deps) # rest) processed t =
     (case processNextReconciliation now deps t of
        (t', Inl e) \<Rightarrow> (t', Inl e)
      | (t', Inr None) \<Rightarrow> (t', Inr processed)
      | (t', Inr (Some _)) \<Rightarrow> drainReconciliations rest (processed + 1) t')"

subsection \<open>What every operation keeps\<close>

definition table_ok :: "table \<Rightarrow> bool" where
  "table_ok t \<longleftrightarrow> distinct (map rr_id t) \<and> distinct (map rr_clientOrderId t) \<and> list_all row_checks t"

lemmas row_updates = resolved_row_def escalated_row_def retried_row_def

lemma row_update_keys [simp]:
  "rr_id (resolved_row v now ext r) = rr_id r" "rr_clientOrderId (resolved_row v now ext r) = rr_clientOrderId r"
  "rr_id (escalated_row e now r) = rr_id r" "rr_clientOrderId (escalated_row e now r) = rr_clientOrderId r"
  "rr_id (retried_row n x r) = rr_id r" "rr_clientOrderId (retried_row n x r) = rr_clientOrderId r"
  by (simp_all add: row_updates)

lemma db_update_Inr:
  "db_update P f t = Inr t' \<longleftrightarrow>
     (\<forall>r \<in> set t. P r \<longrightarrow> terminal_trigger r (f r) \<and> row_checks (f r))
     \<and> t' = map (\<lambda>r. if P r then f r else r) t"
  by (auto simp: db_update_def list_all_iff)

lemma db_update_ok:
  assumes "db_update P f t = Inr t'" "table_ok t"
    and "\<And>r. rr_id (f r) = rr_id r" "\<And>r. rr_clientOrderId (f r) = rr_clientOrderId r"
  shows "table_ok t'"
proof -
  have "map rr_id t' = map rr_id t" "map rr_clientOrderId t' = map rr_clientOrderId t"
    using assms(1,3,4) by (auto simp: db_update_Inr)
  then have "distinct (map rr_id t')" "distinct (map rr_clientOrderId t')"
    using assms(2) by (simp_all add: table_ok_def)
  moreover have "list_all row_checks t'"
    using assms(1,2) by (auto simp: table_ok_def db_update_Inr list_all_iff)
  ultimately show ?thesis by (simp add: table_ok_def)
qed

text \<open>An applied decision is one UPDATE of the row with that id.\<close>

definition decided_row :: "reconciliation_decision \<Rightarrow> int \<Rightarrow> string option \<Rightarrow> reconciliation_row \<Rightarrow> reconciliation_row" where
  "decided_row d now ext = (case d of Resolve v \<Rightarrow> resolved_row v now ext
     | Escalate e \<Rightarrow> escalated_row e now
     | Retry n nextMs \<Rightarrow> retried_row n (the (to_date nextMs)))"

lemma decided_row_keys [simp]:
  "rr_id (decided_row d now ext r) = rr_id r"
  "rr_clientOrderId (decided_row d now ext r) = rr_clientOrderId r"
  by (simp_all add: decided_row_def split: reconciliation_decision.splits)

lemma apply_is_update:
  assumes "applyReconciliationDecision rid d now ext t = Inr t'"
  shows "db_update (\<lambda>r. rr_id r = rid) (decided_row d now ext) t = Inr t'"
  using assms by (auto simp: applyReconciliationDecision_def decided_row_def
      split: reconciliation_decision.splits option.splits)

lemma leased_Some:
  assumes "leaseDueReconciliation w now ms t = Inr (t', Some r')"
  obtains r u where "r \<in> set t" "lease_due now r"
    "\<forall>x \<in> set t. lease_due now x \<longrightarrow> rr_nextAttemptAt r \<le> rr_nextAttemptAt x"
    "to_date (N (of_int now) + ms) = Some u"
    "r' = r\<lparr>rr_leasedBy := Some w, rr_leasedUntil := Some u\<rparr>"
    "t' = map (\<lambda>x. if rr_id x = rr_id r then r' else x) t"
proof -
  obtain u r rs where u: "to_date (N (of_int now) + ms) = Some u"
    and srt: "sort_key rr_nextAttemptAt (filter (lease_due now) t) = r # rs"
    and r': "r' = r\<lparr>rr_leasedBy := Some w, rr_leasedUntil := Some u\<rparr>"
      "t' = map (\<lambda>x. if rr_id x = rr_id r then r' else x) t"
    using assms by (auto simp: leaseDueReconciliation_def Let_def split: option.splits list.splits)
  have st: "set (r # rs) = set (filter (lease_due now) t)" using arg_cong [OF srt, of set] by simp
  have so: "sorted (map rr_nextAttemptAt (r # rs))"
    using sorted_sort_key [of rr_nextAttemptAt "filter (lease_due now) t"] srt by simp
  have "rr_nextAttemptAt r \<le> rr_nextAttemptAt x" if "x \<in> set t" "lease_due now x" for x
  proof -
    have "x \<in> set (r # rs)" using that st by simp
    then show ?thesis using so by auto
  qed
  then show thesis using that [of r u] u r' st by auto
qed

lemma lease_ok:
  assumes "leaseDueReconciliation w now ms t = Inr (t', res)" "table_ok t"
  shows "table_ok t'"
proof (cases res)
  case None
  then show ?thesis using assms by (auto simp: leaseDueReconciliation_def Let_def split: option.splits list.splits)
next
  case (Some r')
  with assms obtain r u where r: "r \<in> set t" "r' = r\<lparr>rr_leasedBy := Some w, rr_leasedUntil := Some u\<rparr>"
    "t' = map (\<lambda>x. if rr_id x = rr_id r then r' else x) t" by (auto elim: leased_Some)
  have same: "x = r" if "x \<in> set t" "rr_id x = rr_id r" for x
    using that r(1) assms(2) by (auto simp: table_ok_def distinct_map dest: inj_onD)
  have "map rr_id t' = map rr_id t" "map rr_clientOrderId t' = map rr_clientOrderId t"
    using same by (auto simp: r(2,3))
  then have "distinct (map rr_id t')" "distinct (map rr_clientOrderId t')"
    using assms(2) by (simp_all add: table_ok_def)
  moreover have "row_checks r'" if "row_checks r" using that by (simp add: row_checks_def r(2))
  then have "list_all row_checks t'" using assms(2) r(1) by (auto simp: table_ok_def list_all_iff r(3))
  ultimately show ?thesis by (simp add: table_ok_def)
qed

lemma list_ex_key: "list_ex (\<lambda>x. f x = k) t \<longleftrightarrow> k \<in> set (map f t)"
  by (induction t) auto

lemma enqueue_Inr:
  assumes "enqueueReconciliation uuid db_now input t = Inr (t', b)"
  obtains stamp where "row_checks (new_row uuid input stamp)"
    "b \<Longrightarrow> t' = t @ [new_row uuid input stamp] \<and> uuid \<notin> set (map rr_id t)"
    "\<not> b \<Longrightarrow> t' = t"
    "b \<longleftrightarrow> eq_clientOrderId input \<notin> set (map rr_clientOrderId t)"
proof -
  obtain stamp where "row_checks (new_row uuid input stamp)"
    "(if eq_clientOrderId input \<in> set (map rr_clientOrderId t) then t' = t \<and> \<not> b
      else uuid \<notin> set (map rr_id t) \<and> t' = t @ [new_row uuid input stamp] \<and> b)"
    using assms unfolding enqueueReconciliation_def list_ex_key ebind_Inr_iff Let_def
    by (auto split: if_split_asm)
  then show thesis using that by (metis (full_types))
qed

lemma new_row_keys [simp]:
  "rr_id (new_row uuid input stamp) = uuid"
  "rr_clientOrderId (new_row uuid input stamp) = eq_clientOrderId input"
  "rr_status (new_row uuid input stamp) = RecPending"
  "rr_accountId (new_row uuid input stamp) = eq_accountId input"
  "rr_symbol (new_row uuid input stamp) = eq_symbol input"
  "rr_attemptCount (new_row uuid input stamp) = 0"
  by (simp_all add: new_row_def)

lemma enqueue_ok:
  assumes "enqueueReconciliation uuid db_now input t = Inr (t', b)" "table_ok t"
  shows "table_ok t'"
  using assms(1) by (rule enqueue_Inr) (use assms(2) in \<open>cases b; auto simp: table_ok_def\<close>)

lemma apply_ok:
  assumes "applyReconciliationDecision rid d now ext t = Inr t'" "table_ok t"
  shows "table_ok t'"
  using apply_is_update [OF assms(1)] assms(2) by (rule db_update_ok) simp_all

lemma acknowledge_ok:
  assumes "acknowledgeReconciliationEscalation cid actor now t = Inr (t', b)" "table_ok t"
  shows "table_ok t'"
  using assms by (auto simp: acknowledgeReconciliationEscalation_def ebind_Inr_iff intro: db_update_ok)

subsection \<open>Histories of the table\<close>

text \<open>
  Workers, producers and operators run concurrently, each statement atomic, so a decision may be
  applied to a row that changed since it was leased. A history is any sequence of such statements;
  a statement that raises leaves the table.
\<close>

inductive store_step :: "table \<Rightarrow> table \<Rightarrow> bool" where
  step_enqueue: "enqueueReconciliation uuid db_now input t = Inr (t', b) \<Longrightarrow> store_step t t'"
| step_lease: "leaseDueReconciliation w now ms t = Inr (t', res) \<Longrightarrow> store_step t t'"
| step_apply: "applyReconciliationDecision rid d now ext t = Inr t' \<Longrightarrow> store_step t t'"
| step_acknowledge: "acknowledgeReconciliationEscalation cid actor now t = Inr (t', b) \<Longrightarrow> store_step t t'"

inductive_cases store_stepE: "store_step t t'"

inductive store_history :: "table \<Rightarrow> table \<Rightarrow> bool" where
  history_start: "store_history t t"
| history_step: "store_history t t' \<Longrightarrow> store_step t' t'' \<Longrightarrow> store_history t t''"

lemma store_step_ok: "store_step t t' \<Longrightarrow> table_ok t \<Longrightarrow> table_ok t'"
  by (erule store_stepE) (blast intro: enqueue_ok lease_ok apply_ok acknowledge_ok)+

lemma store_history_ok: "store_history t t' \<Longrightarrow> table_ok t \<Longrightarrow> table_ok t'"
  by (induction rule: store_history.induct) (auto intro: store_step_ok)

text \<open>The facts of a resolved row: no statement moves them.\<close>

definition resolved_facts ::
    "table \<Rightarrow> string \<Rightarrow> execution_outcome option \<times> jsnum option \<times> jsnum option \<Rightarrow> bool" where
  "resolved_facts t cid facts \<longleftrightarrow> (\<exists>r \<in> set t. rr_clientOrderId r = cid \<and> rr_status r = RecResolved
     \<and> facts = (rr_resolvedOutcome r, rr_filledQuantity r, rr_averagePrice r))"

lemma db_update_facts:
  assumes "db_update P f t = Inr t'" "resolved_facts t cid facts"
    and "\<And>r. rr_clientOrderId (f r) = rr_clientOrderId r"
  shows "resolved_facts t' cid facts"
proof -
  obtain r where r: "r \<in> set t" "rr_clientOrderId r = cid" "rr_status r = RecResolved"
    "facts = (rr_resolvedOutcome r, rr_filledQuantity r, rr_averagePrice r)"
    using assms(2) by (auto simp: resolved_facts_def)
  define x where "x = (if P r then f r else r)"
  have "x \<in> set t'" using assms(1) r(1) by (auto simp: db_update_Inr x_def)
  moreover have "rr_clientOrderId x = cid" using r assms(3) by (simp add: x_def)
  moreover have "rr_status x = RecResolved \<and> facts = (rr_resolvedOutcome x, rr_filledQuantity x, rr_averagePrice x)"
    using assms(1) r by (auto simp: db_update_Inr x_def terminal_trigger_def)
  ultimately show ?thesis by (auto simp: resolved_facts_def)
qed

lemma lease_facts:
  assumes "leaseDueReconciliation w now ms t = Inr (t', res)" "table_ok t" "resolved_facts t cid facts"
  shows "resolved_facts t' cid facts"
proof (cases res)
  case None
  then show ?thesis
    using assms by (auto simp: leaseDueReconciliation_def Let_def split: option.splits list.splits)
next
  case (Some r')
  with assms(1) obtain r where r: "r \<in> set t" "lease_due now r"
    "t' = map (\<lambda>x. if rr_id x = rr_id r then r' else x) t" by (auto elim: leased_Some)
  obtain x where x: "x \<in> set t" "rr_clientOrderId x = cid" "rr_status x = RecResolved"
    "facts = (rr_resolvedOutcome x, rr_filledQuantity x, rr_averagePrice x)"
    using assms(3) by (auto simp: resolved_facts_def)
  have "rr_id x \<noteq> rr_id r"
    using x(1,3) r(1,2) assms(2) by (auto simp: table_ok_def lease_due_def distinct_map dest: inj_onD)
  then have "x \<in> set t'" using x(1) r(3) by force
  then show ?thesis using x by (auto simp: resolved_facts_def)
qed

lemma store_step_facts:
  assumes "store_step t t'" "table_ok t" "resolved_facts t cid facts"
  shows "resolved_facts t' cid facts"
  using assms(1)
proof (cases rule: store_step.cases)
  case (step_enqueue uuid db_now input b)
  then obtain stamp where "t' = t @ [new_row uuid input stamp] \<or> t' = t" by (metis enqueue_Inr)
  then show ?thesis using assms(3) by (auto simp: resolved_facts_def)
next
  case step_lease
  then show ?thesis using assms(2,3) by (rule lease_facts)
next
  case step_apply
  then show ?thesis using db_update_facts [OF apply_is_update assms(3)] by simp
next
  case step_acknowledge
  then show ?thesis using assms(3)
    by (auto simp: acknowledgeReconciliationEscalation_def ebind_Inr_iff intro: db_update_facts)
qed

lemma store_history_facts:
  "store_history t t' \<Longrightarrow> table_ok t \<Longrightarrow> resolved_facts t cid facts \<Longrightarrow> resolved_facts t' cid facts"
  by (induction rule: store_history.induct) (auto intro: store_step_facts store_history_ok)

lemma resolved_facts_unique:
  "table_ok t \<Longrightarrow> resolved_facts t cid a \<Longrightarrow> resolved_facts t cid b \<Longrightarrow> a = b"
  by (auto simp: resolved_facts_def table_ok_def distinct_map dest: inj_onD)

subsection \<open>What the open reconciliations block\<close>

lemma entry_admitted_iff:
  "allowed (admitNewEntry (loadAccountReconciliationState acct t) smb) \<longleftrightarrow>
     (\<forall>r \<in> set t. rr_accountId r = acct \<longrightarrow>
        \<not> (rr_status r = RecEscalated \<and> rr_acknowledgedAt r = None)
        \<and> \<not> (rr_status r = RecPending \<and> rr_symbol r = smb))"
  by (auto simp: admitNewEntry_iff loadAccountReconciliationState_def Let_def list_ex_iff)

subsection \<open>The worker makes progress\<close>

text \<open>
  The attempts that the pending rows have left, under a policy of \<open>m\<close> attempts: every cycle that
  returns a decision uses one up, so that a table without new orders is drained.
\<close>

definition attempts_left :: "int \<Rightarrow> reconciliation_row \<Rightarrow> nat" where
  "attempts_left m r = (if rr_status r = RecPending then nat (m - rr_attemptCount r) else 0)"

definition pending_below :: "int \<Rightarrow> table \<Rightarrow> bool" where
  "pending_below m t \<longleftrightarrow> (\<forall>r \<in> set t. rr_status r = RecPending \<longrightarrow> rr_attemptCount r < m)"

definition total_left :: "int \<Rightarrow> table \<Rightarrow> nat" where
  "total_left m t = sum_list (map (attempts_left m) t)"

lemma sum_list_less:
  assumes "x \<in> set xs" "g (f x) < (g x :: nat)" "\<And>y. y \<in> set xs \<Longrightarrow> g (f y) \<le> g y"
  shows "sum_list (map g (map f xs)) < sum_list (map g xs)"
  using assms
proof (induction xs)
  case Nil
  then show ?case by simp
next
  case (Cons a xs)
  have le: "sum_list (map g (map f xs)) \<le> sum_list (map g xs)"
    using Cons.prems(3) by (simp add: sum_list_mono)
  show ?case
  proof (cases "x \<in> set xs")
    case True
    then show ?thesis using Cons by (simp add: add_le_less_mono)
  next
    case False
    then have "a = x" using Cons.prems(1) by simp
    then show ?thesis using Cons.prems(2) le by (simp add: add_less_le_mono)
  qed
qed

definition deps_policy :: "'c worker_deps \<Rightarrow> reconciliation_policy" where
  "deps_policy deps = (case wd_policy deps of Some p \<Rightarrow> p | None \<Rightarrow> DEFAULT_RECONCILIATION_POLICY)"

lemma process_Some:
  assumes p: "processNextReconciliation now deps t = (t', Inr (Some (cid, d)))" and ok: "table_ok t"
  obtains r ext b u where "r \<in> set t" "lease_due now r" "rr_clientOrderId r = cid"
    "decideReconciliation (row_record r) (fst (observe r deps)) (N (of_int now)) (deps_policy deps) = Inr d"
    "t' = map (\<lambda>x. if rr_id x = rr_id r then decided_row d now ext
       (r\<lparr>rr_leasedBy := b, rr_leasedUntil := u\<rparr>) else x) t"
proof -
  define ms where "ms = (case wd_leaseMs deps of Some ms \<Rightarrow> ms | None \<Rightarrow> N 60000)"
  obtain t1 r' where l: "leaseDueReconciliation (workerId deps) now ms t = Inr (t1, Some r')"
    and d: "decideReconciliation (row_record r') (fst (observe r' deps)) (N (of_int now)) (deps_policy deps) = Inr d"
    and a: "applyReconciliationDecision (rr_id r') d now (snd (observe r' deps)) t1 = Inr t'"
    and c: "rr_clientOrderId r' = cid"
    using p by (auto simp: processNextReconciliation_def ms_def deps_policy_def
        split: sum.splits option.splits prod.splits)
  obtain r u where r: "r \<in> set t" "lease_due now r"
    "r' = r\<lparr>rr_leasedBy := Some (workerId deps), rr_leasedUntil := Some u\<rparr>"
    "t1 = map (\<lambda>x. if rr_id x = rr_id r then r' else x) t"
    using l by (rule leased_Some)
  have t': "t' = map (\<lambda>x. if rr_id x = rr_id r then decided_row d now (snd (observe r' deps)) x else x) t1"
    using apply_is_update [OF a] r(3) by (simp add: db_update_Inr)
  have rec: "row_record r' = row_record r" "observe r' deps = observe r deps"
    by (simp_all add: r(3) row_record_def observe_def split: option.split sum.split)
  show thesis
    using r(1,2) c d unfolding rec
    by (intro that [where r = r and ext = "snd (observe r' deps)" and b = "Some (workerId deps)" and u = "Some u"])
      (auto simp: r(3,4) t')
qed

lemma decided_row_left:
  assumes d: "decideReconciliation (row_record r) obs nowMs p = Inr d" and m: "maxAttempts p = N (of_int m)"
    and r: "rr_status r = RecPending" "rr_attemptCount r < m"
    and y: "y = decided_row d now ext (r\<lparr>rr_leasedBy := b, rr_leasedUntil := u\<rparr>)"
  shows "attempts_left m y < attempts_left m r"
    and "rr_status y = RecPending \<Longrightarrow> rr_attemptCount y < m"
proof -
  have "rr_status y = RecPending \<Longrightarrow> rr_attemptCount y = rr_attemptCount r + 1 \<and> rr_attemptCount y < m"
    using decide_retry [of "row_record r" obs nowMs p] d m
    by (cases d) (auto simp: y decided_row_def row_updates row_record_def exhausted_def)
  then show "attempts_left m y < attempts_left m r" "rr_status y = RecPending \<Longrightarrow> rr_attemptCount y < m"
    using r by (auto simp: attempts_left_def)
qed

lemma process_progress:
  assumes p: "processNextReconciliation now deps t = (t', Inr (Some (cid, d)))" and ok: "table_ok t"
    and m: "maxAttempts (deps_policy deps) = N (of_int m)" and below: "pending_below m t"
  shows "total_left m t' < total_left m t" and "pending_below m t'"
proof -
  obtain r ext b u where r: "r \<in> set t" "lease_due now r"
    "decideReconciliation (row_record r) (fst (observe r deps)) (N (of_int now)) (deps_policy deps) = Inr d"
    "t' = map (\<lambda>x. if rr_id x = rr_id r then decided_row d now ext
       (r\<lparr>rr_leasedBy := b, rr_leasedUntil := u\<rparr>) else x) t"
    using p ok by (rule process_Some)
  have pend: "rr_status r = RecPending" "rr_attemptCount r < m"
    using r(1,2) below by (auto simp: lease_due_def pending_below_def)
  note left = decided_row_left [OF r(3) m pend refl, where now = now and ext = ext and b = b and u = u]
  have same: "x = r" if "x \<in> set t" "rr_id x = rr_id r" for x
    using that r(1) ok by (auto simp: table_ok_def distinct_map dest: inj_onD)
  have "sum_list (map (attempts_left m) t') < sum_list (map (attempts_left m) t)"
    unfolding r(4) using r(1) left(1) same by (intro sum_list_less [of r]) (auto dest: less_imp_le)
  then show "total_left m t' < total_left m t" by (simp add: total_left_def)
  show "pending_below m t'" using below left(2) by (auto simp: pending_below_def r(4))
qed

lemma process_ok:
  assumes "processNextReconciliation now deps t = (t', res)" "table_ok t"
  shows "table_ok t'"
  using assms by (auto simp: processNextReconciliation_def split: sum.splits option.splits prod.splits
      dest: lease_ok intro: apply_ok)

lemma drain_progress:
  assumes "drainReconciliations envs n t = (t', Inr k)" "table_ok t" "pending_below m t"
    and "\<forall>(now, deps) \<in> set envs. maxAttempts (deps_policy deps) = N (of_int m)"
  shows "k + total_left m t' \<le> n + total_left m t"
  using assms
proof (induction envs arbitrary: n t)
  case Nil
  then show ?case by simp
next
  case (Cons e rest)
  obtain now deps where e: "e = (now, deps)" by (cases e)
  obtain t1 res where p: "processNextReconciliation now deps t = (t1, Inr res)"
    using Cons.prems(1) e by (cases "processNextReconciliation now deps t")
      (auto split: sum.splits)
  show ?case
  proof (cases res)
    case None
    then have "t1 = t \<or> total_left m t1 = total_left m t"
      using p by (auto simp: processNextReconciliation_def leaseDueReconciliation_def Let_def
          split: sum.splits option.splits prod.splits list.splits)
    then show ?thesis using None p Cons.prems(1) e by auto
  next
    case (Some cd)
    obtain cid d where "cd = (cid, d)" by (cases cd)
    with Some p have p': "processNextReconciliation now deps t = (t1, Inr (Some (cid, d)))" by simp
    have m: "maxAttempts (deps_policy deps) = N (of_int m)" using Cons.prems(4) e by auto
    note pr = process_progress [OF p' Cons.prems(2) m Cons.prems(3)]
    have "k + total_left m t' \<le> (n + 1) + total_left m t1"
      using Cons.IH [of "n + 1" t1] Cons.prems(1,2,4) pr(2) p' e process_ok [OF p'] by auto
    with pr(1) show ?thesis by simp
  qed
qed

text \<open>
  A cycle whose decision throws leaves the row as it was, but for the lease: no attempt is counted
  and nothing escalates.
\<close>

lemma process_throws_uncounted:
  assumes l: "leaseDueReconciliation (workerId deps) now
      (case wd_leaseMs deps of Some ms \<Rightarrow> ms | None \<Rightarrow> N 60000) t = Inr (t1, Some r)"
    and d: "decideReconciliation (row_record r) (fst (observe r deps)) (N (of_int now)) (deps_policy deps) = Inl e"
  shows "processNextReconciliation now deps t = (t1, Inl e)"
  using l d by (simp add: processNextReconciliation_def deps_policy_def)

subsection \<open>The abstract ledger of fates\<close>

text \<open>
  What the rest of the system relies on: a ledger that knows the fate of each order. A new order is
  waiting; a fate that is not settled may move; a settled fate never does. The table implements it.
\<close>

datatype fate =
    Waiting
  | SettledAs "execution_outcome option" "jsnum option" "jsnum option"
  | NeedsHuman

definition fate_of :: "reconciliation_row \<Rightarrow> fate" where
  "fate_of r = (case rr_status r of RecPending \<Rightarrow> Waiting | RecEscalated \<Rightarrow> NeedsHuman
     | RecResolved \<Rightarrow> SettledAs (rr_resolvedOutcome r) (rr_filledQuantity r) (rr_averagePrice r))"

definition fates :: "table \<Rightarrow> string \<rightharpoonup> fate" where
  "fates t cid = map_option fate_of (find (\<lambda>r. rr_clientOrderId r = cid) t)"

inductive fate_step :: "(string \<rightharpoonup> fate) \<Rightarrow> (string \<rightharpoonup> fate) \<Rightarrow> bool" where
  fate_same: "fate_step m m"
| fate_new: "m cid = None \<Longrightarrow> fate_step m (m(cid \<mapsto> Waiting))"
| fate_move: "m cid = Some f \<Longrightarrow> f = Waiting \<or> f = NeedsHuman \<Longrightarrow> fate_step m (m(cid \<mapsto> f'))"

lemma fates_map:
  assumes "\<And>r. r \<in> set t \<Longrightarrow> rr_clientOrderId (g r) = rr_clientOrderId r \<and> fate_of (g r) = fate_of r"
  shows "fates (map g t) = fates t"
  using assms by (induction t) (auto simp: fates_def fun_eq_iff)

lemma fates_append: "fates (t @ [r]) = (if fates t (rr_clientOrderId r) = None
    then (fates t)(rr_clientOrderId r \<mapsto> fate_of r) else fates t)"
  by (induction t) (auto simp: fates_def fun_eq_iff)

lemma fates_one:
  assumes "distinct (map rr_clientOrderId t)" "r \<in> set t"
    and "rr_clientOrderId (g r) = rr_clientOrderId r" "\<And>x. x \<in> set t \<Longrightarrow> x \<noteq> r \<Longrightarrow> g x = x"
  shows "fates t (rr_clientOrderId r) = Some (fate_of r)"
    and "fates (map g t) = (fates t)(rr_clientOrderId r \<mapsto> fate_of (g r))"
proof -
  have "fates t (rr_clientOrderId r) = Some (fate_of r)
    \<and> fates (map g t) = (fates t)(rr_clientOrderId r \<mapsto> fate_of (g r))"
    using assms
  proof (induction t)
    case Nil
    then show ?case by simp
  next
    case (Cons a t)
    show ?case
    proof (cases "a = r")
      case True
      then have "map g t = t" using Cons.prems by (intro map_idI) auto
      then show ?thesis using True Cons.prems(3) by (auto simp: fates_def fun_eq_iff)
    next
      case False
      then have "r \<in> set t" "g a = a" "rr_clientOrderId a \<noteq> rr_clientOrderId r" using Cons.prems by auto
      then show ?thesis using Cons by (auto simp: fates_def fun_eq_iff)
    qed
  qed
  then show "fates t (rr_clientOrderId r) = Some (fate_of r)"
    "fates (map g t) = (fates t)(rr_clientOrderId r \<mapsto> fate_of (g r))" by blast+
qed

lemma fate_moves:
  assumes "terminal_trigger r r'"
  shows "fate_of r = Waiting \<or> fate_of r = NeedsHuman \<or> fate_of r' = fate_of r"
  using assms by (auto simp: terminal_trigger_def fate_of_def split: reconciliation_status.splits)

lemma db_update_fates:
  assumes u: "db_update (\<lambda>r. rr_id r = rid) f t = Inr t'" and ok: "table_ok t"
    and f: "\<And>r. rr_clientOrderId (f r) = rr_clientOrderId r"
  shows "fate_step (fates t) (fates t')"
proof (cases "rid \<in> set (map rr_id t)")
  case False
  then have "t' = t" using u by (auto simp: db_update_Inr intro!: map_idI)
  then show ?thesis by (simp add: fate_same)
next
  case True
  then obtain r where r: "r \<in> set t" "rr_id r = rid" by auto
  define g where "g x = (if rr_id x = rid then f x else x)" for x
  have t': "t' = map g t" "terminal_trigger r (f r)" using u r by (auto simp: db_update_Inr g_def)
  have "rr_clientOrderId (g r) = rr_clientOrderId r" using f by (simp add: g_def)
  moreover have "g x = x" if "x \<in> set t" "x \<noteq> r" for x
    using that r ok by (auto simp: g_def table_ok_def distinct_map dest: inj_onD)
  ultimately have e: "fates t (rr_clientOrderId r) = Some (fate_of r)"
    "fates t' = (fates t)(rr_clientOrderId r \<mapsto> fate_of (f r))"
    using fates_one [of t r g] ok r by (auto simp: table_ok_def t'(1) g_def)
  from fate_moves [OF t'(2)] consider "fate_of r = Waiting \<or> fate_of r = NeedsHuman" | "fate_of (f r) = fate_of r"
    by blast
  then show ?thesis
  proof cases
    case 1
    then show ?thesis using e by (auto intro: fate_move)
  next
    case 2
    then have "fates t' = fates t" using e by (simp add: fun_upd_idem_iff)
    then show ?thesis by (simp add: fate_same)
  qed
qed

lemma lease_fates:
  assumes "leaseDueReconciliation w now ms t = Inr (t', res)" "table_ok t"
  shows "fates t' = fates t"
proof (cases res)
  case None
  then show ?thesis using assms
    by (auto simp: leaseDueReconciliation_def Let_def split: option.splits list.splits)
next
  case (Some r')
  with assms(1) obtain r u where r: "r \<in> set t" "r' = r\<lparr>rr_leasedBy := Some w, rr_leasedUntil := Some u\<rparr>"
    "t' = map (\<lambda>x. if rr_id x = rr_id r then r' else x) t" by (auto elim: leased_Some)
  have "x = r" if "x \<in> set t" "rr_id x = rr_id r" for x
    using that r(1) assms(2) by (auto simp: table_ok_def distinct_map dest: inj_onD)
  moreover have "rr_clientOrderId r' = rr_clientOrderId r \<and> fate_of r' = fate_of r"
    by (simp add: r(2) fate_of_def split: reconciliation_status.split)
  ultimately show ?thesis unfolding r(3) by (intro fates_map) (metis (full_types))
qed

lemma acknowledge_fates:
  assumes "acknowledgeReconciliationEscalation cid actor now t = Inr (t', b)"
  shows "fates t' = fates t"
proof -
  have "t' = map (\<lambda>r. if ack_target cid r then r\<lparr>rr_acknowledgedAt := Some now, rr_acknowledgedBy := Some actor\<rparr>
      else r) t"
    using assms by (auto simp: acknowledgeReconciliationEscalation_def ebind_Inr_iff db_update_Inr)
  then show ?thesis by (auto simp: fate_of_def split: reconciliation_status.split intro!: fates_map)
qed

lemma enqueue_fates:
  assumes "enqueueReconciliation uuid db_now input t = Inr (t', b)"
  shows "fate_step (fates t) (fates t')"
  using assms
proof (rule enqueue_Inr)
  fix stamp
  assume a: "b \<Longrightarrow> t' = t @ [new_row uuid input stamp] \<and> uuid \<notin> set (map rr_id t)" "\<not> b \<Longrightarrow> t' = t"
  have "fate_of (new_row uuid input stamp) = Waiting" by (simp add: fate_of_def)
  then show ?thesis
    using a by (cases b) (auto simp: fates_append intro: fate_same fate_new)
qed

lemma store_step_fates: "store_step t t' \<Longrightarrow> table_ok t \<Longrightarrow> fate_step (fates t) (fates t')"
proof (erule store_stepE)
  fix rid d now ext
  assume a: "applyReconciliationDecision rid d now ext t = Inr t'" "table_ok t"
  show "fate_step (fates t) (fates t')"
    by (rule db_update_fates [OF apply_is_update [OF a(1)] a(2)]) simp
qed (auto simp: lease_fates acknowledge_fates intro: enqueue_fates fate_same)

subsection \<open>Properties\<close>


definition sample_enqueue :: "string \<Rightarrow> enqueue_input" where
  "sample_enqueue coid = \<lparr>eq_clientOrderId = coid, eq_accountId = ''a1'', eq_customerId = ''c1'',
     eq_exchange = ''okx'', eq_symbol = ''BTC/USDT'', eq_requestedQuantity = N 5, eq_decisionRoundId = None,
     eq_portfolioId = None, eq_intentId = None, eq_externalOrderId = None, eq_now = None\<rparr>"

definition sample_row :: reconciliation_row where
  "sample_row = new_row ''u1'' (sample_enqueue ''RV1'') 0"

definition sample_resolution :: resolution where
  "sample_resolution = \<lparr>rv_outcome = OutFilled, rv_filledQuantity = N 5, rv_averagePrice = N 100,
     rv_feeAmount = N 1, rv_rejectionReason = None\<rparr>"

definition sample_settled :: reconciliation_row where
  "sample_settled = resolved_row sample_resolution 7 None sample_row"

lemmas sample_row_defs = sample_settled_def sample_resolution_def sample_row_def sample_enqueue_def
  resolved_row_def new_row_def

lemma sample_history:
  "store_history [] [sample_settled]" "table_ok [sample_settled]" "store_history [] []" "table_ok []"
proof -
  have a: "enqueueReconciliation ''u1'' 0 (sample_enqueue ''RV1'') [] = Inr ([sample_row], True)"
    by (simp add: enqueueReconciliation_def sample_row_defs row_checks_def opt_nonneg_def)
  have b: "applyReconciliationDecision ''u1'' (Resolve sample_resolution) 7 None [sample_row]
      = Inr [sample_settled]"
    by (simp add: applyReconciliationDecision_def db_update_def terminal_trigger_def row_checks_def
        opt_nonneg_def sample_row_defs)
  show "store_history [] []" "table_ok []" by (auto simp: table_ok_def intro: history_start)
  show "store_history [] [sample_settled]"
    by (rule history_step [OF history_step [OF history_start step_enqueue [OF a]] step_apply [OF b]])
  then show "table_ok [sample_settled]" by (rule store_history_ok) (simp add: table_ok_def)
qed






text \<open>A new entry is admitted exactly when the account has no unacknowledged escalation and
no reconciliation pending on that symbol.\<close>

theorem entry_admission_exact:
  "allowed (admitNewEntry (loadAccountReconciliationState acct t) smb) \<longleftrightarrow>
     (\<forall>r \<in> set t. \<not> (rr_accountId r = acct \<and>
        (rr_status r = RecEscalated \<and> rr_acknowledgedAt r = None \<or> rr_status r = RecPending \<and> rr_symbol r = smb)))"
  unfolding entry_admitted_iff by blast

theorem entry_admission_exact_witness:
  "allowed (admitNewEntry (loadAccountReconciliationState ''a1'' [sample_settled]) ''BTC/USDT'')
     \<and> \<not> allowed (admitNewEntry (loadAccountReconciliationState ''a1'' [sample_row]) ''BTC/USDT'')"
  unfolding entry_admission_exact by (simp add: sample_row_defs)


definition sample_deps :: "unit worker_deps" where
  "sample_deps = \<lparr>workerId = ''w1'', wd_loadCredential = (\<lambda>_ _. Inr ()), wd_adapterFor = (\<lambda>_. None),
     wd_policy = None, wd_leaseMs = None\<rparr>"


text \<open>A report the decision cannot classify makes the cycle throw before it writes anything:
the table is the one with the lease taken, so the attempt is not counted and nothing escalates.\<close>

theorem throwing_decision_uncounted:
  assumes "leaseDueReconciliation (workerId deps) now
      (case wd_leaseMs deps of Some ms \<Rightarrow> ms | None \<Rightarrow> N 60000) t = Inr (t1, Some r)"
    and "fst (observe r deps) = OrderFound st f p fee" "isTerminal st" "N 0 < f" "p \<le> N 0"
    and "is_finite f" "is_finite p" "is_finite (rr_requestedQuantity r)" "N 0 < rr_requestedQuantity r"
  shows "processNextReconciliation now deps t = (t1, Inl ''FILL_AVERAGE_PRICE_INVALID'')"
proof (rule process_throws_uncounted [OF assms(1)])
  have "\<not> f < N 0" "\<not> js_eq f (N 0)" "\<not> rr_requestedQuantity r \<le> N 0"
    using assms(4,6,8,9) by (auto simp: is_finite_iff)
  then show "decideReconciliation (row_record r) (fst (observe r deps)) (N (of_int now)) (deps_policy deps)
      = Inl ''FILL_AVERAGE_PRICE_INVALID''"
    using assms(2,3,5-9)
    by (simp add: decideReconciliation_def classifyFill_def assertFinite_def row_record_def Let_def)
qed

definition zero_price_deps :: "unit worker_deps" where
  "zero_price_deps = sample_deps\<lparr>wd_adapterFor := (\<lambda>_. Some (\<lambda>_ _ _. Inr (Some
     \<lparr>ao_externalOrderId = None, ao_state = StFilled, ao_filledQuantity = N 5, ao_averagePrice = N 0,
      ao_feeAmount = N 0\<rparr>)))\<rparr>"

theorem throwing_decision_uncounted_witness:
  "\<exists>t1. processNextReconciliation 0 zero_price_deps [sample_row] = (t1, Inl ''FILL_AVERAGE_PRICE_INVALID'')
     \<and> map rr_attemptCount t1 = [0]"
proof -
  have l: "leaseDueReconciliation (workerId zero_price_deps) 0
      (case wd_leaseMs zero_price_deps of Some ms \<Rightarrow> ms | None \<Rightarrow> N 60000) [sample_row]
      = Inr ([sample_row\<lparr>rr_leasedBy := Some ''w1'', rr_leasedUntil := Some 60000\<rparr>],
             Some (sample_row\<lparr>rr_leasedBy := Some ''w1'', rr_leasedUntil := Some 60000\<rparr>))"
    by (simp add: leaseDueReconciliation_def zero_price_deps_def sample_deps_def max_time_def
        lease_due_def sample_row_defs Let_def)
  have "processNextReconciliation 0 zero_price_deps [sample_row]
      = ([sample_row\<lparr>rr_leasedBy := Some ''w1'', rr_leasedUntil := Some 60000\<rparr>],
         Inl ''FILL_AVERAGE_PRICE_INVALID'')"
    by (rule throwing_decision_uncounted [OF l, where st = StFilled and f = "N 5" and p = "N 0" and fee = "N 0"])
      (simp_all add: observe_def zero_price_deps_def sample_deps_def isTerminal_def sample_row_defs)
  then show ?thesis by (simp add: sample_row_defs)
qed

end
