(* ===== verification/LiveAdmission.thy ===== *)
theory LiveAdmission
  imports ReconciliationStore
begin

text \<open>
  The gates in front of a live order: kill switches and the single admission function
  (\<open>execution/kill-switch.ts\<close>), live routing (\<open>live-routing.ts\<close>), the readiness list
  (\<open>live-readiness.ts\<close>) and the preconditions of a live deployment (\<open>live-activation.ts\<close>).
  Blockers are their codes; the texts shown to operators are not modelled.
\<close>

subsection \<open>Gates and exits\<close>

text \<open>
  Every gate of the live path answers one question, and all of them share one contract: a query
  that closes a position passes.
\<close>

locale exit_gate =
  fixes passes :: "'q \<Rightarrow> bool" and is_exit :: "'q \<Rightarrow> bool"
  assumes exit_passes: "is_exit q \<Longrightarrow> passes q"
begin

lemma blocked_is_entry: "\<not> passes q \<Longrightarrow> \<not> is_exit q"
  using exit_passes by blast

lemma exits_pass: "list_all is_exit qs \<Longrightarrow> filter passes qs = qs"
  by (induction qs) (auto intro: exit_passes)

end

subsection \<open>Kill switches\<close>

datatype kill_switch_dimension = DimExchange | DimAccount | DimStrategy

record active_kill_switch =
  ks_dimension :: kill_switch_dimension
  ks_scopeValue :: string
  ks_reason :: string

record order_context =
  ctx_exchange :: string
  ctx_accountId :: string
  ctx_strategyCode :: "string option"

definition scopeValueFor :: "kill_switch_dimension \<Rightarrow> order_context \<Rightarrow> string option" where
  "scopeValueFor d c = (case d of DimExchange \<Rightarrow> Some (ctx_exchange c)
     | DimAccount \<Rightarrow> Some (ctx_accountId c) | DimStrategy \<Rightarrow> ctx_strategyCode c)"

definition switch_matches :: "active_kill_switch \<Rightarrow> order_context \<Rightarrow> bool" where
  "switch_matches e c = (case scopeValueFor (ks_dimension e) c of
     None \<Rightarrow> False
   | Some v \<Rightarrow> if ks_dimension e = DimExchange then js_lower (ks_scopeValue e) = js_lower v
       else ks_scopeValue e = v)"

definition resolveKillSwitch ::
    "active_kill_switch list \<Rightarrow> order_context \<Rightarrow> bool \<times> active_kill_switch option" where
  "resolveKillSwitch switches c = (let matched = find (\<lambda>e. switch_matches e c) switches
     in (matched \<noteq> None, matched))"

definition dimension_text :: "kill_switch_dimension \<Rightarrow> string" where
  "dimension_text d = (case d of DimExchange \<Rightarrow> ''exchange'' | DimAccount \<Rightarrow> ''account''
     | DimStrategy \<Rightarrow> ''strategy'')"

record order_admission_input =
  oa_side :: order_side
  oa_context :: order_context
  oa_symbol :: string
  oa_killSwitches :: "active_kill_switch list"
  oa_reconciliation :: account_reconciliation_state

definition admitOrder :: "order_admission_input \<Rightarrow> entry_admission" where
  "admitOrder input =
     (if oa_side input = Sell then \<lparr>allowed = True, adm_reason = None\<rparr>
      else (case resolveKillSwitch (oa_killSwitches input) (oa_context input) of
          (True, Some k) \<Rightarrow> \<lparr>allowed = False,
            adm_reason = Some (''KILL_SWITCH_'' @ js_upper (dimension_text (ks_dimension k)))\<rparr>
        | _ \<Rightarrow> admitNewEntry (oa_reconciliation input) (oa_symbol input)))"

lemma admitOrder_buy:
  assumes "oa_side input = Buy"
  shows "allowed (admitOrder input) \<longleftrightarrow>
    (\<forall>k \<in> set (oa_killSwitches input). \<not> switch_matches k (oa_context input))
    \<and> \<not> hasEscalated (oa_reconciliation input)
    \<and> oa_symbol input \<notin> set (pendingSymbols (oa_reconciliation input))"
proof (cases "find (\<lambda>e. switch_matches e (oa_context input)) (oa_killSwitches input)")
  case None
  then have "admitOrder input = admitNewEntry (oa_reconciliation input) (oa_symbol input)"
    using assms by (simp add: admitOrder_def resolveKillSwitch_def Let_def)
  then show ?thesis using None by (simp add: admitNewEntry_iff find_None_all)
next
  case (Some k)
  then have "\<not> allowed (admitOrder input)"
    using assms by (simp add: admitOrder_def resolveKillSwitch_def Let_def)
  then show ?thesis using find_Some_set [OF Some] by blast
qed

lemma admitOrder_sell: "oa_side input = Sell \<Longrightarrow> admitOrder input = \<lparr>allowed = True, adm_reason = None\<rparr>"
  by (simp add: admitOrder_def)

lemma admitOrder_reason: "adm_reason (admitOrder input) = None \<longleftrightarrow> allowed (admitOrder input)"
  by (auto simp: admitOrder_def admitNewEntry_def split: prod.splits bool.splits option.splits)

interpretation order_gate: exit_gate "\<lambda>i. allowed (admitOrder i)" "\<lambda>i. oa_side i = Sell"
  by unfold_locales (simp add: admitOrder_sell)

subsection \<open>Live routing\<close>

datatype execution_product = SpotUsdt | UsdtPerpetual

datatype exchange_environment = EnvDemo | EnvLive

record live_routing_grant =
  lg_exchange :: string
  lg_environment :: exchange_environment

record live_routing_query =
  lr_exchange :: string
  lr_environment :: exchange_environment
  lr_product :: execution_product
  lr_grants :: "live_routing_grant list"
  lr_side :: order_side

definition isRoutableProduct :: "execution_product \<Rightarrow> bool" where
  "isRoutableProduct p \<longleftrightarrow> p = SpotUsdt"

definition resolveLiveRouting :: "live_routing_query \<Rightarrow> entry_admission" where
  "resolveLiveRouting q =
     (if \<not> isRoutableProduct (lr_product q)
      then \<lparr>allowed = False, adm_reason = Some ''PERPETUAL_ROUTING_FORBIDDEN''\<rparr>
      else if lr_side q = Sell then \<lparr>allowed = True, adm_reason = None\<rparr>
      else let ex = js_lower (js_trim (lr_exchange q)) in
        if ex = [] then \<lparr>allowed = False, adm_reason = Some ''EXCHANGE_UNKNOWN''\<rparr>
        else if \<not> list_ex (\<lambda>g. js_lower (js_trim (lg_exchange g)) = ex
          \<and> lg_environment g = lr_environment q) (lr_grants q)
        then \<lparr>allowed = False, adm_reason = Some (if lr_environment q = EnvLive
          then ''LIVE_ROUTING_NOT_GRANTED'' else ''DEMO_ROUTING_NOT_GRANTED'')\<rparr>
        else \<lparr>allowed = True, adm_reason = None\<rparr>)"

definition grant_covers :: "live_routing_grant \<Rightarrow> live_routing_query \<Rightarrow> bool" where
  "grant_covers g q \<longleftrightarrow> js_lower (js_trim (lg_exchange g)) = js_lower (js_trim (lr_exchange q))
     \<and> lg_environment g = lr_environment q"

lemma resolveLiveRouting_iff:
  "allowed (resolveLiveRouting q) \<longleftrightarrow> lr_product q = SpotUsdt \<and> (lr_side q = Sell
     \<or> js_trim (lr_exchange q) \<noteq> [] \<and> (\<exists>g \<in> set (lr_grants q). grant_covers g q))"
  by (auto simp: resolveLiveRouting_def isRoutableProduct_def Let_def list_ex_iff grant_covers_def
      js_lower_def)

interpretation routing_gate: exit_gate "\<lambda>q. allowed (resolveLiveRouting q)"
  "\<lambda>q. lr_side q = Sell \<and> isRoutableProduct (lr_product q)"
  by unfold_locales (simp add: resolveLiveRouting_def)

subsection \<open>Readiness\<close>

definition LIVE_EXECUTION_BLOCKERS :: "string list" where
  "LIVE_EXECUTION_BLOCKERS = [''EXCHANGE_BALANCE_NOT_RECONCILED'', ''LIVE_ACTIVATION_ENTRY_MISSING'',
     ''NEVER_EXECUTED_AGAINST_REAL_EXCHANGE'']"

definition isLiveExecutionReady :: bool where
  "isLiveExecutionReady \<longleftrightarrow> length LIVE_EXECUTION_BLOCKERS = 0"

lemma not_live_ready: "\<not> isLiveExecutionReady"
  by (simp add: isLiveExecutionReady_def LIVE_EXECUTION_BLOCKERS_def)

subsection \<open>Activation of a live deployment\<close>

record live_account =
  la_status :: string
  la_environment :: string
  la_exchange :: string
  la_canTrade :: bool
  la_withdrawalAuthorized :: bool
  la_verifiedAt :: "string option"

record live_activation_input =
  lv_account :: live_account
  declaredPrincipalUsdt :: jsnum
  observedBalanceUsdt :: "jsnum option"
  membershipAllowsNewEntries :: bool
  riskAcknowledged :: bool
  liveRoutingGranted :: bool
  hasActivePaperDeploymentOnCard :: bool

definition MIN_LIVE_PRINCIPAL_USDT :: jsnum where "MIN_LIVE_PRINCIPAL_USDT = N 100"

definition PRINCIPAL_OVER_DECLARATION_TOLERANCE :: jsnum where
  "PRINCIPAL_OVER_DECLARATION_TOLERANCE = N 0"

definition push_if :: "bool \<Rightarrow> 'a \<Rightarrow> 'a list" where
  "push_if b x = (if b then [x] else [])"

lemma push_if_empty [simp]: "(push_if b x = []) = (\<not> b)"
  by (cases b) (simp_all add: push_if_def)

lemma set_push_if [simp]: "set (push_if b x) = (if b then {x} else {})"
  by (cases b) (simp_all add: push_if_def)

definition checkLiveActivation :: "live_activation_input \<Rightarrow> string list" where
  "checkLiveActivation input = (let account = lv_account input; principal = declaredPrincipalUsdt input in
     push_if (la_status account \<noteq> ''active'') ''ACCOUNT_NOT_ACTIVE''
     @ push_if (la_environment account \<noteq> ''live'') ''ACCOUNT_NOT_LIVE_ENVIRONMENT''
     @ push_if (\<not> la_canTrade account) ''ACCOUNT_CANNOT_TRADE''
     @ push_if (la_withdrawalAuthorized account) ''ACCOUNT_HAS_WITHDRAWAL_PERMISSION''
     @ push_if (la_verifiedAt account = None \<or> la_verifiedAt account = Some '''') ''ACCOUNT_NOT_VERIFIED''
     @ (if \<not> is_finite principal \<or> principal < MIN_LIVE_PRINCIPAL_USDT then [''PRINCIPAL_BELOW_MINIMUM'']
        else (case observedBalanceUsdt input of
            None \<Rightarrow> [''BALANCE_UNAVAILABLE'']
          | Some balance \<Rightarrow> push_if (balance * (N 1 + PRINCIPAL_OVER_DECLARATION_TOLERANCE) < principal)
              ''PRINCIPAL_EXCEEDS_BALANCE''))
     @ push_if (\<not> membershipAllowsNewEntries input) ''MEMBERSHIP_NOT_ACTIVE''
     @ push_if (\<not> riskAcknowledged input) ''RISK_NOT_ACKNOWLEDGED''
     @ push_if (\<not> liveRoutingGranted input) ''LIVE_ROUTING_NOT_GRANTED''
     @ push_if (hasActivePaperDeploymentOnCard input) ''PAPER_DEPLOYMENT_STILL_ACTIVE'')"

definition canActivateLive :: "live_activation_input \<Rightarrow> bool" where
  "canActivateLive input \<longleftrightarrow> length (checkLiveActivation input) = 0"

lemma times_one: "is_double x \<Longrightarrow> x * N 1 = x"
  by (cases x) (auto simp: js_of_exact)

text \<open>A deployment goes live only on an account that is covered by its observed balance.\<close>

lemma canActivateLive_iff:
  assumes "\<forall>b. observedBalanceUsdt input = Some b \<longrightarrow> is_double b \<and> b \<noteq> NaN"
  shows "canActivateLive input \<longleftrightarrow>
    la_status (lv_account input) = ''active'' \<and> la_environment (lv_account input) = ''live''
    \<and> la_canTrade (lv_account input) \<and> \<not> la_withdrawalAuthorized (lv_account input)
    \<and> (\<exists>v. la_verifiedAt (lv_account input) = Some v \<and> v \<noteq> '''')
    \<and> (\<exists>a b. declaredPrincipalUsdt input = N a \<and> 100 \<le> a \<and> observedBalanceUsdt input = Some b \<and> N a \<le> b)
    \<and> membershipAllowsNewEntries input \<and> riskAcknowledged input \<and> liveRoutingGranted input
    \<and> \<not> hasActivePaperDeploymentOnCard input"
proof -
  have bal: "(declaredPrincipalUsdt input = N a \<and> observedBalanceUsdt input = Some b \<Longrightarrow>
      b * (N 1 + PRINCIPAL_OVER_DECLARATION_TOLERANCE) < declaredPrincipalUsdt input \<longleftrightarrow> \<not> N a \<le> b)" for a b
    using assms by (auto simp: PRINCIPAL_OVER_DECLARATION_TOLERANCE_def times_one js_not_le)
  show ?thesis
    using bal
    by (cases "declaredPrincipalUsdt input"; cases "observedBalanceUsdt input"; cases "la_verifiedAt (lv_account input)")
      (auto simp: canActivateLive_def checkLiveActivation_def Let_def MIN_LIVE_PRINCIPAL_USDT_def)
qed

subsection \<open>Properties\<close>

text \<open>The admission of an order: a sell always passes, without a reason; a buy passes exactly
when no kill switch matches its context, the account has no open escalation and no reconciliation
is pending on its symbol; a refusal always names its reason.\<close>

theorem order_admission_exact:
  "(allowed (admitOrder input) \<longleftrightarrow> oa_side input = Sell
      \<or> filter (\<lambda>k. switch_matches k (oa_context input)) (oa_killSwitches input) = []
        \<and> hasEscalated (oa_reconciliation input) = False
        \<and> filter (\<lambda>s. s = oa_symbol input) (pendingSymbols (oa_reconciliation input)) = [])
    \<and> (adm_reason (admitOrder input) = None \<longleftrightarrow> allowed (admitOrder input))"
proof (cases "oa_side input")
  case Buy
  then show ?thesis using admitOrder_buy [OF Buy] admitOrder_reason [of input]
    by (auto simp: filter_empty_conv)
next
  case Sell
  then show ?thesis by (simp add: admitOrder_sell)
qed

text \<open>Live routing never lets a perpetual order through, lets every spot sell through, and a
spot buy exactly when its exchange is named and a grant covers that exchange and environment.\<close>

theorem live_routing_exact:
  "allowed (resolveLiveRouting q) \<longleftrightarrow> lr_product q = SpotUsdt \<and> (lr_side q = Sell
     \<or> js_trim (lr_exchange q) \<noteq> [] \<and> (\<exists>g \<in> set (lr_grants q). grant_covers g q))"
  by (rule resolveLiveRouting_iff)

text \<open>The exits of a batch of orders and the spot exits of a batch of routing queries all pass
their gates: no switch, escalation, pending reconciliation or missing grant holds back a sell.\<close>

theorem exits_never_blocked:
  "filter (\<lambda>i. allowed (admitOrder i)) (map (\<lambda>i. i\<lparr>oa_side := Sell\<rparr>) inputs)
     = map (\<lambda>i. i\<lparr>oa_side := Sell\<rparr>) inputs
   \<and> filter (\<lambda>q. allowed (resolveLiveRouting q)) (map (\<lambda>q. q\<lparr>lr_side := Sell, lr_product := SpotUsdt\<rparr>) queries)
     = map (\<lambda>q. q\<lparr>lr_side := Sell, lr_product := SpotUsdt\<rparr>) queries"
  by (intro conjI order_gate.exits_pass routing_gate.exits_pass)
    (simp_all add: list_all_iff isRoutableProduct_def)

text \<open>A live deployment can be activated exactly on an active, verified live account that may
trade and not withdraw, with a declared principal of at least 100 that its observed balance covers,
a membership that allows entries, an acknowledged risk, a routing grant and no paper deployment.\<close>

theorem live_activation_exact:
  assumes "observedBalanceUsdt input = Some balance" "is_double balance" "balance \<noteq> NaN"
  shows "canActivateLive input \<longleftrightarrow>
    la_status (lv_account input) = ''active'' \<and> la_environment (lv_account input) = ''live''
    \<and> la_canTrade (lv_account input) \<and> \<not> la_withdrawalAuthorized (lv_account input)
    \<and> (\<exists>v. la_verifiedAt (lv_account input) = Some v \<and> v \<noteq> '''')
    \<and> (\<exists>a. declaredPrincipalUsdt input = N a \<and> 100 \<le> a \<and> N a \<le> balance)
    \<and> membershipAllowsNewEntries input \<and> riskAcknowledged input \<and> liveRoutingGranted input
    \<and> \<not> hasActivePaperDeploymentOnCard input"
  using canActivateLive_iff [of input] assms by simp

definition sample_activation :: live_activation_input where
  "sample_activation = \<lparr>lv_account = \<lparr>la_status = ''active'', la_environment = ''live'', la_exchange = ''okx'',
       la_canTrade = True, la_withdrawalAuthorized = False, la_verifiedAt = Some ''2026-01-01''\<rparr>,
     declaredPrincipalUsdt = N 100, observedBalanceUsdt = Some (N 150), membershipAllowsNewEntries = True,
     riskAcknowledged = True, liveRoutingGranted = True, hasActivePaperDeploymentOnCard = False\<rparr>"

theorem live_activation_exact_witness: "canActivateLive sample_activation"
  using live_activation_exact [of sample_activation "N 150"] is_double_of_int [of 150]
  by (simp add: sample_activation_def)

end
