(* ===== verification/RateLimit.thy ===== *)
theory RateLimit
  imports JsString
begin

text \<open>
  Fan-out rate limiting (\<open>execution/rate-limit.ts\<close>): the token bucket, and the two-level bucket
  that charges the account and the exchange at the same moment. A plan says when a call may start;
  it never drops the call.
\<close>

record token_bucket_config =
  capacity :: jsnum
  refillPerSecond :: jsnum

record token_bucket_state =
  tokens :: jsnum
  updatedAtMs :: jsnum

definition assertConfig :: "token_bucket_config \<Rightarrow> string \<Rightarrow> (string, unit) result" where
  "assertConfig cfg label =
     (if \<not> is_finite (capacity cfg) \<or> capacity cfg \<le> N 0
      then Inl (''RATE_LIMIT_CONFIG_INVALID:'' @ label @ ''.capacity'')
      else if \<not> is_finite (refillPerSecond cfg) \<or> refillPerSecond cfg \<le> N 0
      then Inl (''RATE_LIMIT_CONFIG_INVALID:'' @ label @ ''.refillPerSecond'')
      else Inr ())"

definition newTokenBucket :: "token_bucket_config \<Rightarrow> jsnum \<Rightarrow> (string, token_bucket_state) result" where
  "newTokenBucket cfg nowMs = ebind (assertConfig cfg ''bucket'') (\<lambda>_.
     Inr \<lparr>tokens = capacity cfg, updatedAtMs = nowMs\<rparr>)"

definition refilledBucket :: "token_bucket_state \<Rightarrow> token_bucket_config \<Rightarrow> jsnum \<Rightarrow> token_bucket_state" where
  "refilledBucket st cfg nowMs = (let eff = js_max nowMs (updatedAtMs st);
     elapsed = eff - updatedAtMs st;
     refilled = tokens st + elapsed / N 1000 * refillPerSecond cfg
     in \<lparr>tokens = js_min (capacity cfg) refilled, updatedAtMs = eff\<rparr>)"

definition refillTokenBucket ::
    "token_bucket_state \<Rightarrow> token_bucket_config \<Rightarrow> jsnum \<Rightarrow> (string, token_bucket_state) result" where
  "refillTokenBucket st cfg nowMs = ebind (assertConfig cfg ''bucket'') (\<lambda>_. Inr (refilledBucket st cfg nowMs))"

definition waitMs :: "jsnum \<Rightarrow> token_bucket_config \<Rightarrow> jsnum" where
  "waitMs deficit cfg = js_ceil (deficit / refillPerSecond cfg * N 1000)"

definition planTokenBucketDispatch ::
    "token_bucket_state \<Rightarrow> token_bucket_config \<Rightarrow> jsnum \<Rightarrow> jsnum \<Rightarrow> (string, jsnum \<times> token_bucket_state) result" where
  "planTokenBucketDispatch st cfg nowMs cost = ebind (assertConfig cfg ''bucket'') (\<lambda>_.
     if \<not> is_finite cost \<or> cost \<le> N 0 then Inl ''RATE_LIMIT_COST_INVALID''
     else if capacity cfg < cost then Inl ''RATE_LIMIT_COST_EXCEEDS_CAPACITY''
     else ebind (refillTokenBucket st cfg nowMs) (\<lambda>refilled.
     let eff = updatedAtMs refilled in
     if cost \<le> tokens refilled then Inr (eff, \<lparr>tokens = tokens refilled - cost, updatedAtMs = eff\<rparr>)
     else let startAtMs = eff + waitMs (cost - tokens refilled) cfg in
       ebind (refillTokenBucket refilled cfg startAtMs) (\<lambda>atStart.
         Inr (startAtMs, \<lparr>tokens = js_max (N 0) (tokens atStart - cost), updatedAtMs = startAtMs\<rparr>))))"

record two_level_state =
  tl_account :: token_bucket_state
  tl_global :: token_bucket_state

record two_level_config =
  tc_account :: token_bucket_config
  tc_global :: token_bucket_config

definition planTwoLevelDispatch ::
    "two_level_state \<Rightarrow> two_level_config \<Rightarrow> jsnum \<Rightarrow> jsnum \<Rightarrow> (string, jsnum \<times> two_level_state) result" where
  "planTwoLevelDispatch st cfg nowMs cost =
     ebind (planTokenBucketDispatch (tl_account st) (tc_account cfg) nowMs cost) (\<lambda>(ta, na).
     ebind (planTokenBucketDispatch (tl_global st) (tc_global cfg) nowMs cost) (\<lambda>(tg, ng).
     let startAtMs = js_max ta tg in
     if js_eq startAtMs ta \<and> js_eq startAtMs tg then Inr (startAtMs, \<lparr>tl_account = na, tl_global = ng\<rparr>)
     else ebind (planTokenBucketDispatch (tl_account st) (tc_account cfg) startAtMs cost) (\<lambda>(_, na').
       ebind (planTokenBucketDispatch (tl_global st) (tc_global cfg) startAtMs cost) (\<lambda>(_, ng').
         Inr (startAtMs, \<lparr>tl_account = na', tl_global = ng'\<rparr>)))))"

subsection \<open>Planners\<close>

text \<open>
  What a caller that plans a batch relies on: a valid state stays valid, a call never starts before
  the moment it is planned at nor before the planner's clock, and the clock moves to its start.
\<close>

locale dispatch_planner =
  fixes plan :: "'s \<Rightarrow> jsnum \<Rightarrow> (string, jsnum \<times> 's) result"
    and clock :: "'s \<Rightarrow> jsnum" and ok :: "'s \<Rightarrow> bool"
  assumes clock_number: "ok s \<Longrightarrow> clock s \<noteq> NaN"
    and plan_ok: "ok s \<Longrightarrow> is_finite now \<Longrightarrow> is_double now \<Longrightarrow> plan s now = Inr (t, s') \<Longrightarrow> is_finite t \<Longrightarrow> ok s'"
    and plan_start: "ok s \<Longrightarrow> is_finite now \<Longrightarrow> is_double now \<Longrightarrow> plan s now = Inr (t, s') \<Longrightarrow> now \<le> t \<and> clock s \<le> t"
    and plan_clock: "ok s \<Longrightarrow> is_finite now \<Longrightarrow> is_double now \<Longrightarrow> plan s now = Inr (t, s') \<Longrightarrow> is_finite t \<Longrightarrow> t \<le> clock s'"
begin

text \<open>One after the other, at the moments of the list: the start times of the batch.\<close>

fun plan_batch :: "'s \<Rightarrow> jsnum list \<Rightarrow> (string, jsnum list) result" where
  "plan_batch s [] = Inr []"
| "plan_batch s (now # rest) = ebind (plan s now) (\<lambda>(t, s'). ebind (plan_batch s' rest) (\<lambda>ts. Inr (t # ts)))"

lemma plan_batch_sorted:
  assumes "ok s" "\<forall>n \<in> set nows. is_finite n \<and> is_double n" "plan_batch s nows = Inr ts"
    "\<forall>t \<in> set ts. is_finite t"
  shows "sorted_wrt (\<le>) ts \<and> (\<forall>t \<in> set ts. clock s \<le> t) \<and> list_all2 (\<le>) nows ts"
  using assms
proof (induction nows arbitrary: s ts)
  case Nil
  then show ?case by simp
next
  case (Cons now rest)
  obtain t s' us where t: "plan s now = Inr (t, s')" "plan_batch s' rest = Inr us" "ts = t # us"
    using Cons.prems(3) by (auto simp: ebind_Inr_iff)
  have n: "is_finite now" "is_double now" "is_finite t" using Cons.prems(2,4) t(3) by auto
  note st = plan_start [OF Cons.prems(1) n(1,2) t(1)] and cl = plan_clock [OF Cons.prems(1) n(1,2) t(1) n(3)]
  have "sorted_wrt (\<le>) us \<and> (\<forall>u \<in> set us. clock s' \<le> u) \<and> list_all2 (\<le>) rest us"
    using Cons.IH [of s' us] Cons.prems plan_ok [OF Cons.prems(1) n(1,2) t(1) n(3)] t by auto
  then show ?case using st cl t(3) by (auto intro: js_le_trans)
qed

end

subsection \<open>The token bucket is a planner\<close>

definition bucket_config_ok :: "token_bucket_config \<Rightarrow> bool" where
  "bucket_config_ok cfg \<longleftrightarrow> is_double (capacity cfg) \<and> assertConfig cfg ''bucket'' = Inr ()"

definition bucket_ok :: "token_bucket_config \<Rightarrow> token_bucket_state \<Rightarrow> bool" where
  "bucket_ok cfg st \<longleftrightarrow> bucket_config_ok cfg \<and> N 0 \<le> tokens st \<and> tokens st \<le> capacity cfg
     \<and> is_finite (updatedAtMs st) \<and> is_double (updatedAtMs st)"

lemma assertConfig_Inr:
  "assertConfig cfg label = Inr () \<longleftrightarrow>
     (\<exists>c r. capacity cfg = N c \<and> 0 < c \<and> refillPerSecond cfg = N r \<and> 0 < r)"
  by (cases "capacity cfg"; cases "refillPerSecond cfg") (auto simp: assertConfig_def)

lemma refilled_tokens:
  assumes ok: "bucket_config_ok cfg" "N 0 \<le> tokens st" "is_finite (updatedAtMs st)" "is_finite now"
  shows "N 0 \<le> tokens (refilledBucket st cfg now)" "tokens (refilledBucket st cfg now) \<le> capacity cfg"
proof -
  obtain c r where cfg: "capacity cfg = N c" "0 < c" "refillPerSecond cfg = N r" "0 < r"
    using ok(1) by (auto simp: bucket_config_ok_def assertConfig_Inr)
  have "updatedAtMs st \<le> js_max now (updatedAtMs st)" using ok(3,4) by (simp add: js_max_ge)
  then have "N 0 \<le> (js_max now (updatedAtMs st) - updatedAtMs st) / N 1000 * N r"
    using ok(3) cfg(4) by (intro js_times_nonneg js_divide_nonneg js_minus_nonneg) simp_all
  then have p: "N 0 \<le> tokens st + (js_max now (updatedAtMs st) - updatedAtMs st) / N 1000 * N r"
    using ok(2) by (rule js_plus_nonneg [rotated])
  then show "N 0 \<le> tokens (refilledBucket st cfg now)"
    using cfg by (simp add: refilledBucket_def Let_def js_min_glb)
  show "tokens (refilledBucket st cfg now) \<le> capacity cfg"
    using p cfg by (auto simp: refilledBucket_def Let_def intro!: js_min_le(1))
qed

lemma refilled_clock:
  "updatedAtMs (refilledBucket st cfg now) = js_max now (updatedAtMs st)"
  by (simp add: refilledBucket_def Let_def)

lemma refilled_ok:
  assumes "bucket_ok cfg st" "is_finite now" "is_double now"
  shows "bucket_ok cfg (refilledBucket st cfg now)"
  using assms refilled_tokens [of cfg st now]
  by (auto simp: bucket_ok_def refilled_clock js_max_double is_finite_iff)

text \<open>Taking the cost out of a filled bucket keeps the count between zero and the capacity.\<close>

lemma charge_bounds:
  assumes "bucket_config_ok cfg" "N 0 \<le> t" "t \<le> capacity cfg" "cost = N k" "0 < k" "cost \<le> capacity cfg"
  shows "t - cost \<le> capacity cfg" "t - cost \<noteq> NaN"
proof -
  obtain c where c: "capacity cfg = N c" "is_double (N c)"
    using assms(1) by (auto simp: bucket_config_ok_def assertConfig_Inr)
  obtain a where a: "t = N a" "0 \<le> a" "a \<le> c" using js_between_finite [of 0 t c] assms(2,3) c by auto
  show "t - cost \<le> capacity cfg" using a assms(4,5) c js_of_le_exact [of "a - k" c] by simp
  show "t - cost \<noteq> NaN" using a assms(4) by simp
qed

lemma plan_bucket_cases:
  assumes "planTokenBucketDispatch st cfg now cost = Inr (t, st')"
  obtains (direct) k where "cost = N k" "0 < k" "\<not> capacity cfg < cost"
      "cost \<le> tokens (refilledBucket st cfg now)" "t = js_max now (updatedAtMs st)"
      "st' = \<lparr>tokens = tokens (refilledBucket st cfg now) - cost, updatedAtMs = t\<rparr>"
  | (waits) k where "cost = N k" "0 < k" "\<not> capacity cfg < cost"
      "\<not> cost \<le> tokens (refilledBucket st cfg now)"
      "t = js_max now (updatedAtMs st) + waitMs (cost - tokens (refilledBucket st cfg now)) cfg"
      "st' = \<lparr>tokens = js_max (N 0) (tokens (refilledBucket (refilledBucket st cfg now) cfg t) - cost),
              updatedAtMs = t\<rparr>"
  using assms
  by (cases cost) (auto simp: planTokenBucketDispatch_def ebind_Inr_iff refillTokenBucket_def Let_def
      refilled_clock split: if_splits)

lemma plan_bucket_start:
  assumes ok: "bucket_ok cfg st" "is_finite now" "is_double now"
    and p: "planTokenBucketDispatch st cfg now cost = Inr (t, st')"
  shows "js_max now (updatedAtMs st) \<le> t"
  using p
proof (cases rule: plan_bucket_cases)
  case direct
  then show ?thesis using ok by (auto simp: bucket_ok_def js_max_def)
next
  case (waits k)
  obtain c r where cfg: "refillPerSecond cfg = N r" "0 < r"
    using ok(1) by (auto simp: bucket_ok_def bucket_config_ok_def assertConfig_Inr)
  have "tokens (refilledBucket st cfg now) < cost"
    using waits(1,4) refilled_tokens [of cfg st now] ok by (auto simp: js_not_le bucket_ok_def)
  moreover have "is_finite (tokens (refilledBucket st cfg now))"
    using calculation waits(1) refilled_tokens(1) [of cfg st now] ok
    by (cases "tokens (refilledBucket st cfg now)") (auto simp: bucket_ok_def)
  ultimately have "N 0 \<le> waitMs (cost - tokens (refilledBucket st cfg now)) cfg"
    using cfg js_less_imp_le unfolding waitMs_def
    by (simp add: js_ceil_nonneg js_times_nonneg js_divide_nonneg js_minus_nonneg)
  moreover have "is_finite (js_max now (updatedAtMs st))" "is_double (js_max now (updatedAtMs st))"
    using ok by (auto simp: bucket_ok_def js_max_double is_finite_iff)
  ultimately show ?thesis unfolding waits(5) by (intro js_plus_ge)
qed

lemma plan_bucket_ok:
  assumes ok: "bucket_ok cfg st" "is_finite now" "is_double now"
    and p: "planTokenBucketDispatch st cfg now cost = Inr (t, st')" and t: "is_finite t"
  shows "bucket_ok cfg st' \<and> updatedAtMs st' = t"
proof -
  have cfg: "bucket_config_ok cfg" using ok(1) by (simp add: bucket_ok_def)
  then obtain c where c: "capacity cfg = N c" "0 < c" "is_double (N c)"
    by (auto simp: bucket_config_ok_def assertConfig_Inr)
  have rok: "bucket_ok cfg (refilledBucket st cfg now)" using ok by (rule refilled_ok)
  show ?thesis using p
  proof (cases rule: plan_bucket_cases)
    case (direct k)
    have "cost \<le> capacity cfg" using direct(1,3) c by simp
    then have "tokens st' \<le> capacity cfg"
      using charge_bounds(1) [OF cfg _ _ direct(1,2)] rok direct(6) by (simp add: bucket_ok_def)
    moreover have "N 0 \<le> tokens st'" using direct by (simp add: js_minus_nonneg)
    ultimately show ?thesis using direct(5,6) ok t cfg
      by (simp add: bucket_ok_def js_max_double)
  next
    case (waits k)
    have td: "is_double t" by (simp add: waits(5))
    have sok: "bucket_ok cfg (refilledBucket (refilledBucket st cfg now) cfg t)"
      using rok t td by (rule refilled_ok)
    have "cost \<le> capacity cfg" using waits(1,3) c by simp
    note ch = charge_bounds [OF cfg _ _ waits(1,2) this,
        of "tokens (refilledBucket (refilledBucket st cfg now) cfg t)"]
    have "tokens st' \<le> capacity cfg" "N 0 \<le> tokens st'"
      using ch sok c(1,2) by (auto simp: waits(6) bucket_ok_def js_max_def)
    then show ?thesis using waits(6) td t cfg by (simp add: bucket_ok_def)
  qed
qed

interpretation bucket: dispatch_planner "\<lambda>s now. planTokenBucketDispatch s cfg now cost" updatedAtMs "bucket_ok cfg"
proof
  show "bucket_ok cfg s \<Longrightarrow> updatedAtMs s \<noteq> NaN" for s by (auto simp: bucket_ok_def)
next
  fix s now t s'
  assume a: "bucket_ok cfg s" "is_finite now" "is_double now" "planTokenBucketDispatch s cfg now cost = Inr (t, s')"
  show "now \<le> t \<and> updatedAtMs s \<le> t"
    using plan_bucket_start [OF a] a(1,2) js_max_ge [of now "updatedAtMs s"]
    by (auto simp: bucket_ok_def intro: js_le_trans)
  show "is_finite t \<Longrightarrow> bucket_ok cfg s'" using plan_bucket_ok [OF a] by simp
  show "is_finite t \<Longrightarrow> t \<le> updatedAtMs s'" using plan_bucket_ok [OF a] by auto
qed

text \<open>Queued, never dropped: a valid bucket plans every call that fits its capacity.\<close>

lemma plan_bucket_total:
  assumes "bucket_config_ok cfg" "cost = N k" "0 < k" "cost \<le> capacity cfg"
  shows "returns (planTokenBucketDispatch st cfg now cost)"
  using assms
proof -
  have "assertConfig cfg ''bucket'' = Inr ()" "\<not> capacity cfg < cost" "\<not> cost \<le> N 0" "is_finite cost"
    using assms by (auto simp: bucket_config_ok_def js_not_less js_not_le)
  then show ?thesis by (simp add: planTokenBucketDispatch_def refillTokenBucket_def Let_def)
qed

subsection \<open>Properties\<close>

text \<open>A valid bucket stays valid under every dispatch that starts at a finite time: its tokens
stay between zero and the capacity, and the call starts neither before it was planned nor before
the bucket's clock.\<close>

theorem bucket_dispatch_bounds:
  assumes "bucket_ok cfg st" "is_finite now" "is_double now"
    and "planTokenBucketDispatch st cfg now cost = Inr (t, st')" "is_finite t"
  shows "N 0 \<le> tokens st' \<and> tokens st' \<le> capacity cfg \<and> updatedAtMs st' = t \<and> now \<le> t \<and> updatedAtMs st \<le> t"
  using plan_bucket_ok [OF assms] bucket.plan_start [OF assms(1-4)] by (simp add: bucket_ok_def)

definition sample_config :: token_bucket_config where
  "sample_config = \<lparr>capacity = N 5, refillPerSecond = N 2\<rparr>"

definition sample_bucket :: token_bucket_state where
  "sample_bucket = \<lparr>tokens = N 1, updatedAtMs = N 0\<rparr>"

lemma sample_bucket_ok: "bucket_ok sample_config sample_bucket" "is_double (N 0)"
  using is_double_of_int [of 5]
  by (simp_all add: bucket_ok_def bucket_config_ok_def sample_config_def sample_bucket_def assertConfig_def
      binary64.rnd_0)

lemma sample_dispatch: "planTokenBucketDispatch sample_bucket sample_config (N 0) (N 3)
    = Inr (N 1000, \<lparr>tokens = N 0, updatedAtMs = N 1000\<rparr>)"
  by (simp add: planTokenBucketDispatch_def assertConfig_def refillTokenBucket_def refilledBucket_def
      sample_config_def sample_bucket_def waitMs_def Let_def)

theorem bucket_dispatch_bounds_witness: "N 0 \<le> N 0 \<and> N 0 \<le> N 1000"
  using bucket_dispatch_bounds [OF sample_bucket_ok(1) _ sample_bucket_ok(2) sample_dispatch] by simp

text \<open>Calls planned one after the other on one bucket start in the order they were planned in,
none before its own moment.\<close>

theorem bucket_batch_sorted:
  assumes "bucket_ok cfg st" "\<forall>n \<in> set nows. is_finite n \<and> is_double n"
    and "dispatch_planner.plan_batch (\<lambda>s now. planTokenBucketDispatch s cfg now cost) st nows = Inr ts"
    and "\<forall>t \<in> set ts. is_finite t"
  shows "sorted_wrt (\<le>) ts \<and> list_all2 (\<le>) nows ts"
  using bucket.plan_batch_sorted [OF assms] by blast

theorem bucket_batch_sorted_witness: "sorted_wrt (\<le>) [N 1000] \<and> list_all2 (\<le>) [N 0] [N 1000]"
  using bucket_batch_sorted [OF sample_bucket_ok(1), of "[N 0]" "N 3" "[N 1000]"]
    bucket.plan_batch.simps [of sample_config "N 3"] sample_dispatch sample_bucket_ok(2) by simp

text \<open>Queued, never dropped: every call that costs something and fits the capacity is given
a start time, whatever the state of the bucket.\<close>

theorem bucket_dispatch_total:
  assumes "bucket_config_ok cfg" "cost = N k" "0 < k" "cost \<le> capacity cfg"
  shows "\<exists>t st'. planTokenBucketDispatch st cfg now cost = Inr (t, st')"
  using plan_bucket_total [OF assms, of st now] by (auto simp: returns_iff)

theorem bucket_dispatch_total_witness:
  "\<exists>t st'. planTokenBucketDispatch \<lparr>tokens = N 0, updatedAtMs = NaN\<rparr> sample_config PInf (N 5) = Inr (t, st')"
  using sample_bucket_ok(1) by (intro bucket_dispatch_total) (auto simp: bucket_ok_def sample_config_def)

end
