(* ===== verification/CanonicalJson.thy ===== *)
theory CanonicalJson
  imports JsString
begin

text \<open>
  JSON values and their canonical text (\<open>packages/domain/src/canonical-hash.ts\<close>). The hash
  (SHA-256 of the UTF-8 bytes, in hexadecimal) and the collation of \<open>localeCompare\<close> belong to the
  host and are arguments; \<open>le a b\<close> is \<open>a.localeCompare(b) <= 0\<close>.
\<close>

datatype json =
    JUndef
  | JNull
  | JBool bool
  | JNum jsnum
  | JStr string
  | JArr "json list"
  | JObj "(string \<times> json) list"

subsection \<open>Text of a string\<close>

definition hex_char :: "int \<Rightarrow> char" where
  "hex_char d = (if d < 10 then char_of (48 + d) else char_of (87 + d))"

definition escape_char :: "char \<Rightarrow> string" where
  "escape_char c = (let n = ccode c in
     if n = 34 then [CHR 0x5C, CHR 0x22]
     else if n = 92 then [CHR 0x5C, CHR 0x5C]
     else if n = 8 then [CHR 0x5C, CHR ''b'']
     else if n = 12 then [CHR 0x5C, CHR ''f'']
     else if n = 10 then [CHR 0x5C, CHR ''n'']
     else if n = 13 then [CHR 0x5C, CHR ''r'']
     else if n = 9 then [CHR 0x5C, CHR ''t'']
     else if n < 32 then [CHR 0x5C, CHR ''u'', CHR ''0'', CHR ''0'', hex_char (n div 16), hex_char (n mod 16)]
     else [c])"

definition json_string :: "string \<Rightarrow> string" where
  "json_string s = CHR 0x22 # concat (map escape_char s) @ [CHR 0x22]"

subsection \<open>Canonical text\<close>

fun insert_by :: "('a \<Rightarrow> 'a \<Rightarrow> bool) \<Rightarrow> 'a \<Rightarrow> 'a list \<Rightarrow> 'a list" where
  "insert_by le x [] = [x]"
| "insert_by le x (y # ys) = (if le x y then x # y # ys else y # insert_by le x ys)"

definition sort_by :: "('a \<Rightarrow> 'a \<Rightarrow> bool) \<Rightarrow> 'a list \<Rightarrow> 'a list" where
  "sort_by le xs = foldr (insert_by le) xs []"

fun join_with :: "string \<Rightarrow> string list \<Rightarrow> string" where
  "join_with sep [] = []"
| "join_with sep [x] = x"
| "join_with sep (x # xs) = x @ sep @ join_with sep xs"

definition entry_text :: "string \<times> (string, string) result \<Rightarrow> (string, string) result" where
  "entry_text e = ebind (snd e) (\<lambda>t. Inr (json_string (fst e) @ '':'' @ t))"

fun toCanonicalJson :: "(string \<Rightarrow> string \<Rightarrow> bool) \<Rightarrow> json \<Rightarrow> (string, string) result"
and canonical_items :: "(string \<Rightarrow> string \<Rightarrow> bool) \<Rightarrow> json list \<Rightarrow> (string, string list) result"
and canonical_entries :: "(string \<Rightarrow> string \<Rightarrow> bool) \<Rightarrow> (string \<times> json) list
    \<Rightarrow> (string \<times> (string, string) result) list" where
  "toCanonicalJson le JUndef = Inl ''NOT_SERIALIZABLE''"
| "toCanonicalJson le JNull = Inr ''null''"
| "toCanonicalJson le (JBool b) = Inr (if b then ''true'' else ''false'')"
| "toCanonicalJson le (JStr s) = Inr (json_string s)"
| "toCanonicalJson le (JNum x) = (if \<not> is_finite x then Inl ''NON_FINITE_NUMBER'' else Inr (js_show x))"
| "toCanonicalJson le (JArr xs) = ebind (canonical_items le xs) (\<lambda>ts. Inr (''['' @ join_with '','' ts @ '']''))"
| "toCanonicalJson le (JObj es) =
     ebind (emap entry_text (sort_by (\<lambda>a b. le (fst a) (fst b)) (canonical_entries le es)))
       (\<lambda>ts. Inr (''{'' @ join_with '','' ts @ ''}''))"
| "canonical_items le [] = Inr []"
| "canonical_items le (x # xs) = ebind (toCanonicalJson le x) (\<lambda>t. ebind (canonical_items le xs) (\<lambda>ts. Inr (t # ts)))"
| "canonical_entries le [] = []"
| "canonical_entries le ((k, v) # es) =
     (if v = JUndef then canonical_entries le es
      else (k, toCanonicalJson le v) # canonical_entries le es)"

definition canonicalJsonSha256 ::
    "(string \<Rightarrow> string \<Rightarrow> bool) \<Rightarrow> (string \<Rightarrow> string) \<Rightarrow> json \<Rightarrow> (string, string) result" where
  "canonicalJsonSha256 le sha v = ebind (toCanonicalJson le v) (\<lambda>t. Inr (sha t))"

subsection \<open>The escapes can be read back\<close>

text \<open>The reader of a string text: the characters up to the closing quote, and the rest.\<close>

definition hex_val :: "char \<Rightarrow> int" where
  "hex_val c = (if ccode c < 58 then ccode c - 48 else ccode c - 87)"

definition simple_escape :: "char \<Rightarrow> char" where
  "simple_escape c = (if c = CHR ''b'' then char_of (8 :: int) else if c = CHR ''f'' then char_of (12 :: int)
     else if c = CHR ''n'' then char_of (10 :: int) else if c = CHR ''r'' then char_of (13 :: int)
     else if c = CHR ''t'' then char_of (9 :: int) else c)"

fun read_string :: "string \<Rightarrow> (string \<times> string) option" where
  "read_string [] = None"
| "read_string (c # s) =
     (if c = CHR 0x22 then Some ([], s)
      else if c = CHR 0x5C then (case s of
          [] \<Rightarrow> None
        | e # s' \<Rightarrow> if e = CHR ''u'' then (case s' of
              a # b # h # l # s'' \<Rightarrow>
                map_option (\<lambda>(u, r). (char_of (16 * hex_val h + hex_val l) # u, r)) (read_string s'')
            | _ \<Rightarrow> None)
          else map_option (\<lambda>(u, r). (simple_escape e # u, r)) (read_string s'))
      else map_option (\<lambda>(u, r). (c # u, r)) (read_string s))"

lemma hex_val_char: "0 \<le> d \<Longrightarrow> d < 16 \<Longrightarrow> hex_val (hex_char d) = d"
  by (auto simp: hex_val_def hex_char_def ccode_def)

lemma char_of_code: "char_of (ccode c) = c"
  by (simp add: ccode_def)

lemma ccode_eq: "ccode c = n \<Longrightarrow> c = char_of n"
  using char_of_code by metis

lemma ccode_inj: "ccode a = ccode b \<Longrightarrow> a = b"
  by (metis char_of_code)

lemma ccode_quotes: "ccode (CHR 0x22) = 34" "ccode (CHR 0x5C) = 92"
  by (simp_all add: ccode_def)

lemma ccode_range: "0 \<le> ccode c" "ccode c < 256"
proof -
  have c: "ccode c = int (of_char c)" unfolding ccode_def by (metis of_nat_of_char)
  show "0 \<le> ccode c" "ccode c < 256" unfolding c using nat_of_char_less_256 [of c] by simp_all
qed

lemma escaped:
  "read_string (escape_char (CHR 0x22) @ t) = map_option (\<lambda>(u, r). (CHR 0x22 # u, r)) (read_string t)"
  "read_string (escape_char (CHR 0x5C) @ t) = map_option (\<lambda>(u, r). (CHR 0x5C # u, r)) (read_string t)"
  "read_string (escape_char (char_of (8 :: int)) @ t) = map_option (\<lambda>(u, r). (char_of (8 :: int) # u, r)) (read_string t)"
  "read_string (escape_char (char_of (9 :: int)) @ t) = map_option (\<lambda>(u, r). (char_of (9 :: int) # u, r)) (read_string t)"
  "read_string (escape_char (char_of (10 :: int)) @ t) = map_option (\<lambda>(u, r). (char_of (10 :: int) # u, r)) (read_string t)"
  "read_string (escape_char (char_of (12 :: int)) @ t) = map_option (\<lambda>(u, r). (char_of (12 :: int) # u, r)) (read_string t)"
  "read_string (escape_char (char_of (13 :: int)) @ t) = map_option (\<lambda>(u, r). (char_of (13 :: int) # u, r)) (read_string t)"
  by (simp_all add: escape_char_def simple_escape_def ccode_def)

lemma read_escape: "read_string (escape_char c @ t) = map_option (\<lambda>(u, r). (c # u, r)) (read_string t)"
proof (cases "ccode c < 32 \<and> ccode c \<notin> {8, 9, 10, 12, 13}")
  case True
  define h l where "h = ccode c div 16" and "l = ccode c mod 16"
  have hl: "0 \<le> h" "h < 16" "0 \<le> l" "l < 16" "16 * h + l = ccode c"
    using True ccode_range [of c] unfolding h_def l_def by auto
  have "escape_char c = [CHR 0x5C, CHR ''u'', CHR ''0'', CHR ''0'', hex_char h, hex_char l]"
    using True by (auto simp: escape_char_def Let_def h_def l_def)
  then show ?thesis using hl by (simp add: hex_val_char char_of_code)
next
  case False
  have plain: ?thesis if "escape_char c = [c]" "c \<noteq> CHR 0x22" "c \<noteq> CHR 0x5C" using that by simp
  show ?thesis
  proof (cases "ccode c \<in> {34, 92, 8, 9, 10, 12, 13}")
    case True
    then consider "c = CHR 0x22" | "c = CHR 0x5C" | "c = char_of (8 :: int)"
      | "c = char_of (9 :: int)" | "c = char_of (10 :: int)" | "c = char_of (12 :: int)" | "c = char_of (13 :: int)"
      using ccode_eq [of c] ccode_inj [of c "CHR 0x22"] ccode_inj [of c "CHR 0x5C"] ccode_quotes by fastforce
    then show ?thesis by cases (simp_all only: escaped)
  next
    case F: False
    then have "c \<noteq> CHR 0x22" "c \<noteq> CHR 0x5C" by (auto simp: ccode_def)
    moreover have "escape_char c = [c]" using False F by (auto simp: escape_char_def Let_def)
    ultimately show ?thesis by (rule plain [rotated])
  qed
qed

lemma read_json_string: "read_string (concat (map escape_char s) @ CHR 0x22 # rest) = Some (s, rest)"
proof (induction s)
  case (Cons c s)
  show ?case by (simp only: list.map concat.simps append_assoc read_escape Cons.IH) simp
qed simp

lemma json_string_cut:
  assumes "json_string s @ rest = json_string s' @ rest'"
  shows "s = s' \<and> rest = rest'"
proof -
  have "concat (map escape_char s) @ CHR 0x22 # rest = concat (map escape_char s') @ CHR 0x22 # rest'"
    using assms by (simp add: json_string_def)
  then have "Some (s, rest) = Some (s', rest')" by (simp only: read_json_string [symmetric])
  then show ?thesis by simp
qed

lemma json_string_inj: "json_string s = json_string s' \<Longrightarrow> s = s'"
  using json_string_cut [of s "[]" s' "[]"] by simp

subsection \<open>Properties\<close>

text \<open>The JSON text of a string ends itself: whatever follows two such texts, equal results
mean equal strings and equal rests, so no string value can imitate the structure around it.\<close>

theorem json_string_self_delimiting:
  "json_string s @ rest = json_string s' @ rest' \<longleftrightarrow> s = s' \<and> rest = rest'"
  using json_string_cut by blast

end
