(* ===== verification/ClientOrderId.thy ===== *)
theory ClientOrderId
  imports CanonicalJson
begin

text \<open>
  The idempotent order id (\<open>execution/client-order-id.ts\<close>) from the digest of the canonical text
  of (action, round, portfolio). \<open>sha\<close> gives the 32 bytes of SHA-256.
\<close>

definition CLIENT_ORDER_ID_MAX_LENGTH :: nat where "CLIENT_ORDER_ID_MAX_LENGTH = 32"

definition PREFIX :: string where "PREFIX = ''RV''"

definition matches_client_order_id :: "string \<Rightarrow> bool" where
  "matches_client_order_id s \<longleftrightarrow> 1 \<le> length s \<and> length s \<le> 32 \<and> list_all (\<lambda>c. is_upper c \<or> is_digit c) s"

definition hex_byte :: "int \<Rightarrow> string" where
  "hex_byte b = (if b < 16 then [CHR ''0'', hex_char b] else [hex_char (b div 16), hex_char (b mod 16)])"

definition bytes_hex :: "int list \<Rightarrow> string" where
  "bytes_hex bs = concat (map hex_byte bs)"

definition parse_hex :: "string \<Rightarrow> int" where
  "parse_hex s = foldl (\<lambda>a c. a * 16 + hex_val c) 0 s"

definition char36 :: "int \<Rightarrow> char" where
  "char36 d = (if d < 10 then char_of (48 + d) else char_of (87 + d))"

function show36 :: "int \<Rightarrow> string" where
  "show36 n = (if n < 36 then [char36 n] else show36 (n div 36) @ [char36 (n mod 36)])"
  by pat_completeness auto
termination
  by (relation "measure nat") auto

declare show36.simps [simp del]

record client_order_id_input =
  ci_decisionRoundId :: string
  ci_portfolioId :: string
  ci_action :: string

definition assertNonEmpty :: "string \<Rightarrow> string \<Rightarrow> (string, string) result" where
  "assertNonEmpty value field = (let trimmed = js_trim value in
     if trimmed = [] then Inl (''CLIENT_ORDER_ID_INPUT_INVALID:'' @ field) else Inr trimmed)"

definition id_body :: "string \<Rightarrow> string" where
  "id_body digest = (let w = CLIENT_ORDER_ID_MAX_LENGTH - length PREFIX
     in take w (pad_start w (CHR ''0'') (js_upper (show36 (parse_hex digest)))))"

definition id_fields :: "string \<Rightarrow> string \<Rightarrow> string \<Rightarrow> json" where
  "id_fields act rnd pf = JObj [(''action'', JStr act), (''decisionRoundId'', JStr rnd), (''portfolioId'', JStr pf)]"

definition deriveClientOrderId ::
    "(string \<Rightarrow> string \<Rightarrow> bool) \<Rightarrow> (string \<Rightarrow> int list) \<Rightarrow> client_order_id_input \<Rightarrow> (string, string) result" where
  "deriveClientOrderId le sha input =
     ebind (assertNonEmpty (ci_action input) ''action'') (\<lambda>act.
     ebind (assertNonEmpty (ci_decisionRoundId input) ''decisionRoundId'') (\<lambda>rnd.
     ebind (assertNonEmpty (ci_portfolioId input) ''portfolioId'') (\<lambda>pf.
     ebind (canonicalJsonSha256 le (\<lambda>t. bytes_hex (sha t)) (id_fields act rnd pf)) (\<lambda>digest.
       Inr (PREFIX @ id_body digest)))))"

subsection \<open>Shape of the id\<close>

definition key_order :: "(string \<Rightarrow> string \<Rightarrow> bool) \<Rightarrow> bool" where
  "key_order le \<longleftrightarrow> le ''action'' ''decisionRoundId'' \<and> le ''decisionRoundId'' ''portfolioId''"

definition id_text :: "string \<Rightarrow> string \<Rightarrow> string \<Rightarrow> string" where
  "id_text act rnd pf = ''{'' @ json_string ''action'' @ '':'' @ json_string act @ '',''
     @ json_string ''decisionRoundId'' @ '':'' @ json_string rnd @ '',''
     @ json_string ''portfolioId'' @ '':'' @ json_string pf @ ''}''"

lemma id_fields_text: "key_order le \<Longrightarrow> toCanonicalJson le (id_fields act rnd pf) = Inr (id_text act rnd pf)"
  by (simp add: id_fields_def key_order_def sort_by_def entry_text_def id_text_def)

lemma id_text_inj: "id_text a r p = id_text a' r' p' \<Longrightarrow> a = a' \<and> r = r' \<and> p = p'"
  unfolding id_text_def by (fastforce dest!: json_string_cut)

lemma derive_Inr:
  assumes "key_order le"
  shows "deriveClientOrderId le sha input = Inr r \<longleftrightarrow>
    js_trim (ci_action input) \<noteq> [] \<and> js_trim (ci_decisionRoundId input) \<noteq> [] \<and> js_trim (ci_portfolioId input) \<noteq> []
    \<and> r = PREFIX @ id_body (bytes_hex (sha (id_text (js_trim (ci_action input))
        (js_trim (ci_decisionRoundId input)) (js_trim (ci_portfolioId input)))))"
  by (auto simp: deriveClientOrderId_def assertNonEmpty_def canonicalJsonSha256_def
      id_fields_text [OF assms] ebind_Inr_iff Let_def)

lemma char36_upper: "0 \<le> d \<Longrightarrow> d < 36 \<Longrightarrow> is_upper (char_upper (char36 d)) \<or> is_digit (char_upper (char36 d))"
  by (auto simp: char36_def char_upper_def is_lower_def is_upper_def is_digit_def ccode_def)

lemma show36_chars: "0 \<le> n \<Longrightarrow> list_all (\<lambda>c. is_upper c \<or> is_digit c) (js_upper (show36 n))"
proof (induction n rule: show36.induct)
  case (1 n)
  show ?case
  proof (cases "n < 36")
    case True
    then show ?thesis using "1.prems" char36_upper [of n] by (subst show36.simps) (simp add: js_upper_def)
  next
    case False
    then have "list_all (\<lambda>c. is_upper c \<or> is_digit c) (js_upper (show36 (n div 36)))"
      using "1.IH" by simp
    moreover have "0 \<le> n mod 36" "n mod 36 < 36" by simp_all
    ultimately show ?thesis using False char36_upper [of "n mod 36"]
      by (subst show36.simps) (simp add: js_upper_def)
  qed
qed

lemma hex_byte_vals: "0 \<le> b \<Longrightarrow> b < 256 \<Longrightarrow> \<forall>c \<in> set (hex_byte b). 0 \<le> hex_val c"
proof -
  assume b: "0 \<le> b" "b < 256"
  define h l where "h = b div 16" and "l = b mod 16"
  have hl: "0 \<le> h" "h < 16" "0 \<le> l" "l < 16" using b unfolding h_def l_def by auto
  have "hex_val (CHR ''0'') = 0" by (simp add: hex_val_def ccode_def)
  then show ?thesis using b hl by (auto simp: hex_byte_def hex_val_char h_def [symmetric] l_def [symmetric])
qed

lemma parse_hex_nonneg: "\<forall>c \<in> set s. 0 \<le> hex_val c \<Longrightarrow> 0 \<le> parse_hex s"
  by (induction s rule: rev_induct) (auto simp: parse_hex_def)

definition bytes :: "int list \<Rightarrow> bool" where
  "bytes bs \<longleftrightarrow> (\<forall>b \<in> set bs. 0 \<le> b \<and> b < 256)"

lemma id_body_shape:
  assumes "bytes bs"
  shows "length (id_body (bytes_hex bs)) = 30 \<and> list_all (\<lambda>c. is_upper c \<or> is_digit c) (id_body (bytes_hex bs))"
proof -
  have "\<forall>c \<in> set (bytes_hex bs). 0 \<le> hex_val c"
    using assms hex_byte_vals by (auto simp: bytes_hex_def bytes_def)
  then have "list_all (\<lambda>c. is_upper c \<or> is_digit c) (js_upper (show36 (parse_hex (bytes_hex bs))))"
    by (intro show36_chars parse_hex_nonneg)
  then show ?thesis
    by (auto simp: id_body_def Let_def CLIENT_ORDER_ID_MAX_LENGTH_def PREFIX_def pad_start_def
        list_all_iff dest: in_set_takeD)
qed

lemma derive_shape:
  assumes "key_order le" "\<And>t. bytes (sha t)" "deriveClientOrderId le sha input = Inr r"
  shows "length r = 32 \<and> matches_client_order_id r \<and> take 2 r = PREFIX"
  using assms(3) id_body_shape [OF assms(2)]
  by (auto simp: derive_Inr [OF assms(1)] matches_client_order_id_def PREFIX_def is_upper_def ccode_def)

subsection \<open>Properties\<close>

text \<open>C37. A derived id always fits the exchanges: 32 capitals and digits, starting with the
platform's prefix, for every digest of bytes and every input.\<close>

theorem client_order_id_shape:
  assumes "key_order le" "\<And>t. bytes (sha t)" "deriveClientOrderId le sha input = Inr r"
  shows "length r = 32 \<and> matches_client_order_id r \<and> take 2 r = PREFIX"
  using assms by (rule derive_shape)

definition first_char_le :: "string \<Rightarrow> string \<Rightarrow> bool" where
  "first_char_le a b \<longleftrightarrow> ccode (hd a) \<le> ccode (hd b)"

lemma first_char_order: "key_order first_char_le"
  by (simp add: key_order_def first_char_le_def ccode_def)

definition sample_id_input :: client_order_id_input where
  "sample_id_input = \<lparr>ci_decisionRoundId = ''r1'', ci_portfolioId = ''p1'', ci_action = ''buy''\<rparr>"

theorem client_order_id_shape_witness:
  "\<exists>r. deriveClientOrderId first_char_le (\<lambda>_. replicate 32 7) sample_id_input = Inr r
     \<and> length r = 32"
proof -
  have t: "js_trim ''buy'' = ''buy''" "js_trim ''r1'' = ''r1''" "js_trim ''p1'' = ''p1''" by code_simp+
  obtain r where r: "deriveClientOrderId first_char_le (\<lambda>_. replicate 32 7)
      sample_id_input = Inr r"
    using derive_Inr [OF first_char_order, of "\<lambda>_. replicate 32 7" sample_id_input] t by (simp add: sample_id_input_def)
  have "bytes (replicate 32 7)" by (simp add: bytes_def list_all_iff)
  then show ?thesis using client_order_id_shape [OF first_char_order _ r] r by blast
qed

text \<open>The digest is taken of a text that determines action, round and portfolio: two inputs
hash the same text exactly when the three trimmed fields agree, so retries of one order share
their id and different orders never hash the same text.\<close>

theorem client_order_id_key:
  assumes "key_order le"
  shows "toCanonicalJson le (id_fields act rnd pf) = toCanonicalJson le (id_fields act' rnd' pf')
     \<longleftrightarrow> act = act' \<and> rnd = rnd' \<and> pf = pf'"
  unfolding id_fields_text [OF assms] sum.inject using id_text_inj by blast

theorem client_order_id_key_witness:
  "toCanonicalJson first_char_le (id_fields ''buy'' ''r1'' ''p1'')
     \<noteq> toCanonicalJson first_char_le (id_fields ''sell'' ''r1'' ''p1'')"
  using client_order_id_key [OF first_char_order, of "''buy''" "''r1''" "''p1''" "''sell''" "''r1''" "''p1''"]
  by simp

end
