(* ===== verification/LiveExecutionPort.thy ===== *)
theory LiveExecutionPort
  imports LiveAdmission ClientOrderId
begin

text \<open>
  The execution port of the execution service (\<open>lib/execution/server/live-execution-port.ts\<close>).
  The injected dependencies are a record of functions that return or throw; what the port does to
  the outside is the trace of its calls, in order. The stages of \<open>executeOne\<close> are one definition
  each: \<open>orderSize\<close>, \<open>gateOrder\<close>, \<open>placeOrRecover\<close>, \<open>settleOrder\<close>.
\<close>

subsection \<open>Calls and their trace\<close>

record normalized_order =
  no_externalOrderId :: "string option"
  no_state :: normalized_order_state
  no_filledQuantity :: jsnum
  no_averagePrice :: jsnum
  no_feeAmount :: jsnum

datatype market_order_size = BuyQuote jsnum | SellBase jsnum

record port_enqueue =
  pe_clientOrderId :: string
  pe_accountId :: string
  pe_customerId :: string
  pe_exchange :: string
  pe_symbol :: string
  pe_requestedQuantity :: jsnum
  pe_decisionRoundId :: string
  pe_portfolioId :: string
  pe_intentId :: string
  pe_externalOrderId :: "string option"

datatype port_call =
    ReadReconciliation string
  | ReadKillSwitches
  | ReadGrants
  | Acquire string string
  | PlaceOrder string market_order_size string
  | QueryOrder string string
  | EnqueueReconciliation port_enqueue

type_synonym 'a io = "port_call list \<times> (thrown, 'a) result"

definition io_return :: "'a \<Rightarrow> 'a io" where
  "io_return x = ([], Inr x)"

definition io_bind :: "'a io \<Rightarrow> ('a \<Rightarrow> 'b io) \<Rightarrow> 'b io" where
  "io_bind m k = (case m of (es, Inl e) \<Rightarrow> (es, Inl e)
     | (es, Inr x) \<Rightarrow> (case k x of (es', r) \<Rightarrow> (es @ es', r)))"

definition io_call :: "port_call \<Rightarrow> (thrown, 'a) result \<Rightarrow> 'a io" where
  "io_call c r = ([c], r)"

definition io_pure :: "(thrown, 'a) result \<Rightarrow> 'a io" where
  "io_pure r = ([], r)"

text \<open>A call of the domain layer: what it throws is an Error of the given name.\<close>

definition domain_call :: "string \<Rightarrow> (string, 'a) result \<Rightarrow> 'a io" where
  "domain_call name r = ([], case r of Inl _ \<Rightarrow> Inl (ErrorNamed name) | Inr x \<Rightarrow> Inr x)"

subsection \<open>The dependencies\<close>

record execution_account =
  ea_accountId :: string
  ea_customerId :: string
  ea_exchange :: string
  ea_environment :: exchange_environment

record 'c live_order_adapter =
  placeMarketOrder :: "'c \<Rightarrow> string \<Rightarrow> market_order_size \<Rightarrow> string \<Rightarrow> (thrown, normalized_order) result"
  getOrderByClientOrderId :: "'c \<Rightarrow> string \<Rightarrow> string \<Rightarrow> (thrown, normalized_order option) result"

record 'c live_deps =
  ld_resolveAccount :: "string \<Rightarrow> (thrown, execution_account option) result"
  ld_loadCredential :: "string \<Rightarrow> string \<Rightarrow> (thrown, 'c) result"
  ld_adapterFor :: "string \<Rightarrow> exchange_environment \<Rightarrow> 'c live_order_adapter option"
  ld_acquire :: "string \<Rightarrow> string \<Rightarrow> (thrown, unit) result"
  ld_now :: "int option"
  ld_loadReconciliationState :: "string \<Rightarrow> (thrown, account_reconciliation_state) result"
  ld_loadActiveKillSwitches :: "(thrown, active_kill_switch list) result"
  ld_loadLiveRoutingGrants :: "(thrown, live_routing_grant list) result"
  ld_executionProduct :: execution_product
  ld_enqueue :: "port_enqueue \<Rightarrow> (thrown, unit) result"
  ld_collate :: "string \<Rightarrow> string \<Rightarrow> bool"
  ld_sha256 :: "string \<Rightarrow> int list"

subsection \<open>One request\<close>

definition rejectedReceipt :: "string \<Rightarrow> string \<Rightarrow> string \<Rightarrow> execution_receipt" where
  "rejectedReceipt iid reason executedAt = \<lparr>rc_intentId = iid, rc_venue = Live, rc_outcome = OutRejected,
     rc_filledQuantity = N 0, rc_averagePrice = N 0, rc_feeAmount = N 0,
     rc_rejectionReason = Some reason, rc_externalOrderId = None, rc_executedAt = executedAt\<rparr>"

definition side_text :: "order_side \<Rightarrow> string" where
  "side_text sd = (case sd of Buy \<Rightarrow> ''buy'' | Sell \<Rightarrow> ''sell'')"

definition referencePriceOf :: "order_intent \<Rightarrow> jsnum" where
  "referencePriceOf i = (range_min (entryPriceRange i) + range_max (entryPriceRange i)) / N 2"

definition orderSize :: "order_side \<Rightarrow> jsnum \<Rightarrow> jsnum \<Rightarrow> market_order_size" where
  "orderSize sd quantity referencePrice = (case sd of
     Buy \<Rightarrow> BuyQuote (quantity * referencePrice) | Sell \<Rightarrow> SellBase quantity)"

text \<open>The gates: \<open>Some reason\<close> is the rejection, \<open>None\<close> the way through.\<close>

definition gateOrder :: "'c live_deps \<Rightarrow> execution_account \<Rightarrow> order_intent \<Rightarrow> string option io" where
  "gateOrder deps account intent =
     io_bind (if side intent = Buy
       then io_bind (io_call (ReadReconciliation (ea_accountId account))
              (ld_loadReconciliationState deps (ea_accountId account))) (\<lambda>rec.
            io_bind (io_call ReadKillSwitches (ld_loadActiveKillSwitches deps)) (\<lambda>ks.
            let adm = admitOrder \<lparr>oa_side = side intent,
                oa_context = \<lparr>ctx_exchange = ea_exchange account, ctx_accountId = ea_accountId account,
                  ctx_strategyCode = Some (strategyCode (provenance intent))\<rparr>,
                oa_symbol = symbol intent, oa_killSwitches = ks, oa_reconciliation = rec\<rparr> in
            io_return (if allowed adm then None
              else Some (case adm_reason adm of Some r \<Rightarrow> r | None \<Rightarrow> ''ORDER_NOT_ADMITTED''))))
       else io_return None) (\<lambda>blocked.
     case blocked of Some r \<Rightarrow> io_return (Some r)
     | None \<Rightarrow>
       io_bind (io_call ReadGrants (ld_loadLiveRoutingGrants deps)) (\<lambda>grants.
       let routing = resolveLiveRouting \<lparr>lr_exchange = ea_exchange account,
           lr_environment = ea_environment account, lr_product = ld_executionProduct deps,
           lr_grants = grants, lr_side = side intent\<rparr> in
       io_return (if allowed routing then None
         else Some (case adm_reason routing of Some r \<Rightarrow> r | None \<Rightarrow> ''LIVE_ROUTING_NOT_GRANTED''))))"

definition enqueueInput ::
    "execution_account \<Rightarrow> execution_request \<Rightarrow> jsnum \<Rightarrow> string \<Rightarrow> string option \<Rightarrow> port_enqueue" where
  "enqueueInput account rq quantity coid ext = (let intent = rq_intent rq in \<lparr>pe_clientOrderId = coid,
     pe_accountId = ea_accountId account, pe_customerId = ea_customerId account,
     pe_exchange = ea_exchange account, pe_symbol = symbol intent, pe_requestedQuantity = quantity,
     pe_decisionRoundId = decisionRoundId (provenance intent), pe_portfolioId = rq_portfolioId rq,
     pe_intentId = intentId intent, pe_externalOrderId = ext\<rparr>)"

text \<open>Placing, and asking by our own id when the placing threw: an order, or the receipt to return.\<close>

definition placeOrRecover ::
    "'c live_deps \<Rightarrow> 'c live_order_adapter \<Rightarrow> 'c \<Rightarrow> execution_account \<Rightarrow> execution_request \<Rightarrow> jsnum
     \<Rightarrow> market_order_size \<Rightarrow> string \<Rightarrow> string \<Rightarrow> (execution_receipt + normalized_order) io" where
  "placeOrRecover deps adapter credentials account rq quantity sz coid executedAt =
     (let intent = rq_intent rq in
     (case placeMarketOrder adapter credentials (symbol intent) sz coid of
       Inr order \<Rightarrow> ([PlaceOrder (symbol intent) sz coid], Inr (Inr order))
     | Inl e \<Rightarrow>
       io_bind ([PlaceOrder (symbol intent) sz coid, QueryOrder (symbol intent) coid], Inr ()) (\<lambda>_.
       (case getOrderByClientOrderId adapter credentials (symbol intent) coid of
          Inr None \<Rightarrow>
            io_return (Inl (rejectedReceipt (intentId intent) (''PLACE_FAILED:'' @ thrown_name e) executedAt))
        | Inr (Some order) \<Rightarrow> io_return (Inr order)
        | Inl _ \<Rightarrow>
            io_bind (io_call (EnqueueReconciliation (enqueueInput account rq quantity coid None))
              (ld_enqueue deps (enqueueInput account rq quantity coid None))) (\<lambda>_.
            io_return (Inl (rejectedReceipt (intentId intent) ''RECONCILE_WAIT'' executedAt)))))))"

definition settleOrder ::
    "'c live_deps \<Rightarrow> execution_account \<Rightarrow> execution_request \<Rightarrow> jsnum \<Rightarrow> string \<Rightarrow> string
     \<Rightarrow> normalized_order \<Rightarrow> execution_receipt io" where
  "settleOrder deps account rq quantity coid executedAt order =
     io_bind (io_call (EnqueueReconciliation (enqueueInput account rq quantity coid (no_externalOrderId order)))
       (ld_enqueue deps (enqueueInput account rq quantity coid (no_externalOrderId order)))) (\<lambda>_.
     io_bind (domain_call ''Error'' (classifyFill \<lparr>fi_requestedQuantity = quantity,
       fi_filledQuantity = no_filledQuantity order, fi_averagePrice = no_averagePrice order,
       fi_state = no_state order, quantityTolerance = None\<rparr>)) (\<lambda>c.
     io_return \<lparr>rc_intentId = intentId (rq_intent rq), rc_venue = Live, rc_outcome = fc_outcome c,
       rc_filledQuantity = fc_filledQuantity c, rc_averagePrice = fc_averagePrice c,
       rc_feeAmount = no_feeAmount order, rc_rejectionReason = fc_rejectionReason c,
       rc_externalOrderId = no_externalOrderId order, rc_executedAt = executedAt\<rparr>))"

text \<open>From the request to the order it asks for: the receipt of a refusal, or all that placing needs.\<close>

record 'c prepared_order =
  pr_account :: execution_account
  pr_adapter :: "'c live_order_adapter"
  pr_quantity :: jsnum
  pr_size :: market_order_size
  pr_clientOrderId :: string
  pr_executedAt :: string

definition prepareOrder :: "'c live_deps \<Rightarrow> execution_request \<Rightarrow> (execution_receipt + 'c prepared_order) io" where
  "prepareOrder deps rq = (let intent = rq_intent rq; reject = rejectedReceipt (intentId intent) in
     io_bind (domain_call ''RangeError'' (iso_or_throw (ld_now deps))) (\<lambda>executedAt.
     io_bind (io_pure (ld_resolveAccount deps (rq_portfolioId rq))) (\<lambda>acct.
     case acct of None \<Rightarrow> io_return (Inl (reject ''PORTFOLIO_ACCOUNT_NOT_FOUND'' executedAt))
     | Some account \<Rightarrow>
     (case ld_adapterFor deps (ea_exchange account) (ea_environment account) of
       None \<Rightarrow> io_return (Inl (reject ''EXCHANGE_ADAPTER_NOT_AVAILABLE'' executedAt))
     | Some adapter \<Rightarrow>
     let price = referencePriceOf intent in
     io_bind (domain_call ''Error'' (resolveOrderQuantity rq price)) (\<lambda>quantity.
     if quantity \<le> N 0 then io_return (Inl (reject ''ORDER_QUANTITY_ZERO'' executedAt))
     else io_bind (domain_call ''Error'' (deriveClientOrderId (ld_collate deps) (ld_sha256 deps)
       \<lparr>ci_decisionRoundId = decisionRoundId (provenance intent), ci_portfolioId = rq_portfolioId rq,
        ci_action = side_text (side intent)\<rparr>)) (\<lambda>coid.
     io_return (Inr \<lparr>pr_account = account, pr_adapter = adapter, pr_quantity = quantity,
       pr_size = orderSize (side intent) quantity price, pr_clientOrderId = coid,
       pr_executedAt = executedAt\<rparr>)))))))"

definition executeOne :: "'c live_deps \<Rightarrow> execution_request \<Rightarrow> execution_receipt io" where
  "executeOne deps rq = io_bind (prepareOrder deps rq) (\<lambda>prepared.
     case prepared of Inl receipt \<Rightarrow> io_return receipt
     | Inr p \<Rightarrow>
     let account = pr_account p; executedAt = pr_executedAt p; coid = pr_clientOrderId p in
     io_bind (gateOrder deps account (rq_intent rq)) (\<lambda>blocked.
     case blocked of Some reason \<Rightarrow> io_return (rejectedReceipt (intentId (rq_intent rq)) reason executedAt)
     | None \<Rightarrow>
     io_bind (io_call (Acquire (ea_exchange account) (ea_accountId account))
       (ld_acquire deps (ea_exchange account) (ea_accountId account))) (\<lambda>_.
     io_bind (io_pure (ld_loadCredential deps (ea_accountId account) (ea_customerId account))) (\<lambda>credentials.
     io_bind (placeOrRecover deps (pr_adapter p) credentials account rq (pr_quantity p) (pr_size p) coid executedAt)
       (\<lambda>placed.
     case placed of Inl receipt \<Rightarrow> io_return receipt
     | Inr order \<Rightarrow> settleOrder deps account rq (pr_quantity p) coid executedAt order)))))"

subsection \<open>The fan-out\<close>

text \<open>
  A throw of one request becomes its receipt; only the date of that receipt can still throw. Each
  request meets the dependencies of its moment.
\<close>

definition receiptFor :: "'c live_deps \<Rightarrow> execution_request \<Rightarrow> execution_receipt io" where
  "receiptFor deps rq = (case executeOne deps rq of
       (es, Inr r) \<Rightarrow> (es, Inr r)
     | (es, Inl e) \<Rightarrow> io_bind (es, Inr ()) (\<lambda>_.
         io_bind (domain_call ''RangeError'' (iso_or_throw (ld_now deps))) (\<lambda>stamp.
         io_return (rejectedReceipt (intentId (rq_intent rq)) (''EXECUTION_ERROR:'' @ thrown_name e) stamp))))"

fun execute :: "('c live_deps \<times> execution_request) list \<Rightarrow> execution_receipt list io" where
  "execute [] = io_return []"
| "execute ((deps, rq) # rest) = io_bind (receiptFor deps rq) (\<lambda>r.
     io_bind (execute rest) (\<lambda>rs. io_return (r # rs)))"

subsection \<open>The stages\<close>

lemma io_simps [simp]:
  "io_bind (es, Inl e) k = (es, Inl e)"
  "io_bind (es, Inr x) k = (es @ fst (k x), snd (k x))"
  "io_return x = ([], Inr x)"
  "io_pure r = ([], r)"
  "io_call c r = ([c], r)"
  by (simp_all add: io_bind_def io_return_def io_pure_def io_call_def split: prod.split)

lemma domain_call_simps [simp]:
  "domain_call name (Inl c) = ([], Inl (ErrorNamed name))"
  "domain_call name (Inr x) = ([], Inr x)"
  by (simp_all add: domain_call_def)

definition is_gate_read :: "port_call \<Rightarrow> bool" where
  "is_gate_read c \<longleftrightarrow> (case c of ReadReconciliation _ \<Rightarrow> True | ReadKillSwitches \<Rightarrow> True | ReadGrants \<Rightarrow> True
     | Acquire _ _ \<Rightarrow> True | _ \<Rightarrow> False)"

definition admissionInput ::
    "execution_account \<Rightarrow> order_intent \<Rightarrow> active_kill_switch list \<Rightarrow> account_reconciliation_state \<Rightarrow> order_admission_input" where
  "admissionInput account intent ks rec = \<lparr>oa_side = side intent,
     oa_context = \<lparr>ctx_exchange = ea_exchange account, ctx_accountId = ea_accountId account,
       ctx_strategyCode = Some (strategyCode (provenance intent))\<rparr>,
     oa_symbol = symbol intent, oa_killSwitches = ks, oa_reconciliation = rec\<rparr>"

definition routingQuery ::
    "'c live_deps \<Rightarrow> execution_account \<Rightarrow> order_intent \<Rightarrow> live_routing_grant list \<Rightarrow> live_routing_query" where
  "routingQuery deps account intent grants = \<lparr>lr_exchange = ea_exchange account,
     lr_environment = ea_environment account, lr_product = ld_executionProduct deps,
     lr_grants = grants, lr_side = side intent\<rparr>"

text \<open>What the gates let through.\<close>

definition gates_open :: "'c live_deps \<Rightarrow> execution_account \<Rightarrow> order_intent \<Rightarrow> bool" where
  "gates_open deps account intent \<longleftrightarrow>
     (\<exists>grants. ld_loadLiveRoutingGrants deps = Inr grants
        \<and> allowed (resolveLiveRouting (routingQuery deps account intent grants)))
     \<and> (side intent = Buy \<longrightarrow> (\<exists>rec ks. ld_loadReconciliationState deps (ea_accountId account) = Inr rec
        \<and> ld_loadActiveKillSwitches deps = Inr ks \<and> allowed (admitOrder (admissionInput account intent ks rec))))"

lemma gateOrder_reads: "\<forall>c \<in> set (fst (gateOrder deps account intent)). is_gate_read c"
proof (cases "side intent")
  case Buy
  then show ?thesis
    by (cases "ld_loadReconciliationState deps (ea_accountId account)"; cases "ld_loadActiveKillSwitches deps";
        cases "ld_loadLiveRoutingGrants deps")
      (auto simp: gateOrder_def is_gate_read_def Let_def)
next
  case Sell
  then show ?thesis
    by (cases "ld_loadLiveRoutingGrants deps") (auto simp: gateOrder_def is_gate_read_def Let_def)
qed

lemma gateOrder_open:
  assumes "snd (gateOrder deps account intent) = Inr None"
  shows "gates_open deps account intent"
proof (cases "side intent")
  case Buy
  with assms show ?thesis
    by (cases "ld_loadReconciliationState deps (ea_accountId account)"; cases "ld_loadActiveKillSwitches deps";
        cases "ld_loadLiveRoutingGrants deps")
      (auto simp: gateOrder_def Let_def gates_open_def admissionInput_def routingQuery_def split: if_splits)
next
  case Sell
  with assms show ?thesis
    by (cases "ld_loadLiveRoutingGrants deps")
      (auto simp: gateOrder_def Let_def gates_open_def routingQuery_def split: if_splits)
qed

lemma gateOrder_sell:
  assumes "side intent = Sell" "ld_executionProduct deps = SpotUsdt" "ld_loadLiveRoutingGrants deps = Inr grants"
  shows "gateOrder deps account intent = ([ReadGrants], Inr None)"
  using assms by (simp add: gateOrder_def Let_def resolveLiveRouting_def isRoutableProduct_def)

definition refusal :: "string \<Rightarrow> execution_receipt \<Rightarrow> bool" where
  "refusal iid r \<longleftrightarrow> (\<exists>reason stamp. r = rejectedReceipt iid reason stamp)"

lemma refusal_rejected [simp]: "refusal iid (rejectedReceipt iid reason stamp)"
  by (auto simp: refusal_def)

lemma refusal_id: "refusal iid r \<Longrightarrow> rc_intentId r = iid"
  by (auto simp: refusal_def rejectedReceipt_def)

lemma prepareOrder_quiet: "fst (prepareOrder deps rq) = []"
  by (simp add: prepareOrder_def Let_def domain_call_def io_bind_def io_return_def io_pure_def
      split: sum.split option.split prod.split)

lemma prepareOrder_refused:
  assumes "snd (prepareOrder deps rq) = Inr (Inl r)"
  shows "refusal (intentId (rq_intent rq)) r"
  using assms
  by (auto simp: prepareOrder_def Let_def domain_call_def io_bind_def io_return_def io_pure_def
      split: sum.splits option.splits prod.splits if_splits)

definition prepared_for :: "'c live_deps \<Rightarrow> execution_request \<Rightarrow> 'c prepared_order \<Rightarrow> bool" where
  "prepared_for deps rq p \<longleftrightarrow> (let intent = rq_intent rq in
     ld_resolveAccount deps (rq_portfolioId rq) = Inr (Some (pr_account p))
     \<and> ld_adapterFor deps (ea_exchange (pr_account p)) (ea_environment (pr_account p)) = Some (pr_adapter p)
     \<and> resolveOrderQuantity rq (referencePriceOf intent) = Inr (pr_quantity p) \<and> \<not> pr_quantity p \<le> N 0
     \<and> pr_size p = orderSize (side intent) (pr_quantity p) (referencePriceOf intent)
     \<and> deriveClientOrderId (ld_collate deps) (ld_sha256 deps)
         \<lparr>ci_decisionRoundId = decisionRoundId (provenance intent), ci_portfolioId = rq_portfolioId rq,
          ci_action = side_text (side intent)\<rparr> = Inr (pr_clientOrderId p))"

lemma prepareOrder_ready:
  assumes "snd (prepareOrder deps rq) = Inr (Inr p)"
  shows "prepared_for deps rq p"
  using assms
  by (auto simp: prepareOrder_def prepared_for_def Let_def domain_call_def io_bind_def io_return_def io_pure_def
      split: sum.splits option.splits prod.splits if_splits)

text \<open>The calls of one order: placed once, then known to reconciliation unless the exchange denies it.\<close>

inductive order_calls :: "string \<Rightarrow> market_order_size \<Rightarrow> string \<Rightarrow> port_call list \<Rightarrow> bool" where
  calls_denied: "order_calls smb sz coid [PlaceOrder smb sz coid, QueryOrder smb coid]"
| calls_known: "pe_clientOrderId e = coid \<Longrightarrow> pe_symbol e = smb \<Longrightarrow>
    order_calls smb sz coid [PlaceOrder smb sz coid, EnqueueReconciliation e]"
| calls_recovered: "pe_clientOrderId e = coid \<Longrightarrow> pe_symbol e = smb \<Longrightarrow>
    order_calls smb sz coid [PlaceOrder smb sz coid, QueryOrder smb coid, EnqueueReconciliation e]"

inductive_simps order_calls_iff: "order_calls smb sz coid es"

lemma enqueueInput_keys [simp]:
  "pe_clientOrderId (enqueueInput account rq q coid ext) = coid"
  "pe_symbol (enqueueInput account rq q coid ext) = symbol (rq_intent rq)"
  by (simp_all add: enqueueInput_def Let_def)

lemma settleOrder_calls:
  "fst (settleOrder deps account rq q coid stamp order) =
     [EnqueueReconciliation (enqueueInput account rq q coid (no_externalOrderId order))]"
  by (simp add: settleOrder_def io_bind_def io_call_def io_return_def domain_call_def split: sum.split)

lemma rejectedReceipt_id [simp]: "rc_intentId (rejectedReceipt iid reason stamp) = iid"
  by (simp add: rejectedReceipt_def)

lemma settleOrder_id:
  "snd (settleOrder deps account rq q coid stamp order) = Inr r \<Longrightarrow> rc_intentId r = intentId (rq_intent rq)"
  by (auto simp: settleOrder_def io_bind_def io_call_def io_return_def domain_call_def split: sum.splits)

lemma settleOrder_id_pair:
  "settleOrder deps account rq q coid stamp order = (es, Inr r) \<Longrightarrow> rc_intentId r = intentId (rq_intent rq)"
  by (metis settleOrder_id snd_conv)

definition placeAndSettle ::
    "'c live_deps \<Rightarrow> 'c \<Rightarrow> execution_request \<Rightarrow> 'c prepared_order \<Rightarrow> execution_receipt io" where
  "placeAndSettle deps cred rq p =
     io_bind (placeOrRecover deps (pr_adapter p) cred (pr_account p) rq (pr_quantity p) (pr_size p)
       (pr_clientOrderId p) (pr_executedAt p))
     (case_sum io_return (settleOrder deps (pr_account p) rq (pr_quantity p) (pr_clientOrderId p) (pr_executedAt p)))"

lemma placeAndSettle_calls:
  "order_calls (symbol (rq_intent rq)) (pr_size p) (pr_clientOrderId p) (fst (placeAndSettle deps cred rq p))"
proof (cases "placeMarketOrder (pr_adapter p) cred (symbol (rq_intent rq)) (pr_size p) (pr_clientOrderId p)")
  case (Inr order)
  then show ?thesis
    by (simp add: placeAndSettle_def placeOrRecover_def Let_def settleOrder_calls calls_known)
next
  case e: (Inl e)
  show ?thesis
  proof (cases "getOrderByClientOrderId (pr_adapter p) cred (symbol (rq_intent rq)) (pr_clientOrderId p)")
    case (Inl x)
    with e show ?thesis
      by (cases "ld_enqueue deps (enqueueInput (pr_account p) rq (pr_quantity p) (pr_clientOrderId p) None)")
        (simp_all add: placeAndSettle_def placeOrRecover_def Let_def calls_recovered)
  next
    case (Inr found)
    with e show ?thesis
      by (cases found) (simp_all add: placeAndSettle_def placeOrRecover_def Let_def settleOrder_calls
          calls_denied calls_recovered)
  qed
qed

lemma executeOne_cases:
  obtains (refused) "\<forall>c \<in> set (fst (executeOne deps rq)). is_gate_read c"
    "\<And>r. snd (executeOne deps rq) = Inr r \<Longrightarrow> refusal (intentId (rq_intent rq)) r"
  | (placed) p cred ges where "prepared_for deps rq p" "gates_open deps (pr_account p) (rq_intent rq)"
    "\<forall>c \<in> set ges. is_gate_read c"
    "executeOne deps rq = (ges @ fst (placeAndSettle deps cred rq p), snd (placeAndSettle deps cred rq p))"
proof (cases "snd (prepareOrder deps rq)")
  case (Inl e)
  then have "prepareOrder deps rq = ([], Inl e)" by (metis prepareOrder_quiet prod.collapse)
  then show thesis by (intro refused) (simp_all add: executeOne_def)
next
  case (Inr pr)
  then have pq: "prepareOrder deps rq = ([], Inr pr)" by (metis prepareOrder_quiet prod.collapse)
  show thesis
  proof (cases pr)
    case (Inl r)
    with pq prepareOrder_refused [of deps rq r] show thesis
      by (intro refused) (auto simp: executeOne_def)
  next
    case p: (Inr p)
    define g where "g = gateOrder deps (pr_account p) (rq_intent rq)"
    obtain gs gr where g: "gateOrder deps (pr_account p) (rq_intent rq) = (gs, gr)" by (cases g) (simp add: g_def)
    have reads: "\<forall>c \<in> set gs. is_gate_read c"
      using gateOrder_reads [of deps "pr_account p" "rq_intent rq"] g by simp
    have acq: "is_gate_read (Acquire x y)" for x y by (simp add: is_gate_read_def)
    note unf = executeOne_def pq p Let_def g
    let ?acq = "ld_acquire deps (ea_exchange (pr_account p)) (ea_accountId (pr_account p))"
    let ?cred = "ld_loadCredential deps (ea_accountId (pr_account p)) (ea_customerId (pr_account p))"
    consider "gr \<noteq> Inr None" | e where "gr = Inr None" "?acq = Inl e" | e where "gr = Inr None" "?acq = Inr ()" "?cred = Inl e"
      | cred where "gr = Inr None" "?acq = Inr ()" "?cred = Inr cred"
      by (cases ?acq; cases ?cred) auto
    then show thesis
    proof cases
      case 1
      then show thesis using reads by (cases gr; intro refused) (auto simp: unf)
    next
      case 2
      then show thesis using reads acq by (intro refused) (auto simp: unf)
    next
      case 3
      then show thesis using reads acq by (intro refused) (auto simp: unf)
    next
      case 4
      let ?ges = "gs @ [Acquire (ea_exchange (pr_account p)) (ea_accountId (pr_account p))]"
      have f: "(case placed of Inl receipt \<Rightarrow> io_return receipt | Inr order \<Rightarrow>
            settleOrder deps (pr_account p) rq (pr_quantity p) (pr_clientOrderId p) (pr_executedAt p) order)
          = case_sum io_return (settleOrder deps (pr_account p) rq (pr_quantity p) (pr_clientOrderId p) (pr_executedAt p)) placed"
        for placed by simp
      show thesis
        using 4 reads acq prepareOrder_ready [of deps rq p] pq p
          gateOrder_open [of deps "pr_account p" "rq_intent rq"] g
        by (intro placed [of p ?ges cred]) (auto simp: unf placeAndSettle_def)
    qed
  qed
qed

lemma placeAndSettle_id:
  assumes "snd (placeAndSettle deps cred rq p) = Inr r"
  shows "rc_intentId r = intentId (rq_intent rq)"
  using assms
  by (auto simp: placeAndSettle_def placeOrRecover_def Let_def io_bind_def io_call_def io_return_def
      split: sum.splits option.splits prod.splits dest: settleOrder_id_pair)

lemma executeOne_id:
  assumes "snd (executeOne deps rq) = Inr r"
  shows "rc_intentId r = intentId (rq_intent rq)"
proof (cases rule: executeOne_cases [of deps rq])
  case refused
  then show ?thesis using assms refusal_id by blast
next
  case (placed p cred ges)
  then show ?thesis using assms placeAndSettle_id [of deps cred rq p r] by simp
qed

text \<open>The calls of a request that are not reads: none, or those of one order through open gates.\<close>

lemma order_calls_not_reads: "order_calls smb sz coid es \<Longrightarrow> filter (\<lambda>c. \<not> is_gate_read c) es = es"
  by (induction rule: order_calls.induct) (auto simp: is_gate_read_def)

lemma executeOne_effects:
  assumes "filter (\<lambda>c. \<not> is_gate_read c) (fst (executeOne deps rq)) = es" "es \<noteq> []"
  shows "\<exists>p. prepared_for deps rq p \<and> gates_open deps (pr_account p) (rq_intent rq)
    \<and> order_calls (symbol (rq_intent rq)) (pr_size p) (pr_clientOrderId p) es"
proof (cases rule: executeOne_cases [of deps rq])
  case refused
  then have "filter (\<lambda>c. \<not> is_gate_read c) (fst (executeOne deps rq)) = []" by (metis (mono_tags) filter_False)
  then show ?thesis using assms by metis
next
  case (placed p cred ges)
  define calls where "calls = fst (placeAndSettle deps cred rq p)"
  have oc: "order_calls (symbol (rq_intent rq)) (pr_size p) (pr_clientOrderId p) calls"
    unfolding calls_def by (rule placeAndSettle_calls)
  have "fst (executeOne deps rq) = ges @ calls" unfolding calls_def by (metis placed(4) fst_conv)
  then have "es = filter (\<lambda>c. \<not> is_gate_read c) ges @ filter (\<lambda>c. \<not> is_gate_read c) calls"
    using assms(1) by (metis filter_append)
  moreover have "filter (\<lambda>c. \<not> is_gate_read c) ges = []" using placed(3) by (metis (mono_tags) filter_False)
  ultimately have "es = calls" using order_calls_not_reads [OF oc] by (metis append_Nil)
  then show ?thesis using placed(1,2) oc by blast
qed

subsection \<open>The batch\<close>

lemma receiptFor_id:
  assumes "snd (receiptFor deps rq) = Inr r"
  shows "rc_intentId r = intentId (rq_intent rq)"
  using assms executeOne_id [of deps rq r]
  by (cases "executeOne deps rq"; cases "iso_or_throw (ld_now deps)")
    (auto simp: receiptFor_def split: sum.splits)

lemma receiptFor_calls: "fst (receiptFor deps rq) = fst (executeOne deps rq)"
proof -
  obtain es r where e: "executeOne deps rq = (es, r)" by (cases "executeOne deps rq")
  then show ?thesis by (cases r; cases "iso_or_throw (ld_now deps)") (simp_all add: receiptFor_def)
qed

lemma receiptFor_returns:
  "returns (iso_or_throw (ld_now deps)) \<Longrightarrow> \<exists>r. snd (receiptFor deps rq) = Inr r"
proof -
  obtain es r where e: "executeOne deps rq = (es, r)" by (cases "executeOne deps rq")
  assume "returns (iso_or_throw (ld_now deps))"
  with e show ?thesis by (cases r) (auto simp: receiptFor_def returns_iff)
qed

lemma io_bind_Inr_iff:
  "snd (io_bind m k) = Inr y \<longleftrightarrow> (\<exists>x. snd m = Inr x \<and> snd (k x) = Inr y)"
  by (cases m; cases "snd m") auto

lemma io_bind_calls:
  "snd m = Inr x \<Longrightarrow> fst (io_bind m k) = fst m @ fst (k x)"
  by (cases m) auto

lemma execute_receipts:
  assumes "snd (execute reqs) = Inr rs"
  shows "map rc_intentId rs = map (\<lambda>(d, rq). intentId (rq_intent rq)) reqs"
  using assms
proof (induction reqs arbitrary: rs rule: execute.induct)
  case (2 deps rq rest)
  then obtain r xs where "snd (receiptFor deps rq) = Inr r" "snd (execute rest) = Inr xs" "rs = r # xs"
    by (auto simp: io_bind_Inr_iff)
  then show ?case using 2 receiptFor_id [of deps rq r] by simp
qed simp

lemma execute_returns:
  assumes "\<forall>(d, rq) \<in> set reqs. returns (iso_or_throw (ld_now d))"
  shows "\<exists>rs. snd (execute reqs) = Inr rs"
  using assms
proof (induction reqs rule: execute.induct)
  case (2 deps rq rest)
  then obtain r rs where "snd (receiptFor deps rq) = Inr r" "snd (execute rest) = Inr rs"
    using receiptFor_returns [of deps rq] by auto
  then have "snd (execute ((deps, rq) # rest)) = Inr (r # rs)" by (simp add: io_bind_Inr_iff)
  then show ?case by blast
qed simp

text \<open>The calls of the batch are the calls of its requests, one after the other.\<close>

lemma execute_calls:
  assumes "snd (execute reqs) = Inr rs"
  shows "fst (execute reqs) = concat (map (\<lambda>(d, rq). fst (executeOne d rq)) reqs)"
  using assms
proof (induction reqs arbitrary: rs rule: execute.induct)
  case (2 deps rq rest)
  then obtain r rs' where "snd (receiptFor deps rq) = Inr r" "snd (execute rest) = Inr rs'"
    by (auto simp: io_bind_Inr_iff)
  then show ?case using 2 by (simp add: io_bind_calls receiptFor_calls)
qed simp

subsection \<open>Properties\<close>

text \<open>C4. No order without open gates, and never two: a request either does nothing to the outside
but read its gates, or it is prepared from its own account, quantity and id, its gates are open,
and it places exactly one order, after which the order is enqueued for reconciliation unless the
exchange itself denies knowing it.\<close>

theorem one_order_behind_open_gates:
  "filter (\<lambda>c. \<not> is_gate_read c) (fst (executeOne deps rq)) = []
   \<or> (\<exists>p. prepared_for deps rq p \<and> gates_open deps (pr_account p) (rq_intent rq)
        \<and> order_calls (symbol (rq_intent rq)) (pr_size p) (pr_clientOrderId p)
            (filter (\<lambda>c. \<not> is_gate_read c) (fst (executeOne deps rq))))"
  using executeOne_effects [OF refl] by blast

text \<open>One receipt per request, in the order of the requests and carrying their intents' ids,
and the calls of the batch are those of its requests, one after the other.\<close>

theorem one_receipt_per_request:
  assumes "snd (execute reqs) = Inr rs"
  shows "map rc_intentId rs = map (\<lambda>(d, rq). intentId (rq_intent rq)) reqs
    \<and> fst (execute reqs) = concat (map (\<lambda>(d, rq). fst (executeOne d rq)) reqs)"
  using execute_receipts [OF assms] execute_calls [OF assms] by simp

definition refusing_deps :: "unit live_deps" where
  "refusing_deps = \<lparr>ld_resolveAccount = (\<lambda>_. Inr None), ld_loadCredential = (\<lambda>_ _. Inr ()),
     ld_adapterFor = (\<lambda>_ _. None), ld_acquire = (\<lambda>_ _. Inr ()), ld_now = Some 0,
     ld_loadReconciliationState = (\<lambda>_. Inl ThrownOther), ld_loadActiveKillSwitches = Inl ThrownOther,
     ld_loadLiveRoutingGrants = Inr [], ld_executionProduct = SpotUsdt, ld_enqueue = (\<lambda>_. Inr ()),
     ld_collate = first_char_le, ld_sha256 = (\<lambda>_. replicate 32 7)\<rparr>"

lemma refusing_execute:
  "execute [(refusing_deps, sample_request)]
     = ([], Inr [rejectedReceipt ''i1'' ''PORTFOLIO_ACCOUNT_NOT_FOUND'' (iso_text 0)])"
  by (simp add: receiptFor_def executeOne_def prepareOrder_def refusing_deps_def Let_def iso_or_throw_def
      to_iso_def sample_request_def sample_intent_def)

theorem one_receipt_per_request_witness:
  "map rc_intentId [rejectedReceipt ''i1'' ''PORTFOLIO_ACCOUNT_NOT_FOUND'' (iso_text 0)] = [''i1'']"
  using one_receipt_per_request [of "[(refusing_deps, sample_request)]"] refusing_execute
  by (simp add: sample_request_def sample_intent_def)

text \<open>C36. A batch always returns: whatever the account lookup, the gates, the exchange or the store
throw, each request ends in a receipt, as long as the clock gives a valid date.\<close>

theorem execute_always_returns:
  assumes "\<forall>(d, rq) \<in> set reqs. ld_now d \<noteq> None"
  shows "\<exists>rs. snd (execute reqs) = Inr rs \<and> length rs = length reqs"
proof -
  have "\<forall>(d, rq) \<in> set reqs. returns (iso_or_throw (ld_now d))"
    using assms by (force simp: iso_or_throw_def to_iso_def)
  then obtain rs where "snd (execute reqs) = Inr rs" using execute_returns by blast
  moreover from this have "length rs = length reqs" using execute_receipts by (metis length_map)
  ultimately show ?thesis by blast
qed

theorem execute_always_returns_witness:
  "\<exists>rs. snd (execute [(refusing_deps, sample_request)]) = Inr rs \<and> length rs = 1"
  using execute_always_returns [of "[(refusing_deps, sample_request)]"] by (simp add: refusing_deps_def)

text \<open>Closing a spot position asks neither the kill switches nor the reconciliations: its only
gate is the routing, which it always passes.\<close>

theorem sell_reads_only_routing:
  assumes "side intent = Sell" "ld_executionProduct deps = SpotUsdt" "ld_loadLiveRoutingGrants deps = Inr grants"
  shows "gateOrder deps account intent = ([ReadGrants], Inr None)"
  using assms by (rule gateOrder_sell)

theorem sell_reads_only_routing_witness:
  "gateOrder refusing_deps \<lparr>ea_accountId = ''a1'', ea_customerId = ''c1'', ea_exchange = ''okx'',
     ea_environment = EnvLive\<rparr> (sample_intent\<lparr>side := Sell\<rparr>) = ([ReadGrants], Inr None)"
  by (rule sell_reads_only_routing [where grants = "[]"]) (simp_all add: refusing_deps_def)

end
