(* ===== verification/DslRules.thy ===== *)
theory DslRules
  imports CanonicalJson
begin

text \<open>
  The rules of the strategy language and their normaliser (\<open>packages/domain/src/strategy-dsl.ts\<close>,
  up to \<open>normalizeRules\<close>). Input is a JSON value; a failed check throws a validation error with one
  issue, of which the path is kept. A \<open>JObj\<close> lists its entries in enumeration order.
\<close>

subsection \<open>Data\<close>

datatype trend_direction = Bullish | Bearish
datatype compare_operator = OpLt | OpLte | OpGte | OpGt
datatype level_side = Above | Below
datatype band_side = UpperBand | LowerBand
datatype band_operator = BandAbove | BandBelow | BandGte | BandLte
datatype range_smoothing = Wilder | SimpleWindow
datatype volume_average = SmaPrevious | EmaInclusive

datatype strategy_rule =
    EmaCross jsnum jsnum trend_direction
  | RsiThreshold jsnum compare_operator jsnum "range_smoothing option"
  | ChannelBreakout jsnum level_side
  | VolumeRatio jsnum compare_operator jsnum "volume_average option"
  | AdxThreshold jsnum compare_operator jsnum
  | BollingerBand jsnum jsnum band_side band_operator
  | AtrVolatility jsnum compare_operator jsnum "range_smoothing option"
  | EmaAlignment "jsnum list" trend_direction
  | PriceEma jsnum level_side
  | Momentum jsnum compare_operator jsnum
  | CandleDirection trend_direction

type_synonym fields = "(string \<times> json) list"

subsection \<open>Access to a JSON value\<close>

definition objectAt :: "json \<Rightarrow> string \<Rightarrow> (string, fields) result" where
  "objectAt v path = (case v of JObj o' \<Rightarrow> Inr o' | _ \<Rightarrow> Inl path)"

definition field :: "fields \<Rightarrow> string \<Rightarrow> json" where
  "field obj k = (case map_of obj k of Some v \<Rightarrow> v | None \<Rightarrow> JUndef)"

definition sub_path :: "string \<Rightarrow> string \<Rightarrow> string" where
  "sub_path path k = path @ ''.'' @ k"

definition item_path :: "string \<Rightarrow> nat \<Rightarrow> string" where
  "item_path path i = path @ ''['' @ show_digits (int i) @ '']''"

definition rejectUnknownKeys :: "fields \<Rightarrow> string list \<Rightarrow> string \<Rightarrow> (string, unit) result" where
  "rejectUnknownKeys obj known path = (case find (\<lambda>k. k \<notin> set known) (map fst obj) of
     None \<Rightarrow> Inr ()
   | Some k \<Rightarrow> Inl (if path = [] then k else sub_path path k))"

definition numberAt :: "json \<Rightarrow> string \<Rightarrow> jsnum \<Rightarrow> jsnum \<Rightarrow> bool \<Rightarrow> (string, jsnum) result" where
  "numberAt v path lo hi integer = (case v of
     JNum x \<Rightarrow> if \<not> is_finite x then Inl path
       else if integer \<and> \<not> is_integer x then Inl path
       else if x < lo \<or> hi < x then Inl path else Inr x
   | _ \<Rightarrow> Inl path)"

definition stringAt :: "json \<Rightarrow> string \<Rightarrow> nat \<Rightarrow> (string, string) result" where
  "stringAt v path maxLength = (case v of
     JStr s \<Rightarrow> let normalized = js_trim s in
       if normalized = [] then Inl path
       else if maxLength < length normalized then Inl path else Inr normalized
   | _ \<Rightarrow> Inl path)"

text \<open>A field that must be one of a few strings, and one that may be left out.\<close>

definition choiceAt :: "(string \<times> 'a) list \<Rightarrow> json \<Rightarrow> string \<Rightarrow> (string, 'a) result" where
  "choiceAt options v path = (case v of
     JStr s \<Rightarrow> (case map_of options s of Some x \<Rightarrow> Inr x | None \<Rightarrow> Inl path) | _ \<Rightarrow> Inl path)"

definition optionalAt :: "(string \<times> 'a) list \<Rightarrow> json \<Rightarrow> string \<Rightarrow> (string, 'a option) result" where
  "optionalAt options v path =
     (if v = JUndef then Inr None else ebind (choiceAt options v path) (\<lambda>x. Inr (Some x)))"

definition is_alnum :: "char \<Rightarrow> bool" where
  "is_alnum c \<longleftrightarrow> is_upper c \<or> is_lower c \<or> is_digit c"

definition valid_symbol :: "string \<Rightarrow> bool" where
  "valid_symbol s \<longleftrightarrow> list_all (\<lambda>c. is_upper c \<or> is_digit c) s \<and> ends_with s ''USDT''
     \<and> 6 \<le> length s \<and> length s \<le> 24"

definition normalizeSymbol :: "json \<Rightarrow> (string, string) result" where
  "normalizeSymbol v = ebind (stringAt v ''symbol'' 24) (\<lambda>s.
     let smb = js_upper (filter is_alnum s) in
     if \<not> valid_symbol smb then Inl ''symbol'' else Inr smb)"

definition allowedTimeframes :: "string list" where
  "allowedTimeframes = [''5m'', ''15m'', ''1h'', ''4h'', ''1d'']"

definition normalizeTimeframe :: "json \<Rightarrow> (string, string) result" where
  "normalizeTimeframe v = ebind (stringAt v ''timeframe'' 8) (\<lambda>s.
     let tf = js_lower s in if tf \<notin> set allowedTimeframes then Inl ''timeframe'' else Inr tf)"

subsection \<open>The texts of the choices\<close>

definition trend_options :: "(string \<times> trend_direction) list" where
  "trend_options = [(''bullish'', Bullish), (''bearish'', Bearish)]"
definition rsi_options :: "(string \<times> compare_operator) list" where
  "rsi_options = [(''lt'', OpLt), (''lte'', OpLte), (''gte'', OpGte), (''gt'', OpGt)]"
definition bound_options :: "(string \<times> compare_operator) list" where
  "bound_options = [(''lte'', OpLte), (''gte'', OpGte)]"
definition level_options :: "(string \<times> level_side) list" where
  "level_options = [(''above'', Above), (''below'', Below)]"
definition band_options :: "(string \<times> band_side) list" where
  "band_options = [(''upper'', UpperBand), (''lower'', LowerBand)]"
definition band_operator_options :: "(string \<times> band_operator) list" where
  "band_operator_options = [(''above'', BandAbove), (''below'', BandBelow), (''gte'', BandGte), (''lte'', BandLte)]"
definition smoothing_options :: "(string \<times> range_smoothing) list" where
  "smoothing_options = [(''wilder'', Wilder), (''simple_window'', SimpleWindow)]"
definition average_options :: "(string \<times> volume_average) list" where
  "average_options = [(''sma_previous'', SmaPrevious), (''ema_inclusive'', EmaInclusive)]"

definition text_of :: "(string \<times> 'a) list \<Rightarrow> 'a \<Rightarrow> string" where
  "text_of options x = (case find (\<lambda>(s, y). y = x) options of Some (s, _) \<Rightarrow> s | None \<Rightarrow> [])"

subsection \<open>The normaliser, one definition per rule type\<close>

definition normEmaCross :: "fields \<Rightarrow> string \<Rightarrow> (string, strategy_rule) result" where
  "normEmaCross rule path =
     ebind (rejectUnknownKeys rule [''type'', ''fastPeriod'', ''slowPeriod'', ''direction''] path) (\<lambda>_.
     ebind (numberAt (field rule ''fastPeriod'') (sub_path path ''fastPeriod'') (N 2) (N 200) True) (\<lambda>fast.
     ebind (numberAt (field rule ''slowPeriod'') (sub_path path ''slowPeriod'') (N 3) (N 400) True) (\<lambda>slow.
     if slow \<le> fast then Inl (sub_path path ''fastPeriod'')
     else ebind (choiceAt trend_options (field rule ''direction'') (sub_path path ''direction'')) (\<lambda>d.
       Inr (EmaCross fast slow d)))))"

definition normRsi :: "fields \<Rightarrow> string \<Rightarrow> (string, strategy_rule) result" where
  "normRsi rule path =
     ebind (rejectUnknownKeys rule [''type'', ''period'', ''operator'', ''value'', ''smoothing''] path) (\<lambda>_.
     ebind (numberAt (field rule ''period'') (sub_path path ''period'') (N 2) (N 100) True) (\<lambda>period.
     ebind (numberAt (field rule ''value'') (sub_path path ''value'') (N 1) (N 99) False) (\<lambda>threshold.
     ebind (choiceAt rsi_options (field rule ''operator'') (sub_path path ''operator'')) (\<lambda>op.
     ebind (optionalAt smoothing_options (field rule ''smoothing'') (sub_path path ''smoothing'')) (\<lambda>sm.
       Inr (RsiThreshold period op threshold sm))))))"

definition normChannel :: "fields \<Rightarrow> string \<Rightarrow> (string, strategy_rule) result" where
  "normChannel rule path =
     ebind (rejectUnknownKeys rule [''type'', ''period'', ''direction''] path) (\<lambda>_.
     ebind (numberAt (field rule ''period'') (sub_path path ''period'') (N 2) (N 200) True) (\<lambda>period.
     ebind (choiceAt level_options (field rule ''direction'') (sub_path path ''direction'')) (\<lambda>d.
       Inr (ChannelBreakout period d))))"

definition normVolume :: "fields \<Rightarrow> string \<Rightarrow> (string, strategy_rule) result" where
  "normVolume rule path =
     ebind (rejectUnknownKeys rule [''type'', ''period'', ''operator'', ''value'', ''average''] path) (\<lambda>_.
     ebind (numberAt (field rule ''period'') (sub_path path ''period'') (N 2) (N 200) True) (\<lambda>period.
     ebind (numberAt (field rule ''value'') (sub_path path ''value'') (lit (1 / 10)) (N 10) False) (\<lambda>ratio.
     ebind (choiceAt bound_options (field rule ''operator'') (sub_path path ''operator'')) (\<lambda>op.
     ebind (optionalAt average_options (field rule ''average'') (sub_path path ''average'')) (\<lambda>av.
       Inr (VolumeRatio period op ratio av))))))"

definition normAdx :: "fields \<Rightarrow> string \<Rightarrow> (string, strategy_rule) result" where
  "normAdx rule path =
     ebind (rejectUnknownKeys rule [''type'', ''period'', ''operator'', ''value''] path) (\<lambda>_.
     ebind (numberAt (field rule ''period'') (sub_path path ''period'') (N 2) (N 100) True) (\<lambda>period.
     ebind (numberAt (field rule ''value'') (sub_path path ''value'') (N 1) (N 100) False) (\<lambda>threshold.
     ebind (choiceAt bound_options (field rule ''operator'') (sub_path path ''operator'')) (\<lambda>op.
       Inr (AdxThreshold period op threshold)))))"

definition normBollinger :: "fields \<Rightarrow> string \<Rightarrow> (string, strategy_rule) result" where
  "normBollinger rule path =
     ebind (rejectUnknownKeys rule [''type'', ''period'', ''stdDev'', ''band'', ''operator''] path) (\<lambda>_.
     ebind (numberAt (field rule ''period'') (sub_path path ''period'') (N 2) (N 200) True) (\<lambda>period.
     ebind (numberAt (field rule ''stdDev'') (sub_path path ''stdDev'') (lit (1 / 2)) (N 5) False) (\<lambda>sd.
     ebind (choiceAt band_options (field rule ''band'') (sub_path path ''band'')) (\<lambda>band.
     ebind (choiceAt band_operator_options (field rule ''operator'') (sub_path path ''operator'')) (\<lambda>op.
       Inr (BollingerBand period sd band op))))))"

definition normAtr :: "fields \<Rightarrow> string \<Rightarrow> (string, strategy_rule) result" where
  "normAtr rule path =
     ebind (rejectUnknownKeys rule [''type'', ''period'', ''operator'', ''valuePct'', ''smoothing''] path) (\<lambda>_.
     ebind (numberAt (field rule ''period'') (sub_path path ''period'') (N 2) (N 100) True) (\<lambda>period.
     ebind (numberAt (field rule ''valuePct'') (sub_path path ''valuePct'') (lit (1 / 10)) (N 20) False) (\<lambda>pct.
     ebind (choiceAt bound_options (field rule ''operator'') (sub_path path ''operator'')) (\<lambda>op.
     ebind (optionalAt smoothing_options (field rule ''smoothing'') (sub_path path ''smoothing'')) (\<lambda>sm.
       Inr (AtrVolatility period op pct sm))))))"

fun numbersAt :: "json list \<Rightarrow> string \<Rightarrow> nat \<Rightarrow> jsnum \<Rightarrow> jsnum \<Rightarrow> (string, jsnum list) result" where
  "numbersAt [] path i lo hi = Inr []"
| "numbersAt (v # vs) path i lo hi = ebind (numberAt v (item_path path i) lo hi True) (\<lambda>x.
     ebind (numbersAt vs path (Suc i) lo hi) (\<lambda>xs. Inr (x # xs)))"

fun increasing :: "jsnum list \<Rightarrow> bool" where
  "increasing (x # y # ys) \<longleftrightarrow> \<not> y \<le> x \<and> increasing (y # ys)"
| "increasing _ \<longleftrightarrow> True"

definition normAlignment :: "fields \<Rightarrow> string \<Rightarrow> (string, strategy_rule) result" where
  "normAlignment rule path =
     ebind (rejectUnknownKeys rule [''type'', ''periods'', ''direction''] path) (\<lambda>_.
     (case field rule ''periods'' of
       JArr items \<Rightarrow>
         if length items < 2 \<or> 4 < length items then Inl (sub_path path ''periods'')
         else ebind (numbersAt items (sub_path path ''periods'') 0 (N 2) (N 400)) (\<lambda>periods.
           if \<not> distinct periods \<or> \<not> increasing periods then Inl (sub_path path ''periods'')
           else ebind (choiceAt trend_options (field rule ''direction'') (sub_path path ''direction'')) (\<lambda>d.
             Inr (EmaAlignment periods d)))
     | _ \<Rightarrow> Inl (sub_path path ''periods'')))"

definition normPriceEma :: "fields \<Rightarrow> string \<Rightarrow> (string, strategy_rule) result" where
  "normPriceEma rule path =
     ebind (rejectUnknownKeys rule [''type'', ''period'', ''operator''] path) (\<lambda>_.
     ebind (numberAt (field rule ''period'') (sub_path path ''period'') (N 2) (N 400) True) (\<lambda>period.
     ebind (choiceAt level_options (field rule ''operator'') (sub_path path ''operator'')) (\<lambda>op.
       Inr (PriceEma period op))))"

definition normMomentum :: "fields \<Rightarrow> string \<Rightarrow> (string, strategy_rule) result" where
  "normMomentum rule path =
     ebind (rejectUnknownKeys rule [''type'', ''period'', ''operator'', ''valuePct''] path) (\<lambda>_.
     ebind (numberAt (field rule ''period'') (sub_path path ''period'') (N 1) (N 200) True) (\<lambda>period.
     ebind (numberAt (field rule ''valuePct'') (sub_path path ''valuePct'') (N (- 50)) (N 50) False) (\<lambda>pct.
     ebind (choiceAt bound_options (field rule ''operator'') (sub_path path ''operator'')) (\<lambda>op.
       Inr (Momentum period op pct)))))"

definition normCandle :: "fields \<Rightarrow> string \<Rightarrow> (string, strategy_rule) result" where
  "normCandle rule path =
     ebind (rejectUnknownKeys rule [''type'', ''direction''] path) (\<lambda>_.
     ebind (choiceAt trend_options (field rule ''direction'') (sub_path path ''direction'')) (\<lambda>d.
       Inr (CandleDirection d)))"

definition rule_normalisers :: "(string \<times> (fields \<Rightarrow> string \<Rightarrow> (string, strategy_rule) result)) list" where
  "rule_normalisers = [(''ema_cross'', normEmaCross), (''rsi_threshold'', normRsi),
     (''channel_breakout'', normChannel), (''volume_ratio'', normVolume), (''adx_threshold'', normAdx),
     (''bollinger_band'', normBollinger), (''atr_volatility'', normAtr), (''ema_alignment'', normAlignment),
     (''price_ema'', normPriceEma), (''momentum'', normMomentum), (''candle_direction'', normCandle)]"

definition normalizeRule :: "json \<Rightarrow> string \<Rightarrow> (string, strategy_rule) result" where
  "normalizeRule v path = ebind (objectAt v path) (\<lambda>rule.
     (case field rule ''type'' of
       JStr ty \<Rightarrow> (case map_of rule_normalisers ty of
           Some normalise \<Rightarrow> normalise rule path | None \<Rightarrow> Inl (sub_path path ''type''))
     | _ \<Rightarrow> Inl (sub_path path ''type'')))"

fun rulesAt :: "json list \<Rightarrow> string \<Rightarrow> nat \<Rightarrow> (string, strategy_rule list) result" where
  "rulesAt [] path i = Inr []"
| "rulesAt (v # vs) path i = ebind (normalizeRule v (item_path path i)) (\<lambda>r.
     ebind (rulesAt vs path (Suc i)) (\<lambda>rs. Inr (r # rs)))"

definition normalizeRules :: "json \<Rightarrow> string \<Rightarrow> nat \<Rightarrow> (string, strategy_rule list) result" where
  "normalizeRules v path minimum = (case v of
     JArr items \<Rightarrow> if length items < minimum \<or> 4 < length items then Inl path else rulesAt items path 0
   | _ \<Rightarrow> Inl path)"

subsection \<open>A normalised rule\<close>

definition in_range :: "jsnum \<Rightarrow> jsnum \<Rightarrow> jsnum \<Rightarrow> bool" where
  "in_range x lo hi \<longleftrightarrow> is_finite x \<and> \<not> x < lo \<and> \<not> hi < x"

definition whole :: "jsnum \<Rightarrow> rat \<Rightarrow> rat \<Rightarrow> bool" where
  "whole x lo hi \<longleftrightarrow> in_range x (N lo) (N hi) \<and> is_integer x"

fun rule_ok :: "strategy_rule \<Rightarrow> bool" where
  "rule_ok (EmaCross f sl d) \<longleftrightarrow> whole f 2 200 \<and> whole sl 3 400 \<and> \<not> sl \<le> f"
| "rule_ok (RsiThreshold p op v sm) \<longleftrightarrow> whole p 2 100 \<and> in_range v (N 1) (N 99)"
| "rule_ok (ChannelBreakout p d) \<longleftrightarrow> whole p 2 200"
| "rule_ok (VolumeRatio p op v av) \<longleftrightarrow> whole p 2 200 \<and> in_range v (lit (1 / 10)) (N 10) \<and> op \<in> {OpLte, OpGte}"
| "rule_ok (AdxThreshold p op v) \<longleftrightarrow> whole p 2 100 \<and> in_range v (N 1) (N 100) \<and> op \<in> {OpLte, OpGte}"
| "rule_ok (BollingerBand p sd b op) \<longleftrightarrow> whole p 2 200 \<and> in_range sd (lit (1 / 2)) (N 5)"
| "rule_ok (AtrVolatility p op v sm) \<longleftrightarrow> whole p 2 100 \<and> in_range v (lit (1 / 10)) (N 20) \<and> op \<in> {OpLte, OpGte}"
| "rule_ok (EmaAlignment ps d) \<longleftrightarrow> 2 \<le> length ps \<and> length ps \<le> 4 \<and> list_all (\<lambda>p. whole p 2 400) ps
     \<and> distinct ps \<and> increasing ps"
| "rule_ok (PriceEma p op) \<longleftrightarrow> whole p 2 400"
| "rule_ok (Momentum p op v) \<longleftrightarrow> whole p 1 200 \<and> in_range v (N (- 50)) (N 50) \<and> op \<in> {OpLte, OpGte}"
| "rule_ok (CandleDirection d) \<longleftrightarrow> True"

text \<open>The object a normaliser returns, as the value that is stored and read again.\<close>

definition opt_entry :: "string \<Rightarrow> (string \<times> 'a) list \<Rightarrow> 'a option \<Rightarrow> fields" where
  "opt_entry k options x = (case x of None \<Rightarrow> [] | Some y \<Rightarrow> [(k, JStr (text_of options y))])"

fun rule_json :: "strategy_rule \<Rightarrow> json" where
  "rule_json (EmaCross f sl d) = JObj [(''type'', JStr ''ema_cross''), (''fastPeriod'', JNum f),
     (''slowPeriod'', JNum sl), (''direction'', JStr (text_of trend_options d))]"
| "rule_json (RsiThreshold p op v sm) = JObj ([(''type'', JStr ''rsi_threshold''), (''period'', JNum p),
     (''operator'', JStr (text_of rsi_options op)), (''value'', JNum v)] @ opt_entry ''smoothing'' smoothing_options sm)"
| "rule_json (ChannelBreakout p d) = JObj [(''type'', JStr ''channel_breakout''), (''period'', JNum p),
     (''direction'', JStr (text_of level_options d))]"
| "rule_json (VolumeRatio p op v av) = JObj ([(''type'', JStr ''volume_ratio''), (''period'', JNum p),
     (''operator'', JStr (text_of bound_options op)), (''value'', JNum v)] @ opt_entry ''average'' average_options av)"
| "rule_json (AdxThreshold p op v) = JObj [(''type'', JStr ''adx_threshold''), (''period'', JNum p),
     (''operator'', JStr (text_of bound_options op)), (''value'', JNum v)]"
| "rule_json (BollingerBand p sd b op) = JObj [(''type'', JStr ''bollinger_band''), (''period'', JNum p),
     (''stdDev'', JNum sd), (''band'', JStr (text_of band_options b)),
     (''operator'', JStr (text_of band_operator_options op))]"
| "rule_json (AtrVolatility p op v sm) = JObj ([(''type'', JStr ''atr_volatility''), (''period'', JNum p),
     (''operator'', JStr (text_of bound_options op)), (''valuePct'', JNum v)] @ opt_entry ''smoothing'' smoothing_options sm)"
| "rule_json (EmaAlignment ps d) = JObj [(''type'', JStr ''ema_alignment''), (''periods'', JArr (map JNum ps)),
     (''direction'', JStr (text_of trend_options d))]"
| "rule_json (PriceEma p op) = JObj [(''type'', JStr ''price_ema''), (''period'', JNum p),
     (''operator'', JStr (text_of level_options op))]"
| "rule_json (Momentum p op v) = JObj [(''type'', JStr ''momentum''), (''period'', JNum p),
     (''operator'', JStr (text_of bound_options op)), (''valuePct'', JNum v)]"
| "rule_json (CandleDirection d) = JObj [(''type'', JStr ''candle_direction''),
     (''direction'', JStr (text_of trend_options d))]"

lemmas options_defs = trend_options_def rsi_options_def bound_options_def level_options_def band_options_def
  band_operator_options_def smoothing_options_def average_options_def

lemma numberAt_Inr:
  "numberAt v path lo hi whole_only = Inr x \<longleftrightarrow> v = JNum x \<and> in_range x lo hi \<and> (whole_only \<longrightarrow> is_integer x)"
  by (cases v) (auto simp: numberAt_def in_range_def)

lemma choiceAt_texts [simp]:
  "choiceAt trend_options (JStr (text_of trend_options d)) path = Inr d"
  by (cases d) (simp_all add: choiceAt_def text_of_def options_defs)

lemma choiceAt_operator_texts [simp]:
  "choiceAt rsi_options (JStr (text_of rsi_options op)) path = Inr op"
  "op = OpLte \<or> op = OpGte \<Longrightarrow> choiceAt bound_options (JStr (text_of bound_options op)) path = Inr op"
  by (cases op; simp add: choiceAt_def text_of_def options_defs)+

lemma choiceAt_level_texts [simp]:
  "choiceAt level_options (JStr (text_of level_options l)) path = Inr l"
  by (cases l) (simp_all add: choiceAt_def text_of_def options_defs)

lemma choiceAt_band_texts [simp]:
  "choiceAt band_options (JStr (text_of band_options b)) path = Inr b"
  "choiceAt band_operator_options (JStr (text_of band_operator_options bo)) path = Inr bo"
  by (cases b, simp_all add: choiceAt_def text_of_def options_defs)
    (cases bo; simp add: choiceAt_def text_of_def options_defs)

lemma choiceAt_optional_texts [simp]:
  "choiceAt smoothing_options (JStr (text_of smoothing_options sm)) path = Inr sm"
  "choiceAt average_options (JStr (text_of average_options av)) path = Inr av"
  by (cases sm, simp_all add: choiceAt_def text_of_def options_defs)
    (cases av; simp add: choiceAt_def text_of_def options_defs)

lemma optionalAt_absent [simp]: "optionalAt options JUndef path = Inr None"
  by (simp add: optionalAt_def)

lemma optionalAt_present [simp]:
  "choiceAt options (JStr t) path = Inr x \<Longrightarrow> optionalAt options (JStr t) path = Inr (Some x)"
  by (simp add: optionalAt_def)

lemma numberAt_whole [simp]:
  "whole x lo hi \<Longrightarrow> numberAt (JNum x) path (N lo) (N hi) True = Inr x"
  "in_range x l h \<Longrightarrow> numberAt (JNum x) path l h False = Inr x"
  by (simp_all add: numberAt_Inr whole_def)

lemma numbersAt_map: "list_all (\<lambda>p. whole p lo hi) ps \<Longrightarrow> numbersAt (map JNum ps) path i (N lo) (N hi) = Inr ps"
  by (induction ps arbitrary: i) auto

lemma numbersAt_Inr:
  "numbersAt vs path i (N lo) (N hi) = Inr ps \<Longrightarrow> vs = map JNum ps \<and> list_all (\<lambda>p. whole p lo hi) ps"
  by (induction vs arbitrary: i ps) (auto simp: ebind_Inr_iff numberAt_Inr whole_def)

lemmas norm_defs = normEmaCross_def normRsi_def normChannel_def normVolume_def normAdx_def
  normBollinger_def normAtr_def normAlignment_def normPriceEma_def normMomentum_def normCandle_def

text \<open>A normaliser that returns has checked everything, and reads its own result back unchanged.\<close>

lemma norm_rule_ok:
  assumes "normEmaCross rule path = Inr r \<or> normRsi rule path = Inr r \<or> normChannel rule path = Inr r
    \<or> normBollinger rule path = Inr r \<or> normPriceEma rule path = Inr r \<or> normCandle rule path = Inr r"
  shows "rule_ok r"
  using assms by (auto simp: norm_defs ebind_Inr_iff numberAt_Inr whole_def split: if_splits)

lemma choiceAt_bound: "choiceAt bound_options v path = Inr op \<Longrightarrow> op = OpLte \<or> op = OpGte"
  by (cases v) (auto simp: choiceAt_def bound_options_def split: if_splits)

lemma norm_bound_rule_ok:
  assumes "normVolume rule path = Inr r \<or> normAdx rule path = Inr r \<or> normAtr rule path = Inr r
    \<or> normMomentum rule path = Inr r"
  shows "rule_ok r"
  using assms by (auto simp: norm_defs ebind_Inr_iff numberAt_Inr whole_def dest: choiceAt_bound)

lemma norm_alignment_ok: "normAlignment rule path = Inr r \<Longrightarrow> rule_ok r"
  by (auto simp: norm_defs ebind_Inr_iff dest!: numbersAt_Inr split: json.splits if_splits)

lemma normalizeRule_ok:
  assumes "normalizeRule v path = Inr r"
  shows "rule_ok r"
proof -
  obtain rule where rule: "(case field rule ''type'' of
       JStr ty \<Rightarrow> (case map_of rule_normalisers ty of
           Some normalise \<Rightarrow> normalise rule path | None \<Rightarrow> Inl (sub_path path ''type''))
     | _ \<Rightarrow> Inl (sub_path path ''type'')) = Inr r"
    using assms by (auto simp: normalizeRule_def ebind_Inr_iff)
  then obtain ty normalise where "map_of rule_normalisers ty = Some normalise" "normalise rule path = Inr r"
    by (cases "field rule ''type''") (auto split: option.splits)
  then show ?thesis
    using norm_rule_ok [of rule path r] norm_bound_rule_ok [of rule path r] norm_alignment_ok [of rule path r]
    by (auto simp: rule_normalisers_def split: if_splits)
qed

lemma normalizeRule_json:
  assumes "rule_ok r"
  shows "normalizeRule (rule_json r) path = Inr r"
  using assms
  by (cases r) (auto simp: normalizeRule_def objectAt_def rule_normalisers_def norm_defs field_def
      rejectUnknownKeys_def opt_entry_def numbersAt_map split: option.splits)

lemma rulesAt_Inr: "rulesAt vs path i = Inr rs \<Longrightarrow> list_all rule_ok rs \<and> length rs = length vs"
  by (induction vs arbitrary: i rs) (auto simp: ebind_Inr_iff normalizeRule_ok)

lemma rulesAt_json: "list_all rule_ok rs \<Longrightarrow> rulesAt (map rule_json rs) path i = Inr rs"
  by (induction rs arbitrary: i) (auto simp: normalizeRule_json)

definition rules_ok :: "nat \<Rightarrow> strategy_rule list \<Rightarrow> bool" where
  "rules_ok minimum rs \<longleftrightarrow> minimum \<le> length rs \<and> length rs \<le> 4 \<and> list_all rule_ok rs"

lemma normalizeRules_Inr: "normalizeRules v path minimum = Inr rs \<Longrightarrow> rules_ok minimum rs"
  by (cases v) (auto simp: normalizeRules_def rules_ok_def split: if_splits dest: rulesAt_Inr)

lemma normalizeRules_json: "rules_ok minimum rs \<Longrightarrow> normalizeRules (JArr (map rule_json rs)) path minimum = Inr rs"
  by (simp add: normalizeRules_def rules_ok_def rulesAt_json)

subsection \<open>Properties\<close>

text \<open>C38. Every rule the normaliser accepts satisfies the bounds of its kind, and written out and
read again, under whatever path, it is the same rule.\<close>

theorem rule_round_trip:
  assumes "normalizeRule v path = Inr r"
  shows "rule_ok r \<and> normalizeRule (rule_json r) path' = Inr r"
  using normalizeRule_ok [OF assms] normalizeRule_json by blast

theorem rule_round_trip_witness: "rule_ok (EmaCross (N 10) (N 30) Bullish)"
proof -
  have ok: "rule_ok (EmaCross (N 10) (N 30) Bullish)" by (simp add: whole_def in_range_def)
  show ?thesis using rule_round_trip [OF normalizeRule_json [OF ok]] by blast
qed

end
