(* ===== verification/StrategyDsl.thy ===== *)
theory StrategyDsl
  imports DslRules
begin

text \<open>
  The three versions of the strategy language, their normalisers and the conversion to the runtime
  form (\<open>packages/domain/src/strategy-dsl.ts\<close>). Errors are issue paths, as in \<open>DslRules\<close>. The
  versions 2 and 3 differ in their legs only and share one definition here.
\<close>

subsection \<open>Data\<close>

record strategy_dsl =
  v1_name :: string
  v1_symbol :: string
  v1_timeframe :: string
  v1_entry :: "strategy_rule list"
  v1_exit :: "strategy_rule list"
  v1_stopLossPct :: jsnum
  v1_takeProfitPct :: jsnum
  v1_positionPct :: jsnum
  v1_maxDrawdownPct :: jsnum
  v1_dailyLossLimitPct :: jsnum
  v1_consecutiveLossLimit :: jsnum

datatype condition_v3 = CRule strategy_rule | CAll "condition_v3 list" | CAny "condition_v3 list" | CNot condition_v3

record 'c strategy_leg =
  leg_entry :: 'c
  leg_exit :: 'c
  leg_stopLossPct :: jsnum
  leg_takeProfitPct :: jsnum

type_synonym strategy_leg_v2 = "strategy_rule list strategy_leg"
type_synonym strategy_leg_v3 = "condition_v3 strategy_leg"

record 'l perpetual_dsl =
  pd_name :: string
  pd_symbol :: string
  pd_timeframe :: string
  pd_direction :: json
  pd_long :: "'l option"
  pd_short :: "'l option"
  pd_positionSizePct :: jsnum
  pd_maxDrawdownPct :: jsnum
  pd_maxDailyLossPct :: jsnum
  pd_maxConsecutiveLosses :: jsnum

type_synonym strategy_dsl_v2 = "strategy_leg_v2 perpetual_dsl"
type_synonym strategy_dsl_v3 = "strategy_leg_v3 perpetual_dsl"

datatype research_dsl = DslV1 strategy_dsl | DslV2 strategy_dsl_v2 | DslV3 strategy_dsl_v3

subsection \<open>Truth value and text of a JSON value\<close>

fun json_truthy :: "json \<Rightarrow> bool" where
  "json_truthy JUndef \<longleftrightarrow> False"
| "json_truthy JNull \<longleftrightarrow> False"
| "json_truthy (JBool b) \<longleftrightarrow> b"
| "json_truthy (JNum x) \<longleftrightarrow> truthy x"
| "json_truthy (JStr s) \<longleftrightarrow> s \<noteq> []"
| "json_truthy _ \<longleftrightarrow> True"

fun json_to_string :: "json \<Rightarrow> string" where
  "json_to_string JUndef = ''undefined''"
| "json_to_string JNull = ''null''"
| "json_to_string (JBool b) = (if b then ''true'' else ''false'')"
| "json_to_string (JNum x) = js_show x"
| "json_to_string (JStr s) = s"
| "json_to_string (JObj _) = ''[object Object]''"
| "json_to_string (JArr items) = join_with '','' (map
     (\<lambda>v. if v = JUndef \<or> v = JNull then [] else json_to_string v) items)"

subsection \<open>Version 1\<close>

definition normalizeStrategyDsl :: "json \<Rightarrow> (string, strategy_dsl) result" where
  "normalizeStrategyDsl input =
     ebind (objectAt input ''$'') (\<lambda>v.
     ebind (rejectUnknownKeys v [''schemaVersion'', ''name'', ''symbol'', ''timeframe'', ''side'',
       ''entry'', ''exit'', ''risk''] []) (\<lambda>_.
     if field v ''schemaVersion'' \<noteq> JNum (N 1) then Inl ''schemaVersion''
     else if field v ''side'' \<noteq> JStr ''long_only'' then Inl ''side''
     else ebind (objectAt (field v ''entry'') ''entry'') (\<lambda>entry.
     ebind (rejectUnknownKeys entry [''all''] ''entry'') (\<lambda>_.
     ebind (objectAt (field v ''exit'') ''exit'') (\<lambda>exit.
     ebind (rejectUnknownKeys exit [''any'', ''stopLossPct'', ''takeProfitPct''] ''exit'') (\<lambda>_.
     ebind (objectAt (field v ''risk'') ''risk'') (\<lambda>risk.
     ebind (rejectUnknownKeys risk [''positionPct'', ''maxDrawdownPct'', ''dailyLossLimitPct'',
       ''consecutiveLossLimit''] ''risk'') (\<lambda>_.
     ebind (numberAt (field exit ''stopLossPct'') ''exit.stopLossPct'' (lit (1 / 10)) (N 20) False) (\<lambda>sl.
     ebind (numberAt (field exit ''takeProfitPct'') ''exit.takeProfitPct'' (lit (1 / 10)) (N 30) False) (\<lambda>tp.
     ebind (numberAt (field risk ''positionPct'') ''risk.positionPct'' (lit (1 / 10)) (N 30) False) (\<lambda>pos.
     ebind (numberAt (field risk ''maxDrawdownPct'') ''risk.maxDrawdownPct'' (N 1) (N 50) False) (\<lambda>dd.
     if dd \<le> sl then Inl ''exit.stopLossPct''
     else ebind (stringAt (field v ''name'') ''name'' 80) (\<lambda>nm.
     ebind (normalizeSymbol (field v ''symbol'')) (\<lambda>smb.
     ebind (normalizeTimeframe (field v ''timeframe'')) (\<lambda>tf.
     ebind (normalizeRules (field entry ''all'') ''entry.all'' 1) (\<lambda>ens.
     ebind (normalizeRules (field exit ''any'') ''exit.any'' 0) (\<lambda>exs.
     ebind (numberAt (field risk ''dailyLossLimitPct'') ''risk.dailyLossLimitPct'' (lit (1 / 2)) (N 20) False) (\<lambda>daily.
     ebind (numberAt (field risk ''consecutiveLossLimit'') ''risk.consecutiveLossLimit'' (N 1) (N 10) True) (\<lambda>losses.
       Inr \<lparr>v1_name = nm, v1_symbol = smb, v1_timeframe = tf, v1_entry = ens, v1_exit = exs,
         v1_stopLossPct = sl, v1_takeProfitPct = tp, v1_positionPct = pos, v1_maxDrawdownPct = dd,
         v1_dailyLossLimitPct = daily, v1_consecutiveLossLimit = losses\<rparr>)))))))))))))))))))"

subsection \<open>Legs\<close>

definition normalizeStrategyLegV2 :: "json \<Rightarrow> string \<Rightarrow> (string, strategy_leg_v2) result" where
  "normalizeStrategyLegV2 v path =
     ebind (objectAt v path) (\<lambda>leg.
     ebind (rejectUnknownKeys leg [''entry'', ''exit'', ''stopLossPct'', ''takeProfitPct''] path) (\<lambda>_.
     ebind (objectAt (field leg ''entry'') (sub_path path ''entry'')) (\<lambda>entry.
     ebind (rejectUnknownKeys entry [''all''] (sub_path path ''entry'')) (\<lambda>_.
     ebind (objectAt (field leg ''exit'') (sub_path path ''exit'')) (\<lambda>exit.
     ebind (rejectUnknownKeys exit [''any''] (sub_path path ''exit'')) (\<lambda>_.
     ebind (normalizeRules (field entry ''all'') (sub_path path ''entry.all'') 1) (\<lambda>ens.
     ebind (normalizeRules (field exit ''any'') (sub_path path ''exit.any'') 0) (\<lambda>exs.
     ebind (numberAt (field leg ''stopLossPct'') (sub_path path ''stopLossPct'') (lit (1 / 10)) (N 20) False) (\<lambda>sl.
     ebind (numberAt (field leg ''takeProfitPct'') (sub_path path ''takeProfitPct'') (lit (1 / 10)) (N 30) False) (\<lambda>tp.
       Inr \<lparr>leg_entry = ens, leg_exit = exs, leg_stopLossPct = sl, leg_takeProfitPct = tp\<rparr>))))))))))"

text \<open>
  The condition trees of version 3: the shared node counter of the source is passed along and
  returned; \<open>depth\<close> starts at 1.
\<close>

function (sequential) normalizeConditionV3 ::
    "json \<Rightarrow> string \<Rightarrow> nat \<Rightarrow> nat \<Rightarrow> bool \<Rightarrow> (string, condition_v3 \<times> nat) result"
and conditionsAt ::
    "json list \<Rightarrow> string \<Rightarrow> nat \<Rightarrow> nat \<Rightarrow> nat \<Rightarrow> (string, condition_v3 list \<times> nat) result" where
  "normalizeConditionV3 v path nodes depth allowEmpty =
     (if 4 < depth then Inl path
      else if 32 < nodes + 1 then Inl path
      else ebind (objectAt v path) (\<lambda>condition.
        if field condition ''type'' \<noteq> JUndef then ebind (normalizeRule v path) (\<lambda>r. Inr (CRule r, nodes + 1))
        else if field condition ''all'' \<noteq> JUndef then
          ebind (rejectUnknownKeys condition [''all''] path) (\<lambda>_.
          (case field condition ''all'' of
             JArr items \<Rightarrow>
               if length items < (if allowEmpty then 0 else 1) \<or> 8 < length items then Inl (sub_path path ''all'')
               else ebind (conditionsAt items (sub_path path ''all'') 0 (nodes + 1) (depth + 1))
                 (\<lambda>(cs, n). Inr (CAll cs, n))
           | _ \<Rightarrow> Inl (sub_path path ''all'')))
        else if field condition ''any'' \<noteq> JUndef then
          ebind (rejectUnknownKeys condition [''any''] path) (\<lambda>_.
          (case field condition ''any'' of
             JArr items \<Rightarrow>
               if length items < (if allowEmpty then 0 else 1) \<or> 8 < length items then Inl (sub_path path ''any'')
               else ebind (conditionsAt items (sub_path path ''any'') 0 (nodes + 1) (depth + 1))
                 (\<lambda>(cs, n). Inr (CAny cs, n))
           | _ \<Rightarrow> Inl (sub_path path ''any'')))
        else if field condition ''not'' \<noteq> JUndef then
          ebind (rejectUnknownKeys condition [''not''] path) (\<lambda>_.
          ebind (normalizeConditionV3 (field condition ''not'') (sub_path path ''not'') (nodes + 1) (depth + 1) False)
            (\<lambda>(c, n). Inr (CNot c, n)))
        else Inl path))"
| "conditionsAt [] path i nodes depth = Inr ([], nodes)"
| "conditionsAt (v # vs) path i nodes depth =
     ebind (normalizeConditionV3 v (item_path path i) nodes depth False) (\<lambda>(c, n).
     ebind (conditionsAt vs path (Suc i) n depth) (\<lambda>(cs, n'). Inr (c # cs, n')))"
  by pat_completeness auto
termination
  by (relation "measures [\<lambda>x. case x of Inl (v, path, nodes, depth, e) \<Rightarrow> 6 - depth | Inr (vs, path, i, nodes, depth) \<Rightarrow> 6 - depth,
      \<lambda>x. case x of Inl _ \<Rightarrow> 0 | Inr (vs, _) \<Rightarrow> Suc (length vs)]") auto

declare normalizeConditionV3.simps [simp del]

definition normalizeStrategyLegV3 :: "json \<Rightarrow> string \<Rightarrow> (string, strategy_leg_v3) result" where
  "normalizeStrategyLegV3 v path =
     ebind (objectAt v path) (\<lambda>leg.
     ebind (rejectUnknownKeys leg [''entry'', ''exit'', ''stopLossPct'', ''takeProfitPct''] path) (\<lambda>_.
     ebind (normalizeConditionV3 (field leg ''entry'') (sub_path path ''entry'') 0 1 False) (\<lambda>(en, _).
     ebind (normalizeConditionV3 (field leg ''exit'') (sub_path path ''exit'') 0 1 True) (\<lambda>(ex, _).
     ebind (numberAt (field leg ''stopLossPct'') (sub_path path ''stopLossPct'') (lit (1 / 10)) (N 20) False) (\<lambda>sl.
     ebind (numberAt (field leg ''takeProfitPct'') (sub_path path ''takeProfitPct'') (lit (1 / 10)) (N 30) False) (\<lambda>tp.
       Inr \<lparr>leg_entry = en, leg_exit = ex, leg_stopLossPct = sl, leg_takeProfitPct = tp\<rparr>))))))"

subsection \<open>Versions 2 and 3\<close>

definition needs_long :: "json \<Rightarrow> bool" where
  "needs_long d \<longleftrightarrow> d = JStr ''long_only'' \<or> d = JStr ''both''"

definition needs_short :: "json \<Rightarrow> bool" where
  "needs_short d \<longleftrightarrow> d = JStr ''short_only'' \<or> d = JStr ''both''"

definition optionalLeg ::
    "(json \<Rightarrow> string \<Rightarrow> (string, 'l) result) \<Rightarrow> json \<Rightarrow> string \<Rightarrow> (string, 'l option) result" where
  "optionalLeg legAt v path = (if v = JUndef then Inr None else ebind (legAt v path) (\<lambda>l. Inr (Some l)))"

definition checkLegStop :: "jsnum \<Rightarrow> 'c strategy_leg option \<Rightarrow> string \<Rightarrow> (string, unit) result" where
  "checkLegStop dd leg path = (case leg of
     None \<Rightarrow> Inr ()
   | Some l \<Rightarrow> if dd \<le> leg_stopLossPct l then Inl (sub_path path ''stopLossPct'') else Inr ())"

definition checkDirection :: "fields \<Rightarrow> json \<Rightarrow> (string, unit) result" where
  "checkDirection legs d =
     (if needs_long d \<and> \<not> json_truthy (field legs ''long'') then Inl ''legs.long''
      else if needs_short d \<and> \<not> json_truthy (field legs ''short'') then Inl ''legs.short''
      else if d = JStr ''long_only'' \<and> field legs ''short'' \<noteq> JUndef then Inl ''legs.short''
      else if d = JStr ''short_only'' \<and> field legs ''long'' \<noteq> JUndef then Inl ''legs.long''
      else Inr ())"

definition checkMarket :: "rat \<Rightarrow> fields \<Rightarrow> (string, unit) result" where
  "checkMarket version v =
     (if field v ''schemaVersion'' \<noteq> JNum (N version) then Inl ''schemaVersion''
      else if field v ''market'' \<noteq> JStr ''usdt_perpetual'' then Inl ''market''
      else if field v ''marginMode'' \<noteq> JStr ''isolated'' then Inl ''marginMode''
      else if field v ''leverage'' \<noteq> JNum (N 1) then Inl ''leverage''
      else if json_to_string (field v ''direction'') \<notin> {''long_only'', ''short_only'', ''both''}
      then Inl ''direction'' else Inr ())"

definition normalizePerpetual ::
    "rat \<Rightarrow> (json \<Rightarrow> string \<Rightarrow> (string, 'c strategy_leg) result) \<Rightarrow> json
     \<Rightarrow> (string, 'c strategy_leg perpetual_dsl) result" where
  "normalizePerpetual version legAt input =
     ebind (objectAt input ''$'') (\<lambda>v.
     ebind (rejectUnknownKeys v [''schemaVersion'', ''name'', ''market'', ''marginMode'', ''leverage'',
       ''symbol'', ''timeframe'', ''direction'', ''legs'', ''risk''] []) (\<lambda>_.
     ebind (checkMarket version v) (\<lambda>_.
     let direction = field v ''direction'' in
     ebind (objectAt (field v ''legs'') ''legs'') (\<lambda>legs.
     ebind (rejectUnknownKeys legs [''long'', ''short''] ''legs'') (\<lambda>_.
     ebind (checkDirection legs direction) (\<lambda>_.
     ebind (objectAt (field v ''risk'') ''risk'') (\<lambda>risk.
     ebind (rejectUnknownKeys risk [''positionSizePct'', ''maxDrawdownPct'', ''maxDailyLossPct'',
       ''maxConsecutiveLosses''] ''risk'') (\<lambda>_.
     ebind (numberAt (field risk ''maxDrawdownPct'') ''risk.maxDrawdownPct'' (N 1) (N 50) False) (\<lambda>dd.
     ebind (optionalLeg legAt (field legs ''long'') ''legs.long'') (\<lambda>long.
     ebind (optionalLeg legAt (field legs ''short'') ''legs.short'') (\<lambda>short.
     ebind (checkLegStop dd long ''legs.long'') (\<lambda>_.
     ebind (checkLegStop dd short ''legs.short'') (\<lambda>_.
     ebind (stringAt (field v ''name'') ''name'' 80) (\<lambda>nm.
     ebind (normalizeSymbol (field v ''symbol'')) (\<lambda>smb.
     ebind (normalizeTimeframe (field v ''timeframe'')) (\<lambda>tf.
     ebind (numberAt (field risk ''positionSizePct'') ''risk.positionSizePct'' (lit (1 / 10)) (N 30) False) (\<lambda>pos.
     ebind (numberAt (field risk ''maxDailyLossPct'') ''risk.maxDailyLossPct'' (lit (1 / 2)) (N 20) False) (\<lambda>daily.
     ebind (numberAt (field risk ''maxConsecutiveLosses'') ''risk.maxConsecutiveLosses'' (N 1) (N 10) True) (\<lambda>losses.
       Inr \<lparr>pd_name = nm, pd_symbol = smb, pd_timeframe = tf, pd_direction = direction,
         pd_long = long, pd_short = short, pd_positionSizePct = pos, pd_maxDrawdownPct = dd,
         pd_maxDailyLossPct = daily, pd_maxConsecutiveLosses = losses\<rparr>)))))))))))))))))))"

definition normalizeStrategyDslV2 :: "json \<Rightarrow> (string, strategy_dsl_v2) result" where
  "normalizeStrategyDslV2 = normalizePerpetual 2 normalizeStrategyLegV2"

definition normalizeStrategyDslV3 :: "json \<Rightarrow> (string, strategy_dsl_v3) result" where
  "normalizeStrategyDslV3 = normalizePerpetual 3 normalizeStrategyLegV3"

definition normalizeResearchStrategyDsl :: "json \<Rightarrow> (string, research_dsl) result" where
  "normalizeResearchStrategyDsl input = (case input of
     JObj v \<Rightarrow>
       (if field v ''schemaVersion'' = JNum (N 1) then ebind (normalizeStrategyDsl input) (\<lambda>d. Inr (DslV1 d))
        else if field v ''schemaVersion'' = JNum (N 2) then ebind (normalizeStrategyDslV2 input) (\<lambda>d. Inr (DslV2 d))
        else if field v ''schemaVersion'' = JNum (N 3) then ebind (normalizeStrategyDslV3 input) (\<lambda>d. Inr (DslV3 d))
        else Inl ''schemaVersion'')
   | _ \<Rightarrow> Inl ''$'')"

subsection \<open>The runtime form\<close>

fun condition_json :: "condition_v3 \<Rightarrow> json" where
  "condition_json (CRule r) = rule_json r"
| "condition_json (CAll cs) = JObj [(''all'', JArr (map condition_json cs))]"
| "condition_json (CAny cs) = JObj [(''any'', JArr (map condition_json cs))]"
| "condition_json (CNot c) = JObj [(''not'', condition_json c)]"

definition leg_json :: "condition_v3 strategy_leg \<Rightarrow> json" where
  "leg_json l = JObj [(''entry'', condition_json (leg_entry l)), (''exit'', condition_json (leg_exit l)),
     (''stopLossPct'', JNum (leg_stopLossPct l)), (''takeProfitPct'', JNum (leg_takeProfitPct l))]"

text \<open>A version 2 leg has the form \<open>{entry: {all}, exit: {any}}\<close>, which is a version 3 leg as it stands.\<close>

definition leg_v2_as_v3 :: "strategy_leg_v2 \<Rightarrow> strategy_leg_v3" where
  "leg_v2_as_v3 l = \<lparr>leg_entry = CAll (map CRule (leg_entry l)), leg_exit = CAny (map CRule (leg_exit l)),
     leg_stopLossPct = leg_stopLossPct l, leg_takeProfitPct = leg_takeProfitPct l\<rparr>"

definition opt_leg :: "string \<Rightarrow> strategy_leg_v3 option \<Rightarrow> fields" where
  "opt_leg k l = (case l of None \<Rightarrow> [] | Some x \<Rightarrow> [(k, leg_json x)])"

definition perpetual_json_at :: "rat \<Rightarrow> strategy_dsl_v3 \<Rightarrow> json" where
  "perpetual_json_at version d = JObj [(''schemaVersion'', JNum (N version)), (''name'', JStr (pd_name d)),
     (''market'', JStr ''usdt_perpetual''), (''marginMode'', JStr ''isolated''), (''leverage'', JNum (N 1)),
     (''symbol'', JStr (pd_symbol d)), (''timeframe'', JStr (pd_timeframe d)), (''direction'', pd_direction d),
     (''legs'', JObj (opt_leg ''long'' (pd_long d) @ opt_leg ''short'' (pd_short d))),
     (''risk'', JObj [(''positionSizePct'', JNum (pd_positionSizePct d)),
        (''maxDrawdownPct'', JNum (pd_maxDrawdownPct d)), (''maxDailyLossPct'', JNum (pd_maxDailyLossPct d)),
        (''maxConsecutiveLosses'', JNum (pd_maxConsecutiveLosses d))])]"

definition perpetual_json :: "strategy_dsl_v3 \<Rightarrow> json" where
  "perpetual_json d = perpetual_json_at 3 d"

definition v2_as_v3 :: "strategy_dsl_v2 \<Rightarrow> strategy_dsl_v3" where
  "v2_as_v3 d = \<lparr>pd_name = pd_name d, pd_symbol = pd_symbol d, pd_timeframe = pd_timeframe d,
     pd_direction = pd_direction d, pd_long = map_option leg_v2_as_v3 (pd_long d),
     pd_short = map_option leg_v2_as_v3 (pd_short d), pd_positionSizePct = pd_positionSizePct d,
     pd_maxDrawdownPct = pd_maxDrawdownPct d, pd_maxDailyLossPct = pd_maxDailyLossPct d,
     pd_maxConsecutiveLosses = pd_maxConsecutiveLosses d\<rparr>"

definition v1_as_v3 :: "strategy_dsl \<Rightarrow> strategy_dsl_v3" where
  "v1_as_v3 d = \<lparr>pd_name = v1_name d, pd_symbol = v1_symbol d, pd_timeframe = v1_timeframe d,
     pd_direction = JStr ''long_only'',
     pd_long = Some \<lparr>leg_entry = CAll (map CRule (v1_entry d)), leg_exit = CAny (map CRule (v1_exit d)),
       leg_stopLossPct = v1_stopLossPct d, leg_takeProfitPct = v1_takeProfitPct d\<rparr>,
     pd_short = None, pd_positionSizePct = v1_positionPct d, pd_maxDrawdownPct = v1_maxDrawdownPct d,
     pd_maxDailyLossPct = v1_dailyLossLimitPct d, pd_maxConsecutiveLosses = v1_consecutiveLossLimit d\<rparr>"

definition strategyDslToRuntime :: "json \<Rightarrow> (string, strategy_dsl_v3) result" where
  "strategyDslToRuntime input = ebind (normalizeResearchStrategyDsl input) (\<lambda>normalized.
     case normalized of
       DslV3 d \<Rightarrow> Inr d
     | DslV2 d \<Rightarrow> normalizeStrategyDslV3 (perpetual_json (v2_as_v3 d))
     | DslV1 d \<Rightarrow> normalizeStrategyDslV3 (perpetual_json (v1_as_v3 d)))"

subsection \<open>Well-formed conditions\<close>

fun condition_nodes :: "condition_v3 \<Rightarrow> nat" where
  "condition_nodes (CRule r) = 1"
| "condition_nodes (CAll cs) = Suc (sum_list (map condition_nodes cs))"
| "condition_nodes (CAny cs) = Suc (sum_list (map condition_nodes cs))"
| "condition_nodes (CNot c) = Suc (condition_nodes c)"

text \<open>Depth at most \<open>k\<close>, with well-formed rules and 1 to 8 children (the root may have none).\<close>

fun condition_wf :: "nat \<Rightarrow> bool \<Rightarrow> condition_v3 \<Rightarrow> bool" where
  "condition_wf 0 e c \<longleftrightarrow> False"
| "condition_wf (Suc k) e (CRule r) \<longleftrightarrow> rule_ok r"
| "condition_wf (Suc k) e (CAll cs) \<longleftrightarrow> (e \<or> cs \<noteq> []) \<and> length cs \<le> 8 \<and> (\<forall>c \<in> set cs. condition_wf k False c)"
| "condition_wf (Suc k) e (CAny cs) \<longleftrightarrow> (e \<or> cs \<noteq> []) \<and> length cs \<le> 8 \<and> (\<forall>c \<in> set cs. condition_wf k False c)"
| "condition_wf (Suc k) e (CNot c) \<longleftrightarrow> condition_wf k False c"

lemma rule_json_fields: "\<exists>o' ty. rule_json r = JObj o' \<and> field o' ''type'' = JStr ty"
  by (cases r) (auto simp: field_def)

lemma conditions_sound:
  "normalizeConditionV3 v path nodes depth e = Inr (c, n) \<Longrightarrow>
     condition_wf (5 - depth) e c \<and> n = nodes + condition_nodes c \<and> n \<le> 32"
  "conditionsAt vs path i nodes depth = Inr (cs, n) \<Longrightarrow> nodes \<le> 32 \<Longrightarrow>
     (\<forall>c \<in> set cs. condition_wf (5 - depth) False c) \<and> length cs = length vs
     \<and> n = nodes + sum_list (map condition_nodes cs) \<and> n \<le> 32"
proof (induction v path nodes depth e and vs path i nodes depth
    arbitrary: c n and cs n rule: normalizeConditionV3_conditionsAt.induct)
  case (1 v path nodes depth e)
  note unf = normalizeConditionV3.simps [of v path nodes depth e]
  have d: "\<not> 4 < depth" "\<not> 32 < nodes + 1" using "1.prems" by (auto simp: unf split: if_splits)
  then have k: "5 - depth = Suc (5 - (depth + 1))" by simp
  obtain obj where obj: "objectAt v path = Inr obj" using "1.prems" d by (auto simp: unf ebind_Inr_iff)
  note prems = "1.prems" [unfolded unf, simplified d obj if_False ebind_simps]
  consider (rule) "field obj ''type'' \<noteq> JUndef"
    | (all) "field obj ''type'' = JUndef" "field obj ''all'' \<noteq> JUndef"
    | (any) "field obj ''type'' = JUndef" "field obj ''all'' = JUndef" "field obj ''any'' \<noteq> JUndef"
    | (neg) "field obj ''type'' = JUndef" "field obj ''all'' = JUndef" "field obj ''any'' = JUndef"
        "field obj ''not'' \<noteq> JUndef"
    using prems by (cases "field obj ''not'' = JUndef") (auto split: if_splits)
  then show ?case
  proof cases
    case rule
    then show ?thesis using prems d unfolding k by (auto simp: ebind_Inr_iff normalizeRule_ok)
  next
    case all
    then obtain items cs where items: "field obj ''all'' = JArr items" "length items \<le> 8" "e \<or> items \<noteq> []"
      and cs: "conditionsAt items (sub_path path ''all'') 0 (nodes + 1) (depth + 1) = Inr (cs, n)" "c = CAll cs"
      and known: "rejectUnknownKeys obj [''all''] path = Inr ()"
      using prems by (cases "field obj ''all''") (auto simp: ebind_Inr_iff split: if_splits)
    have "(\<forall>c \<in> set cs. condition_wf (5 - (depth + 1)) False c) \<and> length cs = length items
       \<and> n = nodes + 1 + sum_list (map condition_nodes cs) \<and> n \<le> 32"
      using "1.IH"(1) [OF d obj] all items cs known d(2) by (auto split: if_splits)
    then show ?thesis using items cs(2) unfolding k by auto
  next
    case any
    then obtain items cs where items: "field obj ''any'' = JArr items" "length items \<le> 8" "e \<or> items \<noteq> []"
      and cs: "conditionsAt items (sub_path path ''any'') 0 (nodes + 1) (depth + 1) = Inr (cs, n)" "c = CAny cs"
      and known: "rejectUnknownKeys obj [''any''] path = Inr ()"
      using prems by (cases "field obj ''any''") (auto simp: ebind_Inr_iff split: if_splits)
    have "(\<forall>c \<in> set cs. condition_wf (5 - (depth + 1)) False c) \<and> length cs = length items
       \<and> n = nodes + 1 + sum_list (map condition_nodes cs) \<and> n \<le> 32"
      using "1.IH"(2) [OF d obj] any items cs known d(2) by (auto split: if_splits)
    then show ?thesis using items cs(2) unfolding k by auto
  next
    case neg
    then obtain c' where c': "normalizeConditionV3 (field obj ''not'') (sub_path path ''not'') (nodes + 1) (depth + 1) False
        = Inr (c', n)" "c = CNot c'" and known: "rejectUnknownKeys obj [''not''] path = Inr ()"
      using prems by (auto simp: ebind_Inr_iff)
    then show ?thesis using "1.IH"(3) [OF d obj] neg unfolding k by auto
  qed
next
  case (2 path i nodes depth)
  then show ?case by simp
next
  case (3 v vs path i nodes depth)
  obtain c n1 cs' where c: "normalizeConditionV3 v (item_path path i) nodes depth False = Inr (c, n1)"
    and cs': "conditionsAt vs path (Suc i) n1 depth = Inr (cs', n)" "cs = c # cs'"
    using "3.prems" by (auto simp: ebind_Inr_iff)
  have "condition_wf (5 - depth) False c \<and> n1 = nodes + condition_nodes c \<and> n1 \<le> 32"
    using c by (rule "3.IH"(1))
  moreover have "(\<forall>c \<in> set cs'. condition_wf (5 - depth) False c) \<and> length cs' = length vs
     \<and> n = n1 + sum_list (map condition_nodes cs') \<and> n \<le> 32"
    using "3.IH"(2) [OF c refl cs'(1)] calculation by simp
  ultimately show ?case using cs'(2) by simp
qed

text \<open>And reading a well-formed condition back gives the condition, within the node limit.\<close>

lemma conditionsAt_json:
  assumes "\<And>c path nodes. c \<in> set cs \<Longrightarrow> nodes + condition_nodes c \<le> 32 \<Longrightarrow>
      normalizeConditionV3 (condition_json c) path nodes depth False = Inr (c, nodes + condition_nodes c)"
    and "nodes + sum_list (map condition_nodes cs) \<le> 32"
  shows "conditionsAt (map condition_json cs) path i nodes depth = Inr (cs, nodes + sum_list (map condition_nodes cs))"
  using assms by (induction cs arbitrary: nodes i) (simp_all add: add.assoc)

lemma condition_json_read:
  "condition_wf (5 - depth) e c \<Longrightarrow> nodes + condition_nodes c \<le> 32 \<Longrightarrow>
     normalizeConditionV3 (condition_json c) path nodes depth e = Inr (c, nodes + condition_nodes c)"
proof (induction c arbitrary: path nodes depth e)
  case (CRule r)
  then obtain k where k: "5 - depth = Suc k" by (cases "5 - depth") auto
  with CRule have r: "rule_ok r" by simp
  obtain o' ty where "rule_json r = JObj o'" "field o' ''type'' = JStr ty" using rule_json_fields by blast
  then show ?case using normalizeRule_json [OF r, of path] k CRule.prems(2)
    by (simp add: normalizeConditionV3.simps [of "JObj _"] objectAt_def)
next
  case (CAll cs)
  then obtain k where k: "5 - depth = Suc k" by (cases "5 - depth") auto
  then have kk: "5 - (depth + 1) = k" by simp
  have "conditionsAt (map condition_json cs) (sub_path path ''all'') 0 (Suc nodes) (depth + 1)
      = Inr (cs, Suc nodes + sum_list (map condition_nodes cs))"
    using CAll k kk by (intro conditionsAt_json CAll.IH) auto
  then show ?case using CAll.prems k
    by (auto simp: normalizeConditionV3.simps [of "JObj _"] objectAt_def field_def rejectUnknownKeys_def)
next
  case (CAny cs)
  then obtain k where k: "5 - depth = Suc k" by (cases "5 - depth") auto
  then have kk: "5 - (depth + 1) = k" by simp
  have "conditionsAt (map condition_json cs) (sub_path path ''any'') 0 (Suc nodes) (depth + 1)
      = Inr (cs, Suc nodes + sum_list (map condition_nodes cs))"
    using CAny k kk by (intro conditionsAt_json CAny.IH) auto
  then show ?case using CAny.prems k
    by (auto simp: normalizeConditionV3.simps [of "JObj _"] objectAt_def field_def rejectUnknownKeys_def)
next
  case (CNot c)
  then obtain k where k: "5 - depth = Suc k" by (cases "5 - depth") auto
  then have kk: "5 - Suc depth = k" by simp
  have "normalizeConditionV3 (condition_json c) (sub_path path ''not'') (Suc nodes) (Suc depth) False
      = Inr (c, Suc nodes + condition_nodes c)"
    using CNot.prems k by (intro CNot.IH) (unfold kk, simp_all)
  moreover have "condition_json c \<noteq> JUndef" using rule_json_fields by (cases c) (auto, metis json.distinct(11))
  ultimately show ?case using CNot.prems k
    by (auto simp: normalizeConditionV3.simps [of "JObj _"] objectAt_def field_def rejectUnknownKeys_def)
qed

subsection \<open>Normalised strategies\<close>

definition name_ok :: "string \<Rightarrow> bool" where
  "name_ok s \<longleftrightarrow> s \<noteq> [] \<and> js_trim s = s \<and> length s \<le> 80"

definition condition_ok :: "bool \<Rightarrow> condition_v3 \<Rightarrow> bool" where
  "condition_ok e c \<longleftrightarrow> condition_wf 4 e c \<and> condition_nodes c \<le> 32"

definition percents_ok :: "jsnum \<Rightarrow> jsnum \<Rightarrow> jsnum \<Rightarrow> bool" where
  "percents_ok sl tp dd \<longleftrightarrow> in_range sl (lit (1 / 10)) (N 20) \<and> in_range tp (lit (1 / 10)) (N 30)
     \<and> in_range dd (N 1) (N 50) \<and> \<not> dd \<le> sl"

definition leg_v3_ok :: "jsnum \<Rightarrow> strategy_leg_v3 \<Rightarrow> bool" where
  "leg_v3_ok dd l \<longleftrightarrow> condition_ok False (leg_entry l) \<and> condition_ok True (leg_exit l)
     \<and> percents_ok (leg_stopLossPct l) (leg_takeProfitPct l) dd"

definition leg_v2_ok :: "jsnum \<Rightarrow> strategy_leg_v2 \<Rightarrow> bool" where
  "leg_v2_ok dd l \<longleftrightarrow> rules_ok 1 (leg_entry l) \<and> rules_ok 0 (leg_exit l)
     \<and> percents_ok (leg_stopLossPct l) (leg_takeProfitPct l) dd"

definition risk_ok :: "jsnum \<Rightarrow> jsnum \<Rightarrow> jsnum \<Rightarrow> jsnum \<Rightarrow> bool" where
  "risk_ok pos dd daily losses \<longleftrightarrow> in_range pos (lit (1 / 10)) (N 30) \<and> in_range dd (N 1) (N 50)
     \<and> in_range daily (lit (1 / 2)) (N 20) \<and> whole losses 1 10"

text \<open>
  The legs a direction asks for are there. The direction is one of the three texts, or a list with
  one of them as its only element, which the source's test lets through and which asks for no leg.
\<close>

definition legs_match :: "json \<Rightarrow> 'l option \<Rightarrow> 'l option \<Rightarrow> bool" where
  "legs_match d long short \<longleftrightarrow> (needs_long d \<longrightarrow> long \<noteq> None) \<and> (needs_short d \<longrightarrow> short \<noteq> None)
     \<and> (d = JStr ''long_only'' \<longrightarrow> short = None) \<and> (d = JStr ''short_only'' \<longrightarrow> long = None)
     \<and> json_to_string d \<in> {''long_only'', ''short_only'', ''both''}"

definition perpetual_ok :: "(jsnum \<Rightarrow> 'c strategy_leg \<Rightarrow> bool) \<Rightarrow> 'c strategy_leg perpetual_dsl \<Rightarrow> bool" where
  "perpetual_ok leg_good d \<longleftrightarrow> name_ok (pd_name d) \<and> valid_symbol (pd_symbol d)
     \<and> pd_timeframe d \<in> set allowedTimeframes
     \<and> legs_match (pd_direction d) (pd_long d) (pd_short d)
     \<and> (\<forall>l \<in> set_option (pd_long d) \<union> set_option (pd_short d). leg_good (pd_maxDrawdownPct d) l)
     \<and> risk_ok (pd_positionSizePct d) (pd_maxDrawdownPct d) (pd_maxDailyLossPct d) (pd_maxConsecutiveLosses d)"

definition v1_ok :: "strategy_dsl \<Rightarrow> bool" where
  "v1_ok d \<longleftrightarrow> name_ok (v1_name d) \<and> valid_symbol (v1_symbol d) \<and> v1_timeframe d \<in> set allowedTimeframes
     \<and> rules_ok 1 (v1_entry d) \<and> rules_ok 0 (v1_exit d)
     \<and> percents_ok (v1_stopLossPct d) (v1_takeProfitPct d) (v1_maxDrawdownPct d)
     \<and> risk_ok (v1_positionPct d) (v1_maxDrawdownPct d) (v1_dailyLossLimitPct d) (v1_consecutiveLossLimit d)"

lemma stringAt_Inr: "stringAt v path m = Inr s \<longleftrightarrow> (\<exists>raw. v = JStr raw \<and> s = js_trim raw) \<and> s \<noteq> [] \<and> length s \<le> m"
  by (cases v) (auto simp: stringAt_def Let_def)

lemma normalizeSymbol_Inr: "normalizeSymbol v = Inr s \<Longrightarrow> valid_symbol s"
  by (auto simp: normalizeSymbol_def ebind_Inr_iff Let_def split: if_splits)

lemma normalizeTimeframe_Inr: "normalizeTimeframe v = Inr s \<Longrightarrow> s \<in> set allowedTimeframes"
  by (auto simp: normalizeTimeframe_def ebind_Inr_iff Let_def split: if_splits)

lemma v1_sound: "normalizeStrategyDsl input = Inr d \<Longrightarrow> v1_ok d"
  by (auto simp: normalizeStrategyDsl_def ebind_Inr_iff v1_ok_def percents_ok_def risk_ok_def whole_def name_ok_def
      numberAt_Inr stringAt_Inr dest: normalizeSymbol_Inr normalizeTimeframe_Inr normalizeRules_Inr split: if_splits)

lemma normalizeConditionV3_ok:
  "normalizeConditionV3 v path 0 (Suc 0) e = Inr (c, n) \<Longrightarrow> condition_ok e c"
  using conditions_sound(1) [of v path 0 "Suc 0" e c n] by (simp add: condition_ok_def)

lemma leg_v2_sound:
  assumes "normalizeStrategyLegV2 v path = Inr l" "in_range dd (N 1) (N 50)" "\<not> dd \<le> leg_stopLossPct l"
  shows "leg_v2_ok dd l"
  using assms by (auto simp: normalizeStrategyLegV2_def ebind_Inr_iff leg_v2_ok_def percents_ok_def numberAt_Inr
      dest: normalizeRules_Inr)

lemma leg_v3_sound:
  assumes "normalizeStrategyLegV3 v path = Inr l" "in_range dd (N 1) (N 50)" "\<not> dd \<le> leg_stopLossPct l"
  shows "leg_v3_ok dd l"
  using assms by (auto simp: normalizeStrategyLegV3_def ebind_Inr_iff leg_v3_ok_def percents_ok_def numberAt_Inr
      dest: normalizeConditionV3_ok)

lemma optionalLeg_Inr: "optionalLeg legAt v path = Inr l \<longleftrightarrow>
    (if v = JUndef then l = None else \<exists>x. legAt v path = Inr x \<and> l = Some x)"
  by (auto simp: optionalLeg_def ebind_Inr_iff)

lemma checkLegStop_Inr: "checkLegStop dd leg path = Inr () \<longleftrightarrow> (\<forall>l \<in> set_option leg. \<not> dd \<le> leg_stopLossPct l)"
  by (cases leg) (auto simp: checkLegStop_def)

lemma checkDirection_match:
  assumes "checkDirection legs d = Inr ()" "json_to_string d \<in> {''long_only'', ''short_only'', ''both''}"
    and "optionalLeg legAt (field legs ''long'') p = Inr long" "optionalLeg legAt (field legs ''short'') q = Inr short"
  shows "legs_match d long short"
  using assms by (auto simp: checkDirection_def optionalLeg_Inr legs_match_def split: if_splits)

lemma normalizePerpetual_sound:
  assumes "normalizePerpetual version legAt input = Inr d"
    and "\<And>v path l dd. legAt v path = Inr l \<Longrightarrow> in_range dd (N 1) (N 50) \<Longrightarrow> \<not> dd \<le> leg_stopLossPct l \<Longrightarrow> good dd l"
  shows "perpetual_ok good d"
proof -
  obtain v legs where direction: "checkMarket version v = Inr ()" "checkDirection legs (field v ''direction'') = Inr ()"
      "pd_direction d = field v ''direction''"
      "optionalLeg legAt (field legs ''long'') ''legs.long'' = Inr (pd_long d)"
      "optionalLeg legAt (field legs ''short'') ''legs.short'' = Inr (pd_short d)"
    and rest: "name_ok (pd_name d)" "valid_symbol (pd_symbol d)" "pd_timeframe d \<in> set allowedTimeframes"
      "risk_ok (pd_positionSizePct d) (pd_maxDrawdownPct d) (pd_maxDailyLossPct d) (pd_maxConsecutiveLosses d)"
      "\<forall>l \<in> set_option (pd_long d) \<union> set_option (pd_short d). \<not> pd_maxDrawdownPct d \<le> leg_stopLossPct l"
    using assms(1)
    by (auto simp: normalizePerpetual_def ebind_Inr_iff Let_def numberAt_Inr stringAt_Inr checkLegStop_Inr
        risk_ok_def whole_def name_ok_def dest!: normalizeSymbol_Inr normalizeTimeframe_Inr) blast
  have "json_to_string (pd_direction d) \<in> {''long_only'', ''short_only'', ''both''}"
    using direction(1,3) by (auto simp: checkMarket_def split: if_splits)
  then have "legs_match (pd_direction d) (pd_long d) (pd_short d)"
    using checkDirection_match [OF direction(2) _ direction(4,5)] direction(3) by simp
  moreover have "good (pd_maxDrawdownPct d) l" if "l \<in> set_option (pd_long d) \<union> set_option (pd_short d)" for l
    using that rest(4,5) direction(4,5) assms(2) by (auto simp: optionalLeg_Inr risk_ok_def split: if_splits)
  ultimately show ?thesis using rest by (simp add: perpetual_ok_def)
qed

lemma v2_sound: "normalizeStrategyDslV2 input = Inr d \<Longrightarrow> perpetual_ok leg_v2_ok d"
  unfolding normalizeStrategyDslV2_def by (rule normalizePerpetual_sound) (auto intro: leg_v2_sound)

lemma v3_sound: "normalizeStrategyDslV3 input = Inr d \<Longrightarrow> perpetual_ok leg_v3_ok d"
  unfolding normalizeStrategyDslV3_def by (rule normalizePerpetual_sound) (auto intro: leg_v3_sound)

subsection \<open>Reading a normalised strategy back\<close>

lemma stringAt_name: "name_ok s \<Longrightarrow> stringAt (JStr s) path 80 = Inr s"
  by (auto simp: stringAt_Inr name_ok_def)

lemma trim_none: "\<forall>c \<in> set s. \<not> is_space c \<Longrightarrow> js_trim s = s"
proof -
  assume a: "\<forall>c \<in> set s. \<not> is_space c"
  have d: "dropWhile is_space t = t" if "\<forall>c \<in> set t. \<not> is_space c" for t using that by (cases t) auto
  show ?thesis using a d [of s] d [of "rev s"] by (simp add: js_trim_def)
qed

lemma normalizeSymbol_ok:
  assumes "valid_symbol s"
  shows "normalizeSymbol (JStr s) = Inr s"
proof -
  have c: "is_upper c \<or> is_digit c" if "c \<in> set s" for c
    using assms that by (auto simp: valid_symbol_def list_all_iff)
  have "\<not> is_space c \<and> is_alnum c \<and> char_upper c = c" if "is_upper c \<or> is_digit c" for c
    using that by (auto simp: is_space_def is_upper_def is_digit_def is_alnum_def char_upper_def is_lower_def)
  with c have "\<forall>c \<in> set s. \<not> is_space c" "\<forall>c \<in> set s. is_alnum c" "\<forall>c \<in> set s. char_upper c = c" by blast+
  then have "js_trim s = s" "filter is_alnum s = s" "js_upper s = s"
    by (auto simp: trim_none js_upper_def filter_id_conv intro: map_idI)
  then show ?thesis using assms by (auto simp: normalizeSymbol_def stringAt_def Let_def valid_symbol_def)
qed

lemma normalizeTimeframe_ok: "t \<in> set allowedTimeframes \<Longrightarrow> normalizeTimeframe (JStr t) = Inr t"
  by (auto simp: allowedTimeframes_def normalizeTimeframe_def stringAt_def Let_def js_trim_def js_lower_def
      is_space_def char_lower_def is_upper_def ccode_def)

lemma numberAt_in_range: "in_range x l h \<Longrightarrow> numberAt (JNum x) path l h False = Inr x"
  by simp

lemma leg_json_read:
  assumes "leg_v3_ok dd l"
  shows "normalizeStrategyLegV3 (leg_json l) path = Inr l"
proof -
  have en: "normalizeConditionV3 (condition_json (leg_entry l)) p 0 1 False = Inr (leg_entry l, condition_nodes (leg_entry l))"
    and ex: "normalizeConditionV3 (condition_json (leg_exit l)) p 0 1 True = Inr (leg_exit l, condition_nodes (leg_exit l))" for p
    using assms condition_json_read [of 1 False "leg_entry l" 0 p] condition_json_read [of 1 True "leg_exit l" 0 p]
    by (simp_all add: leg_v3_ok_def condition_ok_def)
  show ?thesis
    using assms en [unfolded One_nat_def] ex [unfolded One_nat_def]
    by (simp add: normalizeStrategyLegV3_def leg_json_def objectAt_def field_def rejectUnknownKeys_def
        leg_v3_ok_def percents_ok_def)
qed

lemma legs_fields:
  "field (opt_leg ''long'' l @ opt_leg ''short'' s) ''long'' = (case l of None \<Rightarrow> JUndef | Some x \<Rightarrow> leg_json x)"
  "field (opt_leg ''long'' l @ opt_leg ''short'' s) ''short'' = (case s of None \<Rightarrow> JUndef | Some x \<Rightarrow> leg_json x)"
  "rejectUnknownKeys (opt_leg ''long'' l @ opt_leg ''short'' s) [''long'', ''short''] ''legs'' = Inr ()"
  by (auto simp: field_def opt_leg_def rejectUnknownKeys_def split: option.split)

lemma leg_json_obj: "leg_json l \<noteq> JUndef" "json_truthy (leg_json l)"
  by (simp_all add: leg_json_def)

lemma checkDirection_ok:
  assumes "legs_match d l s"
  shows "checkDirection (opt_leg ''long'' l @ opt_leg ''short'' s) d = Inr ()"
  using assms by (cases l; cases s) (auto simp: checkDirection_def legs_fields leg_json_obj legs_match_def)

lemma optionalLeg_ok:
  assumes "\<forall>x \<in> set_option l. legAt (leg_json (g x)) path = Inr x"
  shows "optionalLeg legAt (case_option JUndef (leg_json \<circ> g) l) path = Inr l"
  using assms by (cases l) (auto simp: optionalLeg_def leg_json_obj)

text \<open>
  Versions 2 and 3 have the same outer form; \<open>g\<close> brings a leg of the version into the form of
  version 3, in which it is written.
\<close>

definition map_legs :: "('a \<Rightarrow> 'b) \<Rightarrow> 'a perpetual_dsl \<Rightarrow> 'b perpetual_dsl" where
  "map_legs g d = \<lparr>pd_name = pd_name d, pd_symbol = pd_symbol d, pd_timeframe = pd_timeframe d,
     pd_direction = pd_direction d, pd_long = map_option g (pd_long d),
     pd_short = map_option g (pd_short d), pd_positionSizePct = pd_positionSizePct d,
     pd_maxDrawdownPct = pd_maxDrawdownPct d, pd_maxDailyLossPct = pd_maxDailyLossPct d,
     pd_maxConsecutiveLosses = pd_maxConsecutiveLosses d\<rparr>"

lemma map_legs_id [simp]: "map_legs id d = d"
  by (simp add: map_legs_def option.map_id0)

lemma v2_as_v3_map: "v2_as_v3 d = map_legs leg_v2_as_v3 d"
  by (simp add: v2_as_v3_def map_legs_def)

lemma perpetual_at_read:
  assumes ok: "perpetual_ok good d"
    and leg: "\<And>dd l p. good dd l \<Longrightarrow> legAt (leg_json (g l)) p = Inr l"
    and stop: "\<And>dd l. good dd l \<Longrightarrow> \<not> dd \<le> leg_stopLossPct l"
  shows "normalizePerpetual version legAt (perpetual_json_at version (map_legs g d)) = Inr d"
proof -
  have legs: "legs_match (pd_direction d) (map_option g (pd_long d)) (map_option g (pd_short d))"
    "\<forall>x \<in> set_option (pd_long d). good (pd_maxDrawdownPct d) x"
    "\<forall>x \<in> set_option (pd_short d). good (pd_maxDrawdownPct d) x"
    using ok by (auto simp: perpetual_ok_def legs_match_def)
  have read: "\<forall>x \<in> set_option (pd_long d). legAt (leg_json (g x)) p = Inr x"
    "\<forall>x \<in> set_option (pd_short d). legAt (leg_json (g x)) p = Inr x" for p
    using legs(2,3) leg by blast+
  have stops: "checkLegStop (pd_maxDrawdownPct d) (pd_long d) p = Inr ()"
    "checkLegStop (pd_maxDrawdownPct d) (pd_short d) p = Inr ()" for p
    using legs(2,3) stop by (auto simp: checkLegStop_Inr)
  have market: "json_to_string (pd_direction d) \<in> {''long_only'', ''short_only'', ''both''}"
    using legs(1) by (simp add: legs_match_def)
  show ?thesis
    using ok market
    by (simp add: normalizePerpetual_def perpetual_json_at_def map_legs_def objectAt_def Let_def
        rejectUnknownKeys_def [of "_ # _"] field_def [of "_ # _"] checkMarket_def legs_fields checkDirection_ok [OF legs(1)]
        optionalLeg_ok [OF read(1)] optionalLeg_ok [OF read(2)] stops
        perpetual_ok_def risk_ok_def stringAt_name normalizeSymbol_ok normalizeTimeframe_ok)
qed

lemma perpetual_json_read:
  assumes "perpetual_ok leg_v3_ok d"
  shows "normalizeStrategyDslV3 (perpetual_json d) = Inr d"
proof -
  have "normalizePerpetual 3 normalizeStrategyLegV3 (perpetual_json_at 3 (map_legs id d)) = Inr d"
    using assms by (rule perpetual_at_read) (simp_all add: leg_json_read, simp add: leg_v3_ok_def percents_ok_def)
  then show ?thesis by (simp add: normalizeStrategyDslV3_def perpetual_json_def)
qed

lemma leg_v2_json_read:
  assumes "leg_v2_ok dd l"
  shows "normalizeStrategyLegV2 (leg_json (leg_v2_as_v3 l)) path = Inr l"
proof -
  have rs: "rules_ok 1 (leg_entry l)" "rules_ok 0 (leg_exit l)" using assms by (simp_all add: leg_v2_ok_def)
  show ?thesis
    using assms normalizeRules_json [OF rs(1), unfolded One_nat_def] normalizeRules_json [OF rs(2)]
    by (simp add: normalizeStrategyLegV2_def leg_json_def leg_v2_as_v3_def objectAt_def rejectUnknownKeys_def
        field_def leg_v2_ok_def percents_ok_def comp_def)
qed

lemma v2_json_read:
  assumes "perpetual_ok leg_v2_ok d"
  shows "normalizeStrategyDslV2 (perpetual_json_at 2 (v2_as_v3 d)) = Inr d"
  unfolding normalizeStrategyDslV2_def v2_as_v3_map
  using assms by (rule perpetual_at_read) (simp_all add: leg_v2_json_read, simp add: leg_v2_ok_def percents_ok_def)

text \<open>The same for version 1.\<close>

definition v1_json :: "strategy_dsl \<Rightarrow> json" where
  "v1_json d = JObj [(''schemaVersion'', JNum (N 1)), (''name'', JStr (v1_name d)), (''symbol'', JStr (v1_symbol d)),
     (''timeframe'', JStr (v1_timeframe d)), (''side'', JStr ''long_only''),
     (''entry'', JObj [(''all'', JArr (map rule_json (v1_entry d)))]),
     (''exit'', JObj [(''any'', JArr (map rule_json (v1_exit d))), (''stopLossPct'', JNum (v1_stopLossPct d)),
        (''takeProfitPct'', JNum (v1_takeProfitPct d))]),
     (''risk'', JObj [(''positionPct'', JNum (v1_positionPct d)), (''maxDrawdownPct'', JNum (v1_maxDrawdownPct d)),
        (''dailyLossLimitPct'', JNum (v1_dailyLossLimitPct d)),
        (''consecutiveLossLimit'', JNum (v1_consecutiveLossLimit d))])]"

lemma v1_json_read:
  assumes ok: "v1_ok d"
  shows "normalizeStrategyDsl (v1_json d) = Inr d"
proof -
  have rs: "rules_ok 1 (v1_entry d)" "rules_ok 0 (v1_exit d)" using ok by (simp_all add: v1_ok_def)
  show ?thesis
    using ok normalizeRules_json [OF rs(1), unfolded One_nat_def] normalizeRules_json [OF rs(2)]
    by (simp add: normalizeStrategyDsl_def v1_json_def objectAt_def rejectUnknownKeys_def field_def
        v1_ok_def percents_ok_def risk_ok_def stringAt_name normalizeSymbol_ok normalizeTimeframe_ok)
qed

subsection \<open>The conversion to the runtime form never fails\<close>

lemma rules_condition:
  assumes "rules_ok m rs"
  shows "condition_wf 4 (m = 0) (CAll (map CRule rs)) \<and> condition_wf 4 (m = 0) (CAny (map CRule rs))
    \<and> condition_nodes (CAll (map CRule rs)) \<le> 5 \<and> condition_nodes (CAny (map CRule rs)) \<le> 5"
proof -
  have n: "sum_list (map condition_nodes (map CRule rs)) = length rs" by (induction rs) auto
  have wf: "\<forall>c \<in> set (map CRule rs). condition_wf (Suc k) False c" for k
    using assms by (auto simp: rules_ok_def list_all_iff)
  have "condition_wf (Suc (Suc k)) (m = 0) (CAll (map CRule rs))"
    "condition_wf (Suc (Suc k)) (m = 0) (CAny (map CRule rs))" for k
    using assms wf [of k] unfolding condition_wf.simps by (auto simp: rules_ok_def)
  from this [of 2] show ?thesis using assms n by (simp add: rules_ok_def numeral_eq_Suc)
qed

lemma leg_v2_as_v3_ok:
  assumes "leg_v2_ok dd l"
  shows "leg_v3_ok dd (leg_v2_as_v3 l)"
  using assms rules_condition [of 1 "leg_entry l"] rules_condition [of 0 "leg_exit l"]
  by (auto simp: leg_v2_ok_def leg_v3_ok_def leg_v2_as_v3_def condition_ok_def)

lemma v2_as_v3_ok: "perpetual_ok leg_v2_ok d \<Longrightarrow> perpetual_ok leg_v3_ok (v2_as_v3 d)"
  by (auto simp: perpetual_ok_def v2_as_v3_def legs_match_def leg_v2_as_v3_ok)

lemma v1_as_v3_ok:
  assumes "v1_ok d"
  shows "perpetual_ok leg_v3_ok (v1_as_v3 d)"
  using assms rules_condition [of 1 "v1_entry d"] rules_condition [of 0 "v1_exit d"]
  by (auto simp: perpetual_ok_def v1_as_v3_def v1_ok_def legs_match_def leg_v3_ok_def condition_ok_def needs_short_def)

definition runtime_of :: "research_dsl \<Rightarrow> strategy_dsl_v3" where
  "runtime_of x = (case x of DslV1 d \<Rightarrow> v1_as_v3 d | DslV2 d \<Rightarrow> v2_as_v3 d | DslV3 d \<Rightarrow> d)"

lemma runtime_ok:
  assumes "normalizeResearchStrategyDsl input = Inr x"
  shows "perpetual_ok leg_v3_ok (runtime_of x)"
proof -
  obtain v where "input = JObj v" using assms by (cases input) (auto simp: normalizeResearchStrategyDsl_def)
  with assms show ?thesis
    by (auto simp: normalizeResearchStrategyDsl_def ebind_Inr_iff runtime_of_def v2_as_v3_ok v1_as_v3_ok
        dest!: v1_sound v2_sound v3_sound split: if_splits)
qed

lemma to_runtime_total:
  assumes "normalizeResearchStrategyDsl input = Inr x"
  shows "strategyDslToRuntime input = Inr (runtime_of x)"
  using runtime_ok [OF assms] assms perpetual_json_read
  by (cases x) (auto simp: strategyDslToRuntime_def runtime_of_def)

lemma to_runtime_Inr:
  "strategyDslToRuntime input = Inr d \<longleftrightarrow> (\<exists>x. normalizeResearchStrategyDsl input = Inr x \<and> d = runtime_of x)"
  using to_runtime_total by (cases "normalizeResearchStrategyDsl input") (auto simp: strategyDslToRuntime_def)

text \<open>A normalised specification as it is stored, and what reading it back gives.\<close>

definition research_json :: "research_dsl \<Rightarrow> json" where
  "research_json x = (case x of DslV1 d \<Rightarrow> v1_json d | DslV2 d \<Rightarrow> perpetual_json_at 2 (v2_as_v3 d)
     | DslV3 d \<Rightarrow> perpetual_json d)"

definition research_ok :: "research_dsl \<Rightarrow> bool" where
  "research_ok x = (case x of DslV1 d \<Rightarrow> v1_ok d | DslV2 d \<Rightarrow> perpetual_ok leg_v2_ok d
     | DslV3 d \<Rightarrow> perpetual_ok leg_v3_ok d)"

lemma research_sound:
  assumes "normalizeResearchStrategyDsl input = Inr x"
  shows "research_ok x"
proof -
  obtain v where "input = JObj v" using assms by (cases input) (auto simp: normalizeResearchStrategyDsl_def)
  with assms show ?thesis
    by (auto simp: normalizeResearchStrategyDsl_def ebind_Inr_iff research_ok_def
        dest: v1_sound v2_sound v3_sound split: if_splits)
qed

lemma research_json_read:
  assumes "research_ok x"
  shows "normalizeResearchStrategyDsl (research_json x) = Inr x"
proof (cases x)
  case (DslV1 d)
  then have "normalizeStrategyDsl (v1_json d) = Inr d" using assms by (simp add: research_ok_def v1_json_read)
  then show ?thesis using DslV1
    by (simp add: research_json_def normalizeResearchStrategyDsl_def v1_json_def field_def)
next
  case (DslV2 d)
  then have "normalizeStrategyDslV2 (perpetual_json_at 2 (v2_as_v3 d)) = Inr d"
    using assms by (simp add: research_ok_def v2_json_read)
  then show ?thesis using DslV2
    by (simp add: research_json_def normalizeResearchStrategyDsl_def perpetual_json_at_def field_def)
next
  case (DslV3 d)
  then have "normalizeStrategyDslV3 (perpetual_json d) = Inr d"
    using assms by (simp add: research_ok_def perpetual_json_read)
  then show ?thesis using DslV3
    by (simp add: research_json_def normalizeResearchStrategyDsl_def perpetual_json_def perpetual_json_at_def field_def)
qed

lemma research_to_runtime:
  assumes "normalizeResearchStrategyDsl input = Inr x"
  shows "strategyDslToRuntime (research_json x) = Inr (runtime_of x)"
  by (rule to_runtime_total [OF research_json_read [OF research_sound [OF assms]]])

subsection \<open>Properties\<close>

text \<open>A specification of version 3 that is accepted is within every bound the platform states
for it (name, symbol, timeframe, the legs its direction asks for, condition trees of at most four
levels and 32 nodes, percentages below the drawdown limit), and reading it back gives the same
specification.\<close>

theorem v3_round_trip:
  assumes "normalizeStrategyDslV3 input = Inr d"
  shows "perpetual_ok leg_v3_ok d \<and> normalizeStrategyDslV3 (perpetual_json d) = Inr d"
  using v3_sound [OF assms] perpetual_json_read by blast

definition sample_leg :: strategy_leg_v3 where
  "sample_leg = \<lparr>leg_entry = CRule (CandleDirection Bullish), leg_exit = CAll [],
     leg_stopLossPct = N 2, leg_takeProfitPct = N 4\<rparr>"

definition sample_dsl :: strategy_dsl_v3 where
  "sample_dsl = \<lparr>pd_name = ''s1'', pd_symbol = ''BTCUSDT'', pd_timeframe = ''1h'',
     pd_direction = JStr ''long_only'', pd_long = Some sample_leg, pd_short = None,
     pd_positionSizePct = N 10, pd_maxDrawdownPct = N 12, pd_maxDailyLossPct = N 5,
     pd_maxConsecutiveLosses = N 3\<rparr>"

lemma lit_le_numeral:
  "x \<le> numeral k \<Longrightarrow> (numeral k :: int) \<le> 2 ^ 53 \<Longrightarrow> js_of x \<le> N (numeral k)"
  using is_double_of_int [of "numeral k"] by (intro js_of_le_exact) simp_all

lemma sample_dsl_ok: "perpetual_ok leg_v3_ok sample_dsl"
proof -
  have w: "condition_wf 4 False (CRule (CandleDirection Bullish))" "condition_wf 4 True (CAll [])"
    by (simp_all add: numeral_eq_Suc)
  have t: "js_trim ''s1'' = ''s1''" "valid_symbol ''BTCUSDT''" "needs_long (JStr ''long_only'')"
    "\<not> needs_short (JStr ''long_only'')"
    by code_simp+
  show ?thesis
    using w t
    by (simp add: perpetual_ok_def sample_dsl_def sample_leg_def name_ok_def allowedTimeframes_def
        legs_match_def leg_v3_ok_def condition_ok_def percents_ok_def risk_ok_def in_range_def whole_def
        lit_le_numeral js_not_less)
qed

theorem v3_round_trip_witness: "normalizeStrategyDslV3 (perpetual_json sample_dsl) = Inr sample_dsl"
  using v3_round_trip [OF perpetual_json_read [OF sample_dsl_ok]] by blast

text \<open>The same for a specification of version 1.\<close>

theorem v1_round_trip:
  assumes "normalizeStrategyDsl input = Inr d"
  shows "v1_ok d \<and> normalizeStrategyDsl (v1_json d) = Inr d"
  using v1_sound [OF assms] v1_json_read by blast

definition sample_v1 :: strategy_dsl where
  "sample_v1 = \<lparr>v1_name = ''s1'', v1_symbol = ''BTCUSDT'', v1_timeframe = ''1h'',
     v1_entry = [CandleDirection Bullish], v1_exit = [], v1_stopLossPct = N 2, v1_takeProfitPct = N 4,
     v1_positionPct = N 10, v1_maxDrawdownPct = N 12, v1_dailyLossLimitPct = N 5, v1_consecutiveLossLimit = N 3\<rparr>"

lemma sample_v1_ok: "v1_ok sample_v1"
proof -
  have t: "js_trim ''s1'' = ''s1''" "valid_symbol ''BTCUSDT''" by code_simp+
  show ?thesis
    by (simp add: v1_ok_def sample_v1_def t name_ok_def allowedTimeframes_def rules_ok_def percents_ok_def
        risk_ok_def in_range_def whole_def lit_le_numeral js_not_less)
qed

theorem v1_round_trip_witness: "normalizeStrategyDsl (v1_json sample_v1) = Inr sample_v1"
  using v1_round_trip [OF v1_json_read [OF sample_v1_ok]] by blast

text \<open>Normalising a strategy specification of any of the three versions is idempotent: what research
accepts is within the bounds of its version, is written back in the stored form, and reading that form
gives the same specification.\<close>

theorem research_round_trip:
  assumes "normalizeResearchStrategyDsl input = Inr x"
  shows "research_ok x \<and> normalizeResearchStrategyDsl (research_json x) = Inr x"
  using research_sound [OF assms] research_json_read by blast

theorem research_round_trip_witness:
  "normalizeResearchStrategyDsl (research_json (DslV1 sample_v1)) = Inr (DslV1 sample_v1)"
proof -
  have "research_ok (DslV1 sample_v1)" using sample_v1_ok by (simp add: research_ok_def)
  from research_round_trip [OF research_json_read [OF this]] show ?thesis by blast
qed

text \<open>Running a stored specification of any version accepts exactly what research accepts, and
what runs is a specification of version 3 within the same bounds that version 3 accepts as it is.\<close>

theorem runtime_conversion:
  assumes "strategyDslToRuntime input = Inr d"
  shows "(\<exists>x. normalizeResearchStrategyDsl input = Inr x \<and> d = runtime_of x)
    \<and> perpetual_ok leg_v3_ok d \<and> normalizeStrategyDslV3 (perpetual_json d) = Inr d"
proof -
  obtain x where x: "normalizeResearchStrategyDsl input = Inr x" "d = runtime_of x"
    using assms unfolding to_runtime_Inr by blast
  then have "perpetual_ok leg_v3_ok d" using runtime_ok by blast
  then show ?thesis using x perpetual_json_read by blast
qed

lemma sample_runtime: "strategyDslToRuntime (perpetual_json sample_dsl) = Inr sample_dsl"
proof -
  have "normalizeResearchStrategyDsl (perpetual_json sample_dsl) = Inr (DslV3 sample_dsl)"
    using perpetual_json_read [OF sample_dsl_ok]
    by (simp add: normalizeResearchStrategyDsl_def perpetual_json_def perpetual_json_at_def field_def js_eq_def)
  then show ?thesis unfolding to_runtime_Inr by (force simp: runtime_of_def)
qed

theorem runtime_conversion_witness: "perpetual_ok leg_v3_ok sample_dsl"
  using runtime_conversion [OF sample_runtime] by blast

text \<open>Every specification research accepts can be run: the conversion never fails on it.\<close>

theorem runtime_conversion_total:
  "returns (strategyDslToRuntime input) \<longleftrightarrow> returns (normalizeResearchStrategyDsl input)"
  by (auto simp: returns_iff to_runtime_Inr)

end
