(* ===== verification/Indicators.thy ===== *)
theory Indicators
  imports JsNumber
begin

text \<open>
  The indicator series of \<open>packages/domain/src/strategy-dsl.ts\<close> (\<open>ema\<close> to \<open>adx\<close>), each a list as long
  as its input with NaN where the series is not warm yet. periods are the whole numbers at least 1 that
  the normaliser lets through. The last part proves that a value depends on the past only.
\<close>

record candle =
  openTime :: jsnum
  closeTime :: jsnum
  cd_open :: jsnum
  cd_high :: jsnum
  cd_low :: jsnum
  cd_close :: jsnum
  cd_volume :: jsnum

definition cnt :: "nat \<Rightarrow> jsnum" where
  "cnt n = N (of_nat n)"

text \<open>An element, NaN (like undefined in a comparison) beyond the end; a slice of \<open>n\<close> from \<open>i\<close>.\<close>

definition item :: "jsnum list \<Rightarrow> nat \<Rightarrow> jsnum" where
  "item xs i = (if i < length xs then xs ! i else NaN)"

definition slice_of :: "nat \<Rightarrow> nat \<Rightarrow> 'a list \<Rightarrow> 'a list" where
  "slice_of i n xs = take n (drop i xs)"

definition sum_of :: "jsnum list \<Rightarrow> jsnum" where
  "sum_of xs = js_sum (N 0) xs"

text \<open>A running state: the state before any value, and after each.\<close>

fun scan :: "('s \<Rightarrow> 'v \<Rightarrow> 's) \<Rightarrow> 's \<Rightarrow> 'v list \<Rightarrow> 's list" where
  "scan f s [] = [s]"
| "scan f s (v # vs) = s # scan f (f s v) vs"

definition ema :: "jsnum list \<Rightarrow> nat \<Rightarrow> jsnum list" where
  "ema values period =
     (if length values < period then replicate (length values) NaN
      else let multiplier = N 2 / (cnt period + N 1)
        in replicate (period - 1) NaN @ scan (\<lambda>current v. (v - current) * multiplier + current)
             (sum_of (take period values) / cnt period) (drop period values))"

fun changes :: "jsnum list \<Rightarrow> jsnum list" where
  "changes (a # b # xs) = (b - a) # changes (b # xs)"
| "changes _ = []"

definition gain :: "jsnum \<Rightarrow> jsnum" where "gain c = js_max (N 0) c"
definition loss :: "jsnum \<Rightarrow> jsnum" where "loss c = js_max (N 0) (- c)"

definition rsi_value :: "jsnum \<times> jsnum \<Rightarrow> jsnum" where
  "rsi_value gl = (if js_eq (snd gl) (N 0) then N 100 else N 100 - N 100 / (N 1 + fst gl / snd gl))"

definition rsi :: "jsnum list \<Rightarrow> nat \<Rightarrow> jsnum list" where
  "rsi values period =
     (if length values \<le> period then replicate (length values) NaN
      else let cs = changes values; p = cnt period;
        start = (sum_of (map gain (take period cs)) / p, sum_of (map loss (take period cs)) / p)
        in replicate period NaN @ map rsi_value
             (scan (\<lambda>(g, l) c. ((g * (p - N 1) + gain c) / p, (l * (p - N 1) + loss c) / p)) start (drop period cs)))"

definition js_epsilon :: jsnum where "js_epsilon = N (1 / 2 ^ 52)"

definition window_rsi :: "jsnum list \<Rightarrow> jsnum" where
  "window_rsi cs = (let gains = sum_of (map gain cs); losses = sum_of (map loss cs) in
     if js_eq losses (N 0) then N 100 else N 100 - N 100 / (N 1 + gains / js_max losses js_epsilon))"

definition simpleWindowRsi :: "jsnum list \<Rightarrow> nat \<Rightarrow> jsnum list" where
  "simpleWindowRsi values period = map (\<lambda>i. if i < period then NaN
     else window_rsi (slice_of (i - period) period (changes values))) [0..<length values]"

definition true_range :: "candle \<Rightarrow> jsnum \<Rightarrow> jsnum" where
  "true_range c previousClose = js_max (js_max (cd_high c - cd_low c) \<bar>cd_high c - previousClose\<bar>)
     \<bar>cd_low c - previousClose\<bar>"

fun ranges_from :: "candle \<Rightarrow> candle list \<Rightarrow> jsnum list" where
  "ranges_from p [] = []"
| "ranges_from p (c # cs) = true_range c (cd_close p) # ranges_from c cs"

definition atr :: "candle list \<Rightarrow> nat \<Rightarrow> jsnum list" where
  "atr candles period =
     (if length candles \<le> period then replicate (length candles) NaN
      else let ranges = ranges_from (hd candles) (tl candles); p = cnt period
        in replicate period NaN @ scan (\<lambda>current r. (current * (p - N 1) + r) / p)
             (sum_of (take period ranges) / p) (drop period ranges))"

definition window_atr :: "candle list \<Rightarrow> jsnum" where
  "window_atr rows = (case rows of [] \<Rightarrow> NaN
     | c # cs \<Rightarrow> sum_of (true_range c (cd_open c) # ranges_from c cs) / cnt (length rows))"

definition simpleWindowAtr :: "candle list \<Rightarrow> nat \<Rightarrow> jsnum list" where
  "simpleWindowAtr candles period = map (\<lambda>i. if i + 1 < period then NaN
     else window_atr (slice_of (i + 1 - period) period candles)) [0..<length candles]"

definition positive_dm :: "candle \<Rightarrow> candle \<Rightarrow> jsnum" where
  "positive_dm p c = (let up = cd_high c - cd_high p; down = cd_low p - cd_low c in
     if down < up \<and> N 0 < up then up else N 0)"

definition negative_dm :: "candle \<Rightarrow> candle \<Rightarrow> jsnum" where
  "negative_dm p c = (let up = cd_high c - cd_high p; down = cd_low p - cd_low c in
     if up < down \<and> N 0 < down then down else N 0)"

fun moves_from :: "candle \<Rightarrow> candle list \<Rightarrow> (jsnum \<times> jsnum \<times> jsnum) list" where
  "moves_from p [] = []"
| "moves_from p (c # cs) = (true_range c (cd_close p), positive_dm p c, negative_dm p c) # moves_from c cs"

definition dx_value :: "jsnum \<times> jsnum \<times> jsnum \<Rightarrow> jsnum" where
  "dx_value s = (case s of (tr, pos, neg) \<Rightarrow>
     let plusDi = (if truthy tr then pos / tr * N 100 else N 0);
         minusDi = (if truthy tr then neg / tr * N 100 else N 0);
         denominator = plusDi + minusDi
     in if truthy denominator then \<bar>plusDi - minusDi\<bar> / denominator * N 100 else N 0)"

definition smooth :: "jsnum \<Rightarrow> jsnum \<Rightarrow> jsnum \<Rightarrow> jsnum" where
  "smooth p s v = s - s / p + v"

definition dx_series :: "candle list \<Rightarrow> nat \<Rightarrow> jsnum list" where
  "dx_series candles period = (let moves = moves_from (hd candles) (tl candles); p = cnt period;
     start = (sum_of (map fst (take period moves)), sum_of (map (fst \<circ> snd) (take period moves)),
       sum_of (map (snd \<circ> snd) (take period moves)))
     in map dx_value (scan (\<lambda>(tr, pos, neg) (r, u, d). (smooth p tr r, smooth p pos u, smooth p neg d))
          start (drop period moves)))"

definition adx :: "candle list \<Rightarrow> nat \<Rightarrow> jsnum list" where
  "adx candles period =
     (if length candles \<le> period * 2 then replicate (length candles) NaN
      else let dx = dx_series candles period; p = cnt period
        in replicate (period * 2 - 1) NaN @ scan (\<lambda>current v. (current * (p - N 1) + v) / p)
             (sum_of (take period dx) / p) (drop period dx))"

subsection \<open>A value depends on the past only\<close>

lemma length_scan [simp]: "length (scan f s vs) = Suc (length vs)"
  by (induction vs arbitrary: s) auto

lemma scan_nth: "i \<le> length vs \<Longrightarrow> scan f s vs ! i = foldl f s (take i vs)"
proof (induction vs arbitrary: s i)
  case (Cons v vs)
  then show ?case by (cases i) auto
qed simp

lemma scan_take: "scan f s (take n vs) = take (Suc n) (scan f s vs)"
proof (induction n arbitrary: s vs)
  case 0
  then show ?case by (cases vs) auto
next
  case (Suc n)
  then show ?case by (cases vs) auto
qed

lemma item_upt: "i < n \<Longrightarrow> item (map f [0..<n]) i = f i"
  by (simp add: item_def del: upt_Suc)

text \<open>\<open>prefix_series f xs i\<close>: value \<open>i\<close> of the series does not change when the later inputs are cut off.\<close>

definition prefix_series :: "('a list \<Rightarrow> jsnum list) \<Rightarrow> 'a list \<Rightarrow> nat \<Rightarrow> bool" where
  "prefix_series f xs i \<longleftrightarrow> item (f (take (Suc i) xs)) i = item (f xs) i"

lemma item_warm: "item (replicate n NaN @ xs) i = (if i < n then NaN else item xs (i - n))"
  by (auto simp: item_def nth_append)

lemma item_cold: "item (replicate n NaN) i = NaN" "item (NaN # replicate n NaN) i = NaN"
  by (simp_all add: item_def nth_Cons split: nat.split)

lemma item_take: "i < n \<Longrightarrow> item (take n xs) i = item xs i"
  by (simp add: item_def)

lemma item_map: "i < length xs \<Longrightarrow> item (map f xs) i = f (xs ! i)"
  by (simp add: item_def)

lemma ema_prefix:
  assumes "0 < period" "i < length xs"
  shows "prefix_series (\<lambda>vs. ema vs period) xs i"
proof (cases "i < period - 1")
  case True
  with assms show ?thesis by (auto simp: prefix_series_def ema_def item_warm item_cold Let_def)
next
  case False
  then have p: "period \<le> Suc i" "period \<le> length xs" using assms by auto
  have "take period (take (Suc i) xs) = take period xs" using p by (simp add: min_def)
  moreover have "drop period (take (Suc i) xs) = take (Suc i - period) (drop period xs)" by (simp add: drop_take)
  ultimately show ?thesis
    using p False assms by (simp add: prefix_series_def ema_def Let_def item_warm scan_take item_take)
qed

lemma length_changes: "length (changes xs) = length xs - 1"
  by (induction xs rule: changes.induct) auto

lemma changes_take: "changes (take (Suc n) xs) = take n (changes xs)"
proof (induction n arbitrary: xs)
  case 0
  then show ?case by (cases xs) simp_all
next
  case (Suc n)
  show ?case
  proof (cases xs)
    case xs: (Cons a ys)
    then show ?thesis using Suc [of ys] by (cases ys) auto
  qed simp
qed

lemma rsi_prefix:
  assumes "0 < period" "i < length xs"
  shows "prefix_series (\<lambda>vs. rsi vs period) xs i"
proof (cases "i < period")
  case True
  with assms show ?thesis by (simp add: prefix_series_def rsi_def item_warm item_cold Let_def)
next
  case False
  then have "take period (take i (changes xs)) = take period (changes xs)" by (simp add: min_def)
  moreover have "drop period (take i (changes xs)) = take (i - period) (drop period (changes xs))"
    by (simp add: drop_take)
  ultimately show ?thesis
    using False assms
    by (simp add: prefix_series_def rsi_def Let_def item_warm changes_take scan_take item_take take_map [symmetric])
qed

lemma simple_rsi_prefix:
  assumes "i < length xs"
  shows "prefix_series (\<lambda>vs. simpleWindowRsi vs period) xs i"
proof (cases "i < period")
  case False
  then have "slice_of (i - period) period (take i (changes xs)) = slice_of (i - period) period (changes xs)"
    by (simp add: slice_of_def drop_take min_def)
  with assms False show ?thesis
    by (simp add: prefix_series_def simpleWindowRsi_def item_upt changes_take del: upt_Suc)
qed (use assms in \<open>simp add: prefix_series_def simpleWindowRsi_def item_upt del: upt_Suc\<close>)

lemma ranges_take: "ranges_from p (take n cs) = take n (ranges_from p cs)"
proof (induction cs arbitrary: p n)
  case (Cons c cs)
  then show ?case by (cases n) auto
qed simp

lemma take_Suc_hd_tl: "xs \<noteq> [] \<Longrightarrow> hd (take (Suc n) xs) = hd xs \<and> tl (take (Suc n) xs) = take n (tl xs)"
  by (cases xs) auto

lemma length_ranges [simp]: "length (ranges_from p cs) = length cs"
  by (induction cs arbitrary: p) auto

lemma atr_prefix:
  assumes "0 < period" "i < length xs"
  shows "prefix_series (\<lambda>cs. atr cs period) xs i"
proof (cases "i < period")
  case True
  with assms show ?thesis by (simp add: prefix_series_def atr_def item_warm item_cold Let_def)
next
  case False
  define rs where "rs = ranges_from (hd xs) (tl xs)"
  have ne: "xs \<noteq> []" using assms by auto
  have "take period (take i rs) = take period rs" using False by (simp add: min_def)
  moreover have "drop period (take i rs) = take (i - period) (drop period rs)" by (simp add: drop_take)
  ultimately show ?thesis
    using False assms take_Suc_hd_tl [OF ne, of i]
    by (simp add: prefix_series_def atr_def Let_def item_warm ranges_take scan_take item_take rs_def [symmetric])
qed

lemma simple_atr_prefix:
  assumes "i < length xs" "0 < period"
  shows "prefix_series (\<lambda>cs. simpleWindowAtr cs period) xs i"
proof (cases "i + 1 < period")
  case False
  then have "slice_of (Suc i - period) period (take (Suc i) xs) = slice_of (Suc i - period) period xs"
    by (simp add: slice_of_def drop_take min_def)
  with assms False show ?thesis by (simp add: prefix_series_def simpleWindowAtr_def item_upt del: upt_Suc)
qed (use assms in \<open>simp add: prefix_series_def simpleWindowAtr_def item_upt del: upt_Suc\<close>)

lemma moves_take: "moves_from p (take n cs) = take n (moves_from p cs)"
proof (induction cs arbitrary: p n)
  case (Cons c cs)
  then show ?case by (cases n) auto
qed simp

lemma length_moves [simp]: "length (moves_from p cs) = length cs"
  by (induction cs arbitrary: p) auto

lemma dx_take:
  assumes "period \<le> n" "xs \<noteq> []"
  shows "dx_series (take (Suc n) xs) period = take (Suc (n - period)) (dx_series xs period)"
proof -
  define ms where "ms = moves_from (hd xs) (tl xs)"
  have "take period (take n ms) = take period ms" using assms(1) by (simp add: min_def)
  moreover have "drop period (take n ms) = take (n - period) (drop period ms)" by (simp add: drop_take)
  ultimately show ?thesis
    using take_Suc_hd_tl [OF assms(2), of n]
    by (simp add: dx_series_def Let_def moves_take scan_take take_map [symmetric] ms_def [symmetric]
        min_absorb1 [OF assms(1)])
qed

text \<open>
  The average directional index too, except at the very first value: a history that ends there is
  refused by the length test of the source, a longer one gives the value.
\<close>

lemma adx_prefix:
  assumes "0 < period" "i < length xs" "i \<noteq> period * 2 - 1"
  shows "prefix_series (\<lambda>cs. adx cs period) xs i"
proof (cases "i < period * 2")
  case True
  then have "i < period * 2 - 1" using assms(3) by linarith
  with assms show ?thesis by (simp add: prefix_series_def adx_def item_warm item_cold Let_def)
next
  case False
  have ne: "xs \<noteq> []" "period \<le> i" using assms False by auto
  define dx where "dx = dx_series xs period"
  have dx': "dx_series (take (Suc i) xs) period = take (Suc (i - period)) dx"
    unfolding dx_def using ne by (simp add: dx_take)
  have "take period (take (Suc (i - period)) dx) = take period dx" using False by (simp add: min_def)
  moreover have "drop period (take (Suc (i - period)) dx) = take (Suc (i - period) - period) (drop period dx)"
    by (simp add: drop_take)
  ultimately show ?thesis
    using False assms(1,2)
    by (simp add: prefix_series_def adx_def Let_def item_warm dx' dx_def [symmetric] scan_take item_take)
qed

end
