(* ===== verification/StrategyEvaluator.thy ===== *)
theory StrategyEvaluator
  imports Indicators StrategyDsl
begin

text \<open>
  The evaluation of rules and condition trees on candles (\<open>createStrategyEvaluator\<close> of
  \<open>packages/domain/src/strategy-dsl.ts\<close>). The caches of the source hold each series once; here a
  series is computed where it is used. \<open>(v - average) ** 2\<close> is the rounded product.
\<close>

subsection \<open>Rules\<close>

definition nat_of :: "jsnum \<Rightarrow> nat" where
  "nat_of x = (case x of N a \<Rightarrow> nat \<lfloor>a\<rfloor> | _ \<Rightarrow> 0)"

definition compare :: "jsnum \<Rightarrow> compare_operator \<Rightarrow> jsnum \<Rightarrow> bool" where
  "compare v op threshold = (case op of OpGt \<Rightarrow> threshold < v | OpGte \<Rightarrow> threshold \<le> v
     | OpLt \<Rightarrow> v < threshold | OpLte \<Rightarrow> v \<le> threshold)"

definition max_of :: "jsnum list \<Rightarrow> jsnum" where
  "max_of xs = foldl js_max NInf xs"

definition min_of :: "jsnum list \<Rightarrow> jsnum" where
  "min_of xs = foldl js_min PInf xs"

definition emaCrossAt :: "jsnum list \<Rightarrow> jsnum list \<Rightarrow> trend_direction \<Rightarrow> nat \<Rightarrow> bool" where
  "emaCrossAt fast slow d i \<longleftrightarrow>
     list_all is_finite [item fast i, item slow i, item fast (i - 1), item slow (i - 1)]
     \<and> (case d of Bullish \<Rightarrow> item slow i < item fast i \<and> item fast (i - 1) \<le> item slow (i - 1)
        | Bearish \<Rightarrow> item fast i < item slow i \<and> item slow (i - 1) \<le> item fast (i - 1))"

definition breakoutAt :: "candle list \<Rightarrow> nat \<Rightarrow> level_side \<Rightarrow> nat \<Rightarrow> bool" where
  "breakoutAt candles period d i \<longleftrightarrow> \<not> i < period \<and> (let previous = slice_of (i - period) period candles in
     case d of Above \<Rightarrow> max_of (map cd_high previous) < cd_close (candles ! i)
     | Below \<Rightarrow> cd_close (candles ! i) < min_of (map cd_low previous))"

definition bollingerAt ::
    "jsnum list \<Rightarrow> nat \<Rightarrow> jsnum \<Rightarrow> band_side \<Rightarrow> band_operator \<Rightarrow> nat \<Rightarrow> bool" where
  "bollingerAt closes period stdDev b op i \<longleftrightarrow> \<not> i + 1 < period \<and>
     (let values = slice_of (i + 1 - period) period closes;
        average = sum_of values / cnt (length values);
        deviation = js_sqrt (sum_of (map (\<lambda>v. (v - average) * (v - average)) values) / cnt (length values));
        band = (case b of UpperBand \<Rightarrow> average + deviation * stdDev | LowerBand \<Rightarrow> average - deviation * stdDev)
      in case op of BandAbove \<Rightarrow> band < item closes i | BandBelow \<Rightarrow> item closes i < band
         | BandGte \<Rightarrow> band \<le> item closes i | BandLte \<Rightarrow> item closes i \<le> band)"

definition atrAt :: "jsnum list \<Rightarrow> jsnum list \<Rightarrow> compare_operator \<Rightarrow> jsnum \<Rightarrow> nat \<Rightarrow> bool" where
  "atrAt closes series op valuePct i \<longleftrightarrow>
     (let percentage = (if N 0 < item closes i then item series i / item closes i * N 100 else NaN)
      in is_finite percentage \<and> compare percentage op valuePct)"

fun chain :: "(jsnum \<Rightarrow> jsnum \<Rightarrow> bool) \<Rightarrow> jsnum list \<Rightarrow> bool" where
  "chain R (x # y # ys) \<longleftrightarrow> R x y \<and> chain R (y # ys)"
| "chain R _ \<longleftrightarrow> True"

definition alignmentAt :: "jsnum list \<Rightarrow> trend_direction \<Rightarrow> bool" where
  "alignmentAt values d \<longleftrightarrow> list_all is_finite values
     \<and> chain (\<lambda>x y. case d of Bullish \<Rightarrow> y < x | Bearish \<Rightarrow> x < y) values"

definition momentumAt :: "jsnum list \<Rightarrow> nat \<Rightarrow> compare_operator \<Rightarrow> jsnum \<Rightarrow> nat \<Rightarrow> bool" where
  "momentumAt closes period op valuePct i \<longleftrightarrow> \<not> i < period \<and> \<not> item closes (i - period) \<le> N 0
     \<and> compare ((item closes i / item closes (i - period) - N 1) * N 100) op valuePct"

definition volumeAt ::
    "jsnum list \<Rightarrow> nat \<Rightarrow> compare_operator \<Rightarrow> jsnum \<Rightarrow> volume_average option \<Rightarrow> nat \<Rightarrow> bool" where
  "volumeAt volumes period op v av i \<longleftrightarrow> \<not> i < period \<and>
     (let average = (if av = Some EmaInclusive then item (ema volumes period) i
        else sum_of (slice_of (i - period) period volumes) / cnt period)
      in is_finite average \<and> \<not> average \<le> N 0 \<and> compare (item volumes i / average) op v)"

fun rule_holds :: "candle list \<Rightarrow> strategy_rule \<Rightarrow> nat \<Rightarrow> bool" where
  "rule_holds cs (EmaCross f s d) i = emaCrossAt (ema (map cd_close cs) (nat_of f)) (ema (map cd_close cs) (nat_of s)) d i"
| "rule_holds cs (RsiThreshold p op v sm) i =
     (let x = item (if sm = Some SimpleWindow then simpleWindowRsi (map cd_close cs) (nat_of p)
        else rsi (map cd_close cs) (nat_of p)) i
      in is_finite x \<and> compare x op v)"
| "rule_holds cs (ChannelBreakout p d) i = breakoutAt cs (nat_of p) d i"
| "rule_holds cs (AdxThreshold p op v) i =
     (let x = item (adx cs (nat_of p)) i in is_finite x \<and> compare x op v)"
| "rule_holds cs (BollingerBand p sd b op) i = bollingerAt (map cd_close cs) (nat_of p) sd b op i"
| "rule_holds cs (AtrVolatility p op v sm) i =
     atrAt (map cd_close cs) (if sm = Some SimpleWindow then simpleWindowAtr cs (nat_of p) else atr cs (nat_of p)) op v i"
| "rule_holds cs (EmaAlignment ps d) i = alignmentAt (map (\<lambda>p. item (ema (map cd_close cs) (nat_of p)) i) ps) d"
| "rule_holds cs (PriceEma p op) i =
     (let x = item (ema (map cd_close cs) (nat_of p)) i in is_finite x \<and>
        (case op of Above \<Rightarrow> x < item (map cd_close cs) i | Below \<Rightarrow> item (map cd_close cs) i < x))"
| "rule_holds cs (Momentum p op v) i = momentumAt (map cd_close cs) (nat_of p) op v i"
| "rule_holds cs (CandleDirection d) i = (case d of Bullish \<Rightarrow> cd_open (cs ! i) < cd_close (cs ! i)
     | Bearish \<Rightarrow> cd_close (cs ! i) < cd_open (cs ! i))"
| "rule_holds cs (VolumeRatio p op v av) i = volumeAt (map cd_volume cs) (nat_of p) op v av i"

definition condition :: "candle list \<Rightarrow> strategy_rule \<Rightarrow> nat \<Rightarrow> bool" where
  "condition cs rule i \<longleftrightarrow> \<not> (i < 1 \<or> length cs \<le> i) \<and> rule_holds cs rule i"

subsection \<open>Trees and legs\<close>

fun conditionTree :: "candle list \<Rightarrow> condition_v3 \<Rightarrow> nat \<Rightarrow> bool" where
  "conditionTree cs (CRule r) i = condition cs r i"
| "conditionTree cs (CAll xs) i = list_all (\<lambda>x. conditionTree cs x i) xs"
| "conditionTree cs (CAny xs) i = list_ex (\<lambda>x. conditionTree cs x i) xs"
| "conditionTree cs (CNot x) i = (\<not> conditionTree cs x i)"

definition entryAt :: "strategy_leg_v3 \<Rightarrow> candle list \<Rightarrow> nat \<Rightarrow> bool" where
  "entryAt leg cs i = conditionTree cs (CAll [leg_entry leg]) i"

definition exitAt :: "strategy_leg_v3 \<Rightarrow> candle list \<Rightarrow> nat \<Rightarrow> bool" where
  "exitAt leg cs i = conditionTree cs (CAny [leg_exit leg]) i"

definition evaluateStrategyEntryAt :: "strategy_dsl \<Rightarrow> candle list \<Rightarrow> nat \<Rightarrow> bool" where
  "evaluateStrategyEntryAt dsl cs i = conditionTree cs (CAll (map CRule (v1_entry dsl))) i"

definition evaluateStrategyExitAt :: "strategy_dsl \<Rightarrow> candle list \<Rightarrow> nat \<Rightarrow> bool" where
  "evaluateStrategyExitAt dsl cs i = conditionTree cs (CAny (map CRule (v1_exit dsl))) i"

subsection \<open>No look-ahead\<close>

lemma nat_of_whole: "whole x lo hi \<Longrightarrow> 1 \<le> lo \<Longrightarrow> 0 < nat_of x"
  by (cases x) (auto simp: whole_def in_range_def nat_of_def)

lemma item_prefix: "prefix_series f xs i \<Longrightarrow> item (f (take (Suc i) xs)) i = item (f xs) i"
  by (simp add: prefix_series_def)

text \<open>Value \<open>i - 1\<close> of a prefix series does not change either.\<close>

lemma prefix_before:
  assumes "\<And>j ys. j < length ys \<Longrightarrow> prefix_series f ys j" "1 \<le> i" "i < length xs"
  shows "item (f (take (Suc i) xs)) (i - 1) = item (f xs) (i - 1)"
proof -
  have "item (f (take (Suc (i - 1)) (take (Suc i) xs))) (i - 1) = item (f (take (Suc i) xs)) (i - 1)"
    using assms by (intro item_prefix) auto
  moreover have "item (f (take (Suc (i - 1)) xs)) (i - 1) = item (f xs) (i - 1)"
    using assms by (intro item_prefix) auto
  ultimately show ?thesis using assms(2) by (simp add: min_def)
qed

lemma slice_take: "i + n \<le> m \<Longrightarrow> slice_of i n (take m xs) = slice_of i n xs"
  by (simp add: slice_of_def drop_take min_def)

text \<open>The one exception is the first value of the directional index (\<open>adx_prefix\<close>).\<close>

fun causal_rule :: "nat \<Rightarrow> strategy_rule \<Rightarrow> bool" where
  "causal_rule i (AdxThreshold p op v) \<longleftrightarrow> i \<noteq> nat_of p * 2 - 1"
| "causal_rule i _ \<longleftrightarrow> True"

fun causal_tree :: "nat \<Rightarrow> condition_v3 \<Rightarrow> bool" where
  "causal_tree i (CRule r) \<longleftrightarrow> rule_ok r \<and> causal_rule i r"
| "causal_tree i (CAll cs) \<longleftrightarrow> list_all (causal_tree i) cs"
| "causal_tree i (CAny cs) \<longleftrightarrow> list_all (causal_tree i) cs"
| "causal_tree i (CNot c) \<longleftrightarrow> causal_tree i c"

lemma rule_prefix:
  assumes ok: "rule_ok r" "causal_rule i r" and i: "1 \<le> i" "i < length cs"
  shows "rule_holds (take (Suc i) cs) r i = rule_holds cs r i"
proof -
  define xs where "xs = map cd_close cs"
  define vs where "vs = map cd_volume cs"
  have m: "map cd_close (take (Suc i) cs) = take (Suc i) xs" "map cd_volume (take (Suc i) cs) = take (Suc i) vs"
    "map cd_close cs = xs" "map cd_volume cs = vs" by (simp_all add: xs_def vs_def take_map)
  have len: "i < length xs" "i < length vs" using i by (simp_all add: xs_def vs_def)
  have e: "item (ema (take (Suc i) xs) p) i = item (ema xs p) i"
    "item (ema (take (Suc i) xs) p) (i - 1) = item (ema xs p) (i - 1)"
    "item (ema (take (Suc i) vs) p) i = item (ema vs p) i" if "0 < p" for p
    using that len i ema_prefix [of p] item_prefix [of "\<lambda>x. ema x p"] prefix_before [of "\<lambda>x. ema x p" i xs] by auto
  have c: "item (take (Suc i) xs) j = item xs j" "item (take (Suc i) vs) j = item vs j"
    "take (Suc i) cs ! j = cs ! j" if "j \<le> i" for j using that by (simp_all add: item_take)
  note pos = nat_of_whole
  show ?thesis
  proof (cases r)
    case (EmaCross f s d)
    then have "0 < nat_of f" "0 < nat_of s" using ok pos [of f 2 200] pos [of s 3 400] by auto
    then show ?thesis using EmaCross
      by (cases d) (simp_all add: m emaCrossAt_def e e [unfolded One_nat_def])
  next
    case (RsiThreshold p op v sm)
    then have "0 < nat_of p" using ok pos [of p 2 100] by auto
    then show ?thesis
      using RsiThreshold len item_prefix [OF rsi_prefix] item_prefix [OF simple_rsi_prefix] by (simp add: m)
  next
    case (ChannelBreakout p d)
    then show ?thesis by (cases "i < nat_of p"; cases d) (simp_all add: breakoutAt_def slice_take c)
  next
    case (VolumeRatio p op v av)
    then have "0 < nat_of p" using ok pos [of p 2 200] by auto
    then show ?thesis using VolumeRatio by (cases "i < nat_of p") (simp_all add: m volumeAt_def slice_take e c)
  next
    case (AdxThreshold p op v)
    then have "0 < nat_of p" using ok pos [of p 2 100] by auto
    then show ?thesis using AdxThreshold ok i item_prefix [OF adx_prefix [of "nat_of p" i cs]] by simp
  next
    case (BollingerBand p sd b op)
    then have "0 < nat_of p" using ok pos [of p 2 200] by auto
    then show ?thesis using BollingerBand
      by (cases "i + 1 < nat_of p"; cases op) (simp_all add: m bollingerAt_def slice_take c)
  next
    case (AtrVolatility p op v sm)
    then have "0 < nat_of p" using ok pos [of p 2 100] by auto
    then show ?thesis
      using AtrVolatility i item_prefix [OF atr_prefix] item_prefix [OF simple_atr_prefix]
      by (simp add: m atrAt_def c)
  next
    case (EmaAlignment ps d)
    then have "\<forall>p \<in> set ps. 0 < nat_of p" using ok pos [of _ 2 400] by (auto simp: list_all_iff)
    then have "map (\<lambda>p. item (ema (take (Suc i) xs) (nat_of p)) i) ps = map (\<lambda>p. item (ema xs (nat_of p)) i) ps"
      by (simp add: e)
    then show ?thesis unfolding EmaAlignment rule_holds.simps m by (rule arg_cong)
  next
    case (PriceEma p op)
    then have "0 < nat_of p" using ok pos [of p 2 400] by auto
    then show ?thesis using PriceEma by (cases op) (simp_all add: m e c)
  next
    case (Momentum p op v)
    then show ?thesis by (simp add: m momentumAt_def c)
  next
    case (CandleDirection d)
    then show ?thesis by (cases d) (simp_all add: c)
  qed
qed

lemma condition_prefix:
  assumes "rule_ok r" "causal_rule i r" "i < length cs"
  shows "condition (take (Suc i) cs) r i = condition cs r i"
  using assms rule_prefix [of r i cs] by (auto simp: condition_def)

lemma tree_prefix:
  assumes "causal_tree i c" "i < length cs"
  shows "conditionTree (take (Suc i) cs) c i = conditionTree cs c i"
  using assms
  by (induction c) (auto simp: condition_prefix list_all_iff list_ex_iff)

subsection \<open>Where a condition can hold\<close>

lemma condition_out_of_range: "i < 1 \<or> length cs \<le> i \<Longrightarrow> \<not> condition cs r i"
  by (auto simp: condition_def)

fun positive :: "condition_v3 \<Rightarrow> bool" where
  "positive (CRule r) \<longleftrightarrow> True"
| "positive (CAll cs) \<longleftrightarrow> cs \<noteq> [] \<and> list_all positive cs"
| "positive (CAny cs) \<longleftrightarrow> list_all positive cs"
| "positive (CNot c) \<longleftrightarrow> False"

lemma positive_out_of_range:
  assumes "positive c" "i < 1 \<or> length cs \<le> i"
  shows "\<not> conditionTree cs c i"
  using assms
proof (induction c)
  case (CAll xs)
  then show ?case by (cases xs) auto
qed (auto simp: condition_out_of_range list_all_iff list_ex_iff)

text \<open>An empty conjunction, which the normaliser accepts as an exit, holds everywhere.\<close>

lemma empty_all_holds: "conditionTree cs (CAll []) i"
  by simp

subsection \<open>Properties\<close>

text \<open>C34. No look-ahead: what a condition tree says at a candle depends on the candles up to and
including it only. (Rules on the ADX are excepted at the one index where their warm-up test looks
at the length of the series.)\<close>

theorem no_look_ahead:
  assumes "causal_tree i c" "i < length cs" "take (Suc i) cs = take (Suc i) cs'" "i < length cs'"
  shows "conditionTree cs c i = conditionTree cs' c i"
  using tree_prefix [OF assms(1,2)] tree_prefix [OF assms(1,4)] assms(3) by simp

definition sample_candle :: "rat \<Rightarrow> candle" where
  "sample_candle p = \<lparr>openTime = N 0, closeTime = N 1, cd_open = N p, cd_high = N p, cd_low = N p,
     cd_close = N p, cd_volume = N 1\<rparr>"

theorem no_look_ahead_witness:
  "conditionTree [sample_candle 1, sample_candle 2] (CRule (CandleDirection Bullish)) 1
     = conditionTree [sample_candle 1, sample_candle 2, sample_candle 9] (CRule (CandleDirection Bullish)) 1"
  by (rule no_look_ahead) simp_all

text \<open>Outside the series a tree without negation and without empty conjunctions is false: no
entry is taken before the second candle nor past the last.\<close>

theorem positive_tree_needs_candles:
  assumes "positive c" "i < 1 \<or> length cs \<le> i"
  shows "\<not> conditionTree cs c i"
  using assms by (rule positive_out_of_range)

theorem positive_tree_needs_candles_witness:
  "\<not> conditionTree [] (CAny [CRule (CandleDirection Bullish)]) 0"
  by (rule positive_tree_needs_candles) simp_all

text \<open>An empty conjunction, which the normaliser accepts as an exit, holds at every candle, so
that a leg with it leaves its position at the first candle after the entry.\<close>

theorem empty_exit_always_holds:
  "normalizeConditionV3 (condition_json (CAll [])) path 0 1 True = Inr (CAll [], 1)
     \<and> conditionTree cs (CAll []) i"
proof -
  have "condition_wf (5 - Suc 0) True (CAll [])" by (simp add: numeral_eq_Suc)
  from condition_json_read [OF this, of 0 path] show ?thesis by (simp add: empty_all_holds)
qed

end
