(* ===== verification/Backtest.thy ===== *)
theory Backtest
  imports StrategyEvaluator JsDate
begin

text \<open>
  What the two backtests share, and the spot backtest (\<open>packages/domain/src/backtest-engine.ts\<close>).
  The result keeps the figures and the trades; the provider label, the evidence digest over them
  and the copy of the specification and the options are left out. Errors are codes for the localised messages.
\<close>

subsection \<open>Options\<close>

datatype backtest_preset = LiveAligned | Exploration

record backtest_options =
  bo_preset :: backtest_preset
  bo_feeRate :: jsnum
  bo_slippageRate :: jsnum
  bo_initialEquityUsdt :: jsnum
  bo_candleLimit :: jsnum

record backtest_options_input =
  bi_preset :: json
  bi_feeRate :: json
  bi_slippageRate :: json
  bi_initialEquityUsdt :: json
  bi_candleLimit :: json
  bi_maintenanceMarginRate :: json

definition boundedBacktestNumber ::
    "json \<Rightarrow> jsnum \<Rightarrow> jsnum \<Rightarrow> jsnum \<Rightarrow> string \<Rightarrow> bool \<Rightarrow> (string, jsnum) result" where
  "boundedBacktestNumber v fallback minimum maximum label integer =
     ebind (case v of JUndef \<Rightarrow> Inr fallback | JNum x \<Rightarrow> Inr x | _ \<Rightarrow> Inl label) (\<lambda>x.
     if \<not> is_finite x \<or> x < minimum \<or> maximum < x \<or> integer \<and> \<not> is_integer x then Inl label else Inr x)"

definition normalizeBacktestOptionsWithCandleMaximum ::
    "backtest_options_input \<Rightarrow> jsnum \<Rightarrow> (string, backtest_options) result" where
  "normalizeBacktestOptionsWithCandleMaximum input maximumCandleLimit =
     ebind (case bi_preset input of
         JUndef \<Rightarrow> Inr LiveAligned | JNull \<Rightarrow> Inr LiveAligned
       | JStr s \<Rightarrow> if s = ''live_aligned'' then Inr LiveAligned
           else if s = ''exploration'' then Inr Exploration else Inl ''preset''
       | _ \<Rightarrow> Inl ''preset'') (\<lambda>preset.
     ebind (boundedBacktestNumber (bi_feeRate input) (lit (1 / 1000)) (N 0) (lit (1 / 100)) ''feeRate'' False) (\<lambda>fee.
     ebind (boundedBacktestNumber (bi_slippageRate input)
       (if preset = LiveAligned then lit (5 / 10000) else N 0) (N 0) (lit (2 / 100)) ''slippageRate'' False) (\<lambda>slip.
     ebind (boundedBacktestNumber (bi_initialEquityUsdt input) (N 10000) (N 100) (N 1000000) ''initialEquityUsdt'' False) (\<lambda>eq.
     ebind (boundedBacktestNumber (bi_candleLimit input) (N 1000) (N 200) maximumCandleLimit ''candleLimit'' True) (\<lambda>lim.
       Inr \<lparr>bo_preset = preset, bo_feeRate = fee, bo_slippageRate = slip, bo_initialEquityUsdt = eq,
         bo_candleLimit = lim\<rparr>)))))"

definition normalizeBacktestOptions :: "backtest_options_input \<Rightarrow> (string, backtest_options) result" where
  "normalizeBacktestOptions input = normalizeBacktestOptionsWithCandleMaximum input (N 1000)"

definition normalizePerpetualBacktestOptions :: "backtest_options_input \<Rightarrow> (string, backtest_options) result" where
  "normalizePerpetualBacktestOptions input = normalizeBacktestOptionsWithCandleMaximum input (N 30000)"

text \<open>\<open>fromBrief\<close> is \<open>strategyDslFromBrief\<close>, whose texts are not in the model's alphabet.\<close>

definition normalizeBacktestDsl ::
    "(fields \<Rightarrow> (string, strategy_dsl) result) \<Rightarrow> json \<Rightarrow> (string, strategy_dsl) result" where
  "normalizeBacktestDsl fromBrief input = (case input of
     JObj v \<Rightarrow> if ''schemaVersion'' \<in> set (map fst v) then normalizeStrategyDsl input else fromBrief v
   | _ \<Rightarrow> Inl ''SPECIFICATION_INVALID'')"

definition candle_finite :: "candle \<Rightarrow> bool" where
  "candle_finite c \<longleftrightarrow> list_all is_finite [openTime c, closeTime c, cd_open c, cd_high c, cd_low c,
     cd_close c, cd_volume c]"

definition validateCandles :: "candle list \<Rightarrow> (string, unit) result" where
  "validateCandles candles =
     (if length candles < 200 then Inl ''INSUFFICIENT_CANDLES''
      else if list_ex (\<lambda>c. \<not> candle_finite c) candles then Inl ''INVALID_CANDLES'' else Inr ())"

definition day_of :: "jsnum \<Rightarrow> (string, string) result" where
  "day_of t = ebind (iso_or_throw (to_date t)) (\<lambda>s. Inr (take 10 s))"

subsection \<open>Trades and the result\<close>

datatype position_dir = LongPosition | ShortPosition

datatype trade_reason = StopLoss | TakeProfit | DslExit | PeriodEnd | Liquidation

record completed_trade =
  ct_openedAt :: jsnum
  ct_closedAt :: jsnum
  ct_entryPrice :: jsnum
  ct_exitPrice :: jsnum
  ct_netPnl :: jsnum
  ct_returnPct :: jsnum
  ct_reason :: trade_reason
  ct_side :: "position_dir option"
  ct_grossPnl :: "jsnum option"
  ct_feesUsdt :: "jsnum option"
  ct_fundingUsdt :: "jsnum option"

record backtest_result =
  br_symbol :: string
  br_interval :: string
  br_periodStart :: string
  br_periodEnd :: string
  br_candleCount :: nat
  br_sampleSize :: nat
  br_netReturnPct :: jsnum
  br_maxDrawdownPct :: jsnum
  br_winRatePct :: jsnum
  br_profitFactor :: jsnum
  br_feesUsdt :: jsnum
  br_fundingUsdt :: jsnum
  br_slippageUsdt :: jsnum
  br_liquidated :: bool
  br_finalEquityUsdt :: jsnum
  br_warnings :: "string list"
  br_trades :: "completed_trade list"

definition winRatePct :: "completed_trade list \<Rightarrow> jsnum" where
  "winRatePct trades = js_fixed 4 (if trades \<noteq> []
     then cnt (length (filter (\<lambda>t. N 0 < ct_netPnl t) trades)) / cnt (length trades) * N 100 else N 0)"

definition profitFactor :: "completed_trade list \<Rightarrow> jsnum" where
  "profitFactor trades =
     (let grossProfit = sum_of (map ct_netPnl (filter (\<lambda>t. N 0 < ct_netPnl t) trades));
          grossLoss = \<bar>sum_of (map ct_netPnl (filter (\<lambda>t. ct_netPnl t < N 0) trades))\<bar>
      in js_fixed 4 (if truthy grossLoss then grossProfit / grossLoss
           else if N 0 < grossProfit then N 999 else N 0))"

subsection \<open>The spot loop\<close>

record open_position =
  op_entryPrice :: jsnum
  op_openedAt :: jsnum
  op_notional :: jsnum
  op_quantity :: jsnum

record spot_state =
  ss_equity :: jsnum
  ss_peak :: jsnum
  ss_maxDrawdownPct :: jsnum
  ss_feesUsdt :: jsnum
  ss_slippageUsdt :: jsnum
  ss_consecutiveLosses :: nat
  ss_drawdownHalted :: bool
  ss_consecutiveLossHalted :: bool
  ss_currentDay :: string
  ss_dayStartEquity :: jsnum
  ss_dailyLossHalted :: bool
  ss_position :: "open_position option"
  ss_trades :: "completed_trade list"

definition spot_start :: "jsnum \<Rightarrow> spot_state" where
  "spot_start initial = \<lparr>ss_equity = initial, ss_peak = initial, ss_maxDrawdownPct = N 0, ss_feesUsdt = N 0,
     ss_slippageUsdt = N 0, ss_consecutiveLosses = 0, ss_drawdownHalted = False,
     ss_consecutiveLossHalted = False, ss_currentDay = [], ss_dayStartEquity = initial,
     ss_dailyLossHalted = False, ss_position = None, ss_trades = []\<rparr>"

definition updateDrawdown :: "strategy_dsl \<Rightarrow> spot_state \<Rightarrow> spot_state" where
  "updateDrawdown spec s = (let peak = js_max (ss_peak s) (ss_equity s);
     dd = js_max (ss_maxDrawdownPct s)
       (if js_eq peak (N 0) then N 0 else (peak - ss_equity s) / peak * N 100)
     in s\<lparr>ss_peak := peak, ss_maxDrawdownPct := dd,
          ss_drawdownHalted := ss_drawdownHalted s \<or> v1_maxDrawdownPct spec \<le> dd\<rparr>)"

definition openPosition :: "strategy_dsl \<Rightarrow> backtest_options \<Rightarrow> candle \<Rightarrow> spot_state \<Rightarrow> spot_state" where
  "openPosition spec o' c s = (let notional = ss_equity s * v1_positionPct spec / N 100;
     entryPrice = cd_close c * (N 1 + bo_slippageRate o');
     entryFee = notional * bo_feeRate o'
     in updateDrawdown spec (s\<lparr>ss_feesUsdt := ss_feesUsdt s + entryFee,
          ss_slippageUsdt := ss_slippageUsdt s + notional * bo_slippageRate o',
          ss_equity := ss_equity s - entryFee,
          ss_position := Some \<lparr>op_entryPrice = entryPrice, op_openedAt = closeTime c,
            op_notional = notional, op_quantity = notional / entryPrice\<rparr>\<rparr>))"

definition spot_trade :: "backtest_options \<Rightarrow> candle \<Rightarrow> trade_reason \<Rightarrow> open_position \<Rightarrow> completed_trade" where
  "spot_trade o' c reason p = (let exitPrice = cd_close c * (N 1 - bo_slippageRate o');
     exitValue = op_quantity p * exitPrice;
     netPnl = (exitValue - op_notional p) - exitValue * bo_feeRate o'
     in \<lparr>ct_openedAt = op_openedAt p, ct_closedAt = closeTime c, ct_entryPrice = op_entryPrice p,
         ct_exitPrice = exitPrice, ct_netPnl = netPnl, ct_returnPct = netPnl / op_notional p * N 100,
         ct_reason = reason, ct_side = None, ct_grossPnl = None, ct_feesUsdt = None, ct_fundingUsdt = None\<rparr>)"

definition closePosition ::
    "strategy_dsl \<Rightarrow> backtest_options \<Rightarrow> candle \<Rightarrow> trade_reason \<Rightarrow> spot_state \<Rightarrow> spot_state" where
  "closePosition spec o' c reason s = (case ss_position s of
     None \<Rightarrow> s
   | Some p \<Rightarrow>
     let trade = spot_trade o' c reason p;
         exitValue = op_quantity p * ct_exitPrice trade;
         losses = (if ct_netPnl trade < N 0 then ss_consecutiveLosses s + 1 else 0)
     in updateDrawdown spec (s\<lparr>ss_equity := ss_equity s + ct_netPnl trade,
          ss_feesUsdt := ss_feesUsdt s + exitValue * bo_feeRate o',
          ss_slippageUsdt := ss_slippageUsdt s + exitValue * bo_slippageRate o',
          ss_trades := ss_trades s @ [trade], ss_consecutiveLosses := losses,
          ss_consecutiveLossHalted := ss_consecutiveLossHalted s \<or> v1_consecutiveLossLimit spec \<le> cnt losses,
          ss_position := None\<rparr>))"

text \<open>The exit of a candle, if there is one: stop, then target, then the strategy's own exit.\<close>

definition spotExit :: "strategy_dsl \<Rightarrow> candle list \<Rightarrow> nat \<Rightarrow> open_position \<Rightarrow> trade_reason option" where
  "spotExit spec cs i p = (let changePct = (cd_close (cs ! i) - op_entryPrice p) / op_entryPrice p * N 100 in
     if changePct \<le> - v1_stopLossPct spec then Some StopLoss
     else if v1_takeProfitPct spec \<le> changePct then Some TakeProfit
     else if evaluateStrategyExitAt spec cs i then Some DslExit else None)"

definition beginDay :: "string \<Rightarrow> spot_state \<Rightarrow> spot_state" where
  "beginDay day s = (if day \<noteq> ss_currentDay s
     then s\<lparr>ss_currentDay := day, ss_dayStartEquity := ss_equity s, ss_dailyLossHalted := False\<rparr> else s)"

definition checkDailyLoss :: "strategy_dsl \<Rightarrow> spot_state \<Rightarrow> spot_state" where
  "checkDailyLoss spec s = (let dailyLossPct = (if ss_dayStartEquity s \<le> N 0 then N 0
       else (ss_dayStartEquity s - ss_equity s) / ss_dayStartEquity s * N 100)
     in if v1_dailyLossLimitPct spec \<le> dailyLossPct then s\<lparr>ss_dailyLossHalted := True\<rparr> else s)"

definition entriesAllowed :: "spot_state \<Rightarrow> bool" where
  "entriesAllowed s \<longleftrightarrow> \<not> ss_drawdownHalted s \<and> \<not> ss_consecutiveLossHalted s \<and> \<not> ss_dailyLossHalted s"

definition spotExitStep ::
    "strategy_dsl \<Rightarrow> backtest_options \<Rightarrow> candle list \<Rightarrow> nat \<Rightarrow> spot_state \<Rightarrow> spot_state \<times> bool" where
  "spotExitStep spec o' cs i s = (case ss_position s of
     None \<Rightarrow> (s, False)
   | Some p \<Rightarrow> (case spotExit spec cs i p of
       None \<Rightarrow> (s, False) | Some reason \<Rightarrow> (closePosition spec o' (cs ! i) reason s, True)))"

definition spotStep ::
    "strategy_dsl \<Rightarrow> backtest_options \<Rightarrow> candle list \<Rightarrow> nat \<Rightarrow> spot_state \<Rightarrow> (string, spot_state) result" where
  "spotStep spec o' cs i s = ebind (day_of (openTime (cs ! i))) (\<lambda>day.
     let (s1, closed) = spotExitStep spec o' cs i (beginDay day s); s2 = checkDailyLoss spec s1 in
     Inr (if ss_position s2 = None \<and> \<not> closed \<and> entriesAllowed s2 \<and> evaluateStrategyEntryAt spec cs i
       then openPosition spec o' (cs ! i) s2 else s2))"

definition spotLoop ::
    "strategy_dsl \<Rightarrow> backtest_options \<Rightarrow> candle list \<Rightarrow> nat \<Rightarrow> (string, spot_state) result" where
  "spotLoop spec o' cs n = efold (spotStep spec o' cs) [1..<n] (spot_start (bo_initialEquityUsdt o'))"

definition spotWarnings :: "spot_state \<Rightarrow> string list" where
  "spotWarnings s = (if length (ss_trades s) < 5 then [''FEW_TRADES''] else [])
     @ (if ss_drawdownHalted s then [''DRAWDOWN_HALTED''] else [])
     @ (if ss_consecutiveLossHalted s then [''CONSECUTIVE_LOSS_HALTED''] else [])
     @ (if ss_dailyLossHalted s then [''DAILY_LOSS_HALTED''] else [])"

definition spotResult ::
    "strategy_dsl \<Rightarrow> backtest_options \<Rightarrow> candle list \<Rightarrow> spot_state \<Rightarrow> string \<Rightarrow> string \<Rightarrow> backtest_result" where
  "spotResult spec o' cs s period_start period_end = (let initial = bo_initialEquityUsdt o' in
     \<lparr>br_symbol = v1_symbol spec, br_interval = v1_timeframe spec, br_periodStart = period_start, br_periodEnd = period_end, br_candleCount = length cs,
     br_sampleSize = length (ss_trades s),
     br_netReturnPct = js_fixed 4 ((ss_equity s - initial) / initial * N 100),
     br_maxDrawdownPct = js_fixed 4 (ss_maxDrawdownPct s), br_winRatePct = winRatePct (ss_trades s),
     br_profitFactor = profitFactor (ss_trades s), br_feesUsdt = js_fixed 4 (ss_feesUsdt s),
     br_fundingUsdt = N 0, br_slippageUsdt = js_fixed 4 (ss_slippageUsdt s), br_liquidated = False,
     br_finalEquityUsdt = js_fixed 4 (ss_equity s), br_warnings = spotWarnings s, br_trades = ss_trades s\<rparr>)"

definition spotFinal ::
    "strategy_dsl \<Rightarrow> backtest_options \<Rightarrow> candle list \<Rightarrow> (string, spot_state) result" where
  "spotFinal spec o' cs = ebind (spotLoop spec o' cs (length cs)) (\<lambda>s.
     Inr (if ss_position s \<noteq> None then closePosition spec o' (last cs) PeriodEnd s else s))"

definition runBacktestOnCandles ::
    "(fields \<Rightarrow> (string, strategy_dsl) result) \<Rightarrow> json \<Rightarrow> candle list \<Rightarrow> backtest_options_input
     \<Rightarrow> (string, backtest_result) result" where
  "runBacktestOnCandles fromBrief raw cs input =
     ebind (normalizeBacktestDsl fromBrief raw) (\<lambda>spec.
     ebind (validateCandles cs) (\<lambda>_.
     ebind (normalizeBacktestOptions input) (\<lambda>o'.
     ebind (spotFinal spec o' cs) (\<lambda>s.
     ebind (iso_or_throw (to_date (openTime (hd cs)))) (\<lambda>period_start.
     ebind (iso_or_throw (to_date (closeTime (last cs)))) (\<lambda>period_end.
       Inr (spotResult spec o' cs s period_start period_end)))))))"

subsection \<open>The gates of the loop\<close>

definition opened :: "spot_state \<Rightarrow> nat" where
  "opened s = length (ss_trades s) + (if ss_position s = None then 0 else 1)"

lemma updateDrawdown_keeps [simp]:
  "ss_position (updateDrawdown spec s) = ss_position s" "ss_trades (updateDrawdown spec s) = ss_trades s"
  "ss_equity (updateDrawdown spec s) = ss_equity s"
  "ss_consecutiveLossHalted (updateDrawdown spec s) = ss_consecutiveLossHalted s"
  "ss_drawdownHalted s \<Longrightarrow> ss_drawdownHalted (updateDrawdown spec s)"
  by (simp_all add: updateDrawdown_def Let_def)

lemma openPosition_facts:
  "ss_position (openPosition spec o' c s) \<noteq> None" "ss_trades (openPosition spec o' c s) = ss_trades s"
  "opened (openPosition spec o' c s) = Suc (length (ss_trades s))"
  by (simp_all add: openPosition_def Let_def opened_def)

lemma closePosition_facts:
  assumes "ss_position s = Some p"
  shows "ss_position (closePosition spec o' c reason s) = None"
    "ss_trades (closePosition spec o' c reason s) = ss_trades s @ [spot_trade o' c reason p]"
    "ss_drawdownHalted s \<Longrightarrow> ss_drawdownHalted (closePosition spec o' c reason s)"
    "ss_consecutiveLossHalted s \<Longrightarrow> ss_consecutiveLossHalted (closePosition spec o' c reason s)"
  using assms by (simp_all add: closePosition_def Let_def)

lemma beginDay_keeps [simp]:
  "ss_position (beginDay day s) = ss_position s" "ss_trades (beginDay day s) = ss_trades s"
  "ss_drawdownHalted (beginDay day s) = ss_drawdownHalted s"
  "ss_consecutiveLossHalted (beginDay day s) = ss_consecutiveLossHalted s"
  by (simp_all add: beginDay_def)

lemma checkDailyLoss_keeps [simp]:
  "ss_position (checkDailyLoss spec s) = ss_position s" "ss_trades (checkDailyLoss spec s) = ss_trades s"
  "ss_drawdownHalted (checkDailyLoss spec s) = ss_drawdownHalted s"
  "ss_consecutiveLossHalted (checkDailyLoss spec s) = ss_consecutiveLossHalted s"
  by (simp_all add: checkDailyLoss_def Let_def)

text \<open>One candle does one of four things: nothing, an exit, an entry, or keeps the position.\<close>

lemma spotStep_cases:
  assumes "spotStep spec o' cs i s = Inr s'"
  obtains (exit) p reason where "ss_position s = Some p" "spotExit spec cs i p = Some reason"
      "ss_position s' = None" "ss_trades s' = ss_trades s @ [spot_trade o' (cs ! i) reason p]"
  | (hold) p where "ss_position s = Some p" "spotExit spec cs i p = None" "ss_position s' = Some p"
      "ss_trades s' = ss_trades s"
  | (entry) "ss_position s = None" "evaluateStrategyEntryAt spec cs i" "\<not> ss_drawdownHalted s"
      "\<not> ss_consecutiveLossHalted s" "ss_position s' \<noteq> None" "ss_trades s' = ss_trades s"
  | (idle) "ss_position s = None" "ss_position s' = None" "ss_trades s' = ss_trades s"
proof -
  obtain day where day: "day_of (openTime (cs ! i)) = Inr day"
    using assms by (auto simp: spotStep_def ebind_Inr_iff)
  note unf = spotStep_def day spotExitStep_def Let_def
  show thesis
  proof (cases "ss_position s")
    case None
    then have s': "s' = (if entriesAllowed (checkDailyLoss spec (beginDay day s)) \<and> evaluateStrategyEntryAt spec cs i
        then openPosition spec o' (cs ! i) (checkDailyLoss spec (beginDay day s)) else checkDailyLoss spec (beginDay day s))"
      using assms by (simp add: unf)
    show thesis
      by (cases "entriesAllowed (checkDailyLoss spec (beginDay day s)) \<and> evaluateStrategyEntryAt spec cs i")
        (use None s' entry idle openPosition_facts in \<open>auto simp: entriesAllowed_def\<close>)
  next
    case (Some p)
    show thesis
    proof (cases "spotExit spec cs i p")
      case None
      then have "s' = checkDailyLoss spec (beginDay day s)" using assms Some by (simp add: unf)
      then show thesis using Some None by (intro hold [of p]) simp_all
    next
      case reason: (Some reason)
      then have "s' = checkDailyLoss spec (closePosition spec o' (cs ! i) reason (beginDay day s))"
        using assms Some by (simp add: unf)
      then show thesis
        using Some reason closePosition_facts(1,2) [of "beginDay day s" p spec o' "cs ! i" reason]
        by (intro exit [of p reason]) simp_all
    qed
  qed
qed

definition halted :: "spot_state \<Rightarrow> bool" where
  "halted s \<longleftrightarrow> ss_drawdownHalted s \<or> ss_consecutiveLossHalted s"

lemma spotStep_halted:
  assumes "spotStep spec o' cs i s = Inr s'" "halted s"
  shows "halted s'"
proof -
  obtain day where day: "day_of (openTime (cs ! i)) = Inr day"
    using assms by (auto simp: spotStep_def ebind_Inr_iff)
  have "halted (beginDay day s)" using assms(2) by (simp add: halted_def)
  moreover have "halted (fst (spotExitStep spec o' cs i t))" if "halted t" for t
    using that closePosition_facts(3,4) [of t _ spec o' "cs ! i"]
    by (auto simp: spotExitStep_def halted_def split: option.split)
  moreover have "halted (openPosition spec o' (cs ! i) t)" if "halted t" for t
    using that by (auto simp: openPosition_def Let_def halted_def)
  moreover have "halted (checkDailyLoss spec t)" if "halted t" for t using that by (simp add: halted_def)
  ultimately show ?thesis using assms(1) day
    by (auto simp: spotStep_def Let_def split: prod.splits if_splits) (metis fst_conv)+
qed

lemma spotStep_opened:
  assumes "spotStep spec o' cs i s = Inr s'"
  shows "opened s' = opened s \<or> opened s' = Suc (opened s) \<and> \<not> halted s \<and> evaluateStrategyEntryAt spec cs i"
  using assms by (rule spotStep_cases) (auto simp: opened_def halted_def)

text \<open>
  What both backtests promise of one candle: a halt lasts, and a candle opens at most one position,
  none while halted. The consequences for a whole run are proved once.
\<close>

locale trading_loop =
  fixes step :: "nat \<Rightarrow> 's \<Rightarrow> (string, 's) result"
    and taken :: "'s \<Rightarrow> nat"
    and stopped :: "'s \<Rightarrow> bool"
  assumes step_stopped: "step i s = Inr s' \<Longrightarrow> stopped s \<Longrightarrow> stopped s'"
    and step_taken: "step i s = Inr s' \<Longrightarrow> taken s' = taken s \<or> taken s' = Suc (taken s) \<and> \<not> stopped s"
begin

lemma run_stopped:
  assumes "efold step idx s = Inr s'" "stopped s"
  shows "stopped s' \<and> taken s' = taken s"
proof (rule efold_invariant [OF assms(1), of "\<lambda>t. stopped t \<and> taken t = taken s"])
  show "stopped s \<and> taken s = taken s" using assms(2) by simp
next
  fix i t t'
  assume t: "stopped t \<and> taken t = taken s" "step i t = Inr t'"
  then show "stopped t' \<and> taken t' = taken s"
    using step_stopped [of i t t'] step_taken [OF t(2)] by auto
qed

lemma run_taken:
  assumes "efold step idx s = Inr s'"
  shows "taken s \<le> taken s' \<and> taken s' \<le> taken s + length idx"
  using assms
proof (induction idx arbitrary: s)
  case (Cons i idx)
  then obtain t where "step i s = Inr t" "efold step idx t = Inr s'" by (auto simp: ebind_Inr_iff)
  then show ?case using Cons.IH [of t] step_taken [of i s t] by auto
qed simp

end

interpretation spot: trading_loop "spotStep spec o' cs" opened halted for spec o' cs
  by unfold_locales (use spotStep_halted spotStep_opened in blast)+

lemma spotFinal_flat:
  assumes "spotFinal spec o' cs = Inr s"
  shows "ss_position s = None"
proof -
  obtain t where t: "spotLoop spec o' cs (length cs) = Inr t"
    "s = (if ss_position t \<noteq> None then closePosition spec o' (last cs) PeriodEnd t else t)"
    using assms by (auto simp: spotFinal_def ebind_Inr_iff)
  then show ?thesis using closePosition_facts(1) [of t] by auto
qed

subsection \<open>No look-ahead\<close>

definition adx_free :: "strategy_rule list \<Rightarrow> bool" where
  "adx_free rs \<longleftrightarrow> (\<forall>r \<in> set rs. rule_ok r \<and> (\<forall>i. causal_rule i r))"

lemma evaluate_take:
  assumes "adx_free (v1_entry spec)" "adx_free (v1_exit spec)" "i < n" "n \<le> length cs"
  shows "evaluateStrategyEntryAt spec (take n cs) i = evaluateStrategyEntryAt spec cs i"
    "evaluateStrategyExitAt spec (take n cs) i = evaluateStrategyExitAt spec cs i"
proof -
  have c: "causal_tree i (CAll (map CRule (v1_entry spec)))" "causal_tree i (CAny (map CRule (v1_exit spec)))"
    using assms(1,2) by (auto simp: adx_free_def list_all_iff)
  have t: "take (Suc i) (take n cs) = take (Suc i) cs" using assms(3) by (simp add: min_def)
  show "evaluateStrategyEntryAt spec (take n cs) i = evaluateStrategyEntryAt spec cs i"
    unfolding evaluateStrategyEntryAt_def
    using tree_prefix [OF c(1), of "take n cs"] tree_prefix [OF c(1), of cs] assms(3,4) t by simp
  show "evaluateStrategyExitAt spec (take n cs) i = evaluateStrategyExitAt spec cs i"
    unfolding evaluateStrategyExitAt_def
    using tree_prefix [OF c(2), of "take n cs"] tree_prefix [OF c(2), of cs] assms(3,4) t by simp
qed

lemma spotLoop_take:
  assumes "adx_free (v1_entry spec)" "adx_free (v1_exit spec)" "n \<le> length cs"
  shows "spotLoop spec o' (take n cs) n = spotLoop spec o' cs n"
  unfolding spotLoop_def
proof (rule efold_cong)
  fix i s assume "i \<in> set [1..<n]"
  then have i: "i < n" by simp
  note e = evaluate_take [OF assms(1,2) i assms(3)]
  have c: "take n cs ! i = cs ! i" using i by simp
  have x: "spotExit spec (take n cs) i p = spotExit spec cs i p" for p
    by (simp add: spotExit_def e c Let_def)
  have "spotExitStep spec o' (take n cs) i t = spotExitStep spec o' cs i t" for t
    by (simp add: spotExitStep_def x c split: option.split)
  then show "spotStep spec o' (take n cs) i s = spotStep spec o' cs i s"
    by (simp only: spotStep_def e c)
qed

subsection \<open>The run returns\<close>

definition dated :: "candle \<Rightarrow> bool" where
  "dated c \<longleftrightarrow> to_date (openTime c) \<noteq> None \<and> to_date (closeTime c) \<noteq> None"

lemma iso_or_throw_dated: "d \<noteq> None \<Longrightarrow> returns (iso_or_throw d)"
  by (auto simp: iso_or_throw_def to_iso_def)

lemma spotStep_returns: "dated (cs ! i) \<Longrightarrow> returns (spotStep spec o' cs i s)"
  using iso_or_throw_dated [of "to_date (openTime (cs ! i))"]
  by (auto simp: spotStep_def day_of_def dated_def Let_def returns_iff split: prod.split)

lemma spotRun_returns:
  assumes "normalizeBacktestDsl fromBrief raw = Inr spec" "normalizeBacktestOptions input = Inr o'"
    and "200 \<le> length cs" "list_all candle_finite cs" "list_all dated cs"
  shows "returns (runBacktestOnCandles fromBrief raw cs input)"
proof -
  have ne: "cs \<noteq> []" using assms(3) by auto
  have d: "dated c" if "c \<in> set cs" for c using that assms(5) by (simp add: list_all_iff)
  have "returns (spotLoop spec o' cs (length cs))"
    unfolding spotLoop_def by (rule efold_returns) (auto intro!: spotStep_returns d)
  then obtain s where "spotFinal spec o' cs = Inr s" by (auto simp: returns_iff spotFinal_def)
  moreover have "validateCandles cs = Inr ()"
    using assms(3,4) by (auto simp: validateCandles_def list_ex_iff list_all_iff)
  moreover have "returns (iso_or_throw (to_date (openTime (hd cs))))"
    "returns (iso_or_throw (to_date (closeTime (last cs))))"
    using d [of "hd cs"] d [of "last cs"] ne by (auto simp: dated_def intro!: iso_or_throw_dated)
  ultimately show ?thesis using assms(1,2) by (auto simp: runBacktestOnCandles_def returns_iff)
qed

lemma normalizeBacktestDsl_v1: "v1_ok d \<Longrightarrow> normalizeBacktestDsl fromBrief (v1_json d) = Inr d"
  using v1_json_read [of d] by (simp add: normalizeBacktestDsl_def v1_json_def)

definition default_options :: backtest_options_input where
  "default_options = \<lparr>bi_preset = JUndef, bi_feeRate = JUndef, bi_slippageRate = JUndef,
     bi_initialEquityUsdt = JUndef, bi_candleLimit = JUndef, bi_maintenanceMarginRate = JUndef\<rparr>"

lemma default_options_ok:
  "N 1000 \<le> m \<Longrightarrow> returns (normalizeBacktestOptionsWithCandleMaximum default_options m)"
proof -
  assume m: "N 1000 \<le> m"
  have b: "lit (1 / 1000) \<le> lit (1 / 100)" "lit (5 / 10000) \<le> lit (2 / 100)" by (simp_all add: js_of_mono)
  have z: "N 0 \<le> lit (1 / 1000)" "N 0 \<le> lit (5 / 10000)" by (simp_all add: js_of_nonneg)
  have f: "is_finite (lit (1 / 1000))" "is_finite (lit (5 / 10000))"
    using js_of_le_exact [of "1 / 1000" 1] js_of_le_exact [of "5 / 10000" 1] z is_double_of_int [of 1]
    by (auto dest!: js_between_finite)
  show ?thesis
    using b z f m
    by (simp add: normalizeBacktestOptionsWithCandleMaximum_def default_options_def
        boundedBacktestNumber_def js_not_less returns_iff)
qed

definition flat_candles :: "nat \<Rightarrow> candle list" where
  "flat_candles n = replicate n (sample_candle 100)"

lemma flat_candles_ok: "list_all candle_finite (flat_candles n)" "list_all dated (flat_candles n)"
  by (simp_all add: flat_candles_def list_all_iff candle_finite_def dated_def sample_candle_def max_time_def)

subsection \<open>Properties\<close>

text \<open>Once the drawdown limit or the limit of losses in a row has halted a spot run, it stays
halted and opens nothing on any later candle.\<close>

theorem halted_opens_nothing:
  assumes "efold (spotStep spec o' cs) idx s = Inr s'" "ss_drawdownHalted s \<or> ss_consecutiveLossHalted s"
  shows "(ss_drawdownHalted s' \<or> ss_consecutiveLossHalted s') \<and> opened s' = opened s"
  using spot.run_stopped [OF assms(1)] assms(2) by (simp add: halted_def)

theorem halted_opens_nothing_witness:
  "opened (spot_start (N 100)\<lparr>ss_drawdownHalted := True\<rparr>) = 0"
proof -
  have "efold (spotStep spec o' cs) [] (spot_start (N 100)\<lparr>ss_drawdownHalted := True\<rparr>)
      = Inr (spot_start (N 100)\<lparr>ss_drawdownHalted := True\<rparr>)" for spec o' cs by simp
  from halted_opens_nothing [OF this] show ?thesis by (simp add: opened_def spot_start_def)
qed

text \<open>A spot run returns a result for every accepted specification and options and every series
of at least 200 finite candles whose times are dates.\<close>

theorem spot_run_returns:
  assumes "normalizeBacktestDsl fromBrief raw = Inr spec" "normalizeBacktestOptions input = Inr o'"
    and "200 \<le> length cs" "list_all candle_finite cs" "list_all dated cs"
  shows "\<exists>res. runBacktestOnCandles fromBrief raw cs input = Inr res"
  using spotRun_returns [OF assms] by (simp add: returns_iff)

theorem spot_run_returns_witness:
  "\<exists>res. runBacktestOnCandles (\<lambda>_. Inl ''BRIEF'') (v1_json sample_v1) (flat_candles 200) default_options = Inr res"
proof -
  obtain o' where "normalizeBacktestOptions default_options = Inr o'"
    using default_options_ok [of "N 1000"] by (auto simp: returns_iff normalizeBacktestOptions_def)
  from spot_run_returns [OF normalizeBacktestDsl_v1 [OF sample_v1_ok] this _ flat_candles_ok]
  show ?thesis by (simp add: flat_candles_def)
qed

text \<open>A spot run ends flat: every position it opened is in the list of its trades, and the result
reports exactly those trades.\<close>

theorem spot_run_ends_flat:
  assumes "runBacktestOnCandles fromBrief raw cs input = Inr res"
  shows "\<exists>spec o' s. normalizeBacktestDsl fromBrief raw = Inr spec \<and> normalizeBacktestOptions input = Inr o'
    \<and> spotFinal spec o' cs = Inr s \<and> ss_position s = None \<and> opened s = br_sampleSize res
    \<and> br_trades res = ss_trades s \<and> br_candleCount res = length cs \<and> 200 \<le> length cs"
proof -
  obtain spec o' s p q where r: "normalizeBacktestDsl fromBrief raw = Inr spec" "validateCandles cs = Inr ()"
      "normalizeBacktestOptions input = Inr o'" "spotFinal spec o' cs = Inr s" "res = spotResult spec o' cs s p q"
    using assms by (auto simp: runBacktestOnCandles_def ebind_Inr_iff)
  have "200 \<le> length cs" using r(2) by (auto simp: validateCandles_def split: if_splits)
  moreover have "ss_position s = None" using r(4) by (rule spotFinal_flat)
  ultimately show ?thesis using r by (auto simp: opened_def spotResult_def Let_def)
qed

theorem spot_run_ends_flat_witness:
  "\<exists>res. runBacktestOnCandles (\<lambda>_. Inl ''BRIEF'') (v1_json sample_v1) (flat_candles 200) default_options = Inr res
     \<and> br_candleCount res = 200"
proof -
  obtain o' where "normalizeBacktestOptions default_options = Inr o'"
    using default_options_ok [of "N 1000"] by (auto simp: returns_iff normalizeBacktestOptions_def)
  from spotRun_returns [OF normalizeBacktestDsl_v1 [OF sample_v1_ok] this _ flat_candles_ok, of 200]
  obtain res where r: "runBacktestOnCandles (\<lambda>_. Inl ''BRIEF'') (v1_json sample_v1) (flat_candles 200)
      default_options = Inr res" by (auto simp: returns_iff flat_candles_def)
  from spot_run_ends_flat [OF r] r show ?thesis by (auto simp: flat_candles_def)
qed

text \<open>The spot run is causal: what it has done after the first candles does not depend on the
candles that follow (for rules without the ADX's warm-up exception).\<close>

theorem spot_run_causal:
  assumes "adx_free (v1_entry spec)" "adx_free (v1_exit spec)" "n \<le> length cs" "n \<le> length cs'"
    and "take n cs = take n cs'"
  shows "spotLoop spec o' cs n = spotLoop spec o' cs' n"
  using spotLoop_take [OF assms(1-3)] spotLoop_take [OF assms(1,2,4)] assms(5) by metis

theorem spot_run_causal_witness:
  "\<forall>o'. spotLoop sample_v1 o' [sample_candle 1, sample_candle 2] 2
     = spotLoop sample_v1 o' [sample_candle 1, sample_candle 2, sample_candle 9] 2"
  by (intro allI spot_run_causal) (simp_all add: sample_v1_def adx_free_def numeral_2_eq_2)

end
