(* ===== verification/PerpetualBacktest.thy ===== *)
theory PerpetualBacktest
  imports Backtest
begin

text \<open>
  The perpetual backtest (\<open>runPerpetualBacktestOnCandles\<close> of \<open>packages/domain/src/backtest-engine.ts\<close>):
  long and short legs on isolated margin, historical funding, stops, targets and simulated liquidation.
  A signal at the close of a candle is executed at the open of the next one.
\<close>

subsection \<open>Inputs\<close>

record historical_funding_rate =
  fr_time :: jsnum
  fr_rate :: jsnum

text \<open>\<open>byTime.set\<close>: a later rate of the same time takes the place of the earlier one. The key NaN is
excluded before.\<close>

fun setByTime :: "historical_funding_rate \<Rightarrow> historical_funding_rate list \<Rightarrow> historical_funding_rate list" where
  "setByTime r [] = [r]"
| "setByTime r (x # xs) = (if fr_time x = fr_time r then r # xs else x # setByTime r xs)"

definition addFundingRate ::
    "historical_funding_rate \<Rightarrow> historical_funding_rate list \<Rightarrow> (string, historical_funding_rate list) result" where
  "addFundingRate r byTime =
     (if \<not> is_finite (fr_time r) \<or> \<not> is_finite (fr_rate r) \<or> lit (1 / 10) < \<bar>fr_rate r\<bar>
      then Inl ''INVALID_FUNDING_RATE'' else Inr (setByTime r byTime))"

definition rat_of :: "jsnum \<Rightarrow> rat" where
  "rat_of x = (case x of N a \<Rightarrow> a | _ \<Rightarrow> 0)"

definition normalizeFundingRates ::
    "historical_funding_rate list \<Rightarrow> (string, historical_funding_rate list) result" where
  "normalizeFundingRates input =
     ebind (efold addFundingRate input []) (\<lambda>byTime. Inr (sort_key (\<lambda>r. rat_of (fr_time r)) byTime))"

definition positive_prices :: "candle \<Rightarrow> bool" where
  "positive_prices c \<longleftrightarrow> \<not> (cd_open c \<le> N 0 \<or> cd_high c \<le> N 0 \<or> cd_low c \<le> N 0 \<or> cd_close c \<le> N 0)"

definition ordered_prices :: "candle \<Rightarrow> bool" where
  "ordered_prices c \<longleftrightarrow> \<not> (cd_high c < js_max (cd_open c) (cd_close c) \<or> js_min (cd_open c) (cd_close c) < cd_low c)"

definition checkPerpetualCandle :: "candle list \<Rightarrow> nat \<Rightarrow> (string, unit) result" where
  "checkPerpetualCandle cs i =
     (if \<not> positive_prices (cs ! i) then Inl ''CANDLE_PRICE''
      else if \<not> ordered_prices (cs ! i) then Inl ''CANDLE_RANGE''
      else if 0 < i \<and> openTime (cs ! i) \<le> openTime (cs ! (i - 1)) then Inl ''CANDLE_TIME''
      else Inr ())"

definition validatePerpetualCandles :: "candle list \<Rightarrow> (string, unit) result" where
  "validatePerpetualCandles cs = ebind (validateCandles cs) (\<lambda>_.
     efold (\<lambda>i _. checkPerpetualCandle cs i) [0..<length cs] ())"

definition maintenanceMarginRateOf :: "backtest_options_input \<Rightarrow> (string, jsnum) result" where
  "maintenanceMarginRateOf input = boundedBacktestNumber (bi_maintenanceMarginRate input)
     (lit (5 / 1000)) (lit (1 / 1000)) (lit (5 / 100)) ''maintenanceMarginRate'' False"

subsection \<open>State\<close>

record perpetual_position =
  pp_side :: position_dir
  pp_entryPrice :: jsnum
  pp_openedAt :: jsnum
  pp_notional :: jsnum
  pp_quantity :: jsnum
  pp_entryFee :: jsnum
  pp_fundingUsdt :: jsnum

record perpetual_state =
  ps_equity :: jsnum
  ps_peak :: jsnum
  ps_maxDrawdownPct :: jsnum
  ps_feesUsdt :: jsnum
  ps_fundingUsdt :: jsnum
  ps_slippageUsdt :: jsnum
  ps_position :: "perpetual_position option"
  ps_pendingEntry :: "position_dir option"
  ps_pendingExit :: bool
  ps_consecutiveLosses :: nat
  ps_drawdownHalted :: bool
  ps_consecutiveLossHalted :: bool
  ps_dailyLossHalted :: bool
  ps_currentDay :: string
  ps_dayStartEquity :: jsnum
  ps_liquidated :: bool
  ps_conflictingSignals :: nat
  ps_fundingIndex :: nat
  ps_trades :: "completed_trade list"

text \<open>What does not change during a run.\<close>

record perpetual_env =
  pe_spec :: strategy_dsl_v3
  pe_options :: backtest_options
  pe_maintenanceMarginRate :: jsnum
  pe_candles :: "candle list"
  pe_fundingRates :: "historical_funding_rate list"

definition perpetual_start :: "jsnum \<Rightarrow> perpetual_state" where
  "perpetual_start initial = \<lparr>ps_equity = initial, ps_peak = initial, ps_maxDrawdownPct = N 0, ps_feesUsdt = N 0,
     ps_fundingUsdt = N 0, ps_slippageUsdt = N 0, ps_position = None, ps_pendingEntry = None,
     ps_pendingExit = False, ps_consecutiveLosses = 0, ps_drawdownHalted = False,
     ps_consecutiveLossHalted = False, ps_dailyLossHalted = False, ps_currentDay = [],
     ps_dayStartEquity = initial, ps_liquidated = False, ps_conflictingSignals = 0, ps_fundingIndex = 0,
     ps_trades = []\<rparr>"

subsection \<open>Operations\<close>

definition perpUpdateDrawdown :: "perpetual_env \<Rightarrow> perpetual_state \<Rightarrow> perpetual_state" where
  "perpUpdateDrawdown e s = (let peak = js_max (ps_peak s) (ps_equity s);
     dd = js_max (ps_maxDrawdownPct s) (if N 0 < peak then (peak - ps_equity s) / peak * N 100 else N 0)
     in s\<lparr>ps_peak := peak, ps_maxDrawdownPct := dd,
          ps_drawdownHalted := ps_drawdownHalted s \<or> pd_maxDrawdownPct (pe_spec e) \<le> dd\<rparr>)"

definition perpOpenPosition :: "perpetual_env \<Rightarrow> position_dir \<Rightarrow> candle \<Rightarrow> perpetual_state \<Rightarrow> perpetual_state" where
  "perpOpenPosition e sd c s = (let slip = bo_slippageRate (pe_options e);
     notional = ps_equity s * pd_positionSizePct (pe_spec e) / N 100;
     entryPrice = cd_open c * (case sd of LongPosition \<Rightarrow> N 1 + slip | ShortPosition \<Rightarrow> N 1 - slip);
     entryFee = notional * bo_feeRate (pe_options e)
     in perpUpdateDrawdown e (s\<lparr>ps_feesUsdt := ps_feesUsdt s + entryFee,
          ps_slippageUsdt := ps_slippageUsdt s + \<bar>entryPrice - cd_open c\<bar> * (notional / entryPrice),
          ps_equity := ps_equity s - entryFee,
          ps_position := Some \<lparr>pp_side = sd, pp_entryPrice = entryPrice, pp_openedAt = openTime c,
            pp_notional = notional, pp_quantity = notional / entryPrice, pp_entryFee = entryFee,
            pp_fundingUsdt = N 0\<rparr>\<rparr>))"

text \<open>The amount a close realises; a liquidation loses at most the isolated margin.\<close>

definition realized_of :: "perpetual_env \<Rightarrow> jsnum \<Rightarrow> bool \<Rightarrow> perpetual_position \<Rightarrow> jsnum" where
  "realized_of e uncapped cap p =
     (if cap then js_max uncapped (- pp_notional p * (N 1 - pe_maintenanceMarginRate e)) else uncapped)"

definition perp_trade ::
    "perpetual_env \<Rightarrow> jsnum \<Rightarrow> jsnum \<Rightarrow> trade_reason \<Rightarrow> bool \<Rightarrow> perpetual_position \<Rightarrow> completed_trade \<times> jsnum" where
  "perp_trade e rawPrice closedAt reason cap p = (let slip = bo_slippageRate (pe_options e);
     exitPrice = rawPrice * (case pp_side p of LongPosition \<Rightarrow> N 1 - slip | ShortPosition \<Rightarrow> N 1 + slip);
     exitFee = pp_quantity p * exitPrice * bo_feeRate (pe_options e);
     grossPnl = (case pp_side p of LongPosition \<Rightarrow> pp_quantity p * (exitPrice - pp_entryPrice p)
       | ShortPosition \<Rightarrow> pp_quantity p * (pp_entryPrice p - exitPrice));
     realized = realized_of e (grossPnl - exitFee) cap p;
     netPnl = realized - pp_entryFee p + pp_fundingUsdt p
     in (\<lparr>ct_openedAt = pp_openedAt p, ct_closedAt = closedAt, ct_entryPrice = pp_entryPrice p,
         ct_exitPrice = exitPrice, ct_netPnl = netPnl,
         ct_returnPct = (if truthy (pp_notional p) then netPnl / pp_notional p * N 100 else N 0),
         ct_reason = reason, ct_side = Some (pp_side p), ct_grossPnl = Some grossPnl,
         ct_feesUsdt = Some (pp_entryFee p + exitFee), ct_fundingUsdt = Some (pp_fundingUsdt p)\<rparr>, realized))"

definition perpClosePosition ::
    "perpetual_env \<Rightarrow> jsnum \<Rightarrow> jsnum \<Rightarrow> trade_reason \<Rightarrow> bool \<Rightarrow> perpetual_state \<Rightarrow> perpetual_state" where
  "perpClosePosition e rawPrice closedAt reason cap s = (case ps_position s of
     None \<Rightarrow> s
   | Some p \<Rightarrow>
     let (trade, realized) = perp_trade e rawPrice closedAt reason cap p;
         exitFee = pp_quantity p * ct_exitPrice trade * bo_feeRate (pe_options e);
         losses = (if ct_netPnl trade < N 0 then ps_consecutiveLosses s + 1 else 0)
     in perpUpdateDrawdown e (s\<lparr>ps_equity := ps_equity s + realized,
          ps_feesUsdt := ps_feesUsdt s + exitFee,
          ps_slippageUsdt := ps_slippageUsdt s + \<bar>ct_exitPrice trade - rawPrice\<bar> * pp_quantity p,
          ps_trades := ps_trades s @ [trade], ps_consecutiveLosses := losses,
          ps_consecutiveLossHalted := ps_consecutiveLossHalted s
            \<or> pd_maxConsecutiveLosses (pe_spec e) \<le> cnt losses,
          ps_position := None, ps_pendingExit := False\<rparr>))"

definition funding_due :: "candle \<Rightarrow> historical_funding_rate \<Rightarrow> perpetual_position \<Rightarrow> bool" where
  "funding_due c f p \<longleftrightarrow> pp_openedAt p < fr_time f \<and> openTime c \<le> fr_time f"

definition payFunding :: "perpetual_env \<Rightarrow> candle \<Rightarrow> historical_funding_rate \<Rightarrow> perpetual_state \<Rightarrow> perpetual_state" where
  "payFunding e c f s = (case ps_position s of
     None \<Rightarrow> s
   | Some p \<Rightarrow> if funding_due c f p then
       let cashFlow = pp_notional p * fr_rate f * (case pp_side p of ShortPosition \<Rightarrow> N 1 | LongPosition \<Rightarrow> - N 1)
       in perpUpdateDrawdown e (s\<lparr>ps_position := Some (p\<lparr>pp_fundingUsdt := pp_fundingUsdt p + cashFlow\<rparr>),
            ps_fundingUsdt := ps_fundingUsdt s + cashFlow, ps_equity := ps_equity s + cashFlow\<rparr>)
     else s)"

function applyFunding :: "perpetual_env \<Rightarrow> candle \<Rightarrow> perpetual_state \<Rightarrow> perpetual_state" where
  "applyFunding e c s =
     (if ps_fundingIndex s < length (pe_fundingRates e)
         \<and> fr_time (pe_fundingRates e ! ps_fundingIndex s) \<le> closeTime c
      then applyFunding e c ((payFunding e c (pe_fundingRates e ! ps_fundingIndex s) s)
             \<lparr>ps_fundingIndex := ps_fundingIndex s + 1\<rparr>)
      else s)"
  by pat_completeness auto
termination
  by (relation "measure (\<lambda>(e, c, s). length (pe_fundingRates e) - ps_fundingIndex s)") auto

declare applyFunding.simps [simp del]

text \<open>
  The risk exit of a candle: the price, the time and the reason of the close, if there is one. The
  order of the tests is the source's: a gap through the liquidation price, the stop, the target,
  and last the liquidation price within the candle.
\<close>

definition leg_of :: "strategy_dsl_v3 \<Rightarrow> position_dir \<Rightarrow> strategy_leg_v3 option" where
  "leg_of spec sd = (case sd of LongPosition \<Rightarrow> pd_long spec | ShortPosition \<Rightarrow> pd_short spec)"

definition liquidationPrice :: "perpetual_env \<Rightarrow> perpetual_position \<Rightarrow> jsnum" where
  "liquidationPrice e p = (case pp_side p of LongPosition \<Rightarrow> pp_entryPrice p * pe_maintenanceMarginRate e
     | ShortPosition \<Rightarrow> pp_entryPrice p * (N 2 - pe_maintenanceMarginRate e))"

definition stopPrice :: "strategy_leg_v3 \<Rightarrow> perpetual_position \<Rightarrow> jsnum" where
  "stopPrice leg p = (case pp_side p of LongPosition \<Rightarrow> pp_entryPrice p * (N 1 - leg_stopLossPct leg / N 100)
     | ShortPosition \<Rightarrow> pp_entryPrice p * (N 1 + leg_stopLossPct leg / N 100))"

definition takePrice :: "strategy_leg_v3 \<Rightarrow> perpetual_position \<Rightarrow> jsnum" where
  "takePrice leg p = (case pp_side p of LongPosition \<Rightarrow> pp_entryPrice p * (N 1 + leg_takeProfitPct leg / N 100)
     | ShortPosition \<Rightarrow> pp_entryPrice p * (N 1 - leg_takeProfitPct leg / N 100))"

text \<open>\<open>reached sd x limit\<close>: the price \<open>x\<close> has reached the limit on the side of the position's loss.\<close>

definition reached :: "position_dir \<Rightarrow> jsnum \<Rightarrow> jsnum \<Rightarrow> bool" where
  "reached sd x limit = (case sd of LongPosition \<Rightarrow> x \<le> limit | ShortPosition \<Rightarrow> limit \<le> x)"

definition adverse :: "position_dir \<Rightarrow> candle \<Rightarrow> jsnum" where
  "adverse sd c = (case sd of LongPosition \<Rightarrow> cd_low c | ShortPosition \<Rightarrow> cd_high c)"

definition targetReached :: "position_dir \<Rightarrow> candle \<Rightarrow> jsnum \<Rightarrow> bool" where
  "targetReached sd c limit = (case sd of LongPosition \<Rightarrow> limit \<le> cd_high c | ShortPosition \<Rightarrow> cd_low c \<le> limit)"

definition riskDecision ::
    "perpetual_env \<Rightarrow> candle \<Rightarrow> strategy_leg_v3 \<Rightarrow> perpetual_position \<Rightarrow> (jsnum \<times> jsnum \<times> trade_reason) option" where
  "riskDecision e c leg p = (let liq = liquidationPrice e p; sd = pp_side p in
     if reached sd (cd_open c) liq then Some (cd_open c, openTime c, Liquidation)
     else if reached sd (adverse sd c) (stopPrice leg p) then Some (stopPrice leg p, closeTime c, StopLoss)
     else if targetReached sd c (takePrice leg p) then Some (takePrice leg p, closeTime c, TakeProfit)
     else if reached sd (adverse sd c) liq then Some (liq, closeTime c, Liquidation)
     else None)"

text \<open>A position of a leg that the specification does not have would read a field of \<open>undefined\<close>.\<close>

definition riskExit ::
    "perpetual_env \<Rightarrow> candle \<Rightarrow> perpetual_state \<Rightarrow> (string, perpetual_state \<times> bool) result" where
  "riskExit e c s = (case ps_position s of
     None \<Rightarrow> Inr (s, False)
   | Some p \<Rightarrow> (case leg_of (pe_spec e) (pp_side p) of
       None \<Rightarrow>
         if reached (pp_side p) (cd_open c) (liquidationPrice e p)
         then Inr ((perpClosePosition e (cd_open c) (openTime c) Liquidation True s)\<lparr>ps_liquidated := True\<rparr>, True)
         else Inl ''TypeError''
     | Some leg \<Rightarrow> (case riskDecision e c leg p of
         None \<Rightarrow> Inr (s, False)
       | Some (price, tm, Liquidation) \<Rightarrow>
           Inr ((perpClosePosition e price tm Liquidation True s)\<lparr>ps_liquidated := True\<rparr>, True)
       | Some (price, tm, reason) \<Rightarrow> Inr (perpClosePosition e price tm reason False s, True))))"

subsection \<open>The loop\<close>

definition perpBeginDay :: "string \<Rightarrow> perpetual_state \<Rightarrow> perpetual_state" where
  "perpBeginDay day s = (if day \<noteq> ps_currentDay s
     then s\<lparr>ps_currentDay := day, ps_dayStartEquity := ps_equity s, ps_dailyLossHalted := False\<rparr> else s)"

definition perpEntriesAllowed :: "perpetual_state \<Rightarrow> bool" where
  "perpEntriesAllowed s \<longleftrightarrow> \<not> ps_drawdownHalted s \<and> \<not> ps_consecutiveLossHalted s
     \<and> \<not> ps_dailyLossHalted s \<and> \<not> ps_liquidated s"

definition executeExit :: "perpetual_env \<Rightarrow> candle \<Rightarrow> perpetual_state \<Rightarrow> perpetual_state \<times> bool" where
  "executeExit e c s = (if ps_position s \<noteq> None \<and> ps_pendingExit s
     then (perpClosePosition e (cd_open c) (openTime c) DslExit False s, True) else (s, False))"

definition executeEntry :: "perpetual_env \<Rightarrow> candle \<Rightarrow> bool \<Rightarrow> perpetual_state \<Rightarrow> perpetual_state" where
  "executeEntry e c shut s = (let t = (case ps_pendingEntry s of
       Some sd \<Rightarrow> if ps_position s = None \<and> \<not> shut \<and> perpEntriesAllowed s
         then perpOpenPosition e sd c s else s
     | None \<Rightarrow> s) in t\<lparr>ps_pendingEntry := None\<rparr>)"

definition perpCheckDailyLoss :: "perpetual_env \<Rightarrow> perpetual_state \<Rightarrow> perpetual_state" where
  "perpCheckDailyLoss e s = (let dailyLossPct = (if N 0 < ps_dayStartEquity s
       then (ps_dayStartEquity s - ps_equity s) / ps_dayStartEquity s * N 100 else N 0)
     in if pd_maxDailyLossPct (pe_spec e) \<le> dailyLossPct then s\<lparr>ps_dailyLossHalted := True\<rparr> else s)"

definition legEntryAt :: "strategy_leg_v3 option \<Rightarrow> candle list \<Rightarrow> nat \<Rightarrow> bool" where
  "legEntryAt leg cs i = (case leg of None \<Rightarrow> False | Some l \<Rightarrow> entryAt l cs i)"

definition legExitAt :: "strategy_leg_v3 option \<Rightarrow> candle list \<Rightarrow> nat \<Rightarrow> bool" where
  "legExitAt leg cs i = (case leg of None \<Rightarrow> False | Some l \<Rightarrow> exitAt l cs i)"

definition readSignals :: "perpetual_env \<Rightarrow> nat \<Rightarrow> bool \<Rightarrow> perpetual_state \<Rightarrow> perpetual_state" where
  "readSignals e i shut s = (case ps_position s of
     Some p \<Rightarrow> if legExitAt (leg_of (pe_spec e) (pp_side p)) (pe_candles e) i then s\<lparr>ps_pendingExit := True\<rparr> else s
   | None \<Rightarrow> if \<not> shut \<and> perpEntriesAllowed s then
       let longSignal = legEntryAt (pd_long (pe_spec e)) (pe_candles e) i;
           shortSignal = legEntryAt (pd_short (pe_spec e)) (pe_candles e) i
       in if longSignal \<and> shortSignal then s\<lparr>ps_conflictingSignals := ps_conflictingSignals s + 1\<rparr>
          else if longSignal then s\<lparr>ps_pendingEntry := Some LongPosition\<rparr>
          else if shortSignal then s\<lparr>ps_pendingEntry := Some ShortPosition\<rparr> else s
     else s)"

definition perpStep :: "perpetual_env \<Rightarrow> nat \<Rightarrow> perpetual_state \<Rightarrow> (string, perpetual_state) result" where
  "perpStep e i s = (let c = pe_candles e ! i in
     ebind (day_of (openTime c)) (\<lambda>day.
     let (s1, shut) = executeExit e c (perpBeginDay day s);
         s2 = applyFunding e c (executeEntry e c shut s1) in
     ebind (riskExit e c s2) (\<lambda>(s3, exited).
       Inr (readSignals e i (shut \<or> exited) (perpCheckDailyLoss e s3)))))"

definition perpLoop :: "perpetual_env \<Rightarrow> nat \<Rightarrow> (string, perpetual_state) result" where
  "perpLoop e n = efold (perpStep e) [1..<n] (perpetual_start (bo_initialEquityUsdt (pe_options e)))"

definition perpFinal :: "perpetual_env \<Rightarrow> (string, perpetual_state) result" where
  "perpFinal e = ebind (perpLoop e (length (pe_candles e))) (\<lambda>s. let last' = last (pe_candles e) in
     Inr (if ps_position s \<noteq> None then perpClosePosition e (cd_close last') (closeTime last') PeriodEnd False s else s))"

definition perpWarnings :: "perpetual_state \<Rightarrow> string list" where
  "perpWarnings s = (if length (ps_trades s) < 20 then [''FEW_TRADES''] else [])
     @ (if ps_drawdownHalted s then [''DRAWDOWN_HALTED''] else [])
     @ (if ps_consecutiveLossHalted s then [''CONSECUTIVE_LOSS_HALTED''] else [])
     @ (if ps_dailyLossHalted s then [''DAILY_LOSS_HALTED''] else [])
     @ (if ps_liquidated s then [''LIQUIDATED''] else [])
     @ (if ps_conflictingSignals s \<noteq> 0 then [''CONFLICTING_SIGNALS''] else [])"

definition perpResult :: "perpetual_env \<Rightarrow> perpetual_state \<Rightarrow> string \<Rightarrow> string \<Rightarrow> backtest_result" where
  "perpResult e s period_start period_end = (let initial = bo_initialEquityUsdt (pe_options e) in
     \<lparr>br_symbol = pd_symbol (pe_spec e), br_interval = pd_timeframe (pe_spec e),
     br_periodStart = period_start, br_periodEnd = period_end, br_candleCount = length (pe_candles e),
     br_sampleSize = length (ps_trades s),
     br_netReturnPct = js_fixed 4 ((ps_equity s - initial) / initial * N 100),
     br_maxDrawdownPct = js_fixed 4 (ps_maxDrawdownPct s), br_winRatePct = winRatePct (ps_trades s),
     br_profitFactor = profitFactor (ps_trades s), br_feesUsdt = js_fixed 4 (ps_feesUsdt s),
     br_fundingUsdt = js_fixed 4 (ps_fundingUsdt s), br_slippageUsdt = js_fixed 4 (ps_slippageUsdt s),
     br_liquidated = ps_liquidated s, br_finalEquityUsdt = js_fixed 4 (ps_equity s),
     br_warnings = perpWarnings s, br_trades = ps_trades s\<rparr>)"

definition perpetualEnv ::
    "json \<Rightarrow> candle list \<Rightarrow> historical_funding_rate list \<Rightarrow> backtest_options_input \<Rightarrow> (string, perpetual_env) result" where
  "perpetualEnv raw cs funding input =
     ebind (normalizeResearchStrategyDsl raw) (\<lambda>stored.
     ebind (strategyDslToRuntime (research_json stored)) (\<lambda>spec.
     ebind (validatePerpetualCandles cs) (\<lambda>_.
     ebind (normalizeFundingRates funding) (\<lambda>rates.
     ebind (normalizePerpetualBacktestOptions input) (\<lambda>o'.
     ebind (maintenanceMarginRateOf input) (\<lambda>mmr.
       Inr \<lparr>pe_spec = spec, pe_options = o', pe_maintenanceMarginRate = mmr, pe_candles = cs,
         pe_fundingRates = rates\<rparr>))))))"

definition runPerpetualBacktestOnCandles ::
    "json \<Rightarrow> candle list \<Rightarrow> historical_funding_rate list \<Rightarrow> backtest_options_input
     \<Rightarrow> (string, backtest_result) result" where
  "runPerpetualBacktestOnCandles raw cs funding input =
     ebind (perpetualEnv raw cs funding input) (\<lambda>e.
     ebind (perpFinal e) (\<lambda>s.
     ebind (iso_or_throw (to_date (openTime (hd cs)))) (\<lambda>period_start.
     ebind (iso_or_throw (to_date (closeTime (last cs)))) (\<lambda>period_end.
       Inr (perpResult e s period_start period_end)))))"

subsection \<open>What the operations keep\<close>

definition perpOpened :: "perpetual_state \<Rightarrow> nat" where
  "perpOpened s = length (ps_trades s) + (if ps_position s = None then 0 else 1)"

definition perpHalted :: "perpetual_state \<Rightarrow> bool" where
  "perpHalted s \<longleftrightarrow> ps_drawdownHalted s \<or> ps_consecutiveLossHalted s \<or> ps_liquidated s"

text \<open>The steps that open nothing: they keep the count and the pending entry, never lift a halt, and
the position after them, if any, is on the side of the one before.\<close>

definition keeps :: "perpetual_state \<Rightarrow> perpetual_state \<Rightarrow> bool" where
  "keeps s t \<longleftrightarrow> perpOpened t = perpOpened s \<and> ps_pendingEntry t = ps_pendingEntry s
     \<and> (perpHalted s \<longrightarrow> perpHalted t)
     \<and> (ps_position t = None \<or> map_option pp_side (ps_position t) = map_option pp_side (ps_position s))"

lemma keeps_refl [simp, intro]: "keeps s s"
  by (simp add: keeps_def)

lemma keeps_trans [trans]: "keeps s t \<Longrightarrow> keeps t u \<Longrightarrow> keeps s u"
  by (auto simp: keeps_def)

lemma perpUpdateDrawdown_keeps [simp]:
  "ps_position (perpUpdateDrawdown e s) = ps_position s" "ps_trades (perpUpdateDrawdown e s) = ps_trades s"
  "ps_pendingEntry (perpUpdateDrawdown e s) = ps_pendingEntry s"
  "ps_liquidated (perpUpdateDrawdown e s) = ps_liquidated s"
  "ps_consecutiveLossHalted (perpUpdateDrawdown e s) = ps_consecutiveLossHalted s"
  "ps_fundingIndex (perpUpdateDrawdown e s) = ps_fundingIndex s"
  by (simp_all add: perpUpdateDrawdown_def Let_def)

lemma perpUpdateDrawdown_halted: "ps_drawdownHalted s \<Longrightarrow> ps_drawdownHalted (perpUpdateDrawdown e s)"
  by (simp add: perpUpdateDrawdown_def Let_def)

lemma perpClosePosition_facts:
  assumes "ps_position s = Some p"
  shows "ps_position (perpClosePosition e price tm reason cap s) = None"
    "ps_trades (perpClosePosition e price tm reason cap s) = ps_trades s @ [fst (perp_trade e price tm reason cap p)]"
    "keeps s (perpClosePosition e price tm reason cap s)"
  using assms
  by (simp_all add: perpClosePosition_def Let_def keeps_def perpOpened_def perpHalted_def split: prod.split)
    (auto intro: perpUpdateDrawdown_halted)

lemma payFunding_keeps: "keeps s (payFunding e c f s)"
  by (auto simp: payFunding_def Let_def keeps_def perpOpened_def perpHalted_def
      intro: perpUpdateDrawdown_halted split: option.split)

lemma keeps_index [simp]: "keeps s (t\<lparr>ps_fundingIndex := k\<rparr>) = keeps s t"
  by (simp add: keeps_def perpOpened_def perpHalted_def)

lemma applyFunding_keeps: "keeps s (applyFunding e c s)"
proof (induction e c s rule: applyFunding.induct)
  case (1 e c s)
  show ?case
  proof (cases "ps_fundingIndex s < length (pe_fundingRates e)
      \<and> fr_time (pe_fundingRates e ! ps_fundingIndex s) \<le> closeTime c")
    case True
    have "keeps s ((payFunding e c (pe_fundingRates e ! ps_fundingIndex s) s)\<lparr>ps_fundingIndex := ps_fundingIndex s + 1\<rparr>)"
      by (simp add: payFunding_keeps)
    also have "keeps \<dots> (applyFunding e c \<dots>)" using "1.IH" [OF True] .
    finally show ?thesis using True by (simp add: applyFunding.simps [of e c s])
  next
    case False
    then have "applyFunding e c s = s" by (subst applyFunding.simps) (simp only: if_False)
    then show ?thesis by simp
  qed
qed

lemma perpBeginDay_keeps: "keeps s (perpBeginDay day s)"
  by (simp add: perpBeginDay_def keeps_def perpOpened_def perpHalted_def)

lemma perpCheckDailyLoss_keeps: "keeps s (perpCheckDailyLoss e s)"
  by (simp add: perpCheckDailyLoss_def Let_def keeps_def perpOpened_def perpHalted_def)

lemma executeExit_keeps: "keeps s (fst (executeExit e c s))"
  using perpClosePosition_facts(3) by (auto simp: executeExit_def)

lemma liquidate_keeps:
  assumes "ps_position s = Some p"
  shows "keeps s ((perpClosePosition e price tm reason cap s)\<lparr>ps_liquidated := True\<rparr>)"
  using perpClosePosition_facts [OF assms, of e price tm reason cap]
  by (simp add: keeps_def perpOpened_def perpHalted_def)

lemma riskExit_keeps:
  assumes "riskExit e c s = Inr (s', exited)"
  shows "keeps s s'"
proof (cases "ps_position s")
  case None
  then show ?thesis using assms by (simp add: riskExit_def)
next
  case (Some p)
  show ?thesis
    using assms Some perpClosePosition_facts(3) [OF Some] liquidate_keeps [OF Some]
    by (auto simp: riskExit_def split: option.splits if_splits prod.splits trade_reason.splits)
qed

lemma riskExit_returns:
  assumes "\<forall>p. ps_position s = Some p \<longrightarrow> leg_of (pe_spec e) (pp_side p) \<noteq> None"
  shows "returns (riskExit e c s)"
proof (cases "ps_position s")
  case (Some p)
  then obtain leg where "leg_of (pe_spec e) (pp_side p) = Some leg" using assms by blast
  then show ?thesis using Some
    by (auto simp: riskExit_def split: option.split prod.split trade_reason.split)
qed (simp add: riskExit_def)

subsection \<open>Entries\<close>

definition other_dir :: "position_dir \<Rightarrow> position_dir" where
  "other_dir sd = (case sd of LongPosition \<Rightarrow> ShortPosition | ShortPosition \<Rightarrow> LongPosition)"

text \<open>The signal of one side alone at a candle.\<close>

definition sole_signal :: "perpetual_env \<Rightarrow> nat \<Rightarrow> position_dir \<Rightarrow> bool" where
  "sole_signal e i sd \<longleftrightarrow> legEntryAt (leg_of (pe_spec e) sd) (pe_candles e) i
     \<and> \<not> legEntryAt (leg_of (pe_spec e) (other_dir sd)) (pe_candles e) i"

lemma perpOpenPosition_facts:
  "ps_position s = None \<Longrightarrow> perpOpened (perpOpenPosition e sd c s) = Suc (perpOpened s)"
  and perpOpenPosition_side: "map_option pp_side (ps_position (perpOpenPosition e sd c s)) = Some sd"
  by (simp_all add: perpOpenPosition_def Let_def perpOpened_def)

lemma executeEntry_cases:
  obtains (nothing) "ps_position (executeEntry e c shut s) = ps_position s"
      "perpOpened (executeEntry e c shut s) = perpOpened s"
      "perpHalted s \<longrightarrow> perpHalted (executeEntry e c shut s)"
  | (entry) sd where "ps_pendingEntry s = Some sd" "ps_position s = None" "\<not> perpHalted s" "\<not> shut"
      "perpOpened (executeEntry e c shut s) = Suc (perpOpened s)"
      "map_option pp_side (ps_position (executeEntry e c shut s)) = Some sd"
proof (cases "\<exists>sd. ps_pendingEntry s = Some sd \<and> ps_position s = None \<and> \<not> shut \<and> perpEntriesAllowed s")
  case True
  then obtain sd where sd: "ps_pendingEntry s = Some sd" "ps_position s = None" "\<not> shut" "perpEntriesAllowed s"
    by blast
  moreover have "\<not> perpHalted s" using sd by (simp add: perpEntriesAllowed_def perpHalted_def)
  ultimately show thesis
    using perpOpenPosition_facts [of s e sd c] perpOpenPosition_side [of e sd c s]
    by (intro entry [of sd]) (simp_all add: executeEntry_def Let_def perpOpened_def)
next
  case False
  then have eq: "executeEntry e c shut s = s\<lparr>ps_pendingEntry := None\<rparr>"
    by (auto simp: executeEntry_def split: option.split)
  show thesis by (rule nothing) (simp_all add: eq perpOpened_def perpHalted_def)
qed

lemma executeEntry_pending [simp]: "ps_pendingEntry (executeEntry e c shut s) = None"
  by (simp add: executeEntry_def Let_def)

lemma readSignals_facts:
  "ps_position (readSignals e i shut s) = ps_position s" "perpOpened (readSignals e i shut s) = perpOpened s"
  "perpHalted (readSignals e i shut s) = perpHalted s"
  by (auto simp: readSignals_def Let_def perpOpened_def perpHalted_def split: option.split)

lemma readSignals_pending:
  assumes "ps_pendingEntry s = None" "ps_pendingEntry (readSignals e i shut s) = Some sd"
  shows "sole_signal e i sd"
  using assms
  by (auto simp: readSignals_def Let_def sole_signal_def leg_of_def other_dir_def split: option.splits if_splits)

text \<open>The stages of one candle.\<close>

lemma perpStep_stages:
  assumes "perpStep e i s = Inr s'"
  obtains s1 s2 shut where "keeps s s1" "keeps (executeEntry e (pe_candles e ! i) shut s1) s2"
    "\<exists>c. s' = readSignals e i c s2"
proof -
  define c where "c = pe_candles e ! i"
  obtain day where day: "day_of (openTime c) = Inr day"
    using assms by (auto simp: perpStep_def ebind_Inr_iff c_def Let_def)
  obtain s1 shut where x: "executeExit e c (perpBeginDay day s) = (s1, shut)" by fastforce
  obtain s3 exited where r: "riskExit e c (applyFunding e c (executeEntry e c shut s1)) = Inr (s3, exited)"
    "s' = readSignals e i (shut \<or> exited) (perpCheckDailyLoss e s3)"
    using assms day x by (auto simp: perpStep_def Let_def c_def [symmetric] ebind_Inr_iff)
  have "keeps s s1" using keeps_trans [OF perpBeginDay_keeps executeExit_keeps, of s e c day] x by simp
  moreover have "keeps (executeEntry e c shut s1) (perpCheckDailyLoss e s3)"
    using keeps_trans [OF applyFunding_keeps keeps_trans [OF riskExit_keeps [OF r(1)] perpCheckDailyLoss_keeps]] .
  ultimately show thesis using that r(2) unfolding c_def by blast
qed

lemma perpStep_facts:
  assumes "perpStep e i s = Inr s'"
  shows "perpOpened s' = perpOpened s
      \<or> perpOpened s' = Suc (perpOpened s) \<and> \<not> perpHalted s \<and> ps_pendingEntry s \<noteq> None"
    "perpHalted s \<Longrightarrow> perpHalted s'"
    "ps_pendingEntry s' = Some sd \<Longrightarrow> sole_signal e i sd"
    "ps_position s' = None \<or> map_option pp_side (ps_position s') = map_option pp_side (ps_position s)
      \<or> map_option pp_side (ps_position s') = ps_pendingEntry s"
proof -
  define c where "c = pe_candles e ! i"
  obtain s1 s2 shut k where st: "keeps s s1" "keeps (executeEntry e c shut s1) s2" "s' = readSignals e i k s2"
    using perpStep_stages [OF assms] unfolding c_def by metis
  have s': "ps_position s' = ps_position s2" "perpOpened s' = perpOpened s2" "perpHalted s' = perpHalted s2"
    by (simp_all add: st(3) readSignals_facts)
  have pend: "ps_pendingEntry s2 = None" using st(2) by (simp add: keeps_def)
  show "ps_pendingEntry s' = Some sd \<Longrightarrow> sole_signal e i sd"
    using readSignals_pending [OF pend] st(3) by blast
  have k: "perpOpened s1 = perpOpened s" "ps_pendingEntry s1 = ps_pendingEntry s" "perpHalted s \<longrightarrow> perpHalted s1"
    "ps_position s1 = None \<or> map_option pp_side (ps_position s1) = map_option pp_side (ps_position s)"
    using st(1) unfolding keeps_def by simp_all
  define t where "t = executeEntry e c shut s1"
  have k': "perpOpened s2 = perpOpened t" "perpHalted t \<longrightarrow> perpHalted s2"
    "ps_position s2 = None \<or> map_option pp_side (ps_position s2) = map_option pp_side (ps_position t)"
    using st(2) unfolding keeps_def t_def by simp_all
  have "(perpOpened s' = perpOpened s
      \<or> perpOpened s' = Suc (perpOpened s) \<and> \<not> perpHalted s \<and> ps_pendingEntry s \<noteq> None)
    \<and> (perpHalted s \<longrightarrow> perpHalted s')
    \<and> (ps_position s' = None \<or> map_option pp_side (ps_position s') = map_option pp_side (ps_position s)
      \<or> map_option pp_side (ps_position s') = ps_pendingEntry s)"
  proof (rule executeEntry_cases [of e c shut s1, folded t_def])
    assume "ps_position t = ps_position s1" "perpOpened t = perpOpened s1" "perpHalted s1 \<longrightarrow> perpHalted t"
    then show ?thesis using k k' unfolding s' by (metis option.map_disc_iff)
  next
    fix sd
    assume "ps_pendingEntry s1 = Some sd" "ps_position s1 = None" "\<not> perpHalted s1" "\<not> shut"
      "perpOpened t = Suc (perpOpened s1)" "map_option pp_side (ps_position t) = Some sd"
    then show ?thesis using k k' unfolding s' by (metis option.distinct(1))
  qed
  then show "perpOpened s' = perpOpened s
      \<or> perpOpened s' = Suc (perpOpened s) \<and> \<not> perpHalted s \<and> ps_pendingEntry s \<noteq> None"
    and "perpHalted s \<Longrightarrow> perpHalted s'"
    and "ps_position s' = None \<or> map_option pp_side (ps_position s') = map_option pp_side (ps_position s)
      \<or> map_option pp_side (ps_position s') = ps_pendingEntry s"
    by blast+
qed

interpretation perpetual: trading_loop "perpStep e" perpOpened perpHalted for e
  by unfold_locales (use perpStep_facts(1,2) in blast)+

subsection \<open>The whole run\<close>

definition legs_known :: "perpetual_env \<Rightarrow> perpetual_state \<Rightarrow> bool" where
  "legs_known e s \<longleftrightarrow> (\<forall>sd. ps_pendingEntry s = Some sd \<or> map_option pp_side (ps_position s) = Some sd
     \<longrightarrow> leg_of (pe_spec e) sd \<noteq> None)"

lemma keeps_legs: "keeps s t \<Longrightarrow> legs_known e s \<Longrightarrow> legs_known e t"
  unfolding keeps_def legs_known_def by (metis option.distinct(1) option.map_disc_iff)

lemma executeEntry_legs: "legs_known e s \<Longrightarrow> legs_known e (executeEntry e c shut s)"
  by (rule executeEntry_cases [of e c shut s]) (auto simp: legs_known_def)

lemma sole_signal_leg: "sole_signal e i sd \<Longrightarrow> leg_of (pe_spec e) sd \<noteq> None"
  by (auto simp: sole_signal_def legEntryAt_def split: option.splits)

lemma perpStep_legs:
  assumes "perpStep e i s = Inr s'" "legs_known e s"
  shows "legs_known e s'"
  using perpStep_facts(3,4) [OF assms(1)] sole_signal_leg assms(2)
  unfolding legs_known_def by (metis option.distinct(1) option.map_disc_iff)

lemma perpStep_returns:
  assumes "dated (pe_candles e ! i)" "legs_known e s"
  shows "returns (perpStep e i s)"
proof -
  define c where "c = pe_candles e ! i"
  obtain day where day: "day_of (openTime c) = Inr day"
    using iso_or_throw_dated [of "to_date (openTime c)"] assms(1)
    by (auto simp: c_def dated_def day_of_def returns_iff)
  obtain s1 shut where x: "executeExit e c (perpBeginDay day s) = (s1, shut)" by fastforce
  have "keeps s s1" using keeps_trans [OF perpBeginDay_keeps executeExit_keeps, of s e c day] x by simp
  then have "legs_known e (applyFunding e c (executeEntry e c shut s1))"
    using assms(2) keeps_legs executeEntry_legs applyFunding_keeps by metis
  then have "returns (riskExit e c (applyFunding e c (executeEntry e c shut s1)))"
    by (intro riskExit_returns) (auto simp: legs_known_def)
  then obtain s3 exited where "riskExit e c (applyFunding e c (executeEntry e c shut s1)) = Inr (s3, exited)"
    by (auto simp: returns_iff)
  then show ?thesis using day x by (simp add: perpStep_def Let_def c_def [symmetric])
qed

lemma perpLoop_1: "i \<le> 1 \<Longrightarrow> perpLoop e i = Inr (perpetual_start (bo_initialEquityUsdt (pe_options e)))"
  by (simp add: perpLoop_def)

lemma perpLoop_Suc: "1 \<le> i \<Longrightarrow> perpLoop e (Suc i) = ebind (perpLoop e i) (perpStep e i)"
  by (cases "perpLoop e i") (simp_all add: perpLoop_def efold_append ebind_def split: sum.splits)

lemma start_facts [simp]:
  "ps_pendingEntry (perpetual_start x) = None" "ps_position (perpetual_start x) = None"
  "ps_trades (perpetual_start x) = []"
  by (simp_all add: perpetual_start_def)

lemma perpLoop_ok: "perpLoop e (Suc i) = Inr s \<Longrightarrow> legs_known e s \<and> (ps_pendingEntry s = Some sd \<longrightarrow> sole_signal e i sd)"
proof (induction i arbitrary: s sd)
  case 0
  then have "s = perpetual_start (bo_initialEquityUsdt (pe_options e))" by (simp add: perpLoop_1)
  then show ?case by (simp add: legs_known_def)
next
  case (Suc i)
  then obtain t where "perpLoop e (Suc i) = Inr t" "perpStep e (Suc i) t = Inr s"
    by (auto simp: perpLoop_Suc [of "Suc i"] ebind_Inr_iff)
  then show ?case using Suc.IH [of t] perpStep_legs perpStep_facts(3) by blast
qed

lemma perpLoop_returns:
  assumes "list_all dated (pe_candles e)" "n \<le> length (pe_candles e)"
  shows "returns (perpLoop e n)"
  using assms(2)
proof (induction n)
  case 0
  then show ?case by (simp add: perpLoop_1)
next
  case (Suc n)
  show ?case
  proof (cases n)
    case 0
    then show ?thesis by (simp add: perpLoop_1)
  next
    case (Suc k)
    obtain s where s: "perpLoop e n = Inr s" using Suc.IH Suc.prems by (auto simp: returns_iff)
    then have "legs_known e s" using perpLoop_ok [of e k s] Suc by simp
    moreover have "dated (pe_candles e ! n)" using assms(1) Suc.prems by (simp add: list_all_length)
    ultimately have "returns (perpStep e n s)" by (rule perpStep_returns [rotated])
    then show ?thesis using s Suc by (simp add: perpLoop_Suc)
  qed
qed

lemma perpFinal_returns:
  assumes "list_all dated (pe_candles e)"
  obtains s where "perpFinal e = Inr s" "ps_position s = None"
proof -
  obtain t where t: "perpLoop e (length (pe_candles e)) = Inr t"
    using perpLoop_returns [OF assms] by (auto simp: returns_iff)
  show thesis
  proof (cases "ps_position t")
    case None
    then show thesis using t that [of t] by (simp add: perpFinal_def)
  next
    case (Some p)
    then show thesis using t that perpClosePosition_facts(1) [OF Some] by (simp add: perpFinal_def Let_def)
  qed
qed

lemma perpetualEnv_candles: "perpetualEnv raw cs funding input = Inr e \<Longrightarrow> pe_candles e = cs \<and> 200 \<le> length cs"
  by (auto simp: perpetualEnv_def ebind_Inr_iff validatePerpetualCandles_def validateCandles_def split: if_splits)

subsection \<open>Funding rates\<close>

definition rate_map :: "historical_funding_rate list \<Rightarrow> (jsnum \<times> jsnum) list" where
  "rate_map = map (\<lambda>r. (fr_time r, fr_rate r))"

lemma setByTime_set: "fr_time ` set (setByTime r xs) = insert (fr_time r) (fr_time ` set xs)"
  by (induction xs) auto

lemma setByTime_distinct: "distinct (map fr_time xs) \<Longrightarrow> distinct (map fr_time (setByTime r xs))"
proof (induction xs)
  case (Cons x xs)
  then show ?case using setByTime_set [of r xs] by auto
qed simp

lemma setByTime_map: "map_of (rate_map (setByTime r xs)) = (map_of (rate_map xs))(fr_time r \<mapsto> fr_rate r)"
  by (induction xs) (auto simp: rate_map_def)

lemma setByTime_in: "x \<in> set (setByTime r xs) \<Longrightarrow> x = r \<or> x \<in> set xs"
  by (induction xs) (auto split: if_splits)

definition rate_ok :: "historical_funding_rate \<Rightarrow> bool" where
  "rate_ok r \<longleftrightarrow> is_finite (fr_time r) \<and> is_finite (fr_rate r) \<and> \<bar>fr_rate r\<bar> \<le> lit (1 / 10)"

lemma addFundingRate_Inr:
  assumes "addFundingRate r xs = Inr ys"
  shows "ys = setByTime r xs \<and> rate_ok r"
proof -
  have "\<not> lit (1 / 10) < \<bar>fr_rate r\<bar> \<Longrightarrow> is_finite (fr_rate r) \<Longrightarrow> \<bar>fr_rate r\<bar> \<le> lit (1 / 10)"
    by (cases "fr_rate r") (simp_all add: js_not_less)
  then show ?thesis using assms by (auto simp: addFundingRate_def rate_ok_def split: if_splits)
qed

lemma addFundingRates:
  assumes "efold addFundingRate input acc = Inr out" "distinct (map fr_time acc)" "\<forall>r \<in> set acc. rate_ok r"
  shows "distinct (map fr_time out) \<and> (\<forall>r \<in> set out. rate_ok r)
    \<and> map_of (rate_map out) = map_of (rate_map acc) ++ map_of (rate_map (rev input))"
  using assms
proof (induction input arbitrary: acc)
  case Nil
  then show ?case by (simp add: rate_map_def)
next
  case (Cons r input)
  then obtain acc' where a: "addFundingRate r acc = Inr acc'" "efold addFundingRate input acc' = Inr out"
    by (auto simp: ebind_Inr_iff)
  then have acc': "acc' = setByTime r acc" "rate_ok r" using addFundingRate_Inr by blast+
  have "distinct (map fr_time out) \<and> (\<forall>r \<in> set out. rate_ok r)
    \<and> map_of (rate_map out) = map_of (rate_map acc') ++ map_of (rate_map (rev input))"
    using Cons.prems acc' setByTime_distinct by (intro Cons.IH [OF a(2)]) (auto dest: setByTime_in)
  moreover have "map_of (rate_map acc') ++ map_of (rate_map (rev input))
      = map_of (rate_map acc) ++ map_of (rate_map (rev (r # input)))"
  proof -
    have "rate_map (rev (r # input)) = rate_map (rev input) @ [(fr_time r, fr_rate r)]" by (simp add: rate_map_def)
    then show ?thesis by (intro ext) (auto simp: acc' setByTime_map map_add_def split: option.split)
  qed
  ultimately show ?case by simp
qed

lemma sorted_times:
  assumes "sorted (map (\<lambda>r. rat_of (fr_time r)) xs)" "distinct (map fr_time xs)" "\<forall>r \<in> set xs. is_finite (fr_time r)"
  shows "sorted_wrt (\<lambda>a b. fr_time a < fr_time b) xs"
  using assms
proof (induction xs)
  case (Cons x xs)
  have "fr_time x < fr_time y" if y: "y \<in> set xs" for y
  proof -
    obtain a b where ab: "fr_time x = N a" "fr_time y = N b" using Cons.prems(3) y by (auto simp: is_finite_iff)
    then have "a \<le> b" using Cons.prems(1) y by (auto simp: rat_of_def)
    moreover have "a \<noteq> b" using Cons.prems(2) y ab by (auto simp: image_iff)
    ultimately show ?thesis by (simp add: ab)
  qed
  then show ?case using Cons by simp
qed simp

lemma normalizeFundingRates_facts:
  assumes "normalizeFundingRates input = Inr rates"
  shows "sorted_wrt (\<lambda>a b. fr_time a < fr_time b) rates" "\<forall>r \<in> set rates. rate_ok r"
    "map_of (rate_map rates) = map_of (rate_map (rev input))"
proof -
  obtain m where m: "efold addFundingRate input [] = Inr m" "rates = sort_key (\<lambda>r. rat_of (fr_time r)) m"
    using assms by (auto simp: normalizeFundingRates_def ebind_Inr_iff)
  then have f: "distinct (map fr_time m)" "\<forall>r \<in> set m. rate_ok r"
    "map_of (rate_map m) = map_of (rate_map (rev input))"
    using addFundingRates [OF m(1)] by (auto simp: rate_map_def)
  have d: "distinct (map fr_time rates)"
    using f(1) m(2) by (metis distinct_map distinct_sort set_sort)
  show "\<forall>r \<in> set rates. rate_ok r" using f(2) m(2) by simp
  then show "sorted_wrt (\<lambda>a b. fr_time a < fr_time b) rates"
    using d m(2) by (intro sorted_times) (auto simp: rate_ok_def)
  have fst_map: "map fst (rate_map xs) = map fr_time xs" for xs by (simp add: rate_map_def)
  have "map_of (rate_map rates) = map_of (rate_map m)"
    by (subst map_of_inject_set) (simp_all only: fst_map d f(1), simp add: m(2) rate_map_def)
  then show "map_of (rate_map rates) = map_of (rate_map (rev input))" using f(3) by simp
qed

subsection \<open>No look-ahead\<close>

definition causal_leg :: "strategy_leg_v3 \<Rightarrow> bool" where
  "causal_leg l \<longleftrightarrow> (\<forall>i. causal_tree i (leg_entry l) \<and> causal_tree i (leg_exit l))"

definition causal_spec :: "strategy_dsl_v3 \<Rightarrow> bool" where
  "causal_spec d \<longleftrightarrow> (\<forall>sd l. leg_of d sd = Some l \<longrightarrow> causal_leg l)"

lemma leg_take:
  assumes "causal_leg l" "i < n" "n \<le> length cs"
  shows "entryAt l (take n cs) i = entryAt l cs i" "exitAt l (take n cs) i = exitAt l cs i"
proof -
  have c: "causal_tree i (CAll [leg_entry l])" "causal_tree i (CAny [leg_exit l])"
    using assms(1) by (simp_all add: causal_leg_def)
  have t: "take (Suc i) (take n cs) = take (Suc i) cs" using assms(2) by (simp add: min_def)
  show "entryAt l (take n cs) i = entryAt l cs i"
    unfolding entryAt_def using tree_prefix [OF c(1), of "take n cs"] tree_prefix [OF c(1), of cs] assms(2,3) t by simp
  show "exitAt l (take n cs) i = exitAt l cs i"
    unfolding exitAt_def using tree_prefix [OF c(2), of "take n cs"] tree_prefix [OF c(2), of cs] assms(2,3) t by simp
qed

definition first_candles :: "nat \<Rightarrow> perpetual_env \<Rightarrow> perpetual_env" where
  "first_candles n e = e\<lparr>pe_candles := take n (pe_candles e)\<rparr>"

lemma first_candles_simps [simp]:
  "pe_spec (first_candles n e) = pe_spec e" "pe_options (first_candles n e) = pe_options e"
  "pe_maintenanceMarginRate (first_candles n e) = pe_maintenanceMarginRate e"
  "pe_fundingRates (first_candles n e) = pe_fundingRates e"
  "pe_candles (first_candles n e) = take n (pe_candles e)"
  by (simp_all add: first_candles_def)

lemma first_candles_close [simp]:
  "perpUpdateDrawdown (first_candles n e) = perpUpdateDrawdown e"
  "perpClosePosition (first_candles n e) = perpClosePosition e"
  "perpOpenPosition (first_candles n e) = perpOpenPosition e"
  "payFunding (first_candles n e) = payFunding e"
proof -
  show u: "perpUpdateDrawdown (first_candles n e) = perpUpdateDrawdown e"
    by (rule ext) (simp add: perpUpdateDrawdown_def)
  show "perpClosePosition (first_candles n e) = perpClosePosition e"
    by (intro ext) (simp add: perpClosePosition_def perp_trade_def realized_of_def u Let_def split: option.split)
  show "perpOpenPosition (first_candles n e) = perpOpenPosition e"
    by (intro ext) (simp add: perpOpenPosition_def u Let_def)
  show "payFunding (first_candles n e) = payFunding e"
    by (intro ext) (simp add: payFunding_def u Let_def split: option.split)
qed

lemma first_candles_funding [simp]: "applyFunding (first_candles n e) c s = applyFunding e c s"
proof (induction e c s rule: applyFunding.induct)
  case (1 e c s)
  show ?case
    using "1.IH" by (subst (1 2) applyFunding.simps) simp
qed

lemma first_candles_risk [simp]: "riskExit (first_candles n e) c s = riskExit e c s"
  by (simp only: riskExit_def riskDecision_def liquidationPrice_def first_candles_simps first_candles_close)

lemma first_candles_step:
  assumes "causal_spec (pe_spec e)" "i < n" "n \<le> length (pe_candles e)"
  shows "perpStep (first_candles n e) i s = perpStep e i s"
proof -
  have l: "legEntryAt (leg_of (pe_spec e) sd) (take n (pe_candles e)) i = legEntryAt (leg_of (pe_spec e) sd) (pe_candles e) i"
    "legExitAt (leg_of (pe_spec e) sd) (take n (pe_candles e)) i = legExitAt (leg_of (pe_spec e) sd) (pe_candles e) i" for sd
    using assms(1) leg_take [OF _ assms(2,3)]
    by (auto simp: legEntryAt_def legExitAt_def causal_spec_def split: option.split)
  have r: "readSignals (first_candles n e) i k t = readSignals e i k t" for k t
    using l(1) [of LongPosition] l(1) [of ShortPosition]
    by (simp only: readSignals_def first_candles_simps leg_of_def position_dir.case l(2) [unfolded leg_of_def])
  have x: "executeExit (first_candles n e) = executeExit e" "executeEntry (first_candles n e) = executeEntry e"
    "perpCheckDailyLoss (first_candles n e) = perpCheckDailyLoss e"
    by (intro ext; simp only: executeExit_def executeEntry_def perpCheckDailyLoss_def first_candles_simps first_candles_close)+
  have c: "take n (pe_candles e) ! i = pe_candles e ! i" using assms(2) by simp
  show ?thesis by (simp only: perpStep_def first_candles_simps first_candles_funding first_candles_risk c r x)
qed

lemma perpLoop_first:
  assumes "causal_spec (pe_spec e)" "n \<le> length (pe_candles e)"
  shows "perpLoop (first_candles n e) n = perpLoop e n"
  unfolding perpLoop_def first_candles_simps
  by (rule efold_cong) (simp add: first_candles_step [OF assms(1) _ assms(2)])

subsection \<open>Liquidation\<close>

lemma realized_floor:
  "realized_of e x True p = NaN \<or> - pp_notional p * (N 1 - pe_maintenanceMarginRate e) \<le> realized_of e x True p"
  using js_max_ge(2) [of x "- pp_notional p * (N 1 - pe_maintenanceMarginRate e)"]
  by (auto simp: realized_of_def js_max_def)

lemma perpClosePosition_equity:
  assumes "ps_position s = Some p"
  shows "ps_equity (perpClosePosition e price tm reason cap s) = ps_equity s + snd (perp_trade e price tm reason cap p)"
  using assms by (simp add: perpClosePosition_def perpUpdateDrawdown_def Let_def split: prod.split)

lemma riskExit_liquidates:
  assumes "riskExit e c s = Inr (s', x)" "ps_liquidated s'" "\<not> ps_liquidated s"
  obtains p price tm where "ps_position s = Some p"
    "s' = (perpClosePosition e price tm Liquidation True s)\<lparr>ps_liquidated := True\<rparr>" "x"
proof -
  obtain p where p: "ps_position s = Some p" using assms by (cases "ps_position s") (auto simp: riskExit_def)
  have k: "\<not> ps_liquidated (perpClosePosition e price tm reason cap s)" for price tm reason cap
    using assms(3) p by (simp add: perpClosePosition_def Let_def split: prod.split)
  have "\<exists>price tm. s' = (perpClosePosition e price tm Liquidation True s)\<lparr>ps_liquidated := True\<rparr> \<and> x"
    using assms p k
    by (auto simp: riskExit_def split: option.splits if_splits prod.splits trade_reason.splits)
  then show thesis using that p by blast
qed

subsection \<open>A small run\<close>

lemma pending_opens:
  assumes "perpStep e i s = Inr s'" "ps_position s = None" "ps_pendingEntry s = Some sd" "perpEntriesAllowed s"
  shows "perpOpened s' = Suc (perpOpened s)"
proof -
  define c where "c = pe_candles e ! i"
  obtain day where day: "day_of (openTime c) = Inr day"
    using assms(1) by (auto simp: perpStep_def ebind_Inr_iff c_def Let_def)
  define s0 where "s0 = perpBeginDay day s"
  have s0: "ps_position s0 = None" "ps_pendingEntry s0 = Some sd" "perpEntriesAllowed s0" "perpOpened s0 = perpOpened s"
    using assms(2-4) by (auto simp: s0_def perpBeginDay_def perpEntriesAllowed_def perpOpened_def)
  then have x: "executeExit e c s0 = (s0, False)" by (simp add: executeExit_def)
  have o': "perpOpened (executeEntry e c False s0) = Suc (perpOpened s)"
    using s0 perpOpenPosition_facts [of s0 e sd c] by (simp add: executeEntry_def Let_def perpOpened_def)
  obtain s3 k where r: "riskExit e c (applyFunding e c (executeEntry e c False s0)) = Inr (s3, k)"
    "s' = readSignals e i k (perpCheckDailyLoss e s3)"
    using assms(1) day x by (auto simp: perpStep_def Let_def c_def [symmetric] s0_def [symmetric] ebind_Inr_iff)
  have "keeps (executeEntry e c False s0) (perpCheckDailyLoss e s3)"
    using keeps_trans [OF applyFunding_keeps keeps_trans [OF riskExit_keeps [OF r(1)] perpCheckDailyLoss_keeps]] .
  then show ?thesis using o' by (simp add: r(2) readSignals_facts keeps_def)
qed

definition rising_candle :: "nat \<Rightarrow> candle" where
  "rising_candle i = \<lparr>openTime = N (of_nat i), closeTime = N (of_nat i), cd_open = N 1, cd_high = N 2, cd_low = N 1,
     cd_close = N 2, cd_volume = N 1\<rparr>"

definition rising :: "nat \<Rightarrow> candle list" where
  "rising n = map rising_candle [0..<n]"

definition small_env :: perpetual_env where
  "small_env = \<lparr>pe_spec = sample_dsl, pe_options = \<lparr>bo_preset = LiveAligned, bo_feeRate = N 0,
       bo_slippageRate = N 0, bo_initialEquityUsdt = N 100, bo_candleLimit = N 200\<rparr>,
     pe_maintenanceMarginRate = N 0, pe_candles = rising 4, pe_fundingRates = []\<rparr>"

lemma rising_dated: "n \<le> 1000 \<Longrightarrow> list_all dated (rising n)"
  by (auto simp: rising_def list_all_iff dated_def rising_candle_def max_time_def)

lemma small_env_simps [simp]:
  "pe_spec small_env = sample_dsl" "pe_candles small_env = rising 4" "pe_fundingRates small_env = []"
  "bo_initialEquityUsdt (pe_options small_env) = N 100"
  by (simp_all add: small_env_def)

lemma small_signal: "legEntryAt (pd_long sample_dsl) (rising 4) (Suc 0)" "\<not> legEntryAt (pd_short sample_dsl) (rising 4) i"
  by (simp_all add: legEntryAt_def sample_dsl_def entryAt_def sample_leg_def condition_def rising_def rising_candle_def)

text \<open>The first candle gives a signal, the second takes it.\<close>

lemma small_run_1:
  obtains s where "perpLoop small_env 2 = Inr s" "ps_position s = None" "ps_pendingEntry s = Some LongPosition"
    "perpEntriesAllowed s" "perpOpened s = 0"
proof -
  define c where "c = rising 4 ! 1"
  have "dated c" using rising_dated [of 4] by (simp add: c_def list_all_length rising_def)
  then obtain day where day: "day_of (openTime c) = Inr day"
    using iso_or_throw_dated [of "to_date (openTime c)"] by (auto simp: dated_def day_of_def returns_iff)
  define s0 where "s0 = perpBeginDay day (perpetual_start (N 100))"
  have s0: "ps_position s0 = None" "ps_pendingEntry s0 = None" "ps_equity s0 = N 100" "ps_dayStartEquity s0 = N 100"
    "perpEntriesAllowed s0" "perpOpened s0 = 0" "ps_pendingExit s0 = False"
    by (auto simp: s0_def perpBeginDay_def perpetual_start_def perpEntriesAllowed_def perpOpened_def)
  have f: "executeExit small_env c s0 = (s0, False)" "executeEntry small_env c False s0 = s0"
    "applyFunding small_env c s0 = s0" "riskExit small_env c s0 = Inr (s0, False)" "perpCheckDailyLoss small_env s0 = s0"
    using s0
    by (simp_all add: executeExit_def executeEntry_def applyFunding.simps [of small_env] riskExit_def
        perpCheckDailyLoss_def sample_dsl_def)
  have "perpStep small_env 1 (perpetual_start (N 100)) = Inr (s0\<lparr>ps_pendingEntry := Some LongPosition\<rparr>)"
    using day f small_signal s0
    by (simp add: perpStep_def c_def [unfolded One_nat_def, symmetric] s0_def [symmetric] readSignals_def)
  then have "perpLoop small_env 2 = Inr (s0\<lparr>ps_pendingEntry := Some LongPosition\<rparr>)"
    using perpLoop_Suc [of 1 small_env] by (simp add: perpLoop_1 numeral_2_eq_2)
  then show thesis
    by (rule that) (use s0 in \<open>simp_all add: perpEntriesAllowed_def perpOpened_def\<close>)
qed

lemma rising_valid:
  assumes "200 \<le> n"
  shows "validatePerpetualCandles (rising n) = Inr ()"
proof -
  have c: "rising n ! i = rising_candle i" if "i < n" for i using that by (simp add: rising_def)
  have "returns (checkPerpetualCandle (rising n) i)" if "i < n" for i
    using that c [of "i - 1"]
    by (auto simp: checkPerpetualCandle_def c positive_prices_def ordered_prices_def rising_candle_def)
  then have "returns (efold (\<lambda>i _. checkPerpetualCandle (rising n) i) [0..<length (rising n)] ())"
    by (intro efold_returns) (simp add: rising_def)
  moreover have "validateCandles (rising n) = Inr ()"
    using assms by (auto simp: validateCandles_def rising_def list_ex_iff candle_finite_def rising_candle_def)
  ultimately show ?thesis by (auto simp: validatePerpetualCandles_def returns_iff)
qed

lemma default_maintenance: "returns (maintenanceMarginRateOf default_options)"
proof -
  have b: "lit (5 / 1000) \<le> lit (5 / 100)" "lit (1 / 1000) \<le> lit (5 / 1000)" by (simp_all add: js_of_mono)
  have "is_finite (lit (5 / 1000))"
    using js_of_le_exact [of "5 / 1000" 1] js_of_nonneg [of "5 / 1000"] is_double_of_int [of 1]
    by (auto dest!: js_between_finite)
  with b show ?thesis
    by (auto simp: maintenanceMarginRateOf_def boundedBacktestNumber_def default_options_def js_not_less returns_iff)
qed

lemma small_input_ok: "returns (perpetualEnv (research_json (DslV3 sample_dsl)) (rising 200) [] default_options)"
proof -
  have ok: "research_ok (DslV3 sample_dsl)" using sample_dsl_ok by (simp add: research_ok_def)
  note r = research_json_read [OF ok]
  obtain o' where "normalizePerpetualBacktestOptions default_options = Inr o'"
    using default_options_ok [of "N 30000"] by (auto simp: returns_iff normalizePerpetualBacktestOptions_def)
  moreover obtain m where "maintenanceMarginRateOf default_options = Inr m"
    using default_maintenance by (auto simp: returns_iff)
  moreover have "strategyDslToRuntime (research_json (DslV3 sample_dsl)) = Inr sample_dsl"
    using research_to_runtime [OF r] by (simp add: runtime_of_def)
  ultimately show ?thesis using r rising_valid [of 200]
    by (simp add: perpetualEnv_def normalizeFundingRates_def)
qed

subsection \<open>Properties\<close>



text \<open>A position of the perpetual backtest is opened only on a signal of the candle before, of that
side alone, and while neither the drawdown, the losses in a row nor a liquidation has halted the run.\<close>

theorem perpetual_entry_follows_signal:
  assumes "perpLoop e i = Inr s" "perpStep e i s = Inr s'" "perpOpened s' \<noteq> perpOpened s"
  shows "2 \<le> i \<and> (\<exists>sd. ps_pendingEntry s = Some sd \<and> sole_signal e (i - 1) sd) \<and> \<not> perpHalted s
    \<and> perpOpened s' = Suc (perpOpened s)"
proof -
  have o': "perpOpened s' = Suc (perpOpened s)" "\<not> perpHalted s" "ps_pendingEntry s \<noteq> None"
    using perpStep_facts(1) [OF assms(2)] assms(3) by blast+
  then obtain sd where sd: "ps_pendingEntry s = Some sd" by blast
  have i: "2 \<le> i"
  proof (rule ccontr)
    assume "\<not> 2 \<le> i"
    then have "s = perpetual_start (bo_initialEquityUsdt (pe_options e))" using assms(1) perpLoop_1 [of i e] by simp
    then show False using sd by simp
  qed
  then have "perpLoop e (Suc (i - 1)) = Inr s" using assms(1) by simp
  then have "sole_signal e (i - 1) sd" using perpLoop_ok sd by blast
  then show ?thesis using i o' sd by blast
qed

theorem perpetual_entry_follows_signal_witness: "sole_signal small_env 1 LongPosition"
proof -
  obtain s where s: "perpLoop small_env 2 = Inr s" "ps_position s = None" "ps_pendingEntry s = Some LongPosition"
    "perpEntriesAllowed s" "perpOpened s = 0" by (rule small_run_1)
  have "perpLoop small_env (Suc 1) = Inr s" using s(1) by (simp add: numeral_2_eq_2)
  then have "legs_known small_env s" using perpLoop_ok by blast
  moreover have "dated (pe_candles small_env ! 2)" using rising_dated [of 4] by (simp add: list_all_length rising_def)
  ultimately obtain s' where s': "perpStep small_env 2 s = Inr s'" using perpStep_returns returns_iff by metis
  then have "perpOpened s' \<noteq> perpOpened s" using pending_opens [OF s' s(2-4)] by simp
  from perpetual_entry_follows_signal [OF s(1) s' this] s(3) show ?thesis by simp
qed

text \<open>Once the drawdown limit, the limit of losses in a row or a liquidation has halted a perpetual
run, it stays halted and opens nothing on any later candle.\<close>

theorem perpetual_halted_opens_nothing:
  assumes "efold (perpStep e) idx s = Inr s'" "perpHalted s"
  shows "perpHalted s' \<and> perpOpened s' = perpOpened s"
  using perpetual.run_stopped [OF assms] .

theorem perpetual_halted_opens_nothing_witness:
  "perpOpened ((perpetual_start (N 100))\<lparr>ps_liquidated := True\<rparr>) = 0"
proof -
  have "efold (perpStep small_env) [] ((perpetual_start (N 100))\<lparr>ps_liquidated := True\<rparr>)
      = Inr ((perpetual_start (N 100))\<lparr>ps_liquidated := True\<rparr>)" by simp
  from perpetual_halted_opens_nothing [OF this] show ?thesis by (simp add: perpHalted_def perpOpened_def)
qed

text \<open>C40. A liquidation closes the position and changes the equity by no less than the isolated
margin allows: the notional less the maintenance margin (unless a figure is not a number).\<close>

theorem liquidation_loss_capped:
  assumes "riskExit e c s = Inr (s', exited)" "ps_liquidated s'" "\<not> ps_liquidated s"
  shows "\<exists>p r. ps_position s = Some p \<and> ps_position s' = None \<and> exited \<and> ps_equity s' = ps_equity s + r
    \<and> (r = NaN \<or> - pp_notional p * (N 1 - pe_maintenanceMarginRate e) \<le> r)"
proof -
  obtain p price tm where x: "ps_position s = Some p" "exited"
    "s' = (perpClosePosition e price tm Liquidation True s)\<lparr>ps_liquidated := True\<rparr>"
    using riskExit_liquidates [OF assms] by metis
  have "snd (perp_trade e price tm Liquidation True p) = NaN
      \<or> - pp_notional p * (N 1 - pe_maintenanceMarginRate e) \<le> snd (perp_trade e price tm Liquidation True p)"
    using realized_floor by (simp add: perp_trade_def Let_def)
  then show ?thesis using x perpClosePosition_facts(1) [OF x(1)] perpClosePosition_equity [OF x(1)] by auto
qed

definition sample_position :: perpetual_position where
  "sample_position = \<lparr>pp_side = LongPosition, pp_entryPrice = N 100,
     pp_openedAt = N 0, pp_notional = N 10, pp_quantity = N 1, pp_entryFee = N 0, pp_fundingUsdt = N 0\<rparr>"

definition gapped :: perpetual_state where
  "gapped = (perpetual_start (N 100))\<lparr>ps_position := Some sample_position\<rparr>"

theorem liquidation_loss_capped_witness:
  "\<exists>s'. riskExit small_env (sample_candle 0) gapped = Inr (s', True) \<and> ps_position s' = None"
proof -
  define s' where "s' = (perpClosePosition small_env (N 0) (N 0) Liquidation True gapped)\<lparr>ps_liquidated := True\<rparr>"
  have p: "ps_position gapped = Some sample_position" "leg_of (pe_spec small_env) (pp_side sample_position) = Some sample_leg"
    by (simp_all add: gapped_def leg_of_def sample_dsl_def sample_position_def)
  have "riskDecision small_env (sample_candle 0) sample_leg sample_position = Some (N 0, N 0, Liquidation)"
    by (simp add: riskDecision_def Let_def reached_def liquidationPrice_def small_env_def sample_candle_def sample_position_def)
  then have r: "riskExit small_env (sample_candle 0) gapped = Inr (s', True)"
    using p by (simp add: riskExit_def s'_def)
  from liquidation_loss_capped [OF r] show ?thesis using r by (simp add: s'_def gapped_def perpetual_start_def)
qed

text \<open>The perpetual run is causal: what it has done after the first candles does not depend on the
candles that follow (for rules without the ADX's warm-up exception).\<close>

theorem perpetual_run_causal:
  assumes "causal_spec (pe_spec e)" "n \<le> length (pe_candles e)" "n \<le> length cs" "take n cs = take n (pe_candles e)"
  shows "perpLoop (e\<lparr>pe_candles := cs\<rparr>) n = perpLoop e n"
proof -
  have "first_candles n (e\<lparr>pe_candles := cs\<rparr>) = first_candles n e" using assms(4) by (simp add: first_candles_def)
  then show ?thesis
    using perpLoop_first [OF assms(1,2)] perpLoop_first [of "e\<lparr>pe_candles := cs\<rparr>" n] assms(1,3) by simp
qed

theorem perpetual_run_causal_witness:
  "perpLoop (small_env\<lparr>pe_candles := rising 9\<rparr>) 2 = perpLoop small_env 2"
proof (rule perpetual_run_causal)
  show "causal_spec (pe_spec small_env)"
    by (auto simp: causal_spec_def leg_of_def sample_dsl_def sample_leg_def causal_leg_def split: position_dir.splits)
qed (simp_all add: rising_def numeral_eq_Suc)

text \<open>The funding rates a run uses are in the order of their times, each time once, each rate at most
ten percent, and the rate of a time is the last one given for it.\<close>

theorem funding_rates_normalised:
  assumes "normalizeFundingRates input = Inr rates"
  shows "sorted_wrt (\<lambda>a b. fr_time a < fr_time b) rates
    \<and> (\<forall>r \<in> set rates. is_finite (fr_rate r) \<and> \<bar>fr_rate r\<bar> \<le> lit (1 / 10))
    \<and> map_of (rate_map rates) = map_of (rate_map (rev input))"
  using normalizeFundingRates_facts [OF assms] by (auto simp: rate_ok_def)

theorem funding_rates_normalised_witness:
  "\<exists>rates. normalizeFundingRates [\<lparr>fr_time = N 8, fr_rate = N 0\<rparr>, \<lparr>fr_time = N 4, fr_rate = N 0\<rparr>] = Inr rates
     \<and> length rates = 2 \<and> sorted_wrt (\<lambda>a b. fr_time a < fr_time b) rates"
proof -
  have "\<not> lit (1 / 10) < N 0" using js_of_nonneg [of "1 / 10"] by (cases "lit (1 / 10)") auto
  then obtain rates where r: "normalizeFundingRates [\<lparr>fr_time = N 8, fr_rate = N 0\<rparr>, \<lparr>fr_time = N 4, fr_rate = N 0\<rparr>]
      = Inr rates" "length rates = 2" by (simp add: normalizeFundingRates_def addFundingRate_def)
  from funding_rates_normalised [OF r(1)] show ?thesis using r by blast
qed

end
