(* ===== verification/RuntimeAdmission.thy ===== *)
theory RuntimeAdmission
  imports PerpetualBacktest
begin

text \<open>
  The small decisions around a runtime cycle (\<open>packages/domain/src/runtime/\<close>): how long a market
  snapshot is reused (\<open>market-cache.ts\<close>), whether a closed candle is fresh enough for an entry
  (\<open>market-admission.ts\<close>), which candle a cycle works on (\<open>cycle-planning.ts\<close>), what is recorded of
  an admission (\<open>admission.ts\<close>), how a deployment tightens its strategy (\<open>deployment-overrides.ts\<close>)
  and when a failed explanation is retried (\<open>explanation-retry.ts\<close>).
\<close>

subsection \<open>Market cache\<close>

definition TIMEFRAME_MS :: "(string \<times> jsnum) list" where
  "TIMEFRAME_MS = [(''1m'', N 60000), (''5m'', N 300000), (''15m'', N 900000), (''30m'', N 1800000),
     (''1h'', N 3600000), (''4h'', N 14400000), (''1d'', N 86400000), (''1w'', N 604800000)]"

definition timeframeMilliseconds :: "string \<Rightarrow> jsnum option" where
  "timeframeMilliseconds timeframe = map_of TIMEFRAME_MS timeframe"

definition marketCacheKey :: "string \<Rightarrow> string \<Rightarrow> jsnum \<Rightarrow> string" where
  "marketCacheKey symbol timeframe limit = symbol @ '':'' @ timeframe @ '':'' @ js_show limit"

definition isMarketSnapshotReusable :: "jsnum \<Rightarrow> jsnum \<Rightarrow> string \<Rightarrow> bool" where
  "isMarketSnapshotReusable fetchedAt now timeframe = (case timeframeMilliseconds timeframe of
     None \<Rightarrow> False
   | Some tf_ms \<Rightarrow>
       if \<not> is_finite fetchedAt \<or> \<not> is_finite now then False
       else if now < fetchedAt then False
       else js_eq (js_floor (fetchedAt / tf_ms)) (js_floor (now / tf_ms)))"

subsection \<open>Market admission\<close>

definition RUNTIME_CANDLE_CLOSE_GRACE_MS :: jsnum where
  "RUNTIME_CANDLE_CLOSE_GRACE_MS = N 30000"

definition MAX_DATE_TIMESTAMP_MS :: jsnum where
  "MAX_DATE_TIMESTAMP_MS = N 8640000000000000"

datatype candle_quality = Fresh | Stale | InvalidTime

datatype admission_reason = LatestClosedCandleStale | MarketCandleTimeInvalid

record candle_admission_input =
  ca_latestClosedAt :: jsnum
  ca_evaluatedAt :: jsnum
  ca_timeframe :: string

record candle_admission =
  cad_quality :: candle_quality
  cad_ageMs :: "jsnum option"
  cad_staleAfterMs :: "jsnum option"
  cad_latestClosedAt :: "string option"
  cad_entryAllowed :: bool
  cad_reason :: "admission_reason option"

definition validTimestamp :: "jsnum \<Rightarrow> bool" where
  "validTimestamp v \<longleftrightarrow> is_safe_integer v \<and> N 0 \<le> v \<and> v \<le> MAX_DATE_TIMESTAMP_MS"

definition invalidAdmission :: "jsnum option \<Rightarrow> candle_admission" where
  "invalidAdmission staleAfterMs = \<lparr>cad_quality = InvalidTime, cad_ageMs = None, cad_staleAfterMs = staleAfterMs,
     cad_latestClosedAt = None, cad_entryAllowed = False, cad_reason = Some MarketCandleTimeInvalid\<rparr>"

definition completedRuntimeCandlesAt :: "candle list \<Rightarrow> jsnum \<Rightarrow> candle list" where
  "completedRuntimeCandlesAt candles evaluatedAt = (if \<not> validTimestamp evaluatedAt then []
     else filter (\<lambda>c. validTimestamp (closeTime c) \<and> closeTime c \<le> evaluatedAt) candles)"

definition evaluateRuntimeCandleAdmission ::
    "candle_admission_input \<Rightarrow> (string, candle_admission) result" where
  "evaluateRuntimeCandleAdmission input = (case timeframeMilliseconds (ca_timeframe input) of
     None \<Rightarrow> Inr (invalidAdmission None)
   | Some timeframeMs \<Rightarrow>
     let staleAfterMs = timeframeMs + RUNTIME_CANDLE_CLOSE_GRACE_MS in
     if \<not> validTimestamp (ca_latestClosedAt input) \<or> \<not> validTimestamp (ca_evaluatedAt input)
         \<or> ca_evaluatedAt input < ca_latestClosedAt input
     then Inr (invalidAdmission (Some staleAfterMs))
     else
       let ageMs = ca_evaluatedAt input - ca_latestClosedAt input in
       ebind (iso_or_throw (to_date (ca_latestClosedAt input))) (\<lambda>latestClosedAt.
       Inr (if staleAfterMs \<le> ageMs
         then \<lparr>cad_quality = Stale, cad_ageMs = Some ageMs, cad_staleAfterMs = Some staleAfterMs,
           cad_latestClosedAt = Some latestClosedAt, cad_entryAllowed = False,
           cad_reason = Some LatestClosedCandleStale\<rparr>
         else \<lparr>cad_quality = Fresh, cad_ageMs = Some ageMs, cad_staleAfterMs = Some staleAfterMs,
           cad_latestClosedAt = Some latestClosedAt, cad_entryAllowed = True, cad_reason = None\<rparr>)))"

subsection \<open>What is recorded of an admission\<close>

record admission_outcome =
  ao_action :: string
  ao_riskApproved :: bool
  ao_hasOrderIntent :: bool
  ao_rejectionReasons :: "string list option"

definition shouldPersistAdmission :: "admission_outcome \<Rightarrow> bool" where
  "shouldPersistAdmission outcome =
     (if ao_hasOrderIntent outcome then True
      else if \<not> ao_riskApproved outcome then True
      else if ao_rejectionReasons outcome \<noteq> None \<and> the (ao_rejectionReasons outcome) \<noteq> [] then True
      else ao_action outcome \<noteq> ''hold'')"

subsection \<open>Cycle planning\<close>

record cycle_selection =
  cs_selected :: candle
  cs_evaluationCandles :: "candle list"
  cs_hasBacklog :: bool

text \<open>\<open>findIndex\<close>, with \<open>None\<close> for -1.\<close>

fun find_index :: "('a \<Rightarrow> bool) \<Rightarrow> 'a list \<Rightarrow> nat option" where
  "find_index P [] = None"
| "find_index P (x # xs) = (if P x then Some 0 else map_option Suc (find_index P xs))"

definition selectCycleCandle :: "candle list \<Rightarrow> jsnum option \<Rightarrow> cycle_selection option" where
  "selectCycleCandle candles lastCandleCloseTime =
     (case (case lastCandleCloseTime of
         None \<Rightarrow> (if candles = [] then None else Some (last candles))
       | Some t \<Rightarrow> find (\<lambda>c. t < closeTime c) candles) of
       None \<Rightarrow> None
     | Some selected \<Rightarrow> Some \<lparr>cs_selected = selected,
         cs_evaluationCandles = (case find_index (\<lambda>c. js_eq (closeTime c) (closeTime selected)) candles of
            None \<Rightarrow> [] | Some i \<Rightarrow> take (i + 1) candles),
         cs_hasBacklog = (closeTime selected < closeTime (last candles))\<rparr>)"

definition deterministicCycleId :: "string \<Rightarrow> jsnum \<Rightarrow> string" where
  "deterministicCycleId deploymentId candleCloseTime = ''runtime:'' @ deploymentId @ '':'' @ js_show candleCloseTime"

definition deterministicDecisionRoundId :: "string \<Rightarrow> string \<Rightarrow> string \<Rightarrow> jsnum \<Rightarrow> string" where
  "deterministicDecisionRoundId strategyCode symbol timeframe candleCloseTime =
     ''round:'' @ strategyCode @ '':'' @ symbol @ '':'' @ timeframe @ '':'' @ js_show candleCloseTime"

definition nextPollAt :: "int option \<Rightarrow> bool \<Rightarrow> int option" where
  "nextPollAt now hasBacklog = to_date (date_ms now + (if hasBacklog then N 1000 else N 15000))"

definition resolveFundingWindowLimit :: "jsnum \<Rightarrow> jsnum \<Rightarrow> jsnum \<Rightarrow> jsnum" where
  "resolveFundingWindowLimit startTime endTime fundingIntervalHours =
     (let intervalMs = fundingIntervalHours * N 3600000;
          estimated = js_ceil ((endTime - startTime) / intervalMs) + N 10
      in js_max (js_min estimated (N 10000)) (N 1))"

definition spot_candle_ok :: "candle list \<Rightarrow> nat \<Rightarrow> bool" where
  "spot_candle_ok cs i = (let c = cs ! i in
     list_all is_finite [openTime c, closeTime c, cd_open c, cd_high c, cd_low c, cd_close c, cd_volume c]
     \<and> \<not> (cd_open c \<le> N 0 \<or> cd_high c \<le> N 0 \<or> cd_low c \<le> N 0 \<or> cd_close c \<le> N 0 \<or> cd_volume c < N 0
       \<or> closeTime c \<le> openTime c \<or> 0 < i \<and> openTime c \<le> openTime (cs ! (i - 1))))"

definition assertRuntimeSpotCandles :: "candle list \<Rightarrow> (string, unit) result" where
  "assertRuntimeSpotCandles candles =
     (if length candles < 2 then Inl ''TOO_FEW_CANDLES''
      else if list_ex (\<lambda>i. \<not> spot_candle_ok candles i) [0..<length candles] then Inl ''CANDLES_INVALID''
      else Inr ())"

subsection \<open>Overrides of a deployment\<close>

record risk_overrides =
  ro_positionSizePct :: "jsnum option"
  ro_stopLossPct :: "jsnum option"

definition tighten :: "jsnum \<Rightarrow> jsnum option \<Rightarrow> jsnum" where
  "tighten base override = (case override of None \<Rightarrow> base | Some x \<Rightarrow> js_min base x)"

definition tightenLeg :: "risk_overrides \<Rightarrow> strategy_leg_v3 \<Rightarrow> strategy_leg_v3" where
  "tightenLeg overrides leg = leg\<lparr>leg_stopLossPct := tighten (leg_stopLossPct leg) (ro_stopLossPct overrides)\<rparr>"

definition applyDeploymentRiskOverrides :: "strategy_dsl_v3 \<Rightarrow> risk_overrides \<Rightarrow> strategy_dsl_v3" where
  "applyDeploymentRiskOverrides base overrides = base
     \<lparr>pd_long := map_option (tightenLeg overrides) (pd_long base),
      pd_short := map_option (tightenLeg overrides) (pd_short base),
      pd_positionSizePct := tighten (pd_positionSizePct base) (ro_positionSizePct overrides)\<rparr>"

subsection \<open>Retry of an explanation\<close>

text \<open>The attempt count is a whole number, at least zero.\<close>

definition explanationRetryDelayMs :: "nat \<Rightarrow> jsnum" where
  "explanationRetryDelayMs attemptCount = js_min (N 5 * N 60000) (N 15000 * js_pow2 (int (max (attemptCount - 1) 0)))"

subsection \<open>The buckets of the cache\<close>

lemma rnd64_relative:
  assumes "0 \<le> x"
  shows "\<bar>rnd64 x - x\<bar> \<le> max x 1 / 2 ^ 53"
proof (cases "x = 0")
  case True
  then show ?thesis by (simp add: binary64.rnd_0)
next
  case False
  define k where "k = max 0 (ilog2 x)"
  have b: "2 powi ilog2 x \<le> x" using ilog2_bounds(1) [of x] False assms by simp
  have "(2::rat) powi k \<le> max x 1" using b by (auto simp: k_def max_def)
  moreover have "expo x - 1 \<le> k - 53" using assms by (simp add: expo_def k_def)
  then have "(2::rat) powi (expo x - 1) \<le> 2 powi (k - 53)" by (intro power_int_increasing) auto
  moreover have "(2::rat) powi (k - 53) = 2 powi k / 2 ^ 53" by (subst power_int_diff) simp_all
  ultimately show ?thesis using rnd64_error [of x] by (simp add: divide_right_mono order_trans)
qed

lemma floor_quotient:
  assumes "0 \<le> a" "a < 2 ^ 53" "0 < s" "s < 2 ^ 53"
  shows "\<lfloor>rnd64 (of_int a / of_int s)\<rfloor> = a div s"
proof -
  define q where "q = (of_int a / of_int s :: rat)"
  have s: "(0::rat) < of_int s" using assms(3) by simp
  have q0: "0 \<le> q" using assms(1) s by (simp add: q_def)
  have as: "q * of_int s = of_int a" using s by (simp add: q_def)
  have lt: "(of_int a :: rat) < of_int (2 ^ 53)" "(of_int s :: rat) < of_int (2 ^ 53)"
    using assms(2,4) by (simp_all only: of_int_less_iff)
  have "max q 1 * of_int s < 2 ^ 53" using lt as s by (simp add: max_def)
  then have small: "max q 1 / 2 ^ 53 < 1 / of_int s" by (simp only: less_divide_eq divide_less_eq s if_True) simp
  define k where "k = a div s"
  have e: "k * s = a - a mod s" unfolding k_def by (rule minus_mod_eq_div_mult [symmetric])
  have m: "0 \<le> a mod s" "a mod s < s" using assms(3) by simp_all
  have "(k + 1) * s = k * s + s" by (simp add: distrib_right)
  then have "k * s \<le> a" "a + 1 \<le> (k + 1) * s" using e m by linarith+
  then have "(of_int (k * s) :: rat) \<le> of_int a" "(of_int (a + 1) :: rat) \<le> of_int ((k + 1) * s)"
    by (simp_all only: of_int_le_iff)
  then have lo: "of_int k * of_int s \<le> q * of_int s" and hi: "q * of_int s + 1 \<le> of_int (k + 1) * of_int s"
    unfolding as by (simp_all only: of_int_mult of_int_add of_int_1)
  have lo': "of_int k \<le> q" using lo s by (rule mult_right_le_imp_le)
  have hi': "q + 1 / of_int s \<le> of_int (k + 1)" using hi s by (simp add: field_simps)
  have "\<bar>k\<bar> \<le> 2 ^ 53"
  proof -
    have "0 \<le> k" using assms by (simp add: k_def pos_imp_zdiv_nonneg_iff)
    moreover from this have "k * 1 \<le> k * s" using assms(3) by (intro mult_left_mono) simp_all
    ultimately show ?thesis using assms(2) \<open>k * s \<le> a\<close> by simp
  qed
  then have "of_int k \<le> rnd64 q" using rnd64_mono [OF lo'] by (simp add: rnd64_int)
  moreover have "rnd64 q < of_int (k + 1)"
    using rnd64_relative [OF q0] small hi' by (simp add: abs_if split: if_splits)
  ultimately show ?thesis unfolding q_def [symmetric] k_def [symmetric] by (simp add: floor_eq_iff)
qed

lemma js_floor_quotient:
  assumes "0 \<le> a" "a < 2 ^ 53" "0 < s" "s < 2 ^ 53"
  shows "js_floor (N (of_int a) / N (of_int s)) = N (of_int (a div s))"
proof -
  have q: "(0 :: rat) \<le> of_int a / of_int s" using assms by simp
  have "of_int a / of_int s \<le> (of_int (2 ^ 53) :: rat)"
  proof -
    have "(of_int a :: rat) \<le> of_int (2 ^ 53)" using assms(2) by (simp only: of_int_le_iff)
    moreover have "(of_int (2 ^ 53) :: rat) \<le> of_int (2 ^ 53) * of_int s" using assms(3) by simp
    ultimately show ?thesis using assms(3) by (simp add: field_simps)
  qed
  then have "js_of (of_int a / of_int s) \<le> N (of_int (2 ^ 53))"
    by (rule js_of_le_exact) (rule is_double_of_int, simp)
  then obtain c where c: "js_of (of_int a / of_int s) = N c" using js_of_nonneg [OF q] js_between_finite by blast
  then have "c = rnd64 (of_int a / of_int s)" using js_of_eq_NI by metis
  then show ?thesis using c floor_quotient [OF assms] assms(3) by simp
qed

lemma timeframe_cases:
  assumes "timeframeMilliseconds tf = Some x"
  obtains s where "x = N (of_int s)" "60000 \<le> s" "s \<le> 604800000"
proof -
  have "x \<in> {N (of_int 60000), N (of_int 300000), N (of_int 900000), N (of_int 1800000), N (of_int 3600000),
      N (of_int 14400000), N (of_int 86400000), N (of_int 604800000)}"
    using assms map_of_SomeD [of TIMEFRAME_MS tf x]
    by (simp add: timeframeMilliseconds_def TIMEFRAME_MS_def) auto
  then show thesis using that by fastforce
qed

lemma reusable_iff:
  assumes "0 \<le> f" "f \<le> max_time" "0 \<le> n" "n \<le> max_time"
    and "timeframeMilliseconds tf = Some (N (of_int s))"
  shows "isMarketSnapshotReusable (N (of_int f)) (N (of_int n)) tf \<longleftrightarrow> f \<le> n \<and> f div s = n div s"
proof -
  have s: "60000 \<le> s" "s \<le> 604800000" using timeframe_cases [OF assms(5)] by auto
  have "js_floor (N (of_int f) / N (of_int s)) = N (of_int (f div s))"
    "js_floor (N (of_int n) / N (of_int s)) = N (of_int (n div s))"
    by (rule js_floor_quotient; use assms s in \<open>simp add: max_time_def\<close>)+
  then show ?thesis
    using assms(5) by (simp add: isMarketSnapshotReusable_def not_less del: js_floor.simps divide_jsnum.simps)
qed

subsection \<open>Freshness\<close>

lemma validTimestamp_iff: "validTimestamp x \<longleftrightarrow> (\<exists>t. x = N (of_int t) \<and> 0 \<le> t \<and> t \<le> max_time)"
proof
  assume v: "validTimestamp x"
  then obtain a where a: "x = N a" "of_int \<lfloor>a\<rfloor> = a" "0 \<le> a" "a \<le> 8640000000000000"
    by (cases x) (auto simp: validTimestamp_def MAX_DATE_TIMESTAMP_MS_def)
  then have "(of_int \<lfloor>a\<rfloor> :: rat) \<le> of_int max_time" by (simp add: max_time_def)
  then have "\<lfloor>a\<rfloor> \<le> max_time" by (simp only: of_int_le_iff)
  then show "\<exists>t. x = N (of_int t) \<and> 0 \<le> t \<and> t \<le> max_time" using a by (intro exI [of _ "\<lfloor>a\<rfloor>"]) (simp only: jsnum.inject zero_le_floor)
next
  assume "\<exists>t. x = N (of_int t) \<and> 0 \<le> t \<and> t \<le> max_time"
  then obtain t where t: "x = N (of_int t)" "0 \<le> t" "t \<le> max_time" by blast
  then have "(of_int t :: rat) \<le> of_int max_time" by (simp only: of_int_le_iff)
  then show "validTimestamp x"
    using t by (simp add: validTimestamp_def MAX_DATE_TIMESTAMP_MS_def max_time_def)
qed

text \<open>The two dates of an accepted input, as whole numbers of milliseconds.\<close>

definition fresh_at :: "candle_admission_input \<Rightarrow> int \<Rightarrow> int \<Rightarrow> int \<Rightarrow> bool" where
  "fresh_at input s c e \<longleftrightarrow> timeframeMilliseconds (ca_timeframe input) = Some (N (of_int s))
     \<and> ca_latestClosedAt input = N (of_int c) \<and> ca_evaluatedAt input = N (of_int e)
     \<and> 0 \<le> c \<and> c \<le> e \<and> e \<le> max_time \<and> e - c < s + 30000"

lemma admission_cases:
  assumes "timeframeMilliseconds (ca_timeframe input) = Some (N (of_int s))" "60000 \<le> s" "s \<le> 604800000"
    and "ca_latestClosedAt input = N (of_int c)" "ca_evaluatedAt input = N (of_int e)"
    and "0 \<le> c" "c \<le> e" "e \<le> max_time"
  shows "\<exists>a. evaluateRuntimeCandleAdmission input = Inr a \<and> cad_quality a = (if e - c < s + 30000 then Fresh else Stale)
     \<and> cad_entryAllowed a = (e - c < s + 30000)"
proof -
  have v: "validTimestamp (N (of_int c))" "validTimestamp (N (of_int e))"
    using assms(6-8) by (auto simp: validTimestamp_iff)
  have stale: "N (of_int s) + RUNTIME_CANDLE_CLOSE_GRACE_MS = N (of_int (s + 30000))"
    using js_of_int [of "s + 30000"] assms(2,3) by (simp add: RUNTIME_CANDLE_CLOSE_GRACE_MS_def)
  have age: "N (of_int e) - N (of_int c) = N (of_int (e - c))"
    using js_of_int [of "e - c"] assms(6-8) by (simp add: max_time_def)
  have "\<bar>of_int c\<bar> \<le> (of_int max_time :: rat)" using assms(6-8) by (simp add: max_time_def)
  then have "to_date (N (of_int c)) = Some c" using assms(6) by simp
  then have "iso_or_throw (to_date (N (of_int c))) = Inr (iso_text c)" by (simp add: iso_or_throw_def to_iso_def)
  moreover have "N (of_int (s + 30000)) \<le> N (of_int (e - c)) \<longleftrightarrow> \<not> e - c < s + 30000"
    by (simp only: less_eq_jsnum.simps of_int_le_iff) auto
  moreover have "\<not> N (of_int e) < N (of_int c)" using assms(7) by simp
  ultimately show ?thesis
    using assms(1,4,5) v
    by (simp add: evaluateRuntimeCandleAdmission_def Let_def stale age
        del: less_jsnum.simps less_eq_jsnum.simps to_date.simps of_int_add of_int_diff js_minus_N plus_jsnum.simps)
qed

lemma admission_facts:
  "\<exists>a. evaluateRuntimeCandleAdmission input = Inr a \<and> (cad_entryAllowed a \<longleftrightarrow> (\<exists>s c e. fresh_at input s c e))
     \<and> (cad_entryAllowed a \<longleftrightarrow> cad_quality a = Fresh)"
proof (cases "timeframeMilliseconds (ca_timeframe input)")
  case None
  then show ?thesis
    by (simp add: evaluateRuntimeCandleAdmission_def invalidAdmission_def fresh_at_def)
next
  case (Some x)
  then obtain s where s: "timeframeMilliseconds (ca_timeframe input) = Some (N (of_int s))" "60000 \<le> s" "s \<le> 604800000"
    using timeframe_cases by metis
  show ?thesis
  proof (cases "\<exists>c e. ca_latestClosedAt input = N (of_int c) \<and> ca_evaluatedAt input = N (of_int e)
      \<and> 0 \<le> c \<and> c \<le> e \<and> e \<le> max_time")
    case True
    then obtain c e where ce: "ca_latestClosedAt input = N (of_int c)" "ca_evaluatedAt input = N (of_int e)"
      "0 \<le> c" "c \<le> e" "e \<le> max_time" by blast
    have "(\<exists>s c e. fresh_at input s c e) \<longleftrightarrow> e - c < s + 30000" using s(1) ce by (auto simp: fresh_at_def)
    then show ?thesis using admission_cases [OF s ce] by auto
  next
    case False
    then have "\<not> (\<exists>s c e. fresh_at input s c e)" unfolding fresh_at_def by blast
    moreover have "\<not> validTimestamp (ca_latestClosedAt input) \<or> \<not> validTimestamp (ca_evaluatedAt input)
         \<or> ca_evaluatedAt input < ca_latestClosedAt input"
      using False unfolding validTimestamp_iff by (auto simp: not_less)
    ultimately show ?thesis using s(1)
      by (simp add: evaluateRuntimeCandleAdmission_def Let_def invalidAdmission_def)
  qed
qed

subsection \<open>Cycles\<close>

definition closes_increasing :: "candle list \<Rightarrow> bool" where
  "closes_increasing cs \<longleftrightarrow> (\<forall>c \<in> set cs. is_finite (closeTime c)) \<and> sorted_wrt (\<lambda>a b. closeTime a < closeTime b) cs"

lemma js_less_antisym: "x < (y :: jsnum) \<Longrightarrow> \<not> js_eq x y \<and> \<not> js_eq y x \<and> \<not> y < x"
  by (cases x; cases y) (auto simp: js_eq_def)

lemma find_index_split:
  assumes "closes_increasing (ys @ c # zs)"
  shows "find_index (\<lambda>x. js_eq (closeTime x) (closeTime c)) (ys @ c # zs) = Some (length ys)"
  using assms
proof (induction ys)
  case Nil
  then have "is_finite (closeTime c)" by (simp add: closes_increasing_def)
  then show ?case by (cases "closeTime c") (simp_all add: js_eq_def)
next
  case (Cons y ys)
  then have "closeTime y < closeTime c" "closes_increasing (ys @ c # zs)" by (auto simp: closes_increasing_def)
  then show ?case using Cons.IH js_less_antisym [of "closeTime y" "closeTime c"] by simp
qed

lemma last_later:
  assumes "closes_increasing (ys @ c # zs)"
  shows "closeTime c < closeTime (last (ys @ c # zs)) \<longleftrightarrow> zs \<noteq> []"
proof (cases zs)
  case Nil
  have "is_finite (closeTime c)" using assms by (simp add: closes_increasing_def)
  then have "\<not> closeTime c < closeTime c" by (cases "closeTime c") auto
  then show ?thesis using Nil by simp
next
  case (Cons z ws)
  have "last zs \<in> set zs" using Cons by simp
  then show ?thesis using assms Cons by (auto simp: closes_increasing_def sorted_wrt_append)
qed

lemma selectCycleCandle_split:
  assumes "closes_increasing cs" "selectCycleCandle cs t = Some sel"
  obtains ys zs where "cs = ys @ cs_selected sel # zs" "cs_evaluationCandles sel = ys @ [cs_selected sel]"
    "cs_hasBacklog sel \<longleftrightarrow> zs \<noteq> []"
    "t = None \<Longrightarrow> zs = []" "\<And>x. t = Some x \<Longrightarrow> x < closeTime (cs_selected sel) \<and> (\<forall>y \<in> set ys. \<not> x < closeTime y)"
proof -
  obtain c where c: "(case t of None \<Rightarrow> if cs = [] then None else Some (last cs)
      | Some x \<Rightarrow> find (\<lambda>c. x < closeTime c) cs) = Some c"
    using assms(2) by (auto simp: selectCycleCandle_def split: option.splits)
  have "\<exists>ys zs. cs = ys @ c # zs \<and> (t = None \<longrightarrow> zs = [])
      \<and> (\<forall>x. t = Some x \<longrightarrow> x < closeTime c \<and> (\<forall>y \<in> set ys. \<not> x < closeTime y))"
  proof (cases t)
    case None
    then have "cs = butlast cs @ [c]" using c by (auto split: if_splits)
    then show ?thesis using None by blast
  next
    case (Some x)
    then show ?thesis using find_Some_first [of "\<lambda>c. x < closeTime c" cs c] c by fastforce
  qed
  then obtain ys zs where x: "cs = ys @ c # zs" "t = None \<longrightarrow> zs = []"
    "\<forall>x. t = Some x \<longrightarrow> x < closeTime c \<and> (\<forall>y \<in> set ys. \<not> x < closeTime y)" by blast
  have inc: "closes_increasing (ys @ c # zs)" using assms(1) x(1) by simp
  have "sel = \<lparr>cs_selected = c, cs_evaluationCandles = ys @ [c], cs_hasBacklog = (zs \<noteq> [])\<rparr>"
    using assms(2) find_index_split [OF inc] last_later [OF inc]
    unfolding selectCycleCandle_def c by (simp add: x(1))
  then show thesis using x by (intro that [of ys zs]) auto
qed

subsection \<open>Overrides\<close>

lemma tighten_le:
  assumes "is_finite base" "\<forall>x. override = Some x \<longrightarrow> is_finite x"
  shows "tighten base override \<le> base" "\<And>x. override = Some x \<Longrightarrow> tighten base override \<le> x"
    "tighten base override = base \<or> Some (tighten base override) = override"
  using assms js_min_le [of base] by (auto simp: tighten_def js_min_def split: option.split)

lemma applied_leg:
  "leg_of (applyDeploymentRiskOverrides base overrides) sd = map_option (tightenLeg overrides) (leg_of base sd)"
  by (cases sd) (simp_all add: applyDeploymentRiskOverrides_def leg_of_def)

subsection \<open>Properties\<close>

text \<open>A market snapshot is reused exactly within the candle it was fetched in: for whole times that
are dates, the comparison of the two rounded quotients is the comparison of the exact candle
numbers, so that no snapshot survives the close of a candle.\<close>

theorem snapshot_reused_within_candle:
  assumes "0 \<le> f" "f \<le> max_time" "0 \<le> n" "n \<le> max_time" "timeframeMilliseconds tf = Some (N (of_int s))"
  shows "isMarketSnapshotReusable (N (of_int f)) (N (of_int n)) tf \<longleftrightarrow> f \<le> n \<and> f div s = n div s"
  by (rule reusable_iff [OF assms])

theorem snapshot_reused_within_candle_witness:
  "\<not> isMarketSnapshotReusable (N (of_int 299999)) (N (of_int 300000)) ''5m''"
proof -
  have "timeframeMilliseconds ''5m'' = Some (N (of_int 300000))"
    by (simp add: timeframeMilliseconds_def TIMEFRAME_MS_def)
  from snapshot_reused_within_candle [OF _ _ _ _ this, of 299999 300000] show ?thesis by (simp add: max_time_def)
qed

text \<open>The candle admission never throws, and it allows an entry exactly when the timeframe is known,
both times are whole dates in order, and the candle closed less than one timeframe and thirty
seconds ago; everything else, unreadable times included, blocks entries.\<close>

theorem candle_admission_exact:
  "\<exists>a. evaluateRuntimeCandleAdmission input = Inr a \<and> (cad_entryAllowed a \<longleftrightarrow> (\<exists>s c e. fresh_at input s c e))
     \<and> (cad_entryAllowed a \<longleftrightarrow> cad_quality a = Fresh)"
  by (rule admission_facts)

text \<open>A cycle works on the first candle that closed after the last decision (on the latest one before
any decision), is given exactly the candles up to it, and knows whether later ones wait: no closed
candle is skipped, decided twice or seen early.\<close>

theorem cycle_takes_next_candle:
  assumes "closes_increasing cs" "selectCycleCandle cs last_close = Some sel"
  shows "\<exists>ys zs. cs = ys @ cs_selected sel # zs \<and> cs_evaluationCandles sel = ys @ [cs_selected sel]
    \<and> (cs_hasBacklog sel \<longleftrightarrow> zs \<noteq> []) \<and> (last_close = None \<longrightarrow> zs = [])
    \<and> (\<forall>t. last_close = Some t \<longrightarrow> t < closeTime (cs_selected sel) \<and> (\<forall>y \<in> set ys. \<not> t < closeTime y))"
  by (rule selectCycleCandle_split [OF assms]) blast

theorem cycle_takes_next_candle_witness:
  "\<exists>ys zs. [rising_candle 1, rising_candle 2, rising_candle 3] = ys @ rising_candle 2 # zs \<and> length ys = 1"
proof -
  have i: "closes_increasing [rising_candle 1, rising_candle 2, rising_candle 3]"
    by (simp add: closes_increasing_def rising_candle_def)
  have "\<exists>sel. selectCycleCandle [rising_candle 1, rising_candle 2, rising_candle 3] (Some (N 1)) = Some sel
      \<and> cs_selected sel = rising_candle 2 \<and> length (cs_evaluationCandles sel) = 2"
    by (simp add: selectCycleCandle_def rising_candle_def)
  then obtain sel where s: "selectCycleCandle [rising_candle 1, rising_candle 2, rising_candle 3] (Some (N 1)) = Some sel"
    "cs_selected sel = rising_candle 2" "length (cs_evaluationCandles sel) = 2" by blast
  show ?thesis using cycle_takes_next_candle [OF i s(1)] s(2,3) by fastforce
qed

text \<open>A deployment can only tighten its strategy: with finite overrides, the position size and the
stop of each leg are at most the strategy's and at most the override, and nothing else changes.\<close>

theorem overrides_only_tighten:
  assumes "is_finite (pd_positionSizePct base)" "\<forall>sd l. leg_of base sd = Some l \<longrightarrow> is_finite (leg_stopLossPct l)"
    and "\<forall>x. ro_positionSizePct ov = Some x \<or> ro_stopLossPct ov = Some x \<longrightarrow> is_finite x"
  shows "pd_positionSizePct (applyDeploymentRiskOverrides base ov) \<le> pd_positionSizePct base
    \<and> (\<forall>x. ro_positionSizePct ov = Some x \<longrightarrow> pd_positionSizePct (applyDeploymentRiskOverrides base ov) \<le> x)
    \<and> (\<forall>sd l'. leg_of (applyDeploymentRiskOverrides base ov) sd = Some l' \<longrightarrow>
        (\<exists>l. leg_of base sd = Some l \<and> leg_entry l' = leg_entry l \<and> leg_exit l' = leg_exit l
          \<and> leg_takeProfitPct l' = leg_takeProfitPct l \<and> leg_stopLossPct l' \<le> leg_stopLossPct l
          \<and> (\<forall>x. ro_stopLossPct ov = Some x \<longrightarrow> leg_stopLossPct l' \<le> x)))
    \<and> pd_maxDrawdownPct (applyDeploymentRiskOverrides base ov) = pd_maxDrawdownPct base
    \<and> pd_direction (applyDeploymentRiskOverrides base ov) = pd_direction base"
proof -
  have size: "pd_positionSizePct (applyDeploymentRiskOverrides base ov)
      = tighten (pd_positionSizePct base) (ro_positionSizePct ov)" by (simp add: applyDeploymentRiskOverrides_def)
  have leg: "\<exists>l. leg_of base sd = Some l \<and> leg_entry l' = leg_entry l \<and> leg_exit l' = leg_exit l
          \<and> leg_takeProfitPct l' = leg_takeProfitPct l \<and> leg_stopLossPct l' \<le> leg_stopLossPct l
          \<and> (\<forall>x. ro_stopLossPct ov = Some x \<longrightarrow> leg_stopLossPct l' \<le> x)"
    if l': "leg_of (applyDeploymentRiskOverrides base ov) sd = Some l'" for sd l'
  proof -
    obtain l where l: "leg_of base sd = Some l" "l' = tightenLeg ov l" using l' by (auto simp: applied_leg)
    then have "leg_stopLossPct l' = tighten (leg_stopLossPct l) (ro_stopLossPct ov)" by (simp add: tightenLeg_def)
    then show ?thesis using l assms(2,3) tighten_le [of "leg_stopLossPct l" "ro_stopLossPct ov"]
      by (auto simp: tightenLeg_def)
  qed
  show ?thesis
    using leg tighten_le [of "pd_positionSizePct base" "ro_positionSizePct ov"] assms(1,3)
    by (simp add: size) (simp add: applyDeploymentRiskOverrides_def)
qed

theorem overrides_only_tighten_witness:
  "pd_positionSizePct (applyDeploymentRiskOverrides sample_dsl \<lparr>ro_positionSizePct = Some (N 5), ro_stopLossPct = Some (N 9)\<rparr>) \<le> N 5"
proof -
  let ?ov = "\<lparr>ro_positionSizePct = Some (N 5), ro_stopLossPct = Some (N 9)\<rparr>"
  have "\<forall>sd l. leg_of sample_dsl sd = Some l \<longrightarrow> is_finite (leg_stopLossPct l)"
    by (auto simp: leg_of_def sample_dsl_def sample_leg_def split: position_dir.splits)
  moreover have "is_finite (pd_positionSizePct sample_dsl)" by (simp add: sample_dsl_def)
  moreover have "\<forall>x. ro_positionSizePct ?ov = Some x \<or> ro_stopLossPct ?ov = Some x \<longrightarrow> is_finite x" by auto
  ultimately show ?thesis using overrides_only_tighten [of sample_dsl ?ov] by simp
qed

end
