(* ===== verification/OfficialStrategies.thy ===== *)
theory OfficialStrategies
  imports PerpetualBacktest
begin

text \<open>
  The platform's three official spot strategies: their definitions (\<open>contracts/src/trading-hall.ts\<close>,
  \<open>domain/src/platform-ai-strategies.ts\<close>), the original evaluation of a strategy on candles
  (\<open>evaluatePlatformStrategy\<close>), their conversion to condition trees and the contract check on a stored
  specification (\<open>platform-strategy-v3.ts\<close>). The conversion is proved against the original. Display
  texts (names, reasons, objections) are codes; the messages of the agents, which are texts over the
  figures of the signal, are left out.
\<close>

subsection \<open>Definitions\<close>

datatype platform_code = AiConservative | AiBalanced | AiAggressive

datatype risk_level = LowRisk | MediumRisk | HighRisk

record official_risk =
  or_maxAssetAllocationPct :: jsnum
  or_maxTotalAllocationPct :: jsnum
  or_riskPerTradePct :: jsnum
  or_dailyLossHaltPct :: jsnum
  or_maxDrawdownPct :: jsnum
  or_maxNewEntriesPerDay :: jsnum
  or_maxConcurrentAssets :: jsnum

record platform_definition =
  df_code :: platform_code
  df_name :: string
  df_symbols :: "string list"
  df_decisionTimeframes :: "string list"
  df_risk :: official_risk
  df_publicId :: string
  df_riskLevel :: risk_level
  df_minimumConfidence :: jsnum

fun code_text :: "platform_code \<Rightarrow> string" where
  "code_text AiConservative = ''ai_conservative''"
| "code_text AiBalanced = ''ai_balanced''"
| "code_text AiAggressive = ''ai_aggressive''"

definition platform_codes :: "platform_code list" where
  "platform_codes = [AiConservative, AiBalanced, AiAggressive]"

fun officialTradingHallStrategies :: "platform_code \<Rightarrow> platform_definition" where
  "officialTradingHallStrategies AiConservative = \<lparr>df_code = AiConservative, df_name = ''NAME_CONSERVATIVE'',
     df_symbols = [''BTCUSDT'', ''ETHUSDT''], df_decisionTimeframes = [''1h''],
     df_risk = \<lparr>or_maxAssetAllocationPct = N 15, or_maxTotalAllocationPct = N 25, or_riskPerTradePct = lit (3 / 10),
       or_dailyLossHaltPct = N 1, or_maxDrawdownPct = N 6, or_maxNewEntriesPerDay = N 2, or_maxConcurrentAssets = N 2\<rparr>,
     df_publicId = ''ai-stable'', df_riskLevel = LowRisk, df_minimumConfidence = N 72\<rparr>"
| "officialTradingHallStrategies AiBalanced = \<lparr>df_code = AiBalanced, df_name = ''NAME_BALANCED'',
     df_symbols = [''BTCUSDT'', ''ETHUSDT'', ''SOLUSDT''], df_decisionTimeframes = [''1h'', ''15m''],
     df_risk = \<lparr>or_maxAssetAllocationPct = N 25, or_maxTotalAllocationPct = N 50, or_riskPerTradePct = N (1 / 2),
       or_dailyLossHaltPct = N 2, or_maxDrawdownPct = N 10, or_maxNewEntriesPerDay = N 4, or_maxConcurrentAssets = N 2\<rparr>,
     df_publicId = ''ai-balanced'', df_riskLevel = MediumRisk, df_minimumConfidence = N 68\<rparr>"
| "officialTradingHallStrategies AiAggressive = \<lparr>df_code = AiAggressive, df_name = ''NAME_AGGRESSIVE'',
     df_symbols = [''BTCUSDT'', ''ETHUSDT'', ''SOLUSDT''], df_decisionTimeframes = [''15m''],
     df_risk = \<lparr>or_maxAssetAllocationPct = N 35, or_maxTotalAllocationPct = N 70, or_riskPerTradePct = lit (8 / 10),
       or_dailyLossHaltPct = N 3, or_maxDrawdownPct = N 15, or_maxNewEntriesPerDay = N 6, or_maxConcurrentAssets = N 2\<rparr>,
     df_publicId = ''ai-aggressive'', df_riskLevel = HighRisk, df_minimumConfidence = N 75\<rparr>"

abbreviation PLATFORM_AI_STRATEGIES :: "platform_code \<Rightarrow> platform_definition" where
  "PLATFORM_AI_STRATEGIES \<equiv> officialTradingHallStrategies"

definition df_interval :: "platform_definition \<Rightarrow> string" where
  "df_interval d = last (df_decisionTimeframes d)"

definition platformStrategyCodeFromPublicId :: "string \<Rightarrow> platform_code option" where
  "platformStrategyCodeFromPublicId v =
     find (\<lambda>c. df_publicId (PLATFORM_AI_STRATEGIES c) = v \<or> code_text c = v) platform_codes"

definition platform_code_of :: "string \<Rightarrow> platform_code option" where
  "platform_code_of v = find (\<lambda>c. code_text c = v) platform_codes"

subsection \<open>The original evaluation\<close>

definition roundTo :: "nat \<Rightarrow> jsnum \<Rightarrow> jsnum" where
  "roundTo digits v = js_fixed digits v"

definition clamp :: "jsnum \<Rightarrow> jsnum \<Rightarrow> jsnum \<Rightarrow> jsnum" where
  "clamp v minimum maximum = js_min maximum (js_max minimum v)"

text \<open>The series are called with at least \<open>period\<close> values.\<close>

definition platformEma :: "jsnum list \<Rightarrow> nat \<Rightarrow> jsnum list" where
  "platformEma values period = (let multiplier = N 2 / (cnt period + N 1) in
     replicate (period - 1) NaN @ scan (\<lambda>current v. (v - current) * multiplier + current)
       (sum_of (take period values) / cnt period) (drop period values))"

definition platformRsi :: "jsnum list \<Rightarrow> nat \<Rightarrow> jsnum" where
  "platformRsi values period =
     (let change = (\<lambda>i. values ! i - values ! (i - 1)); idx = [length values - period..<length values];
          gains = sum_of (map (\<lambda>i. js_max (N 0) (change i)) idx);
          losses = sum_of (map (\<lambda>i. js_max (N 0) (- change i)) idx)
      in if js_eq losses (N 0) then N 100 else N 100 - N 100 / (N 1 + gains / js_max losses js_epsilon))"

definition platformAtr :: "candle list \<Rightarrow> nat \<Rightarrow> jsnum" where
  "platformAtr candles period =
     (let rows = drop (length candles - period) candles;
          ranges = map (\<lambda>i. true_range (rows ! i) (if i = 0 then cd_open (rows ! i) else cd_close (rows ! (i - 1))))
            [0..<length rows]
      in sum_of ranges / cnt (length ranges))"

definition standardDeviation :: "jsnum list \<Rightarrow> jsnum" where
  "standardDeviation values = (let average = sum_of values / cnt (length values) in
     js_sqrt (sum_of (map (\<lambda>v. (v - average) * (v - average)) values) / cnt (length values)))"

datatype platform_action = ActEnter | ActExit | ActHold

datatype objection = VolatilityTooHigh | RsiOverheated | VolumeTooLow

record platform_metrics =
  pm_lastPrice :: jsnum
  pm_ema9 :: jsnum
  pm_ema21 :: jsnum
  pm_ema55 :: jsnum
  pm_rsi14 :: jsnum
  pm_atrPct :: jsnum
  pm_volumeRatio :: jsnum
  pm_momentum6Pct :: jsnum
  pm_channelHigh20 :: jsnum
  pm_channelLow10 :: jsnum
  pm_bollingerUpper :: jsnum
  pm_bollingerLower :: jsnum
  pm_candleCloseTime :: string

record platform_signal =
  sg_action :: platform_action
  sg_confidence :: jsnum
  sg_reason :: string
  sg_metrics :: platform_metrics
  sg_approved :: bool
  sg_risk :: official_risk
  sg_objections :: "objection list"

text \<open>The unrounded figures the decision is taken on.\<close>

record figures =
  fg_last :: candle
  fg_fast :: jsnum
  fg_medium :: jsnum
  fg_slow :: jsnum
  fg_strength :: jsnum
  fg_atrPct :: jsnum
  fg_volumeRatio :: jsnum
  fg_momentum6Pct :: jsnum
  fg_channelHigh20 :: jsnum
  fg_channelLow10 :: jsnum
  fg_average20 :: jsnum
  fg_deviation20 :: jsnum

definition figures_of :: "candle list \<Rightarrow> figures" where
  "figures_of cs =
     (let closes = map cd_close cs; volumes = map cd_volume cs; n = length cs; lst = cs ! (n - 1);
          volumeAverage = item (platformEma volumes 20) (n - 1); last20 = drop (n - 20) closes
      in \<lparr>fg_last = lst, fg_fast = item (platformEma closes 9) (n - 1),
          fg_medium = item (platformEma closes 21) (n - 1), fg_slow = item (platformEma closes 55) (n - 1),
          fg_strength = platformRsi closes 14, fg_atrPct = platformAtr cs 14 / cd_close lst * N 100,
          fg_volumeRatio = (if N 0 < volumeAverage then cd_volume lst / volumeAverage else N 0),
          fg_momentum6Pct = (cd_close lst / closes ! (n - 1 - 6) - N 1) * N 100,
          fg_channelHigh20 = max_of (map cd_high (slice_of (n - 21) 20 cs)),
          fg_channelLow10 = min_of (map cd_low (slice_of (n - 11) 10 cs)),
          fg_average20 = sum_of last20 / cnt (length last20), fg_deviation20 = standardDeviation last20\<rparr>)"

definition metrics_of :: "figures \<Rightarrow> string \<Rightarrow> platform_metrics" where
  "metrics_of f closeText =
     \<lparr>pm_lastPrice = roundTo 8 (cd_close (fg_last f)), pm_ema9 = roundTo 8 (fg_fast f),
      pm_ema21 = roundTo 8 (fg_medium f), pm_ema55 = roundTo 8 (fg_slow f), pm_rsi14 = roundTo 2 (fg_strength f),
      pm_atrPct = roundTo 3 (fg_atrPct f), pm_volumeRatio = roundTo 3 (fg_volumeRatio f),
      pm_momentum6Pct = roundTo 3 (fg_momentum6Pct f), pm_channelHigh20 = roundTo 8 (fg_channelHigh20 f),
      pm_channelLow10 = roundTo 8 (fg_channelLow10 f),
      pm_bollingerUpper = roundTo 8 (fg_average20 f + fg_deviation20 f * N 2),
      pm_bollingerLower = roundTo 8 (fg_average20 f - fg_deviation20 f * N 2),
      pm_candleCloseTime = closeText\<rparr>"

definition volatility_limit :: "risk_level \<Rightarrow> jsnum" where
  "volatility_limit l = (case l of LowRisk \<Rightarrow> lit (22 / 10) | MediumRisk \<Rightarrow> lit (32 / 10) | HighRisk \<Rightarrow> lit (45 / 10))"

definition objections_of :: "risk_level \<Rightarrow> figures \<Rightarrow> objection list" where
  "objections_of l f = (if volatility_limit l < fg_atrPct f then [VolatilityTooHigh] else [])
     @ (if N 78 \<le> fg_strength f then [RsiOverheated] else [])
     @ (if fg_volumeRatio f < lit (72 / 100) then [VolumeTooLow] else [])"

definition trendAligned :: "figures \<Rightarrow> bool" where
  "trendAligned f \<longleftrightarrow> fg_medium f < fg_fast f \<and> fg_slow f < fg_medium f"

definition strength_in :: "figures \<Rightarrow> jsnum \<Rightarrow> jsnum \<Rightarrow> bool" where
  "strength_in f lo hi \<longleftrightarrow> lo \<le> fg_strength f \<and> fg_strength f \<le> hi"

text \<open>Points that a condition adds to the confidence.\<close>

definition points :: "bool \<Rightarrow> rat \<Rightarrow> jsnum" where
  "points b n = (if b then N n else N 0)"

record opinion =
  pn_entryCandidate :: bool
  pn_exitCandidate :: bool
  pn_baseConfidence :: jsnum
  pn_reason :: string

definition reason_of :: "bool \<Rightarrow> bool \<Rightarrow> string \<Rightarrow> string \<Rightarrow> string" where
  "reason_of entry exit entryText exitText =
     (if exit then exitText else if entry then entryText else ''WAITING'')"

definition conservativeOpinion :: "figures \<Rightarrow> opinion" where
  "conservativeOpinion f =
     (let entry = (trendAligned f \<and> N 48 \<le> fg_strength f \<and> fg_strength f \<le> N 67
            \<and> lit (8 / 10) \<le> fg_volumeRatio f \<and> fg_atrPct f \<le> lit (22 / 10));
          exit = (cd_close (fg_last f) < fg_medium f \<or> fg_strength f < N 40 \<or> N 76 < fg_strength f)
      in \<lparr>pn_entryCandidate = entry, pn_exitCandidate = exit,
          pn_baseConfidence = N 44 + points (trendAligned f) 22 + points (strength_in f (N 48) (N 67)) 13
            + clamp ((fg_volumeRatio f - lit (7 / 10)) * N 18) (N 0) (N 12)
            - points (lit (22 / 10) < fg_atrPct f) 18,
          pn_reason = reason_of entry exit ''CONSERVATIVE_ENTRY'' ''CONSERVATIVE_EXIT''\<rparr>)"

definition balancedOpinion :: "figures \<Rightarrow> opinion" where
  "balancedOpinion f =
     (let trendEntry = (trendAligned f \<and> N 44 \<le> fg_strength f \<and> fg_strength f \<le> N 72
            \<and> lit (82 / 100) \<le> fg_volumeRatio f);
          rangeEntry = (cd_close (fg_last f) \<le> pm_bollingerLower (metrics_of f []) \<and> fg_strength f \<le> N 34
            \<and> cd_open (fg_last f) < cd_close (fg_last f));
          entry = ((trendEntry \<or> rangeEntry) \<and> fg_atrPct f \<le> lit (32 / 10));
          exit = (cd_close (fg_last f) < fg_medium f \<and> fg_strength f < N 43 \<or> N 79 < fg_strength f)
      in \<lparr>pn_entryCandidate = entry, pn_exitCandidate = exit,
          pn_baseConfidence = N 43 + points (trendAligned f) 18 + points rangeEntry 22
            + points (strength_in f (N 44) (N 72)) 10
            + clamp ((fg_volumeRatio f - lit (7 / 10)) * N 17) (N 0) (N 13)
            - points (lit (32 / 10) < fg_atrPct f) 18,
          pn_reason = reason_of entry exit (if rangeEntry then ''RANGE_ENTRY'' else ''TREND_ENTRY'') ''BALANCED_EXIT''\<rparr>)"

definition aggressiveOpinion :: "figures \<Rightarrow> opinion" where
  "aggressiveOpinion f =
     (let breakout = (fg_channelHigh20 f < cd_close (fg_last f) \<and> lit (112 / 100) \<le> fg_volumeRatio f);
          momentum = (lit (11 / 10) \<le> fg_momentum6Pct f \<and> fg_medium f < fg_fast f
            \<and> lit (102 / 100) \<le> fg_volumeRatio f);
          entry = ((breakout \<or> momentum) \<and> fg_strength f \<le> N 80 \<and> fg_atrPct f \<le> lit (45 / 10));
          exit = (cd_close (fg_last f) < fg_fast f \<or> fg_momentum6Pct f \<le> - lit (75 / 100)
            \<or> cd_close (fg_last f) < fg_channelLow10 f)
      in \<lparr>pn_entryCandidate = entry, pn_exitCandidate = exit,
          pn_baseConfidence = N 42 + points breakout 24 + points momentum 18
            + clamp ((fg_volumeRatio f - lit (85 / 100)) * N 18) (N 0) (N 14)
            - points (N 80 < fg_strength f) 20 - points (lit (45 / 10) < fg_atrPct f) 20,
          pn_reason = reason_of entry exit (if breakout then ''BREAKOUT_ENTRY'' else ''MOMENTUM_ENTRY'') ''AGGRESSIVE_EXIT''\<rparr>)"

definition opinion_of :: "platform_code \<Rightarrow> figures \<Rightarrow> opinion" where
  "opinion_of c f = (case c of AiConservative \<Rightarrow> conservativeOpinion f | AiBalanced \<Rightarrow> balancedOpinion f
     | AiAggressive \<Rightarrow> aggressiveOpinion f)"

definition platformDecision :: "platform_definition \<Rightarrow> figures \<Rightarrow> bool \<Rightarrow> platform_action \<times> jsnum \<times> string" where
  "platformDecision d f hasOpenPosition =
     (let p = opinion_of (df_code d) f; objections = objections_of (df_riskLevel d) f;
          confidence = js_round (clamp (pn_baseConfidence p) (N 0) (N 99));
          action1 = (if hasOpenPosition \<and> pn_exitCandidate p then ActExit else ActHold);
          action = (if \<not> hasOpenPosition \<and> pn_entryCandidate p \<and> df_minimumConfidence d \<le> confidence
              \<and> length objections < 2 then ActEnter else action1);
          reason = (if pn_entryCandidate p \<and> action = ActHold \<and> \<not> hasOpenPosition then ''BELOW_THRESHOLD'' else pn_reason p)
      in (action, confidence, reason))"

definition evaluatePlatformStrategy ::
    "platform_definition \<Rightarrow> candle list \<Rightarrow> bool \<Rightarrow> (string, platform_signal) result" where
  "evaluatePlatformStrategy d cs hasOpenPosition =
     (if length cs < 90 then Inl ''TOO_FEW_CANDLES''
      else let f = figures_of cs in
        ebind (iso_or_throw (to_date (closeTime (fg_last f)))) (\<lambda>closeText.
        let objections = objections_of (df_riskLevel d) f;
            (action, confidence, reason) = platformDecision d f hasOpenPosition
        in Inr \<lparr>sg_action = action, sg_confidence = confidence, sg_reason = reason,
             sg_metrics = metrics_of f closeText,
             sg_approved = (action \<noteq> ActEnter \<or> length objections < 2 \<and> df_minimumConfidence d \<le> confidence),
             sg_risk = df_risk d, sg_objections = objections\<rparr>))"

subsection \<open>The condition trees\<close>

definition simpleRsi :: "compare_operator \<Rightarrow> jsnum \<Rightarrow> condition_v3" where
  "simpleRsi op v = CRule (RsiThreshold (N 14) op v (Some SimpleWindow))"

definition legacyAtrBelow :: "jsnum \<Rightarrow> condition_v3" where
  "legacyAtrBelow v = CRule (AtrVolatility (N 14) OpLte v (Some SimpleWindow))"

definition legacyVolumeAbove :: "jsnum \<Rightarrow> condition_v3" where
  "legacyVolumeAbove v = CRule (VolumeRatio (N 20) OpGte v (Some EmaInclusive))"

definition alignment :: "jsnum list \<Rightarrow> condition_v3" where
  "alignment ps = CRule (EmaAlignment ps Bullish)"

fun entryFor :: "platform_code \<Rightarrow> condition_v3" where
  "entryFor AiConservative = CAll [alignment [N 9, N 21, N 55], simpleRsi OpGte (N 48), simpleRsi OpLte (N 67),
     legacyVolumeAbove (lit (8 / 10)), legacyAtrBelow (lit (22 / 10))]"
| "entryFor AiBalanced =
     (let trend = [alignment [N 9, N 21, N 55], simpleRsi OpGte (N 44), simpleRsi OpLte (N 72),
            legacyVolumeAbove (lit (82 / 100))];
          rangeBase = [CRule (BollingerBand (N 20) (N 2) LowerBand BandLte), simpleRsi OpLte (N 34),
            CRule (CandleDirection Bullish)]
      in CAny [CAll (trend @ [legacyAtrBelow (lit (32 / 10))]),
           CAll (rangeBase @ [alignment [N 9, N 21, N 55], legacyAtrBelow (lit (32 / 10))]),
           CAll (rangeBase @ [legacyVolumeAbove (lit (7 / 10) + N (5 / 2) / N 17), legacyAtrBelow (lit (32 / 10))])])"
| "entryFor AiAggressive =
     (let breakout = [CRule (ChannelBreakout (N 20) Above), legacyVolumeAbove (lit (112 / 100))];
          momentum = [CRule (Momentum (N 6) OpGte (lit (11 / 10))), alignment [N 9, N 21]]
      in CAny [CAll (breakout @ momentum @ [simpleRsi OpLte (N 80), legacyAtrBelow (lit (45 / 10))]),
           CAll [CRule (ChannelBreakout (N 20) Above), legacyVolumeAbove (lit (85 / 100) + N (17 / 2) / N 18),
             simpleRsi OpLte (N 80), legacyAtrBelow (lit (45 / 10))]])"

fun exitFor :: "platform_code \<Rightarrow> condition_v3" where
  "exitFor AiConservative = CAny [CRule (PriceEma (N 21) Below), simpleRsi OpLt (N 40), simpleRsi OpGt (N 76)]"
| "exitFor AiBalanced = CAny [CAll [CRule (PriceEma (N 21) Below), simpleRsi OpLt (N 43)], simpleRsi OpGt (N 79)]"
| "exitFor AiAggressive = CAny [CRule (PriceEma (N 9) Below), CRule (Momentum (N 6) OpLte (- lit (75 / 100))),
     CRule (ChannelBreakout (N 10) Below)]"

record official_spec =
  os_strategyCode :: platform_code
  os_name :: string
  os_symbol :: string
  os_timeframe :: string
  os_entry :: condition_v3
  os_exit :: condition_v3
  os_risk :: official_risk

definition platformStrategyDslV3 :: "platform_code \<Rightarrow> string \<Rightarrow> (string, official_spec) result" where
  "platformStrategyDslV3 code symbol = (let d = PLATFORM_AI_STRATEGIES code in
     if symbol \<notin> set (df_symbols d) then Inl ''SYMBOL_NOT_SUPPORTED''
     else Inr \<lparr>os_strategyCode = code, os_name = df_name d @ [CHR 0x20, CHR 0xB7, CHR 0x20] @ symbol, os_symbol = symbol,
       os_timeframe = df_interval d, os_entry = entryFor code, os_exit = exitFor code, os_risk = df_risk d\<rparr>)"

subsection \<open>The contract check\<close>

definition risk_json :: "official_risk \<Rightarrow> json" where
  "risk_json r = JObj [(''maxAssetAllocationPct'', JNum (or_maxAssetAllocationPct r)),
     (''maxTotalAllocationPct'', JNum (or_maxTotalAllocationPct r)), (''riskPerTradePct'', JNum (or_riskPerTradePct r)),
     (''dailyLossHaltPct'', JNum (or_dailyLossHaltPct r)), (''maxDrawdownPct'', JNum (or_maxDrawdownPct r)),
     (''maxNewEntriesPerDay'', JNum (or_maxNewEntriesPerDay r)), (''maxConcurrentAssets'', JNum (or_maxConcurrentAssets r))]"

definition official_json :: "official_spec \<Rightarrow> json" where
  "official_json s = JObj [(''schemaVersion'', JStr ''official_spot_v1''), (''strategyCode'', JStr (code_text (os_strategyCode s))),
     (''name'', JStr (os_name s)), (''product'', JStr ''spot_usdt''), (''symbol'', JStr (os_symbol s)),
     (''timeframe'', JStr (os_timeframe s)), (''direction'', JStr ''long_only''),
     (''execution'', JObj [(''leverageEnabled'', JBool False), (''shortSellingEnabled'', JBool False),
        (''fundingEnabled'', JBool False), (''realOrderRoutingEnabled'', JBool False)]),
     (''legs'', JObj [(''long'', JObj [(''entry'', condition_json (os_entry s)), (''exit'', condition_json (os_exit s))])]),
     (''risk'', risk_json (os_risk s))]"

text \<open>The order of \<open>sort()\<close> on keys: by the codes of the characters.\<close>

fun code_le :: "string \<Rightarrow> string \<Rightarrow> bool" where
  "code_le [] t \<longleftrightarrow> True"
| "code_le (a # s) [] \<longleftrightarrow> False"
| "code_le (a # s) (b # t) \<longleftrightarrow> ccode a < ccode b \<or> a = b \<and> code_le s t"

fun contractJson :: "json \<Rightarrow> string" where
  "contractJson JUndef = ''undefined''"
| "contractJson JNull = ''null''"
| "contractJson (JBool b) = (if b then ''true'' else ''false'')"
| "contractJson (JNum x) = (if is_finite x then js_show x else ''null'')"
| "contractJson (JStr s) = json_string s"
| "contractJson (JArr xs) = ''['' @ join_with '','' (map contractJson xs) @ '']''"
| "contractJson (JObj es) = ''{'' @ join_with '','' (map (\<lambda>e. json_string (fst e) @ '':'' @ snd e)
     (sort_by (\<lambda>a b. code_le (fst a) (fst b)) (map (\<lambda>e. (fst e, contractJson (snd e))) es))) @ ''}''"

text \<open>\<open>String(value || '')\<close>.\<close>

definition text_or_empty :: "json \<Rightarrow> string" where
  "text_or_empty v = (if json_truthy v then json_to_string v else [])"

definition normalizeOfficialSpotStrategySpecification :: "json \<Rightarrow> (string, official_spec option) result" where
  "normalizeOfficialSpotStrategySpecification value = (case value of
     JObj candidate \<Rightarrow>
       if field candidate ''schemaVersion'' \<noteq> JStr ''official_spot_v1'' then Inr None
       else (case platform_code_of (text_or_empty (field candidate ''strategyCode'')) of
           None \<Rightarrow> Inl ''STRATEGY_CODE_INVALID''
         | Some code \<Rightarrow>
             ebind (platformStrategyDslV3 code (text_or_empty (field candidate ''symbol''))) (\<lambda>expected.
             if contractJson value \<noteq> contractJson (official_json expected) then Inl ''CONTRACT_MISMATCH''
             else Inr (Some expected)))
   | _ \<Rightarrow> Inr None)"

definition official_leg :: "official_spec \<Rightarrow> strategy_leg_v3" where
  "official_leg s = \<lparr>leg_entry = os_entry s, leg_exit = os_exit s, leg_stopLossPct = N 1, leg_takeProfitPct = N 1\<rparr>"

definition evaluateConvertedPlatformStrategy :: "official_spec \<Rightarrow> candle list \<Rightarrow> bool \<Rightarrow> platform_action" where
  "evaluateConvertedPlatformStrategy s cs hasOpenPosition =
     (if hasOpenPosition \<and> exitAt (official_leg s) cs (length cs - 1) then ActExit
      else if \<not> hasOpenPosition \<and> entryAt (official_leg s) cs (length cs - 1) then ActEnter else ActHold)"

definition allPlatformStrategyDslV3 :: "(string, (platform_code \<times> string \<times> official_spec) list) result" where
  "allPlatformStrategyDslV3 = ebind (emap (\<lambda>code. emap (\<lambda>symbol.
       ebind (platformStrategyDslV3 code symbol) (\<lambda>dsl. Inr (code, symbol, dsl)))
     (df_symbols (PLATFORM_AI_STRATEGIES code))) platform_codes) (\<lambda>xss. Inr (concat xss))"

subsection \<open>The series of both evaluations are the same\<close>

lemma platformEma_eq: "period \<le> length values \<Longrightarrow> platformEma values period = ema values period"
  by (simp add: platformEma_def ema_def)

lemma changes_nth: "Suc k < length xs \<Longrightarrow> changes xs ! k = xs ! Suc k - xs ! k"
proof (induction xs arbitrary: k rule: changes.induct)
  case (1 a b xs)
  then show ?case by (cases k) auto
qed simp_all

lemma last_changes:
  assumes "period < length values"
  shows "slice_of (length values - 1 - period) period (changes values)
    = map (\<lambda>i. values ! i - values ! (i - 1)) [length values - period..<length values]"
proof (rule nth_equalityI)
  show "length (slice_of (length values - 1 - period) period (changes values))
      = length (map (\<lambda>i. values ! i - values ! (i - 1)) [length values - period..<length values])"
    using assms by (simp add: slice_of_def length_changes)
next
  fix k assume "k < length (slice_of (length values - 1 - period) period (changes values))"
  then have k: "k < period" by (simp add: slice_of_def)
  have e: "length values - Suc period + k = length values - period + k - 1" "Suc (length values - Suc period + k) = length values - period + k"
    using assms by auto
  show "slice_of (length values - 1 - period) period (changes values) ! k
      = map (\<lambda>i. values ! i - values ! (i - 1)) [length values - period..<length values] ! k"
    using k assms changes_nth [of "length values - Suc period + k" "values"] e
    by (simp add: slice_of_def length_changes)
qed

lemma platformRsi_eq:
  assumes "period < length values"
  shows "item (simpleWindowRsi values period) (length values - 1) = platformRsi values period"
proof -
  have "item (simpleWindowRsi values period) (length values - 1)
      = window_rsi (slice_of (length values - 1 - period) period (changes values))"
    using assms unfolding simpleWindowRsi_def by (subst item_upt) auto
  also have "\<dots> = platformRsi values period"
    unfolding last_changes [OF assms] by (simp add: window_rsi_def platformRsi_def gain_def loss_def comp_def Let_def)
  finally show ?thesis .
qed

lemma length_ranges_from: "length (ranges_from p cs) = length cs"
  by (induction cs arbitrary: p) auto

lemma ranges_from_nth: "k < length cs \<Longrightarrow> ranges_from p cs ! k = true_range (cs ! k) (cd_close (if k = 0 then p else cs ! (k - 1)))"
proof (induction cs arbitrary: p k)
  case (Cons c cs)
  then show ?case by (cases k) (auto simp: nth_Cons split: nat.split)
qed simp

lemma window_atr_index:
  assumes "rows \<noteq> []"
  shows "window_atr rows = sum_of (map (\<lambda>i. true_range (rows ! i)
      (if i = 0 then cd_open (rows ! i) else cd_close (rows ! (i - 1)))) [0..<length rows]) / cnt (length rows)"
proof -
  obtain c cs where r: "rows = c # cs" using assms by (cases rows) auto
  have "true_range c (cd_open c) # ranges_from c cs = map (\<lambda>i. true_range (rows ! i)
      (if i = 0 then cd_open (rows ! i) else cd_close (rows ! (i - 1)))) [0..<length rows]"
    by (rule nth_equalityI) (auto simp: r length_ranges_from ranges_from_nth nth_Cons simp del: upt_Suc split: nat.split)
  then show ?thesis by (simp add: r window_atr_def)
qed

lemma platformAtr_eq:
  assumes "0 < period" "period \<le> length cs"
  shows "item (simpleWindowAtr cs period) (length cs - 1) = platformAtr cs period"
proof -
  have rows: "slice_of (length cs - period) period cs = drop (length cs - period) cs"
    by (simp add: slice_of_def)
  have "item (simpleWindowAtr cs period) (length cs - 1) = window_atr (slice_of (length cs - period) period cs)"
    using assms unfolding simpleWindowAtr_def by (subst item_upt) auto
  also have "\<dots> = platformAtr cs period"
    unfolding rows using assms by (subst window_atr_index) (auto simp: platformAtr_def Let_def)
  finally show ?thesis .
qed

subsection \<open>The strength is a number between 0 and 100, or none\<close>

lemma sum_nonneg_or_NaN:
  assumes "\<forall>x \<in> set xs. x = NaN \<or> N 0 \<le> x" "a = NaN \<or> N 0 \<le> a"
  shows "js_sum a xs = NaN \<or> N 0 \<le> js_sum a xs"
  using assms
proof (induction xs arbitrary: a)
  case (Cons x xs)
  have "a + x = NaN \<or> N 0 \<le> a + x" using Cons.prems js_plus_nonneg [of a x] by auto
  then show ?case using Cons by (simp add: js_sum_def)
qed (simp add: js_sum_def)

lemma strength_finite: "platformRsi values period = NaN \<or> is_finite (platformRsi values period)"
proof -
  define g where "g = sum_of (map (\<lambda>i. js_max (N 0) (values ! i - values ! (i - 1))) [length values - period..<length values])"
  define l where "l = sum_of (map (\<lambda>i. js_max (N 0) (- (values ! i - values ! (i - 1)))) [length values - period..<length values])"
  define m where "m = js_max l js_epsilon"
  have nn: "js_max (N 0) x = NaN \<or> N 0 \<le> js_max (N 0) x" for x by (cases x) (auto simp: js_max_def)
  have "g = NaN \<or> N 0 \<le> g" unfolding g_def sum_of_def by (rule sum_nonneg_or_NaN) (use nn in auto)
  moreover have "m = NaN \<or> m = PInf \<or> (\<exists>b. m = N b \<and> 0 < b)"
  proof (cases l)
    case (N x)
    then have "m = N (max x (1 / 2 ^ 52))" by (simp add: m_def js_epsilon_def)
    moreover have "0 < max x (1 / 2 ^ 52)" by (simp add: less_max_iff_disj)
    ultimately show ?thesis by blast
  next
    case NInf
    then have "m = N (1 / 2 ^ 52)" by (simp add: m_def js_max_def js_epsilon_def)
    moreover have "(0 :: rat) < 1 / 2 ^ 52" by simp
    ultimately show ?thesis by blast
  qed (simp_all add: m_def js_max_def js_epsilon_def)
  ultimately have q: "g / m = NaN \<or> N 0 \<le> g / m"
    by (cases g) (auto intro!: js_of_nonneg)
  have one: "N 1 + g / m = NaN \<or> N 1 \<le> N 1 + g / m"
    using q js_plus_ge [of "N 1" "g / m"] is_double_of_int [of 1] by auto
  have "N 100 / (N 1 + g / m) = NaN \<or> (\<exists>c. N 100 / (N 1 + g / m) = N c \<and> 0 \<le> c \<and> c \<le> 100)"
  proof (cases "N 1 + g / m")
    case (N x)
    then have x: "1 \<le> x" using one by auto
    then have "0 \<le> 100 / x" "100 / x \<le> 100" by (simp_all add: field_simps)
    then have "N 0 \<le> js_of (100 / x)" "js_of (100 / x) \<le> N 100"
      using is_double_of_int [of 100] by (auto intro: js_of_nonneg js_of_le_exact)
    then show ?thesis using N x js_between_finite by fastforce
  qed (use one in auto)
  then have "N 100 - N 100 / (N 1 + g / m) = NaN \<or> is_finite (N 100 - N 100 / (N 1 + g / m))"
  proof (elim disjE exE)
    fix c assume c: "N 100 / (N 1 + g / m) = N c \<and> 0 \<le> c \<and> c \<le> 100"
    then have "N 0 \<le> js_of (100 - c)" "js_of (100 - c) \<le> N 100"
      using is_double_of_int [of 100] by (auto intro: js_of_nonneg js_of_le_exact)
    then show ?thesis using c js_between_finite [of 0 "js_of (100 - c)" 100] by auto
  qed auto
  moreover have "platformRsi values period = (if js_eq l (N 0) then N 100 else N 100 - N 100 / (N 1 + g / m))"
    by (simp add: platformRsi_def g_def l_def m_def Let_def)
  ultimately show ?thesis by simp
qed

subsection \<open>The conversion against the original\<close>

text \<open>No overflow: the averages and the volatility are finite, and the closes are positive.\<close>

definition well_defined :: "candle list \<Rightarrow> bool" where
  "well_defined cs \<longleftrightarrow> 90 \<le> length cs \<and> list_all (\<lambda>c. N 0 < cd_close c) cs
     \<and> list_all is_finite [fg_fast (figures_of cs), fg_medium (figures_of cs), fg_slow (figures_of cs), fg_atrPct (figures_of cs)]"

lemma figures_simps:
  assumes "90 \<le> length cs"
  shows "fg_last (figures_of cs) = cs ! (length cs - 1)"
    "fg_fast (figures_of cs) = item (ema (map cd_close cs) 9) (length cs - 1)"
    "fg_medium (figures_of cs) = item (ema (map cd_close cs) 21) (length cs - 1)"
    "fg_slow (figures_of cs) = item (ema (map cd_close cs) 55) (length cs - 1)"
    "fg_strength (figures_of cs) = item (simpleWindowRsi (map cd_close cs) 14) (length cs - 1)"
    "fg_atrPct (figures_of cs) = item (simpleWindowAtr cs 14) (length cs - 1) / cd_close (cs ! (length cs - 1)) * N 100"
    "fg_volumeRatio (figures_of cs) = (let a = item (ema (map cd_volume cs) 20) (length cs - 1) in
       if N 0 < a then cd_volume (cs ! (length cs - 1)) / a else N 0)"
  using assms platformRsi_eq [of 14 "map cd_close cs"] platformAtr_eq [of 14 cs]
  by (simp_all add: figures_of_def Let_def platformEma_eq)

definition at_last :: "candle list \<Rightarrow> figures \<Rightarrow> nat \<Rightarrow> bool" where
  "at_last cs f i \<longleftrightarrow> well_defined cs \<and> f = figures_of cs \<and> i = length cs - 1"

lemma len:
  assumes "at_last cs f i"
  shows "90 \<le> length cs" "89 \<le> i" "i < length cs" "f = figures_of cs" "i = length cs - 1" "well_defined cs"
  using assms by (auto simp: at_last_def well_defined_def)

lemma holds:
  assumes A: "at_last cs f i"
  shows "condition cs r i \<longleftrightarrow> rule_holds cs r i"
  using len [OF A] by (simp add: condition_def)

lemma finite_figures:
  assumes A: "at_last cs f i"
  shows "is_finite (fg_fast f)" "is_finite (fg_medium f)" "is_finite (fg_slow f)" "is_finite (fg_atrPct f)"
  using len(6) [OF A] by (simp_all add: well_defined_def len(4) [OF A])

lemma close:
  assumes A: "at_last cs f i"
  shows "fg_last f = cs ! i" "item (map cd_close cs) i = cd_close (cs ! i)" "N 0 < cd_close (cs ! i)"
  using len(6) [OF A] len [OF A] by (simp_all add: len(4) [OF A] len(5) [OF A] figures_simps item_def well_defined_def list_all_length)

lemma averages:
  assumes A: "at_last cs f i"
  shows "item (ema (map cd_close cs) 9) i = fg_fast f" "item (ema (map cd_close cs) 21) i = fg_medium f"
    "item (ema (map cd_close cs) 55) i = fg_slow f"
  using len [OF A] by (simp_all add: len(4) [OF A] len(5) [OF A] figures_simps)

lemma alignment_three:
  assumes A: "at_last cs f i"
  shows "conditionTree cs (alignment [N 9, N 21, N 55]) i \<longleftrightarrow> trendAligned f"
  using finite_figures [OF A] by (simp add: alignment_def holds [OF A] alignmentAt_def nat_of_def averages [OF A] trendAligned_def)

lemma below_medium:
  assumes A: "at_last cs f i"
  shows "conditionTree cs (CRule (PriceEma (N 21) Below)) i \<longleftrightarrow> cd_close (fg_last f) < fg_medium f"
  using finite_figures [OF A] by (simp add: holds [OF A] nat_of_def averages [OF A] close [OF A])

lemma below_fast:
  assumes A: "at_last cs f i"
  shows "conditionTree cs (CRule (PriceEma (N 9) Below)) i \<longleftrightarrow> cd_close (fg_last f) < fg_fast f"
  using finite_figures [OF A] by (simp add: holds [OF A] nat_of_def averages [OF A] close [OF A])

lemma strength:
  assumes A: "at_last cs f i"
  shows "conditionTree cs (simpleRsi op v) i \<longleftrightarrow> compare (fg_strength f) op v"
proof -
  have "item (simpleWindowRsi (map cd_close cs) 14) i = fg_strength f"
    using len [OF A] by (simp add: len(4) [OF A] len(5) [OF A] figures_simps)
  moreover have "\<not> compare NaN op v" by (simp add: compare_def split: compare_operator.split)
  moreover have "fg_strength f = platformRsi (map cd_close cs) 14" by (simp add: len(4) [OF A] figures_of_def Let_def)
  ultimately show ?thesis using strength_finite [of "map cd_close cs" 14]
    by (auto simp: simpleRsi_def holds [OF A] nat_of_def)
qed

lemma volatility:
  assumes A: "at_last cs f i"
  shows "conditionTree cs (legacyAtrBelow v) i \<longleftrightarrow> fg_atrPct f \<le> v"
proof -
  have "fg_atrPct f = item (simpleWindowAtr cs 14) i / cd_close (cs ! i) * N 100"
    using len [OF A] by (simp add: len(4) [OF A] len(5) [OF A] figures_simps)
  then show ?thesis using finite_figures [OF A] close [OF A]
    by (simp add: legacyAtrBelow_def holds [OF A] nat_of_def atrAt_def compare_def)
qed

lemma volume:
  assumes A: "at_last cs f i" and B: "\<not> v \<le> N 0" "is_finite (cd_volume (cs ! i))"
  shows "conditionTree cs (legacyVolumeAbove v) i \<longleftrightarrow> v \<le> fg_volumeRatio f"
proof -
  define a where "a = item (ema (map cd_volume cs) 20) i"
  have r: "fg_volumeRatio f = (if N 0 < a then cd_volume (cs ! i) / a else N 0)"
    using len [OF A] by (simp add: len(4) [OF A] len(5) [OF A] figures_simps a_def Let_def)
  have "conditionTree cs (legacyVolumeAbove v) i \<longleftrightarrow> is_finite a \<and> \<not> a \<le> N 0 \<and> v \<le> cd_volume (cs ! i) / a"
    using len(2,3) [OF A] by (simp add: legacyVolumeAbove_def holds [OF A] nat_of_def volumeAt_def a_def [symmetric] Let_def compare_def item_map)
  also have "\<dots> \<longleftrightarrow> v \<le> fg_volumeRatio f"
    using B by (cases a; cases "cd_volume (cs ! i)") (auto simp: r)
  finally show ?thesis .
qed

lemma momentum:
  assumes A: "at_last cs f i"
  shows "conditionTree cs (CRule (Momentum (N 6) op v)) i \<longleftrightarrow> compare (fg_momentum6Pct f) op v"
proof -
  have "N 0 < cd_close (cs ! (i - 6))" using len(6) [OF A] len [OF A] by (simp add: well_defined_def list_all_length)
  then have "\<not> cd_close (cs ! (i - 6)) \<le> N 0" by (cases "cd_close (cs ! (i - 6))") auto
  moreover have "fg_momentum6Pct f = (cd_close (cs ! i) / cd_close (cs ! (i - 6)) - N 1) * N 100"
    using len [OF A] by (simp add: len(4) [OF A] len(5) [OF A] figures_of_def Let_def)
  moreover have "i - 6 < length cs" using len(3) [OF A] by simp
  ultimately show ?thesis using len(2,3) [OF A]
    by (simp add: holds [OF A] nat_of_def momentumAt_def close [OF A] item_map)
qed

lemma channel:
  assumes A: "at_last cs f i"
  shows "conditionTree cs (CRule (ChannelBreakout (N 10) Below)) i \<longleftrightarrow> cd_close (fg_last f) < fg_channelLow10 f"
proof -
  have "fg_channelLow10 f = min_of (map cd_low (slice_of (i - 10) 10 cs))"
    using len [OF A] by (simp add: len(4) [OF A] len(5) [OF A] figures_of_def Let_def)
  then show ?thesis using len(2,3) [OF A] by (simp add: holds [OF A] nat_of_def breakoutAt_def close [OF A] Let_def)
qed

lemma exit_iff:
  assumes A: "at_last cs f i"
  shows "conditionTree cs (exitFor c) i \<longleftrightarrow> pn_exitCandidate (opinion_of c f)"
proof (cases c)
  case AiConservative
  then show ?thesis
    by (simp add: opinion_of_def conservativeOpinion_def Let_def below_medium [OF A, simplified] strength [OF A, simplified] compare_def)
next
  case AiBalanced
  then show ?thesis
    by (simp add: opinion_of_def balancedOpinion_def Let_def below_medium [OF A, simplified] strength [OF A, simplified] compare_def)
next
  case AiAggressive
  then show ?thesis
    by (simp add: opinion_of_def aggressiveOpinion_def Let_def below_fast [OF A, simplified] momentum [OF A, simplified]
        channel [OF A, simplified] compare_def)
qed

lemma conservative_entry_iff:
  assumes A: "at_last cs f i" and B: "is_finite (cd_volume (cs ! i))"
  shows "conditionTree cs (entryFor AiConservative) i \<longleftrightarrow> pn_entryCandidate (opinion_of AiConservative f)"
proof -
  have "\<not> lit (8 / 10) \<le> N 0"
    using js_of_mono [of "1 / 2" "8 / 10"] by (cases "lit (8 / 10)") auto
  from volume [OF A this B] show ?thesis
    using alignment_three [OF A] strength [OF A] volatility [OF A]
    by (simp add: opinion_of_def conservativeOpinion_def Let_def compare_def)
qed

lemma js_le_not_less: "x \<le> y \<Longrightarrow> \<not> y < (x :: jsnum)"
  by (cases x; cases y) auto

lemma clamp_between:
  assumes "x \<noteq> NaN" "a \<le> b"
  obtains c where "clamp x (N a) (N b) = N c" "a \<le> c" "c \<le> b"
proof -
  have "\<exists>c. clamp x (N a) (N b) = N c \<and> a \<le> c \<and> c \<le> b"
    using assms by (cases x) (auto simp: clamp_def js_min_def js_max_def)
  then show thesis using that by blast
qed

lemma conservative_confident:
  assumes "pn_entryCandidate (conservativeOpinion f)"
  shows "N 72 \<le> js_round (clamp (pn_baseConfidence (conservativeOpinion f)) (N 0) (N 99))"
    "objections_of LowRisk f = []"
proof -
  have e: "trendAligned f" "N 48 \<le> fg_strength f" "fg_strength f \<le> N 67" "lit (8 / 10) \<le> fg_volumeRatio f"
    "fg_atrPct f \<le> lit (22 / 10)"
    using assms by (auto simp: conservativeOpinion_def Let_def)
  have "fg_volumeRatio f - lit (7 / 10) \<noteq> NaN"
  proof -
    obtain a where "lit (7 / 10) = N a"
      using js_of_nonneg [of "7 / 10"] js_of_le_exact [of "7 / 10" 1] is_double_of_int [of 1] js_between_finite by fastforce
    then show ?thesis using e(4) by (cases "fg_volumeRatio f") (auto simp: minus_jsnum_def)
  qed
  then have "(fg_volumeRatio f - lit (7 / 10)) * N 18 \<noteq> NaN" by (cases "fg_volumeRatio f - lit (7 / 10)") auto
  then obtain c where c: "clamp ((fg_volumeRatio f - lit (7 / 10)) * N 18) (N 0) (N 12) = N c" "0 \<le> c" "c \<le> 12"
    by (rule clamp_between [of _ 0 12]) simp_all
  have "\<not> lit (22 / 10) < fg_atrPct f" using e(5) by (cases "fg_atrPct f"; cases "lit (22 / 10)") auto
  then have base: "pn_baseConfidence (conservativeOpinion f) = js_of (79 + c) - N 0"
    using e c by (simp add: conservativeOpinion_def Let_def points_def strength_in_def)
  have "N 79 \<le> js_of (79 + c)" "js_of (79 + c) \<le> N 91"
    using c is_double_of_int [of 79] is_double_of_int [of 91] by (auto intro: js_of_ge_exact js_of_le_exact)
  then obtain d where d: "js_of (79 + c) = N d" "79 \<le> d" "d \<le> 91" using js_between_finite by blast
  have "is_double (N d)" using d(1) is_double_js_of [of "79 + c"] by (simp del: is_double_js_of)
  then have "js_of d = N d" by (rule js_of_exact)
  then have "clamp (pn_baseConfidence (conservativeOpinion f)) (N 0) (N 99) = N d"
    using d by (simp add: base clamp_def)
  moreover have "N 72 \<le> js_round (N d)" using d by (intro js_round_ge) auto
  ultimately show "N 72 \<le> js_round (clamp (pn_baseConfidence (conservativeOpinion f)) (N 0) (N 99))" by simp
  have "\<not> N 78 \<le> fg_strength f" using e(3) by (cases "fg_strength f") auto
  moreover have "\<not> fg_volumeRatio f < lit (72 / 100)"
    by (rule js_le_not_less) (rule js_le_trans [OF js_of_mono e(4)], simp)
  ultimately show "objections_of LowRisk f = []"
    using \<open>\<not> lit (22 / 10) < fg_atrPct f\<close> by (simp add: objections_of_def volatility_limit_def)
qed

lemma evaluate_Inr:
  assumes "evaluatePlatformStrategy d cs b = Inr g"
  shows "90 \<le> length cs" "sg_action g = fst (platformDecision d (figures_of cs) b)"
  using assms
  by (cases "platformDecision d (figures_of cs) b"; auto simp: evaluatePlatformStrategy_def Let_def ebind_Inr_iff split: if_splits)+

lemma converted_legs:
  assumes "platformStrategyDslV3 c symbol = Inr s"
  shows "os_entry s = entryFor c" "os_exit s = exitFor c" "os_strategyCode s = c" "os_symbol s = symbol"
  using assms by (auto simp: platformStrategyDslV3_def Let_def split: if_splits)

lemma converted_exit:
  assumes "well_defined cs" "platformStrategyDslV3 c symbol = Inr s"
  shows "evaluateConvertedPlatformStrategy s cs True = (if pn_exitCandidate (opinion_of c (figures_of cs)) then ActExit else ActHold)"
proof -
  have "at_last cs (figures_of cs) (length cs - 1)" using assms(1) by (simp add: at_last_def)
  from exit_iff [OF this] show ?thesis
    using converted_legs [OF assms(2)]
    by (simp add: evaluateConvertedPlatformStrategy_def exitAt_def official_leg_def del: exitFor.simps)
qed

lemma converted_entry:
  assumes "well_defined cs" "platformStrategyDslV3 AiConservative symbol = Inr s" "is_finite (cd_volume (last cs))"
  shows "evaluateConvertedPlatformStrategy s cs False
    = (if pn_entryCandidate (conservativeOpinion (figures_of cs)) then ActEnter else ActHold)"
proof -
  have "cs \<noteq> []" using assms(1) by (auto simp: well_defined_def)
  then have v: "is_finite (cd_volume (cs ! (length cs - 1)))" using assms(3) by (simp add: last_conv_nth)
  have "at_last cs (figures_of cs) (length cs - 1)" using assms(1) by (simp add: at_last_def)
  from conservative_entry_iff [OF this v] show ?thesis
    using converted_legs [OF assms(2)]
    by (simp add: evaluateConvertedPlatformStrategy_def entryAt_def official_leg_def opinion_of_def
        del: entryFor.simps conditionTree.simps(1))
qed

lemma conservative_decision:
  "fst (platformDecision (PLATFORM_AI_STRATEGIES AiConservative) f False)
    = (if pn_entryCandidate (conservativeOpinion f) then ActEnter else ActHold)"
  using conservative_confident [of f] by (simp add: platformDecision_def Let_def opinion_of_def)

lemma exit_decision:
  "fst (platformDecision (PLATFORM_AI_STRATEGIES c) f True) = (if pn_exitCandidate (opinion_of c f) then ActExit else ActHold)"
  by (cases c) (simp_all add: platformDecision_def Let_def)

subsection \<open>The contract\<close>

lemma platform_code_of_Some: "platform_code_of v = Some c \<longleftrightarrow> v = code_text c"
  by (cases c) (auto simp: platform_code_of_def platform_codes_def)

lemma normalizeOfficial_Some:
  assumes "normalizeOfficialSpotStrategySpecification v = Inr (Some s)"
  shows "platformStrategyDslV3 (os_strategyCode s) (os_symbol s) = Inr s"
    "contractJson v = contractJson (official_json s)"
proof -
  obtain es code symbol where e: "v = JObj es" "platformStrategyDslV3 code symbol = Inr s"
    "contractJson v = contractJson (official_json s)"
    using assms
    by (auto simp: normalizeOfficialSpotStrategySpecification_def ebind_Inr_iff split: json.splits if_splits option.splits)
  then show "platformStrategyDslV3 (os_strategyCode s) (os_symbol s) = Inr s"
    "contractJson v = contractJson (official_json s)" using converted_legs [OF e(2)] by simp_all
qed

lemma normalizeOfficial_own:
  assumes "platformStrategyDslV3 c symbol = Inr s"
  shows "normalizeOfficialSpotStrategySpecification (official_json s) = Inr (Some s)"
proof -
  note l = converted_legs [OF assms]
  have "symbol \<noteq> []" using assms by (cases c) (auto simp: platformStrategyDslV3_def Let_def split: if_splits)
  moreover have "code_text c \<noteq> []" by (cases c) simp_all
  moreover have "platform_code_of (code_text c) = Some c" by (simp add: platform_code_of_Some)
  ultimately show ?thesis
    using assms l
    by (simp add: normalizeOfficialSpotStrategySpecification_def official_json_def [of s] field_def text_or_empty_def
        del: contractJson.simps)
qed

lemma platformStrategy_Inr:
  "platformStrategyDslV3 c symbol = Inr s \<longrightarrow> symbol \<in> set (df_symbols (PLATFORM_AI_STRATEGIES c))"
  by (auto simp: platformStrategyDslV3_def Let_def)

subsection \<open>Properties\<close>

text \<open>C3. The condition trees of the official strategies take the same decisions as the platform's own
evaluation, as long as no figure overflows and prices are positive: every exit of the three
strategies, and every entry of the conservative one.\<close>

theorem conversion_agrees:
  assumes "well_defined cs" "is_finite (cd_volume (last cs))" "platformStrategyDslV3 c symbol = Inr s"
    and "evaluatePlatformStrategy (PLATFORM_AI_STRATEGIES c) cs hasOpenPosition = Inr g"
    and "hasOpenPosition \<or> c = AiConservative"
  shows "evaluateConvertedPlatformStrategy s cs hasOpenPosition = sg_action g"
proof (cases hasOpenPosition)
  case True
  then show ?thesis
    using converted_exit [OF assms(1,3)] evaluate_Inr(2) [OF assms(4)] exit_decision [of c "figures_of cs"] by simp
next
  case False
  then have "c = AiConservative" using assms(5) by simp
  then show ?thesis
    using False converted_entry [OF assms(1) _ assms(2)] assms(3) evaluate_Inr(2) [OF assms(4)]
      conservative_decision [of "figures_of cs"] by simp
qed

definition level_candles :: "candle list" where
  "level_candles = replicate 90 (sample_candle 1)"

lemma sum_ones: "k + m \<le> 1000 \<Longrightarrow> foldl (\<lambda>s x. s + x) (N (of_nat k)) (replicate m (N 1)) = N (of_nat (k + m))"
proof (induction m arbitrary: k)
  case (Suc m)
  have "N (of_nat k) + N 1 = N (of_nat (Suc k))" using js_of_int [of "int (Suc k)"] Suc.prems by (simp add: add.commute)
  then show ?case using Suc.IH [of "Suc k"] Suc.prems by (simp add: add.commute)
qed simp

lemma sum_zeros: "foldl (\<lambda>s x. s + x) (N 0) (replicate m (N 0)) = N 0"
  by (induction m) simp_all

lemma scan_const: "f s v = s \<Longrightarrow> scan f s (replicate m v) = replicate (Suc m) s"
  by (induction m) simp_all

lemma level_average:
  assumes "0 < p" "p \<le> 90"
  shows "item (platformEma (replicate 90 (N 1)) p) 89 = N 1"
proof -
  have "(0 :: rat) \<le> 2 / (of_nat p + 1)" "(2 :: rat) / (of_nat p + 1) \<le> 2" by (simp_all add: field_simps)
  then have "N 0 \<le> js_of (2 / (of_nat p + 1))" "js_of (2 / (of_nat p + 1)) \<le> N 2"
    using is_double_of_int [of 2] by (auto intro: js_of_nonneg js_of_le_exact)
  then obtain c where c: "js_of (2 / (of_nat p + 1)) = N c" using js_between_finite by blast
  have "cnt p + N 1 = N (of_nat p + 1)" using js_of_int [of "int p + 1"] assms by (simp add: cnt_def)
  then have m: "N 2 / (cnt p + N 1) = N c" using c by simp
  have "sum_of (replicate p (N 1)) = N (of_nat p)"
    using sum_ones [of 0 p] assms by (simp add: sum_of_def js_sum_def)
  then have s: "sum_of (replicate p (N 1)) / cnt p = N 1" using assms by (simp add: cnt_def)
  have "scan (\<lambda>current v. (v - current) * N c + current) (N 1) (replicate (90 - p) (N 1)) = replicate (Suc (90 - p)) (N 1)"
    by (rule scan_const) simp
  then have e: "platformEma (replicate 90 (N 1)) p = replicate (p - 1) NaN @ replicate (Suc (90 - p)) (N 1)"
    using assms by (simp add: platformEma_def Let_def m s)
  have "89 - (p - 1) < Suc (90 - p)" "\<not> 89 < p - 1" using assms by auto
  then show ?thesis using assms unfolding e by (simp add: item_def nth_append del: replicate_Suc)
qed

lemma level_defined: "well_defined level_candles"
proof -
  have closes: "map cd_close level_candles = replicate 90 (N 1)" by (simp add: level_candles_def sample_candle_def)
  have "platformAtr level_candles 14 = N 0"
  proof -
    have "true_range (sample_candle 1) (N 1) = N 0" by (simp add: true_range_def sample_candle_def)
    then have "map (\<lambda>i. true_range (replicate 14 (sample_candle 1) ! i) (if i = 0 then cd_open (replicate 14 (sample_candle 1) ! i)
        else cd_close (replicate 14 (sample_candle 1) ! (i - 1)))) [0..<14] = replicate 14 (N 0)"
      by (intro nth_equalityI) (simp_all add: sample_candle_def)
    then show ?thesis
      using sum_zeros [of 14] by (simp add: platformAtr_def level_candles_def sum_of_def js_sum_def cnt_def Let_def)
  qed
  then show ?thesis
    using level_average [of 9] level_average [of 21] level_average [of 55]
    by (simp add: well_defined_def figures_of_def closes Let_def)
      (simp add: level_candles_def list_all_length sample_candle_def)
qed

theorem conversion_agrees_witness:
  "\<exists>s g. platformStrategyDslV3 AiConservative ''BTCUSDT'' = Inr s
     \<and> evaluatePlatformStrategy (PLATFORM_AI_STRATEGIES AiConservative) level_candles True = Inr g
     \<and> evaluateConvertedPlatformStrategy s level_candles True = sg_action g"
proof -
  obtain s where s: "platformStrategyDslV3 AiConservative ''BTCUSDT'' = Inr s"
    by (simp add: platformStrategyDslV3_def)
  have "iso_or_throw (to_date (N 1)) = Inr (iso_text 1)" by (simp add: iso_or_throw_def to_iso_def max_time_def)
  then have "returns (evaluatePlatformStrategy (PLATFORM_AI_STRATEGIES AiConservative) level_candles True)"
    by (simp add: evaluatePlatformStrategy_def level_candles_def Let_def figures_of_def returns_def sample_candle_def
        split: prod.split)
  then obtain g where g: "evaluatePlatformStrategy (PLATFORM_AI_STRATEGIES AiConservative) level_candles True = Inr g"
    by (auto simp: returns_iff)
  have "is_finite (cd_volume (last level_candles))" by (simp add: level_candles_def sample_candle_def)
  from conversion_agrees [OF level_defined this s g] show ?thesis using s g by blast
qed

text \<open>A stored official specification is accepted only when its canonical text is that of the
platform's own specification for its strategy and symbol, which is then what runs; the platform's
own specifications are accepted as they are.\<close>

theorem official_contract:
  "(normalizeOfficialSpotStrategySpecification v = Inr (Some s) \<longrightarrow>
      platformStrategyDslV3 (os_strategyCode s) (os_symbol s) = Inr s \<and> contractJson v = contractJson (official_json s))
   \<and> (platformStrategyDslV3 c symbol = Inr s' \<longrightarrow>
      normalizeOfficialSpotStrategySpecification (official_json s') = Inr (Some s'))"
  using normalizeOfficial_Some normalizeOfficial_own by blast

theorem official_contract_witness:
  "\<exists>s. normalizeOfficialSpotStrategySpecification (official_json s) = Inr (Some s) \<and> os_symbol s = ''BTCUSDT''"
proof -
  have "\<exists>s. platformStrategyDslV3 AiBalanced ''BTCUSDT'' = Inr s \<and> os_symbol s = ''BTCUSDT''"
    by (simp add: platformStrategyDslV3_def)
  then show ?thesis using official_contract [of _ _ AiBalanced "''BTCUSDT''"] by blast
qed

end
