(* ===== verification/RiskState.thy ===== *)
theory RiskState
  imports OfficialStrategies
begin

text \<open>
  The normalisation of a deployment's stored risk readings (\<open>runtime/risk-state.ts\<close>). A missing
  reading counts as zero, a present one that is no number makes the state unavailable. \<open>js_number\<close> is
  the host's \<open>Number\<close> on a text.
\<close>

subsection \<open>Number of a text\<close>

definition digits_value :: "int \<Rightarrow> (char \<Rightarrow> int option) \<Rightarrow> string \<Rightarrow> jsnum" where
  "digits_value base digit s = (if s = [] \<or> list_ex (\<lambda>c. digit c = None) s then NaN
     else js_of (of_int (foldl (\<lambda>n c. n * base + the (digit c)) 0 s)))"

definition hex_digit :: "char \<Rightarrow> int option" where
  "hex_digit c = (let n = ccode (char_lower c) in
     if is_digit c then Some (digit_val c) else if 97 \<le> n \<and> n \<le> 102 then Some (n - 87) else None)"

definition small_digit :: "int \<Rightarrow> char \<Rightarrow> int option" where
  "small_digit base c = (if is_digit c \<and> digit_val c < base then Some (digit_val c) else None)"

definition signed_digits :: "string \<Rightarrow> int option" where
  "signed_digits s = (let (neg, t) = (case s of c # r \<Rightarrow> if c = CHR ''-'' then (True, r)
         else if c = CHR ''+'' then (False, r) else (False, s) | [] \<Rightarrow> (False, []))
     in if t = [] \<or> \<not> list_all is_digit t then None
        else Some (if neg then - parse_digits t else parse_digits t))"

text \<open>A decimal literal without sign: digits, a fraction, an exponent.\<close>

definition decimal_value :: "string \<Rightarrow> jsnum" where
  "decimal_value s =
     (let whole = takeWhile is_digit s; r = dropWhile is_digit s;
          (frac, r') = (case r of c # t \<Rightarrow> if c = CHR ''.'' then (takeWhile is_digit t, dropWhile is_digit t) else ([], r)
            | [] \<Rightarrow> ([], []));
          expo = (case r' of c # t \<Rightarrow> if c = CHR ''e'' \<or> c = CHR ''E'' then signed_digits t else None | [] \<Rightarrow> Some 0)
      in if whole @ frac = [] then NaN
         else (case expo of None \<Rightarrow> NaN
           | Some k \<Rightarrow> js_of (of_int (parse_digits (whole @ frac)) * 10 powi (k - int (length frac)))))"

definition unsigned_value :: "string \<Rightarrow> jsnum" where
  "unsigned_value s = (if s = ''Infinity'' then PInf else decimal_value s)"

definition js_number :: "string \<Rightarrow> jsnum" where
  "js_number str = (let s = js_trim str in
     if s = [] then N 0
     else if starts_with s ''0x'' \<or> starts_with s ''0X'' then digits_value 16 hex_digit (drop 2 s)
     else if starts_with s ''0o'' \<or> starts_with s ''0O'' then digits_value 8 (small_digit 8) (drop 2 s)
     else if starts_with s ''0b'' \<or> starts_with s ''0B'' then digits_value 2 (small_digit 2) (drop 2 s)
     else (case s of c # t \<Rightarrow>
         if c = CHR ''-'' then - unsigned_value t else if c = CHR ''+'' then unsigned_value t else unsigned_value s
       | [] \<Rightarrow> N 0))"

subsection \<open>The risk state\<close>

record runtime_risk_state =
  rr_drawdownPct :: jsnum
  rr_dailyLossPct :: jsnum
  rr_consecutiveLosses :: jsnum
  rr_halted :: bool
  rr_unavailableFields :: "string list"

definition isAbsent :: "json \<Rightarrow> bool" where
  "isAbsent v \<longleftrightarrow> v = JUndef \<or> v = JNull"

definition parsed_reading :: "json \<Rightarrow> jsnum" where
  "parsed_reading v = (case v of JNum x \<Rightarrow> x | JStr s \<Rightarrow> if js_trim s \<noteq> [] then js_number s else NaN | _ \<Rightarrow> NaN)"

text \<open>A reading, \<open>None\<close> where the source records the field as unavailable.\<close>

definition readNumber :: "fields \<Rightarrow> string \<Rightarrow> bool \<Rightarrow> jsnum option" where
  "readNumber raw name integerOnly = (let v = field raw name; parsed = parsed_reading v in
     if isAbsent v then Some (N 0)
     else if \<not> (if integerOnly then is_integer parsed else is_finite parsed) then None
     else Some (js_max parsed (N 0)))"

definition reading_or_zero :: "jsnum option \<Rightarrow> jsnum" where
  "reading_or_zero r = (case r of None \<Rightarrow> N 0 | Some x \<Rightarrow> x)"

definition risk_fields :: "(string \<times> bool) list" where
  "risk_fields = [(''drawdownPct'', False), (''dailyLossPct'', False), (''consecutiveLosses'', True)]"

definition resolveRuntimeRiskState :: "fields \<Rightarrow> runtime_risk_state" where
  "resolveRuntimeRiskState raw =
     \<lparr>rr_drawdownPct = reading_or_zero (readNumber raw ''drawdownPct'' False),
      rr_dailyLossPct = reading_or_zero (readNumber raw ''dailyLossPct'' False),
      rr_consecutiveLosses = reading_or_zero (readNumber raw ''consecutiveLosses'' True),
      rr_halted = (field raw ''halted'' = JBool True),
      rr_unavailableFields = sort_by code_le
        (map fst (filter (\<lambda>f. readNumber raw (fst f) (snd f) = None) risk_fields))\<rparr>"

definition neutralRuntimeRiskState :: runtime_risk_state where
  "neutralRuntimeRiskState = \<lparr>rr_drawdownPct = N 0, rr_dailyLossPct = N 0, rr_consecutiveLosses = N 0,
     rr_halted = False, rr_unavailableFields = []\<rparr>"

subsection \<open>Readings\<close>

lemma insert_by_set [simp]: "set (insert_by le x xs) = insert x (set xs)"
  by (induction xs) auto

lemma sort_by_set [simp]: "set (sort_by le xs) = set xs"
  by (induction xs) (auto simp: sort_by_def)

lemma readNumber_Some: "readNumber raw name k = Some x \<Longrightarrow> \<exists>a. x = N a \<and> 0 \<le> a"
proof -
  assume r: "readNumber raw name k = Some x"
  show ?thesis
  proof (cases "isAbsent (field raw name)")
    case True
    then show ?thesis using r by (auto simp: readNumber_def Let_def)
  next
    case False
    then show ?thesis using r
      by (cases "parsed_reading (field raw name)") (auto simp: readNumber_def Let_def split: if_splits)
  qed
qed

lemma reading_nonneg: "\<exists>a. reading_or_zero (readNumber raw name k) = N a \<and> 0 \<le> a"
  using readNumber_Some [of raw name k] by (cases "readNumber raw name k") (auto simp: reading_or_zero_def)

definition broken :: "fields \<Rightarrow> string \<Rightarrow> bool \<Rightarrow> bool" where
  "broken raw name integerOnly \<longleftrightarrow> \<not> isAbsent (field raw name)
     \<and> \<not> (if integerOnly then is_integer (parsed_reading (field raw name)) else is_finite (parsed_reading (field raw name)))"

lemma readNumber_None: "readNumber raw name k = None \<longleftrightarrow> broken raw name k"
  by (simp add: readNumber_def broken_def Let_def)

lemma unavailable_iff:
  "name \<in> set (rr_unavailableFields (resolveRuntimeRiskState raw)) \<longleftrightarrow> (\<exists>k. (name, k) \<in> set risk_fields \<and> broken raw name k)"
  by (auto simp: resolveRuntimeRiskState_def readNumber_None image_iff)

subsection \<open>Properties\<close>

text \<open>The risk readings that leave the normaliser are finite and not negative, and a field is listed
as unavailable exactly when it is present and is not a usable number: a broken reading is never
taken for zero risk unnoticed.\<close>

theorem risk_state_sound:
  "(\<exists>a. rr_drawdownPct (resolveRuntimeRiskState raw) = N a \<and> 0 \<le> a)
   \<and> (\<exists>a. rr_dailyLossPct (resolveRuntimeRiskState raw) = N a \<and> 0 \<le> a)
   \<and> (\<exists>a. rr_consecutiveLosses (resolveRuntimeRiskState raw) = N a \<and> 0 \<le> a)
   \<and> (name \<in> set (rr_unavailableFields (resolveRuntimeRiskState raw))
      \<longleftrightarrow> (\<exists>k. (name, k) \<in> set risk_fields \<and> broken raw name k))"
  using reading_nonneg unavailable_iff by (simp add: resolveRuntimeRiskState_def)

end
