(* ===== verification/RuntimeEngine.thy ===== *)
theory RuntimeEngine
  imports RuntimeAdmission RiskState IntentTranslation
begin

text \<open>
  The decision of one runtime cycle (\<open>packages/domain/src/strategy-runtime-engine.ts\<close>): from a stored
  specification, closed candles, the position, the risk state and the admission of the market data to
  an action, its risk review and the order intent. Texts shown to people are codes; the evidence of the
  events, which repeats values of the result, is left out but for the market state.
\<close>

subsection \<open>Data\<close>

datatype runtime_action = EnterLong | EnterShort | ExitPosition | Hold

datatype execution_timing = NextCandleOpen | IntrabarThreshold

datatype runtime_mode = ShadowMode | PaperMode | LiveMode

datatype objection_kind = DuplicateCandleSignal | ConflictingLongShortSignal

datatype rejection =
    MarketStale
  | MarketTimeInvalid
  | DeploymentHalted
  | RiskReadingsUnavailable "string list"
  | DrawdownReached
  | DailyLossReached
  | LossStreakReached
  | CandleAlreadyProcessed

datatype market_state = HighVolatility | TrendUp | TrendDown | Range

record runtime_position =
  rp_side :: position_side
  rp_entryPrice :: jsnum
  rp_quantity :: jsnum

record runtime_input =
  rt_deploymentId :: string
  rt_strategyVersionId :: string
  rt_dsl :: json
  rt_candles :: "candle list"
  rt_mode :: runtime_mode
  rt_position :: "runtime_position option"
  rt_riskState :: runtime_risk_state
  rt_lastDecision :: "jsnum option"
  rt_marketData :: "candle_admission_input option"

text \<open>The specification that runs: one of the platform's, or a customer's. \<open>spec_leg\<close> is the leg of a
side as the evaluator takes it, \<open>spec_stops\<close> its stop and target, which the platform's do not have.\<close>

datatype runtime_spec = SpotSpec official_spec | PerpetualSpec strategy_dsl_v3

definition dir_of :: "position_side \<Rightarrow> position_dir" where
  "dir_of sd = (case sd of LongSide \<Rightarrow> LongPosition | ShortSide \<Rightarrow> ShortPosition)"

definition spec_leg :: "runtime_spec \<Rightarrow> position_side \<Rightarrow> strategy_leg_v3 option" where
  "spec_leg s sd = (case s of
     SpotSpec o' \<Rightarrow> (case sd of LongSide \<Rightarrow> Some (official_leg o') | ShortSide \<Rightarrow> None)
   | PerpetualSpec d \<Rightarrow> leg_of d (dir_of sd))"

definition spec_stops :: "runtime_spec \<Rightarrow> strategy_leg_v3 \<Rightarrow> (jsnum \<times> jsnum) option" where
  "spec_stops s leg = (case s of SpotSpec _ \<Rightarrow> None | PerpetualSpec _ \<Rightarrow> Some (leg_stopLossPct leg, leg_takeProfitPct leg))"

definition spec_timeframe :: "runtime_spec \<Rightarrow> string" where
  "spec_timeframe s = (case s of SpotSpec o' \<Rightarrow> os_timeframe o' | PerpetualSpec d \<Rightarrow> pd_timeframe d)"

definition spec_maxDrawdownPct :: "runtime_spec \<Rightarrow> jsnum" where
  "spec_maxDrawdownPct s = (case s of SpotSpec o' \<Rightarrow> or_maxDrawdownPct (os_risk o') | PerpetualSpec d \<Rightarrow> pd_maxDrawdownPct d)"

definition spec_maxDailyLossPct :: "runtime_spec \<Rightarrow> jsnum" where
  "spec_maxDailyLossPct s = (case s of SpotSpec o' \<Rightarrow> or_dailyLossHaltPct (os_risk o') | PerpetualSpec d \<Rightarrow> pd_maxDailyLossPct d)"

definition spec_maxConsecutiveLosses :: "runtime_spec \<Rightarrow> jsnum option" where
  "spec_maxConsecutiveLosses s = (case s of SpotSpec _ \<Rightarrow> None | PerpetualSpec d \<Rightarrow> Some (pd_maxConsecutiveLosses d))"

definition specificationOf :: "json \<Rightarrow> (string, runtime_spec) result" where
  "specificationOf dsl = ebind (normalizeOfficialSpotStrategySpecification dsl) (\<lambda>official. case official of
     Some o' \<Rightarrow> Inr (SpotSpec o')
   | None \<Rightarrow> ebind (strategyDslToRuntime dsl) (\<lambda>d. Inr (PerpetualSpec d)))"

subsection \<open>Market data\<close>

definition gapsOrDuplicates :: "candle list \<Rightarrow> nat" where
  "gapsOrDuplicates cs = length (filter (\<lambda>i. openTime (cs ! i) \<le> openTime (cs ! (i - 1))) [1..<length cs])"

definition dataQualityValid :: "candle list \<Rightarrow> bool" where
  "dataQualityValid cs \<longleftrightarrow> 2 \<le> length cs \<and> gapsOrDuplicates cs = 0"

definition classifyMarketState :: "candle list \<Rightarrow> market_state" where
  "classifyMarketState cs =
     (let sample = drop (length cs - 20) cs; first = hd sample; latest = last sample;
          returnPct = (if N 0 < cd_close first then (cd_close latest - cd_close first) / cd_close first * N 100 else N 0);
          averageRangePct = sum_of (map (\<lambda>c. if N 0 < cd_close c then (cd_high c - cd_low c) / cd_close c * N 100 else N 0) sample)
            / cnt (length sample)
      in if N 4 \<le> averageRangePct then HighVolatility
         else if N 2 \<le> returnPct then TrendUp
         else if returnPct \<le> - N 2 then TrendDown else Range)"

definition marketAdmissionOf ::
    "runtime_spec \<Rightarrow> candle \<Rightarrow> candle_admission_input \<Rightarrow> (string, candle_admission) result" where
  "marketAdmissionOf spec c m = evaluateRuntimeCandleAdmission
     (if ca_timeframe m = spec_timeframe spec \<and> js_eq (ca_latestClosedAt m) (closeTime c) then m
      else m\<lparr>ca_latestClosedAt := NaN\<rparr>)"

subsection \<open>The action\<close>

record proposal =
  pr_action :: runtime_action
  pr_reason :: string
  pr_timing :: execution_timing
  pr_requestedPrice :: jsnum

definition pick_side :: "position_side \<Rightarrow> 'a \<Rightarrow> 'a \<Rightarrow> 'a" where
  "pick_side sd l s = (case sd of LongSide \<Rightarrow> l | ShortSide \<Rightarrow> s)"

definition positionStop :: "runtime_position \<Rightarrow> jsnum \<Rightarrow> jsnum" where
  "positionStop p pct = rp_entryPrice p * pick_side (rp_side p) (N 1 - pct / N 100) (N 1 + pct / N 100)"

definition positionTarget :: "runtime_position \<Rightarrow> jsnum \<Rightarrow> jsnum" where
  "positionTarget p pct = rp_entryPrice p * pick_side (rp_side p) (N 1 + pct / N 100) (N 1 - pct / N 100)"

definition stopHit :: "candle \<Rightarrow> runtime_position \<Rightarrow> jsnum \<Rightarrow> bool" where
  "stopHit c p pct = pick_side (rp_side p) (cd_low c \<le> positionStop p pct) (positionStop p pct \<le> cd_high c)"

definition targetHit :: "candle \<Rightarrow> runtime_position \<Rightarrow> jsnum \<Rightarrow> bool" where
  "targetHit c p pct = pick_side (rp_side p) (positionTarget p pct \<le> cd_high c) (cd_low c \<le> positionTarget p pct)"

definition exitProposal ::
    "runtime_spec \<Rightarrow> candle \<Rightarrow> runtime_position \<Rightarrow> strategy_leg_v3 \<Rightarrow> bool \<Rightarrow> proposal" where
  "exitProposal spec c p leg dslExit =
     (let stops = spec_stops spec leg in
      case stops of
        Some (sl, tp) \<Rightarrow>
          if stopHit c p sl then \<lparr>pr_action = ExitPosition, pr_reason = ''stop_loss'', pr_timing = IntrabarThreshold,
            pr_requestedPrice = positionStop p sl\<rparr>
          else if targetHit c p tp then \<lparr>pr_action = ExitPosition, pr_reason = ''take_profit'',
            pr_timing = IntrabarThreshold, pr_requestedPrice = positionTarget p tp\<rparr>
          else if dslExit then \<lparr>pr_action = ExitPosition, pr_reason = ''dsl_exit'', pr_timing = NextCandleOpen,
            pr_requestedPrice = cd_close c\<rparr>
          else \<lparr>pr_action = Hold, pr_reason = ''position_held'', pr_timing = NextCandleOpen, pr_requestedPrice = cd_close c\<rparr>
      | None \<Rightarrow>
          if dslExit then \<lparr>pr_action = ExitPosition, pr_reason = ''dsl_exit'', pr_timing = NextCandleOpen,
            pr_requestedPrice = cd_close c\<rparr>
          else \<lparr>pr_action = Hold, pr_reason = ''position_held'', pr_timing = NextCandleOpen, pr_requestedPrice = cd_close c\<rparr>)"

definition entryProposal :: "candle \<Rightarrow> bool \<Rightarrow> bool \<Rightarrow> proposal" where
  "entryProposal c longEntry shortEntry =
     (let act = (if longEntry \<and> shortEntry then (Hold, ''conflicting_entry_signals'')
          else if longEntry then (EnterLong, ''dsl_entry'')
          else if shortEntry then (EnterShort, ''dsl_entry'') else (Hold, ''no_signal''))
      in \<lparr>pr_action = fst act, pr_reason = snd act, pr_timing = NextCandleOpen, pr_requestedPrice = cd_close c\<rparr>)"

definition proposalOf ::
    "runtime_spec \<Rightarrow> candle list \<Rightarrow> nat \<Rightarrow> runtime_position option \<Rightarrow> (string, proposal) result" where
  "proposalOf spec cs i position = (case position of
     Some p \<Rightarrow> (case spec_leg spec (rp_side p) of
         None \<Rightarrow> Inl ''POSITION_SIDE_MISMATCH''
       | Some leg \<Rightarrow> Inr (exitProposal spec (cs ! i) p leg (exitAt leg cs i)))
   | None \<Rightarrow> Inr (entryProposal (cs ! i) (legEntryAt (spec_leg spec LongSide) cs i) (legEntryAt (spec_leg spec ShortSide) cs i)))"

subsection \<open>The review\<close>

definition is_entry :: "runtime_action \<Rightarrow> bool" where
  "is_entry a \<longleftrightarrow> a = EnterLong \<or> a = EnterShort"

definition objectionsOf :: "runtime_spec \<Rightarrow> runtime_input \<Rightarrow> candle \<Rightarrow> nat \<Rightarrow> objection_kind list" where
  "objectionsOf spec rin c i =
     (if (case rt_lastDecision rin of None \<Rightarrow> False | Some t \<Rightarrow> js_eq t (closeTime c)) then [DuplicateCandleSignal] else [])
     @ (if legEntryAt (spec_leg spec LongSide) (rt_candles rin) i \<and> legEntryAt (spec_leg spec ShortSide) (rt_candles rin) i
        then [ConflictingLongShortSignal] else [])"

definition rejectionsOf ::
    "runtime_spec \<Rightarrow> runtime_risk_state \<Rightarrow> candle_admission \<Rightarrow> objection_kind list \<Rightarrow> rejection list" where
  "rejectionsOf spec r adm objections =
     (if \<not> cad_entryAllowed adm then [if cad_quality adm = Stale then MarketStale else MarketTimeInvalid] else [])
     @ (if rr_halted r then [DeploymentHalted] else [])
     @ (if rr_unavailableFields r \<noteq> [] then [RiskReadingsUnavailable (rr_unavailableFields r)] else [])
     @ (if spec_maxDrawdownPct spec \<le> rr_drawdownPct r then [DrawdownReached] else [])
     @ (if spec_maxDailyLossPct spec \<le> rr_dailyLossPct r then [DailyLossReached] else [])
     @ (case spec_maxConsecutiveLosses spec of None \<Rightarrow> []
        | Some m \<Rightarrow> if m \<le> rr_consecutiveLosses r then [LossStreakReached] else [])
     @ (if DuplicateCandleSignal \<in> set objections then [CandleAlreadyProcessed] else [])"

fun action_text :: "runtime_action \<Rightarrow> string" where
  "action_text EnterLong = ''enter_long''"
| "action_text EnterShort = ''enter_short''"
| "action_text ExitPosition = ''exit''"
| "action_text Hold = ''hold''"

record engine_intent = runtime_order_intent +
  ei_mode :: runtime_mode
  ei_executionTiming :: execution_timing

definition intentOf :: "runtime_input \<Rightarrow> candle \<Rightarrow> proposal \<Rightarrow> engine_intent" where
  "intentOf rin c p = \<lparr>idempotencyKey = rt_deploymentId rin @ '':'' @ js_show (closeTime c) @ '':'' @ action_text (pr_action p),
     ri_action = action_text (pr_action p),
     ri_side = (case pr_action p of EnterShort \<Rightarrow> Some ShortSide | EnterLong \<Rightarrow> Some LongSide
       | _ \<Rightarrow> map_option rp_side (rt_position rin)),
     requestedPrice = pr_requestedPrice p, confirmedAtCandleCloseTime = closeTime c,
     ei_mode = rt_mode rin, ei_executionTiming = pr_timing p\<rparr>"

record runtime_event =
  ev_role :: string
  ev_conclusion :: string
  ev_sequence :: nat

record runtime_cycle =
  rc_specification :: runtime_spec
  rc_candle :: candle
  rc_marketAdmission :: candle_admission
  rc_marketState :: market_state
  rc_action :: runtime_action
  rc_reason :: string
  rc_riskApproved :: bool
  rc_rejectionReasons :: "rejection list"
  rc_objections :: "objection_kind list"
  rc_orderIntent :: "engine_intent option"
  rc_events :: "runtime_event list"

definition runtimeAgentRoles :: "string list" where
  "runtimeAgentRoles = [''market_data'', ''technical_analysis'', ''strategy_decision'', ''adversarial_review'',
     ''risk'', ''decision'', ''execution'']"

definition eventsOf ::
    "candle_admission \<Rightarrow> runtime_action \<Rightarrow> objection_kind list \<Rightarrow> bool \<Rightarrow> bool \<Rightarrow> runtime_event list" where
  "eventsOf adm act objections approved intent =
     (let conclusions = [
        (case cad_quality adm of Fresh \<Rightarrow> ''CANDLES_CONFIRMED'' | Stale \<Rightarrow> ''MARKET_STALE'' | InvalidTime \<Rightarrow> ''MARKET_TIME_INVALID''),
        ''INDICATORS_COMPUTED'',
        ''PROPOSAL_'' @ action_text act,
        (if objections \<noteq> [] then ''OBJECTIONS_FOUND'' else ''NO_OBJECTION''),
        (if approved then ''RISK_ALLOWS'' else ''RISK_REJECTS_ENTRY''),
        (if approved then if act = Hold then ''WAIT'' else ''EXECUTION_ALLOWED'' else ''ENTRY_REJECTED''),
        (if intent then ''INTENT_CREATED'' else ''NO_INTENT'')]
      in map (\<lambda>k. \<lparr>ev_role = runtimeAgentRoles ! k, ev_conclusion = conclusions ! k, ev_sequence = k + 1\<rparr>) [0..<7])"

definition decideCycle ::
    "runtime_spec \<Rightarrow> runtime_input \<Rightarrow> candle_admission \<Rightarrow> proposal \<Rightarrow> runtime_cycle" where
  "decideCycle spec rin adm p =
     (let i = length (rt_candles rin) - 1; c = rt_candles rin ! i;
          objections = objectionsOf spec rin c i;
          rejections = (if is_entry (pr_action p) then rejectionsOf spec (rt_riskState rin) adm objections else []);
          approved = (pr_action p = ExitPosition \<or> pr_action p = Hold \<or> rejections = []);
          intent = (if pr_action p \<noteq> Hold \<and> approved then Some (intentOf rin c p) else None)
      in \<lparr>rc_specification = spec, rc_candle = c, rc_marketAdmission = adm,
          rc_marketState = classifyMarketState (rt_candles rin), rc_action = pr_action p, rc_reason = pr_reason p,
          rc_riskApproved = approved, rc_rejectionReasons = rejections, rc_objections = objections,
          rc_orderIntent = intent,
          rc_events = eventsOf adm (pr_action p) objections approved (intent \<noteq> None)\<rparr>)"

definition evaluateStrategyRuntimeCycle :: "runtime_input \<Rightarrow> (string, runtime_cycle) result" where
  "evaluateStrategyRuntimeCycle rin =
     (if rt_deploymentId rin = [] \<or> rt_strategyVersionId rin = [] then Inl ''IDENTIFIER_MISSING''
      else ebind (specificationOf (rt_dsl rin)) (\<lambda>spec.
        if length (rt_candles rin) < 2 then Inl ''TOO_FEW_CANDLES''
        else (case rt_marketData rin of
          None \<Rightarrow> Inl ''MARKET_DATA_MISSING''
        | Some m \<Rightarrow>
          if \<not> dataQualityValid (rt_candles rin) then Inl ''CANDLE_ORDER''
          else let i = length (rt_candles rin) - 1 in
            ebind (marketAdmissionOf spec (rt_candles rin ! i) m) (\<lambda>adm.
            ebind (proposalOf spec (rt_candles rin) i (rt_position rin)) (\<lambda>p.
              Inr (decideCycle spec rin adm p))))))"

subsection \<open>The cycle in one equation\<close>

lemma marketAdmission_returns: "\<exists>adm. marketAdmissionOf spec c m = Inr adm"
  unfolding marketAdmissionOf_def using admission_facts by blast

lemma marketAdmission_entry:
  assumes "marketAdmissionOf spec c m = Inr adm"
  shows "cad_entryAllowed adm \<longleftrightarrow> ca_timeframe m = spec_timeframe spec
    \<and> js_eq (ca_latestClosedAt m) (closeTime c) \<and> (\<exists>s cl e. fresh_at m s cl e)"
proof -
  have "\<not> fresh_at (m\<lparr>ca_latestClosedAt := NaN\<rparr>) s cl e" for s cl e by (simp add: fresh_at_def)
  then show ?thesis
    using assms admission_facts [of m] admission_facts [of "m\<lparr>ca_latestClosedAt := NaN\<rparr>"]
    by (auto simp: marketAdmissionOf_def split: if_splits)
qed

definition last_candle :: "runtime_input \<Rightarrow> candle" where
  "last_candle rin = rt_candles rin ! (length (rt_candles rin) - 1)"

lemma cycle_Inr:
  "evaluateStrategyRuntimeCycle rin = Inr c \<longleftrightarrow>
     rt_deploymentId rin \<noteq> [] \<and> rt_strategyVersionId rin \<noteq> [] \<and> dataQualityValid (rt_candles rin)
     \<and> (\<exists>spec m adm p. specificationOf (rt_dsl rin) = Inr spec \<and> rt_marketData rin = Some m
        \<and> marketAdmissionOf spec (last_candle rin) m = Inr adm
        \<and> proposalOf spec (rt_candles rin) (length (rt_candles rin) - 1) (rt_position rin) = Inr p
        \<and> c = decideCycle spec rin adm p)"
proof -
  have two: "dataQualityValid (rt_candles rin) \<Longrightarrow> \<not> length (rt_candles rin) < 2"
    by (simp add: dataQualityValid_def)
  show ?thesis
    unfolding evaluateStrategyRuntimeCycle_def last_candle_def
    by (cases "rt_marketData rin"; cases "specificationOf (rt_dsl rin)")
      (use two in \<open>auto simp: Let_def ebind_Inr_iff\<close>)
qed

lemma decideCycle_simps [simp]:
  "rc_specification (decideCycle spec rin adm p) = spec" "rc_action (decideCycle spec rin adm p) = pr_action p"
  "rc_marketAdmission (decideCycle spec rin adm p) = adm" "rc_candle (decideCycle spec rin adm p) = last_candle rin"
  by (simp_all add: decideCycle_def Let_def last_candle_def)

lemma decideCycle_approved:
  "rc_riskApproved (decideCycle spec rin adm p) \<longleftrightarrow>
     (is_entry (pr_action p) \<longrightarrow> rejectionsOf spec (rt_riskState rin) adm
        (objectionsOf spec rin (last_candle rin) (length (rt_candles rin) - 1)) = [])"
  by (cases "pr_action p") (simp_all add: decideCycle_def Let_def is_entry_def last_candle_def)

lemma decideCycle_intent:
  "rc_orderIntent (decideCycle spec rin adm p) = (if pr_action p \<noteq> Hold \<and> rc_riskApproved (decideCycle spec rin adm p)
     then Some (intentOf rin (last_candle rin) p) else None)"
  by (simp add: decideCycle_def Let_def last_candle_def)

lemma proposal_position:
  assumes "proposalOf spec cs i (Some pos) = Inr p"
  shows "pr_action p = ExitPosition \<or> pr_action p = Hold"
  using assms by (auto simp: proposalOf_def exitProposal_def Let_def split: option.splits prod.splits if_splits)

lemma proposal_flat:
  "proposalOf spec cs i None = Inr (entryProposal (cs ! i) (legEntryAt (spec_leg spec LongSide) cs i)
     (legEntryAt (spec_leg spec ShortSide) cs i))"
  by (simp add: proposalOf_def)

lemma entryProposal_action:
  "pr_action (entryProposal c l s) = (if l \<and> \<not> s then EnterLong else if s \<and> \<not> l then EnterShort else Hold)"
  by (simp add: entryProposal_def Let_def)

subsection \<open>What an entry needs\<close>

text \<open>Exactly one of the two signals.\<close>

definition one_signal :: "runtime_spec \<Rightarrow> runtime_input \<Rightarrow> bool" where
  "one_signal spec rin \<longleftrightarrow> (let i = length (rt_candles rin) - 1 in
     legEntryAt (spec_leg spec LongSide) (rt_candles rin) i \<noteq> legEntryAt (spec_leg spec ShortSide) (rt_candles rin) i)"

definition market_fresh :: "runtime_spec \<Rightarrow> runtime_input \<Rightarrow> bool" where
  "market_fresh spec rin \<longleftrightarrow> (\<exists>m s cl e. rt_marketData rin = Some m \<and> ca_timeframe m = spec_timeframe spec
     \<and> js_eq (ca_latestClosedAt m) (closeTime (last_candle rin)) \<and> fresh_at m s cl e)"

definition within_limits :: "runtime_spec \<Rightarrow> runtime_risk_state \<Rightarrow> bool" where
  "within_limits spec r \<longleftrightarrow> \<not> rr_halted r \<and> rr_unavailableFields r = []
     \<and> \<not> spec_maxDrawdownPct spec \<le> rr_drawdownPct r \<and> \<not> spec_maxDailyLossPct spec \<le> rr_dailyLossPct r
     \<and> (\<forall>m. spec_maxConsecutiveLosses spec = Some m \<longrightarrow> \<not> m \<le> rr_consecutiveLosses r)"

definition decided_before :: "runtime_input \<Rightarrow> bool" where
  "decided_before rin \<longleftrightarrow> (\<exists>t. rt_lastDecision rin = Some t \<and> js_eq t (closeTime (last_candle rin)))"

lemma rejections_Nil:
  assumes "marketAdmissionOf spec (last_candle rin) m = Inr adm" "rt_marketData rin = Some m"
  shows "rejectionsOf spec (rt_riskState rin) adm (objectionsOf spec rin (last_candle rin) i) = []
    \<longleftrightarrow> market_fresh spec rin \<and> within_limits spec (rt_riskState rin) \<and> \<not> decided_before rin"
proof -
  have "DuplicateCandleSignal \<in> set (objectionsOf spec rin (last_candle rin) i) \<longleftrightarrow> decided_before rin"
    by (auto simp: objectionsOf_def decided_before_def split: option.splits)
  moreover have "cad_entryAllowed adm \<longleftrightarrow> market_fresh spec rin"
    using marketAdmission_entry [OF assms(1)] assms(2) by (auto simp: market_fresh_def)
  ultimately show ?thesis
    by (auto simp: rejectionsOf_def within_limits_def split: option.split)
qed

lemma entry_iff:
  assumes "evaluateStrategyRuntimeCycle rin = Inr c"
  shows "rc_orderIntent c \<noteq> None \<and> is_entry (rc_action c) \<longleftrightarrow>
    rt_position rin = None \<and> one_signal (rc_specification c) rin \<and> market_fresh (rc_specification c) rin
    \<and> within_limits (rc_specification c) (rt_riskState rin) \<and> \<not> decided_before rin"
proof -
  obtain spec m adm p where c: "rt_marketData rin = Some m" "marketAdmissionOf spec (last_candle rin) m = Inr adm"
    "proposalOf spec (rt_candles rin) (length (rt_candles rin) - 1) (rt_position rin) = Inr p"
    "c = decideCycle spec rin adm p"
    using assms unfolding cycle_Inr by blast
  have e: "is_entry (pr_action p) \<longleftrightarrow> rt_position rin = None \<and> one_signal spec rin"
  proof (cases "rt_position rin")
    case None
    then have "p = entryProposal (rt_candles rin ! (length (rt_candles rin) - 1))
        (legEntryAt (spec_leg spec LongSide) (rt_candles rin) (length (rt_candles rin) - 1))
        (legEntryAt (spec_leg spec ShortSide) (rt_candles rin) (length (rt_candles rin) - 1))"
      using c(3) unfolding None proposal_flat by simp
    then have "is_entry (pr_action p) \<longleftrightarrow> one_signal spec rin"
      unfolding one_signal_def Let_def by (auto simp only: entryProposal_action is_entry_def split: if_splits)
    then show ?thesis using None by simp
  next
    case (Some pos)
    have "pr_action p = ExitPosition \<or> pr_action p = Hold"
      using c(3) unfolding Some by (rule proposal_position)
    then show ?thesis using Some by (auto simp: is_entry_def)
  qed
  have "rc_orderIntent c \<noteq> None \<and> is_entry (rc_action c) \<longleftrightarrow> is_entry (pr_action p)
      \<and> rejectionsOf spec (rt_riskState rin) adm (objectionsOf spec rin (last_candle rin) (length (rt_candles rin) - 1)) = []"
    by (auto simp: c(4) decideCycle_intent decideCycle_approved is_entry_def)
  then show ?thesis using e rejections_Nil [OF c(2,1)] by (auto simp: c(4))
qed

subsection \<open>A concrete cycle\<close>

definition sample_risk :: runtime_risk_state where
  "sample_risk = neutralRuntimeRiskState"

definition sample_input :: "runtime_position option \<Rightarrow> runtime_input" where
  "sample_input pos = \<lparr>rt_deploymentId = ''d1'', rt_strategyVersionId = ''v1'', rt_dsl = perpetual_json sample_dsl,
     rt_candles = [rising_candle 1, rising_candle 2], rt_mode = PaperMode, rt_position = pos,
     rt_riskState = sample_risk, rt_lastDecision = None,
     rt_marketData = Some \<lparr>ca_latestClosedAt = N 2, ca_evaluatedAt = N 2, ca_timeframe = ''1h''\<rparr>\<rparr>"

lemma sample_specification: "specificationOf (rt_dsl (sample_input pos)) = Inr (PerpetualSpec sample_dsl)"
proof -
  have "normalizeOfficialSpotStrategySpecification (perpetual_json sample_dsl) = Inr None"
    by (simp add: normalizeOfficialSpotStrategySpecification_def perpetual_json_def perpetual_json_at_def field_def)
  then show ?thesis by (simp add: specificationOf_def sample_input_def sample_runtime)
qed

lemma sample_quality: "dataQualityValid (rt_candles (sample_input pos))"
  by (simp add: dataQualityValid_def gapsOrDuplicates_def sample_input_def rising_candle_def)

lemma sample_cycle:
  assumes "proposalOf (PerpetualSpec sample_dsl) (rt_candles (sample_input pos)) 1 pos = Inr p"
  obtains c where "evaluateStrategyRuntimeCycle (sample_input pos) = Inr c" "rc_specification c = PerpetualSpec sample_dsl"
proof -
  define m where "m = \<lparr>ca_latestClosedAt = N 2, ca_evaluatedAt = N 2, ca_timeframe = ''1h''\<rparr>"
  obtain adm where a: "marketAdmissionOf (PerpetualSpec sample_dsl) (last_candle (sample_input pos)) m = Inr adm"
    using marketAdmission_returns by blast
  have "rt_deploymentId (sample_input pos) \<noteq> []" "rt_strategyVersionId (sample_input pos) \<noteq> []"
    "rt_marketData (sample_input pos) = Some m" "rt_position (sample_input pos) = pos"
    "length (rt_candles (sample_input pos)) - 1 = 1"
    by (simp_all add: sample_input_def m_def)
  then have "evaluateStrategyRuntimeCycle (sample_input pos)
      = Inr (decideCycle (PerpetualSpec sample_dsl) (sample_input pos) adm p)"
    using sample_specification [of pos] sample_quality [of pos] a assms unfolding cycle_Inr by auto
  then show thesis by (rule that) simp
qed

lemma sample_gates:
  "market_fresh (PerpetualSpec sample_dsl) (sample_input pos)" "within_limits (PerpetualSpec sample_dsl) (rt_riskState (sample_input pos))"
  "\<not> decided_before (sample_input pos)" "one_signal (PerpetualSpec sample_dsl) (sample_input pos)"
proof -
  have "timeframeMilliseconds ''1h'' = Some (N (of_int 3600000))" by (simp add: timeframeMilliseconds_def TIMEFRAME_MS_def)
  then have "fresh_at \<lparr>ca_latestClosedAt = N 2, ca_evaluatedAt = N 2, ca_timeframe = ''1h''\<rparr> 3600000 2 2"
    by (simp add: fresh_at_def max_time_def)
  then show "market_fresh (PerpetualSpec sample_dsl) (sample_input pos)"
    by (auto simp: market_fresh_def sample_input_def spec_timeframe_def sample_dsl_def last_candle_def rising_candle_def)
  show "within_limits (PerpetualSpec sample_dsl) (rt_riskState (sample_input pos))"
    by (simp add: within_limits_def sample_input_def sample_risk_def neutralRuntimeRiskState_def spec_maxDrawdownPct_def
        spec_maxDailyLossPct_def spec_maxConsecutiveLosses_def sample_dsl_def)
  show "\<not> decided_before (sample_input pos)" by (simp add: decided_before_def sample_input_def)
  show "one_signal (PerpetualSpec sample_dsl) (sample_input pos)"
    by (simp add: one_signal_def sample_input_def spec_leg_def leg_of_def dir_of_def sample_dsl_def legEntryAt_def
        entryAt_def sample_leg_def condition_def rising_candle_def)
qed

subsection \<open>Properties\<close>

text \<open>C1. A runtime cycle creates an entry order exactly when there is no position, exactly one side signals,
the market data are those of the decision candle and fresh, the candle was not decided before, and
the risk state is readable, not halted and within every limit of the specification.\<close>

theorem runtime_entry_exact:
  assumes "evaluateStrategyRuntimeCycle rin = Inr c"
  shows "rc_orderIntent c \<noteq> None \<and> is_entry (rc_action c) \<longleftrightarrow>
    rt_position rin = None \<and> one_signal (rc_specification c) rin \<and> market_fresh (rc_specification c) rin
    \<and> within_limits (rc_specification c) (rt_riskState rin) \<and> \<not> decided_before rin"
  by (rule entry_iff [OF assms])

theorem runtime_entry_exact_witness:
  "\<exists>c. evaluateStrategyRuntimeCycle (sample_input None) = Inr c \<and> rc_orderIntent c \<noteq> None \<and> is_entry (rc_action c)"
proof -
  obtain c where c: "evaluateStrategyRuntimeCycle (sample_input None) = Inr c" "rc_specification c = PerpetualSpec sample_dsl"
    using sample_cycle [OF proposal_flat] by blast
  have "rc_orderIntent c \<noteq> None \<and> is_entry (rc_action c)"
    unfolding runtime_entry_exact [OF c(1)] c(2) using sample_gates [of None] by (simp add: sample_input_def)
  then show ?thesis using c(1) by blast
qed

text \<open>C2. No risk reading, earlier decision or state of the market data keeps a position from being closed:
with a position, a cycle that decides still decides the same after any change of them, approves it,
and an exit comes with the same order.\<close>

theorem runtime_exit_never_blocked:
  assumes "evaluateStrategyRuntimeCycle rin = Inr c" "rt_position rin = Some pos"
  shows "\<exists>c'. evaluateStrategyRuntimeCycle (rin\<lparr>rt_riskState := r, rt_lastDecision := d, rt_marketData := Some m\<rparr>) = Inr c'
    \<and> rc_action c' = rc_action c \<and> rc_riskApproved c' \<and> rc_rejectionReasons c' = []
    \<and> rc_orderIntent c' = rc_orderIntent c \<and> (rc_action c = ExitPosition \<longleftrightarrow> rc_orderIntent c \<noteq> None)"
proof -
  define rin' where "rin' = rin\<lparr>rt_riskState := r, rt_lastDecision := d, rt_marketData := Some m\<rparr>"
  obtain spec adm p where c: "specificationOf (rt_dsl rin) = Inr spec"
    "proposalOf spec (rt_candles rin) (length (rt_candles rin) - 1) (rt_position rin) = Inr p"
    "c = decideCycle spec rin adm p" "rt_deploymentId rin \<noteq> []" "rt_strategyVersionId rin \<noteq> []"
    "dataQualityValid (rt_candles rin)"
    using assms(1) unfolding cycle_Inr by blast
  obtain adm' where a: "marketAdmissionOf spec (last_candle rin') m = Inr adm'" using marketAdmission_returns by blast
  have same: "rt_candles rin' = rt_candles rin" "rt_position rin' = rt_position rin" "rt_dsl rin' = rt_dsl rin"
    "rt_deploymentId rin' = rt_deploymentId rin" "rt_strategyVersionId rin' = rt_strategyVersionId rin"
    "rt_marketData rin' = Some m" "last_candle rin' = last_candle rin" "rt_mode rin' = rt_mode rin"
    by (simp_all add: rin'_def last_candle_def)
  have c': "evaluateStrategyRuntimeCycle rin' = Inr (decideCycle spec rin' adm' p)"
    unfolding cycle_Inr same using c a same(7) by auto
  have act: "pr_action p = ExitPosition \<or> pr_action p = Hold"
    using c(2) unfolding assms(2) by (rule proposal_position)
  then have "rc_rejectionReasons (decideCycle spec rin' adm' p) = []"
    by (auto simp: decideCycle_def Let_def is_entry_def)
  moreover have "intentOf rin' (last_candle rin') p = intentOf rin (last_candle rin) p"
    by (cases "pr_action p") (simp_all add: intentOf_def same)
  ultimately show ?thesis
    using c' c(3) act by (auto simp: rin'_def [symmetric] decideCycle_intent decideCycle_approved is_entry_def)
qed

definition sample_runtime_position :: runtime_position where
  "sample_runtime_position = \<lparr>rp_side = LongSide, rp_entryPrice = N 1, rp_quantity = N 1\<rparr>"

theorem runtime_exit_never_blocked_witness:
  "\<exists>c. evaluateStrategyRuntimeCycle ((sample_input (Some sample_runtime_position))
      \<lparr>rt_riskState := sample_risk\<lparr>rr_halted := True\<rparr>, rt_lastDecision := Some (N 2),
       rt_marketData := Some \<lparr>ca_latestClosedAt = NaN, ca_evaluatedAt = N 2, ca_timeframe = ''1h''\<rparr>\<rparr>) = Inr c
     \<and> rc_riskApproved c"
proof -
  have "\<exists>p. proposalOf (PerpetualSpec sample_dsl) (rt_candles (sample_input (Some sample_runtime_position))) 1
      (Some sample_runtime_position) = Inr p"
    by (simp add: proposalOf_def spec_leg_def sample_runtime_position_def dir_of_def leg_of_def sample_dsl_def)
  then obtain c where c: "evaluateStrategyRuntimeCycle (sample_input (Some sample_runtime_position)) = Inr c"
    using sample_cycle by blast
  have "rt_position (sample_input (Some sample_runtime_position)) = Some sample_runtime_position" by (simp add: sample_input_def)
  from runtime_exit_never_blocked [OF c this] show ?thesis by blast
qed

text \<open>A stored risk reading that is present but is no usable number blocks every entry: the normalised
risk state lists it, and no cycle with that state creates an entry order.\<close>

theorem broken_reading_blocks_entry:
  assumes "evaluateStrategyRuntimeCycle rin = Inr c" "rt_riskState rin = resolveRuntimeRiskState raw"
    and "(name, k) \<in> set risk_fields" "broken raw name k"
  shows "\<not> (rc_orderIntent c \<noteq> None \<and> is_entry (rc_action c))"
proof -
  have "name \<in> set (rr_unavailableFields (rt_riskState rin))" using unavailable_iff assms(2-4) by auto
  then have "\<not> within_limits spec (rt_riskState rin)" for spec by (auto simp: within_limits_def)
  then show ?thesis using entry_iff [OF assms(1)] by blast
qed

theorem broken_reading_blocks_entry_witness:
  "\<exists>c. evaluateStrategyRuntimeCycle ((sample_input None)\<lparr>rt_riskState := resolveRuntimeRiskState [(''drawdownPct'', JArr [])]\<rparr>) = Inr c
     \<and> \<not> (rc_orderIntent c \<noteq> None \<and> is_entry (rc_action c))"
proof -
  let ?r = "resolveRuntimeRiskState [(''drawdownPct'', JArr [])]"
  obtain c where c: "evaluateStrategyRuntimeCycle (sample_input None) = Inr c" "rc_specification c = PerpetualSpec sample_dsl"
    using sample_cycle [OF proposal_flat] by blast
  then obtain adm p where d: "evaluateStrategyRuntimeCycle ((sample_input None)\<lparr>rt_riskState := ?r\<rparr>)
      = Inr (decideCycle (PerpetualSpec sample_dsl) ((sample_input None)\<lparr>rt_riskState := ?r\<rparr>) adm p)"
    unfolding cycle_Inr by (auto simp: last_candle_def)
  have "broken [(''drawdownPct'', JArr [])] ''drawdownPct'' False"
    by (simp add: broken_def isAbsent_def field_def parsed_reading_def)
  from broken_reading_blocks_entry [OF d _ _ this] d show ?thesis by (auto simp: risk_fields_def)
qed

text \<open>An official spot specification never goes short: its cycles never propose a short entry, and each
order they create is one the execution port takes, a buy for an entry and a sale for an exit.\<close>

theorem official_orders_are_spot:
  assumes "evaluateStrategyRuntimeCycle rin = Inr c" "rc_specification c = SpotSpec s" "rc_orderIntent c = Some it"
  shows "rc_action c \<noteq> EnterShort \<and> resolveExecutionSide (ri_action it) = Inr (if rc_action c = EnterLong then Buy else Sell)"
proof -
  obtain adm p where c: "proposalOf (SpotSpec s) (rt_candles rin) (length (rt_candles rin) - 1) (rt_position rin) = Inr p"
    "c = decideCycle (SpotSpec s) rin adm p"
    using assms(1,2) unfolding cycle_Inr by auto
  have "pr_action p \<noteq> EnterShort"
  proof (cases "rt_position rin")
    case None
    have "\<not> legEntryAt (spec_leg (SpotSpec s) ShortSide) cs i" for cs i by (simp add: spec_leg_def legEntryAt_def)
    then obtain l cc where "p = entryProposal cc l False" using c(1) unfolding None proposal_flat by auto
    then show ?thesis by (simp add: entryProposal_action)
  next
    case (Some pos)
    have "pr_action p = ExitPosition \<or> pr_action p = Hold"
      using c(1) unfolding Some by (rule proposal_position)
    then show ?thesis by auto
  qed
  moreover have "it = intentOf rin (last_candle rin) p" "pr_action p \<noteq> Hold"
    using assms(3) c(2) by (auto simp: decideCycle_intent split: if_splits)
  ultimately show ?thesis
    by (cases "pr_action p") (simp_all add: c(2) intentOf_def resolveExecutionSide_def)
qed

definition level_at :: "nat \<Rightarrow> candle" where
  "level_at i = \<lparr>openTime = N (of_nat i), closeTime = N (of_nat i), cd_open = N 1, cd_high = N 1, cd_low = N 1,
     cd_close = N 1, cd_volume = N 1\<rparr>"

lemma changes_replicate: "changes (replicate (Suc n) x) = replicate n (x - x)"
proof (induction n)
  case (Suc n)
  then show ?case by (cases n) simp_all
qed simp

lemma level_strength: "item (simpleWindowRsi (replicate 15 (N 1)) 14) 14 = N 100"
proof -
  have c: "changes (replicate 15 (N 1)) = replicate 14 (N 0)"
    using changes_replicate [of 14 "N 1"] by (simp add: eval_nat_numeral)
  have z: "gain (N 0) = N 0" "loss (N 0) = N 0"
    by (simp_all add: gain_def loss_def)
  have "item (simpleWindowRsi (replicate 15 (N 1)) 14) 14 = window_rsi (slice_of 0 14 (replicate 14 (N 0)))"
    unfolding simpleWindowRsi_def by (subst item_upt) (simp_all add: c)
  also have "\<dots> = N 100"
    using sum_zeros [of 14] by (simp add: window_rsi_def slice_of_def z sum_of_def js_sum_def Let_def)
  finally show ?thesis .
qed

definition official_input :: "official_spec \<Rightarrow> runtime_input" where
  "official_input s = \<lparr>rt_deploymentId = ''d1'', rt_strategyVersionId = ''v1'', rt_dsl = official_json s,
     rt_candles = map level_at [0..<15], rt_mode = PaperMode, rt_position = Some sample_runtime_position,
     rt_riskState = sample_risk, rt_lastDecision = None,
     rt_marketData = Some \<lparr>ca_latestClosedAt = N 14, ca_evaluatedAt = N 14, ca_timeframe = ''1h''\<rparr>\<rparr>"

theorem official_orders_are_spot_witness:
  "\<exists>s c it. evaluateStrategyRuntimeCycle (official_input s) = Inr c \<and> rc_orderIntent c = Some it
     \<and> resolveExecutionSide (ri_action it) = Inr Sell"
proof -
  obtain s where s: "platformStrategyDslV3 AiConservative ''BTCUSDT'' = Inr s"
    by (simp add: platformStrategyDslV3_def)
  define cs where "cs = map level_at [0..<15]"
  have closes: "map cd_close cs = replicate 15 (N 1)" by (simp add: cs_def level_at_def map_replicate_const comp_def)
  have spec: "specificationOf (official_json s) = Inr (SpotSpec s)"
    using normalizeOfficial_own [OF s] by (simp add: specificationOf_def)
  have "condition cs (RsiThreshold (N 14) OpGt (N 76) (Some SimpleWindow)) 14"
    by (simp add: condition_def cs_def [symmetric] closes nat_of_def level_strength compare_def)
      (simp add: cs_def)
  then have e: "exitAt (official_leg s) cs 14"
    using converted_legs [OF s] by (simp add: exitAt_def official_leg_def simpleRsi_def)
  define p where "p = exitProposal (SpotSpec s) (cs ! 14) sample_runtime_position (official_leg s) True"
  have p: "proposalOf (SpotSpec s) cs 14 (Some sample_runtime_position) = Inr p" "pr_action p = ExitPosition"
    using e by (simp_all add: proposalOf_def spec_leg_def sample_runtime_position_def p_def exitProposal_def spec_stops_def)
  define m where "m = \<lparr>ca_latestClosedAt = N 14, ca_evaluatedAt = N 14, ca_timeframe = ''1h''\<rparr>"
  obtain adm where a: "marketAdmissionOf (SpotSpec s) (last_candle (official_input s)) m = Inr adm"
    using marketAdmission_returns by blast
  have "dataQualityValid cs"
  proof -
    have "\<not> openTime (cs ! i) \<le> openTime (cs ! (i - 1))" if "1 \<le> i" "i < 15" for i
      using that by (simp add: cs_def level_at_def del: upt_Suc)
    then show ?thesis by (auto simp: dataQualityValid_def gapsOrDuplicates_def filter_empty_conv) (simp_all add: cs_def)
  qed
  then have c: "evaluateStrategyRuntimeCycle (official_input s) = Inr (decideCycle (SpotSpec s) (official_input s) adm p)"
    using spec a p(1) unfolding cycle_Inr by (auto simp: official_input_def m_def cs_def)
  have it: "rc_orderIntent (decideCycle (SpotSpec s) (official_input s) adm p)
      = Some (intentOf (official_input s) (last_candle (official_input s)) p)"
    using p(2) by (simp add: decideCycle_intent decideCycle_approved is_entry_def)
  from official_orders_are_spot [OF c _ it] show ?thesis using c it p(2) by force
qed

end
