(* ===== verification/Ledger.thy ===== *)
theory Ledger
  imports JsString
begin

text \<open>
  Money as decimal texts with eighteen places (\<open>packages/ledger/src/ledger.ts\<close>) and the balance
  check of a ledger transaction. An amount is a whole number of units of \<open>10 ^ -18\<close>; bigints are
  integers.
\<close>

subsection \<open>Decimal texts\<close>

definition UNIT :: int where
  "UNIT = 10 ^ 18"

text \<open>The match of \<open>\d+(?:\.\d{1,18})?\<close> on a whole text: the integer part and the fraction, if any.\<close>

definition decimal_parts :: "string \<Rightarrow> (string \<times> string option) option" where
  "decimal_parts s = (let whole = takeWhile is_digit s in
     if whole = [] then None
     else (case dropWhile is_digit s of
         [] \<Rightarrow> Some (whole, None)
       | c # fr \<Rightarrow> if c = CHR ''.'' \<and> fr \<noteq> [] \<and> length fr \<le> 18 \<and> list_all is_digit fr
                   then Some (whole, Some fr) else None))"

definition units_of :: "string \<times> string option \<Rightarrow> int" where
  "units_of d = parse_digits (fst d) * UNIT
     + parse_digits (pad_end 18 (CHR ''0'') (case snd d of None \<Rightarrow> [] | Some f \<Rightarrow> f))"

definition parseDecimalToUnits :: "string \<Rightarrow> (string, int) result" where
  "parseDecimalToUnits value = (case decimal_parts (js_trim value) of
     None \<Rightarrow> Inl ''INVALID_DECIMAL_AMOUNT'' | Some d \<Rightarrow> Inr (units_of d))"

text \<open>\<open>units\<close> is not negative.\<close>

definition unitsToDecimal :: "int \<Rightarrow> string" where
  "unitsToDecimal units =
     (let whole = units div UNIT; fraction = strip_zeros (show_padded 18 (units mod UNIT))
      in if fraction \<noteq> [] then show_digits whole @ ''.'' @ fraction else show_digits whole)"

definition normalizeDecimalString :: "string \<Rightarrow> (string, string) result" where
  "normalizeDecimalString value = ebind (parseDecimalToUnits value) (\<lambda>u. Inr (unitsToDecimal u))"

definition addDecimalStrings :: "string \<Rightarrow> string \<Rightarrow> (string, string) result" where
  "addDecimalStrings l r = ebind (parseDecimalToUnits l)
     (\<lambda>a. ebind (parseDecimalToUnits r) (\<lambda>b. Inr (unitsToDecimal (a + b))))"

definition compareDecimalStrings :: "string \<Rightarrow> string \<Rightarrow> (string, int) result" where
  "compareDecimalStrings l r = ebind (parseDecimalToUnits l)
     (\<lambda>a. ebind (parseDecimalToUnits r) (\<lambda>b. Inr (if a = b then 0 else if a > b then 1 else - 1)))"

subsection \<open>Postings\<close>

record ledger_posting =
  posting_side :: string
  posting_amount :: string

text \<open>One turn of the loop on the two sums.\<close>

definition addPosting :: "'a ledger_posting_scheme \<Rightarrow> int \<times> int \<Rightarrow> (string, int \<times> int) result" where
  "addPosting p s = ebind (parseDecimalToUnits (posting_amount p)) (\<lambda>amount.
     if amount \<le> 0 then Inl ''LEDGER_AMOUNT_MUST_BE_POSITIVE''
     else if posting_side p = ''debit'' then Inr (fst s + amount, snd s)
     else if posting_side p = ''credit'' then Inr (fst s, snd s + amount)
     else Inl ''LEDGER_POSTING_SIDE_INVALID'')"

definition assertBalancedPostings :: "'a ledger_posting_scheme list \<Rightarrow> (string, bool) result" where
  "assertBalancedPostings postings =
     (if length postings < 2 then Inl ''LEDGER_REQUIRES_MULTIPLE_POSTINGS''
      else ebind (efold addPosting postings (0, 0)) (\<lambda>(debit, credit).
        if debit \<noteq> credit then Inl ''LEDGER_NOT_BALANCED'' else Inr True))"

subsection \<open>Round trips\<close>

lemma UNIT_pos [simp]: "0 < UNIT"
  by (simp add: UNIT_def)

lemma strip_zeros_snoc [simp]: "strip_zeros (s @ [CHR ''0'']) = strip_zeros s"
  by (simp add: strip_zeros_def)

lemma strip_zeros_append: "strip_zeros s @ replicate (length s - length (strip_zeros s)) (CHR ''0'') = s"
proof (induction s rule: rev_induct)
  case (snoc c s)
  show ?case
  proof (cases "c = CHR ''0''")
    case True
    have "length (strip_zeros s) \<le> length s"
      unfolding strip_zeros_def using length_dropWhile_le [of _ "rev s"] by simp
    then have "length (s @ [c]) - length (strip_zeros s) = Suc (length s - length (strip_zeros s))" by simp
    with True snoc show ?thesis by (simp flip: replicate_append_same add: append_assoc [symmetric])
  next
    case False
    then show ?thesis by (simp add: strip_zeros_def)
  qed
qed (simp add: strip_zeros_def)

lemma strip_zeros_pad: "length s = n \<Longrightarrow> pad_end n (CHR ''0'') (strip_zeros s) = s"
  using strip_zeros_append [of s] by (simp add: pad_end_def)

lemma strip_zeros_subset: "set (strip_zeros s) \<subseteq> set s"
  using set_dropWhileD [of _ "\<lambda>c. c = CHR ''0''" "rev s"] by (auto simp: strip_zeros_def)

lemma length_strip_zeros: "length (strip_zeros s) \<le> length s"
  unfolding strip_zeros_def using length_dropWhile_le [of _ "rev s"] by simp

lemma digits_no_space: "list_all is_digit s \<Longrightarrow> c \<in> set s \<Longrightarrow> \<not> is_space c"
  by (auto simp: list_all_iff is_digit_def is_space_def)

lemma js_trim_tight:
  assumes "s \<noteq> []" "\<not> is_space (hd s)" "\<not> is_space (last s)"
  shows "js_trim s = s"
proof -
  have "dropWhile is_space s = s" using assms by (cases s) auto
  moreover have "dropWhile is_space (rev s) = rev s"
    using assms by (cases s rule: rev_cases) auto
  ultimately show ?thesis by (simp add: js_trim_def)
qed

lemma digit_not_point: "is_digit c \<Longrightarrow> c \<noteq> CHR ''.''"
  by (auto simp: is_digit_def ccode_def)

lemma decimal_parts_digits:
  assumes "list_all is_digit w" "w \<noteq> []"
  shows "decimal_parts w = Some (w, None)"
proof -
  have td: "takeWhile is_digit w = w" "dropWhile is_digit w = []"
    using assms(1) by (simp_all add: list_all_iff takeWhile_eq_all_conv dropWhile_eq_Nil_conv)
  show ?thesis unfolding decimal_parts_def Let_def td using assms(2) by simp
qed

lemma decimal_parts_point:
  assumes "list_all is_digit w" "w \<noteq> []" "list_all is_digit f" "f \<noteq> []" "length f \<le> 18"
  shows "decimal_parts (w @ ''.'' @ f) = Some (w, Some f)"
proof -
  have n: "\<not> is_digit (CHR ''.'')" using digit_not_point by blast
  have "takeWhile is_digit (w @ ''.'' @ f) = w" "dropWhile is_digit (w @ ''.'' @ f) = ''.'' @ f"
    using assms(1) n by (simp_all add: list_all_iff takeWhile_append2 dropWhile_append2)
  with assms show ?thesis by (simp add: decimal_parts_def)
qed

lemma trim_digits:
  assumes "list_all is_digit w" "w \<noteq> []"
  shows "js_trim w = w"
  using assms digits_no_space by (intro js_trim_tight) auto

lemma trim_decimal:
  assumes "list_all is_digit w" "w \<noteq> []" "list_all is_digit f" "f \<noteq> []"
  shows "js_trim (w @ ''.'' @ f) = w @ ''.'' @ f"
  using assms digits_no_space [OF assms(1)] digits_no_space [OF assms(3)] by (intro js_trim_tight) auto

lemma parse_pad_end_none [simp]: "parse_digits (pad_end n (CHR ''0'') []) = 0"
  using parse_digits_zeros [of n "[]"] by (simp add: pad_end_def)

lemma parse_unitsToDecimal:
  assumes "0 \<le> u"
  shows "parseDecimalToUnits (unitsToDecimal u) = Inr u"
proof -
  let ?w = "show_digits (u div UNIT)" and ?p = "show_padded 18 (u mod UNIT)"
  have w: "list_all is_digit ?w" "?w \<noteq> []" "parse_digits ?w = u div UNIT"
    using assms by (simp_all add: show_digits_all parse_show_digits pos_imp_zdiv_nonneg_iff)
  have r: "0 \<le> u mod UNIT" "u mod UNIT < 10 ^ 18" by (simp_all add: UNIT_def)
  have p: "length ?p = 18" "list_all is_digit ?p" "parse_digits ?p = u mod UNIT"
    using length_show_padded [OF r] show_padded_all [OF r(1)] parse_show_padded [OF r(1)] by simp_all
  have f: "list_all is_digit (strip_zeros ?p)" "length (strip_zeros ?p) \<le> 18"
    using p length_strip_zeros [of ?p] strip_zeros_subset [of ?p] by (auto simp: list_all_iff)
  have q: "parse_digits (pad_end 18 (CHR ''0'') (strip_zeros ?p)) = u mod UNIT"
    using p by (simp add: strip_zeros_pad)
  show ?thesis
  proof (cases "strip_zeros ?p = []")
    case True
    then have m: "u mod UNIT = 0" using q by simp
    then have "u div UNIT * UNIT = u" using div_mult_mod_eq [of u UNIT] by simp
    with m True w show ?thesis
      by (simp add: unitsToDecimal_def parseDecimalToUnits_def trim_digits decimal_parts_digits units_of_def)
  next
    case False
    with w f q trim_decimal [OF w(1,2) f(1) False] decimal_parts_point [OF w(1,2) f(1) False f(2)] show ?thesis
      by (simp add: unitsToDecimal_def parseDecimalToUnits_def units_of_def)
  qed
qed

lemma decimal_partsD:
  assumes "decimal_parts s = Some (w, f)"
  shows "list_all is_digit w" "w \<noteq> []" "f = Some x \<Longrightarrow> list_all is_digit x"
  using assms by (auto simp: decimal_parts_def Let_def list_all_iff dest: set_takeWhileD
      split: list.splits if_splits)

lemma parse_units_nonneg:
  assumes "parseDecimalToUnits s = Inr u"
  shows "0 \<le> u"
proof -
  obtain w f where d: "decimal_parts (js_trim s) = Some (w, f)" and u: "u = units_of (w, f)"
    using assms by (auto simp: parseDecimalToUnits_def split: option.splits)
  have "list_all is_digit (pad_end 18 (CHR ''0'') (case f of None \<Rightarrow> [] | Some x \<Rightarrow> x))"
    using decimal_partsD(3) [OF d] by (cases f) (auto simp: pad_end_def list_all_iff)
  then have "0 \<le> parse_digits (pad_end 18 (CHR ''0'') (case f of None \<Rightarrow> [] | Some x \<Rightarrow> x))"
    by (rule parse_digits_nonneg)
  moreover have "0 \<le> parse_digits w * UNIT"
    using parse_digits_nonneg [OF decimal_partsD(1) [OF d]] by (simp add: less_imp_le)
  ultimately show ?thesis by (simp add: u units_of_def)
qed

text \<open>Two amounts are the same exactly when their normal texts are.\<close>

theorem normal_text_canonical:
  assumes "normalizeDecimalString a = Inr x" "normalizeDecimalString b = Inr y"
  shows "normalizeDecimalString x = Inr x \<and> (compareDecimalStrings a b = Inr 0 \<longleftrightarrow> x = y)"
proof -
  obtain u v where u: "parseDecimalToUnits a = Inr u" "x = unitsToDecimal u"
    and v: "parseDecimalToUnits b = Inr v" "y = unitsToDecimal v"
    using assms by (auto simp: normalizeDecimalString_def ebind_Inr_iff)
  note pu = parse_unitsToDecimal [OF parse_units_nonneg [OF u(1)]]
  note pv = parse_unitsToDecimal [OF parse_units_nonneg [OF v(1)]]
  have "x = y \<longleftrightarrow> u = v" using pu pv unfolding u(2) v(2) by (metis sum.inject(2))
  then show ?thesis using u v pu by (simp add: normalizeDecimalString_def compareDecimalStrings_def)
qed

text \<open>Adding texts adds the amounts: no place is lost and nothing is rounded.\<close>

theorem decimal_addition_exact:
  assumes "addDecimalStrings a b = Inr s"
  shows "\<exists>u v. parseDecimalToUnits a = Inr u \<and> parseDecimalToUnits b = Inr v
    \<and> parseDecimalToUnits s = Inr (u + v)"
proof -
  obtain u v where u: "parseDecimalToUnits a = Inr u" "parseDecimalToUnits b = Inr v" "s = unitsToDecimal (u + v)"
    using assms by (auto simp: addDecimalStrings_def ebind_Inr_iff)
  with parse_unitsToDecimal [of "u + v"] parse_units_nonneg [OF u(1)] parse_units_nonneg [OF u(2)]
  show ?thesis by auto
qed

subsection \<open>The balance check\<close>

definition amount_units :: "'a ledger_posting_scheme \<Rightarrow> int" where
  "amount_units p = (case parseDecimalToUnits (posting_amount p) of Inl _ \<Rightarrow> 0 | Inr u \<Rightarrow> u)"

definition posting_ok :: "'a ledger_posting_scheme \<Rightarrow> bool" where
  "posting_ok p \<longleftrightarrow> 0 < amount_units p \<and> posting_side p \<in> {''debit'', ''credit''}"

definition side_total :: "string \<Rightarrow> 'a ledger_posting_scheme list \<Rightarrow> int" where
  "side_total x ps = sum_list (map amount_units (filter (\<lambda>p. posting_side p = x) ps))"

lemma side_total_simps [simp]:
  "side_total x [] = 0"
  "side_total x (p # ps) = (if posting_side p = x then amount_units p else 0) + side_total x ps"
  by (simp_all add: side_total_def)

lemma addPosting_ok:
  "posting_ok p \<Longrightarrow> addPosting p s = Inr (fst s + (if posting_side p = ''debit'' then amount_units p else 0),
     snd s + (if posting_side p = ''credit'' then amount_units p else 0))"
  by (auto simp: addPosting_def posting_ok_def amount_units_def split: sum.splits)

lemma addPosting_bad: "\<not> posting_ok p \<Longrightarrow> \<exists>e. addPosting p s = Inl e"
  by (cases "parseDecimalToUnits (posting_amount p)")
    (auto simp: addPosting_def posting_ok_def amount_units_def)

lemma efold_postings:
  "efold addPosting ps s = Inr t \<longleftrightarrow> list_all posting_ok ps
     \<and> t = (fst s + side_total ''debit'' ps, snd s + side_total ''credit'' ps)"
proof (induction ps arbitrary: s)
  case (Cons p ps)
  show ?case
  proof (cases "posting_ok p")
    case True
    then show ?thesis by (auto simp: addPosting_ok Cons)
  next
    case False
    with addPosting_bad [OF this, of s] show ?thesis by auto
  qed
qed auto

text \<open>A transaction passes exactly when it has at least two postings, each a positive amount on one of
the two sides, and the debits add up to the credits to the last of the eighteen places.\<close>

theorem balanced_postings_exact:
  "assertBalancedPostings ps = Inr True \<longleftrightarrow> 2 \<le> length ps \<and> list_all posting_ok ps
     \<and> side_total ''debit'' ps = side_total ''credit'' ps"
  by (auto simp: assertBalancedPostings_def ebind_Inr_iff efold_postings not_less)

theorem normal_text_canonical_witness:
  "normalizeDecimalString (unitsToDecimal 5) = Inr (unitsToDecimal 5)
     \<and> compareDecimalStrings (unitsToDecimal 5) (unitsToDecimal 5) = Inr 0"
proof -
  have "normalizeDecimalString (unitsToDecimal 5) = Inr (unitsToDecimal 5)"
    by (simp add: normalizeDecimalString_def parse_unitsToDecimal)
  from normal_text_canonical [OF this this] show ?thesis by simp
qed

end
