(* ===== verification/MembershipFees.thy ===== *)
theory MembershipFees
  imports Ledger
begin

text \<open>
  What a membership is charged (\<open>packages/domain/src/commercial-membership-domain.ts\<close>): the price of a
  model call in credits, and the weekly performance fee above the high-water mark, with the two
  steps of \<open>lib/performance-fee-service.ts\<close> that move the mark. Amounts are signed decimal texts.
\<close>

subsection \<open>Signed decimals\<close>

text \<open>The match of an optional minus sign and a decimal.\<close>

definition signed_parts :: "string \<Rightarrow> (bool \<times> string \<times> string option) option" where
  "signed_parts s = (case s of c # t \<Rightarrow>
       if c = CHR ''-'' then map_option (Pair True) (decimal_parts t) else map_option (Pair False) (decimal_parts s)
     | [] \<Rightarrow> None)"

definition decimalToUnits :: "string \<Rightarrow> (string, int) result" where
  "decimalToUnits value = (case signed_parts (js_trim value) of
     None \<Rightarrow> Inl ''INVALID_DECIMAL''
   | Some (negative, d) \<Rightarrow> Inr (if negative then - units_of d else units_of d))"

definition signedUnitsToDecimal :: "int \<Rightarrow> string" where
  "signedUnitsToDecimal value =
     (let a = \<bar>value\<bar>; fraction = strip_zeros (show_padded 18 (a mod UNIT))
      in (if value < 0 then ''-'' else []) @ show_digits (a div UNIT)
         @ (if fraction \<noteq> [] then ''.'' @ fraction else []))"

definition compareSignedDecimalStrings :: "string \<Rightarrow> string \<Rightarrow> (string, int) result" where
  "compareSignedDecimalStrings l r = ebind (decimalToUnits l)
     (\<lambda>a. ebind (decimalToUnits r) (\<lambda>b. Inr (if a = b then 0 else if a > b then 1 else - 1)))"

lemma signedUnitsToDecimal_unsigned:
  "signedUnitsToDecimal v = (if v < 0 then ''-'' else []) @ unitsToDecimal \<bar>v\<bar>"
  by (simp add: signedUnitsToDecimal_def unitsToDecimal_def Let_def)

lemma decimal_parts_hd:
  assumes "decimal_parts s = Some d"
  shows "s \<noteq> [] \<and> is_digit (hd s)"
  using assms by (cases s) (auto simp: decimal_parts_def Let_def split: if_splits)

lemma unitsToDecimal_text:
  assumes "0 \<le> u"
  shows "c \<in> set (unitsToDecimal u) \<Longrightarrow> \<not> is_space c" "decimal_parts (unitsToDecimal u) \<noteq> None"
proof -
  let ?w = "show_digits (u div UNIT)" and ?f = "strip_zeros (show_padded 18 (u mod UNIT))"
  have w: "list_all is_digit ?w" "?w \<noteq> []"
    using assms by (simp_all add: show_digits_all pos_imp_zdiv_nonneg_iff)
  have r: "0 \<le> u mod UNIT" "u mod UNIT < 10 ^ 18" by (simp_all add: UNIT_def)
  have f: "list_all is_digit ?f" "length ?f \<le> 18"
    using length_show_padded [OF r] show_padded_all [OF r(1)] length_strip_zeros [of "show_padded 18 (u mod UNIT)"]
      strip_zeros_subset [of "show_padded 18 (u mod UNIT)"] by (auto simp: list_all_iff)
  have p: "\<not> is_space (CHR ''.'')" by (simp add: is_space_def ccode_def)
  show "c \<in> set (unitsToDecimal u) \<Longrightarrow> \<not> is_space c"
    using digits_no_space [OF w(1)] digits_no_space [OF f(1)] p
    by (auto simp: unitsToDecimal_def Let_def split: if_splits)
  show "decimal_parts (unitsToDecimal u) \<noteq> None"
    using decimal_parts_digits [OF w] decimal_parts_point [OF w f(1) _ f(2)]
    by (simp add: unitsToDecimal_def Let_def)
qed

lemma decimalToUnits_signed:
  "decimalToUnits (signedUnitsToDecimal v) = Inr v"
proof -
  let ?s = "unitsToDecimal \<bar>v\<bar>"
  obtain d where d: "decimal_parts ?s = Some d" using unitsToDecimal_text(2) [OF abs_ge_zero, of v] unfolding not_None_eq by blast
  obtain c t where s: "?s = c # t" and c: "is_digit c"
    using decimal_parts_hd [OF d] by (cases ?s) auto
  have m: "c \<noteq> CHR ''-''" "\<not> is_space (CHR ''-'')" using c by (auto simp: is_digit_def is_space_def ccode_def)
  have l: "\<not> is_space (hd ?s)" "\<not> is_space (last ?s)"
    using unitsToDecimal_text(1) [of "\<bar>v\<bar>"] s by auto
  then have t: "js_trim ?s = ?s" using s by (intro js_trim_tight) auto
  have u: "units_of d = \<bar>v\<bar>"
    using parse_unitsToDecimal [of "\<bar>v\<bar>"] d t by (simp add: parseDecimalToUnits_def)
  show ?thesis
  proof (cases "v < 0")
    case True
    have "js_trim (''-'' @ ?s) = ''-'' @ ?s" using m(2) l s by (intro js_trim_tight) auto
    with True d u show ?thesis
      by (simp add: decimalToUnits_def signedUnitsToDecimal_unsigned signed_parts_def)
  next
    case False
    have "signed_parts ?s = Some (False, d)" using d m(1) by (simp add: signed_parts_def s)
    with False u t show ?thesis
      by (simp add: decimalToUnits_def signedUnitsToDecimal_unsigned)
  qed
qed

subsection \<open>The price of a model call\<close>

record token_usage =
  tu_modelVersion :: string
  tu_usageReliable :: bool
  tu_rateReliable :: bool
  tu_inputTokens :: jsnum
  tu_outputTokens :: jsnum

text \<open>\<open>BigInt(x)\<close> of a safe integer.\<close>

fun big_int :: "jsnum \<Rightarrow> int" where
  "big_int (N a) = \<lfloor>a\<rfloor>"
| "big_int _ = 0"

definition token_count :: "jsnum \<Rightarrow> bool" where
  "token_count v \<longleftrightarrow> is_safe_integer v \<and> \<not> v < N 0"

definition calculateTokenCost :: "token_usage \<Rightarrow> (string, int) result" where
  "calculateTokenCost u =
     (if tu_modelVersion u \<noteq> ''token-cost-v1'' then Inl ''AI_COST_MODEL_UNSUPPORTED''
      else if \<not> tu_usageReliable u then Inl ''AI_USAGE_NOT_RELIABLE''
      else if \<not> tu_rateReliable u then Inl ''AI_RATE_NOT_RELIABLE''
      else if \<not> token_count (tu_inputTokens u) \<or> \<not> token_count (tu_outputTokens u)
        then Inl ''AI_USAGE_OR_RATE_INVALID''
      else Inr ((big_int (tu_inputTokens u) * 10 + big_int (tu_outputTokens u) * 30 + 999999) div 1000000))"

subsection \<open>The weekly performance fee\<close>

record weekly_fee_input =
  wi_weekNetPnl :: string
  wi_cumulativeNetPnl :: string
  wi_committedHighWaterMark :: string
  wi_feeBps :: jsnum

record weekly_fee =
  wf_weekNetPnl :: string
  wf_cumulativeNetPnl :: string
  wf_committedHighWaterMark :: string
  wf_eligibleProfit :: string
  wf_lossCarry :: string
  wf_feeAmount :: string

definition calculateWeeklyPerformanceFee :: "weekly_fee_input \<Rightarrow> (string, weekly_fee) result" where
  "calculateWeeklyPerformanceFee i =
     (if \<not> is_integer (wi_feeBps i) \<or> wi_feeBps i < N 0 \<or> N 10000 < wi_feeBps i then Inl ''FEE_BPS_INVALID''
      else ebind (decimalToUnits (wi_cumulativeNetPnl i)) (\<lambda>cumulative.
        ebind (decimalToUnits (wi_committedHighWaterMark i)) (\<lambda>hwm.
          let eligible = (if cumulative > hwm then cumulative - hwm else 0);
              lossCarry = (if cumulative < hwm then hwm - cumulative else 0);
              fee = eligible * big_int (wi_feeBps i) div 10000
          in ebind (decimalToUnits (wi_weekNetPnl i)) (\<lambda>week.
               Inr \<lparr>wf_weekNetPnl = signedUnitsToDecimal week,
                 wf_cumulativeNetPnl = signedUnitsToDecimal cumulative,
                 wf_committedHighWaterMark = signedUnitsToDecimal hwm,
                 wf_eligibleProfit = signedUnitsToDecimal eligible,
                 wf_lossCarry = signedUnitsToDecimal lossCarry,
                 wf_feeAmount = signedUnitsToDecimal fee\<rparr>))))"

text \<open>
  The fee of a week is set by its statement; an approved statement is closed when its fee is zero
  and waits for the payment otherwise, and only the payment moves the mark.
\<close>

datatype statement_status = NoFee | PaymentPending

definition approvedStatus :: "string \<Rightarrow> (string, statement_status) result" where
  "approvedStatus feeAmount = ebind (compareSignedDecimalStrings feeAmount ''0'')
     (\<lambda>c. Inr (if c = 0 then NoFee else PaymentPending))"

definition paidHighWaterMark :: "int \<Rightarrow> int \<Rightarrow> int" where
  "paidHighWaterMark highWaterMark cumulative = max highWaterMark cumulative"

subsection \<open>What the calculations promise\<close>

lemma big_int_bounds:
  assumes "is_integer v" "\<not> v < N 0" "\<not> N 10000 < v"
  shows "0 \<le> big_int v \<and> big_int v \<le> 10000"
proof -
  obtain a where a: "v = N a" using assms(1) by (cases v) auto
  then have "of_int \<lfloor>a\<rfloor> = a" "0 \<le> a" "a \<le> 10000" using assms by auto
  then have "0 \<le> \<lfloor>a\<rfloor> \<and> \<lfloor>a\<rfloor> \<le> 10000" by linarith
  with a show ?thesis by simp
qed

lemma token_cost_nonneg:
  assumes "calculateTokenCost u = Inr c"
  shows "0 \<le> c"
proof -
  have n: "token_count v \<Longrightarrow> 0 \<le> big_int v" for v by (cases v) (auto simp: token_count_def)
  have t: "token_count (tu_inputTokens u)" "token_count (tu_outputTokens u)"
    and c: "c = (big_int (tu_inputTokens u) * 10 + big_int (tu_outputTokens u) * 30 + 999999) div 1000000"
    using assms by (auto simp: calculateTokenCost_def split: if_splits)
  from c n [OF t(1)] n [OF t(2)] show ?thesis by simp
qed

text \<open>The price is the exact price rounded up to the next whole credit, and it grows with the usage.\<close>

theorem token_cost_exact:
  assumes "calculateTokenCost u = Inr c"
  shows "0 \<le> c \<and> 10 * big_int (tu_inputTokens u) + 30 * big_int (tu_outputTokens u) \<le> 1000000 * c
    \<and> 1000000 * c < 10 * big_int (tu_inputTokens u) + 30 * big_int (tu_outputTokens u) + 1000000"
proof -
  have t: "token_count (tu_inputTokens u)" "token_count (tu_outputTokens u)"
    and c: "c = (big_int (tu_inputTokens u) * 10 + big_int (tu_outputTokens u) * 30 + 999999) div 1000000"
    using assms by (auto simp: calculateTokenCost_def split: if_splits)
  have n: "token_count v \<Longrightarrow> 0 \<le> big_int v" for v by (cases v) (auto simp: token_count_def)
  show ?thesis unfolding c using n [OF t(1)] n [OF t(2)] by linarith
qed

lemma signed_text:
  assumes "list_all is_digit w" "w \<noteq> []" "list_all is_digit f" "f \<noteq> []" "length f \<le> 18"
  shows "decimalToUnits ((if neg then ''-'' else []) @ w @ ''.'' @ f)
    = Inr (if neg then - units_of (w, Some f) else units_of (w, Some f))"
proof -
  let ?s = "w @ ''.'' @ f"
  have d: "decimal_parts ?s = Some (w, Some f)" using assms by (rule decimal_parts_point)
  obtain c t where c: "w = c # t" "is_digit c" using assms(1,2) by (cases w) auto
  have m: "c \<noteq> CHR ''-''" "\<not> is_space (CHR ''-'')" using c(2) by (auto simp: is_digit_def is_space_def ccode_def)
  have l: "\<not> is_space (last f)" using digits_no_space [OF assms(3)] assms(4) by simp
  show ?thesis
  proof (cases neg)
    case True
    have "js_trim (''-'' @ ?s) = ''-'' @ ?s" using m(2) l assms(4) by (intro js_trim_tight) auto
    with True d show ?thesis by (simp add: decimalToUnits_def signed_parts_def)
  next
    case False
    have "signed_parts ?s = Some (False, w, Some f)" using d m(1) c(1) by (simp add: signed_parts_def)
    with False trim_decimal [OF assms(1-4)] show ?thesis by (simp add: decimalToUnits_def)
  qed
qed

text \<open>The text of a \<open>numeric(36,18)\<close> column.\<close>

definition numeric_text :: "int \<Rightarrow> string" where
  "numeric_text v = (if v < 0 then ''-'' else []) @ show_digits (\<bar>v\<bar> div UNIT) @ ''.'' @ show_padded 18 (\<bar>v\<bar> mod UNIT)"

lemma decimalToUnits_numeric [simp]: "decimalToUnits (numeric_text v) = Inr v"
proof -
  let ?w = "show_digits (\<bar>v\<bar> div UNIT)" and ?p = "show_padded 18 (\<bar>v\<bar> mod UNIT)"
  have w: "list_all is_digit ?w" "?w \<noteq> []" "parse_digits ?w = \<bar>v\<bar> div UNIT"
    by (simp_all add: show_digits_all parse_show_digits pos_imp_zdiv_nonneg_iff)
  have r: "0 \<le> \<bar>v\<bar> mod UNIT" "\<bar>v\<bar> mod UNIT < 10 ^ 18" by (simp_all add: UNIT_def)
  have p: "length ?p = 18" "list_all is_digit ?p" "parse_digits ?p = \<bar>v\<bar> mod UNIT"
    using length_show_padded [OF r] show_padded_all [OF r(1)] parse_show_padded [OF r(1)] by simp_all
  have n: "?p \<noteq> []" using p(1) by auto
  have "units_of (?w, Some ?p) = \<bar>v\<bar>" using w(3) p by (simp add: units_of_def pad_end_def)
  then have v: "(if v < 0 then - units_of (?w, Some ?p) else units_of (?w, Some ?p)) = v" by presburger
  have "length ?p \<le> 18" using p(1) by simp
  from signed_text [OF w(1,2) p(2) n this, of "v < 0", unfolded v] show ?thesis unfolding numeric_text_def .
qed

text \<open>The fee is the rate of what exceeds the mark, rounded down; the six texts read back as the exact
figures, and profit or loss is all that separates the result from the mark.\<close>

theorem weekly_fee_exact:
  assumes "calculateWeeklyPerformanceFee i = Inr w"
    and c: "decimalToUnits (wi_cumulativeNetPnl i) = Inr c"
    and h: "decimalToUnits (wi_committedHighWaterMark i) = Inr h"
  shows "\<exists>eligible carry fee. decimalToUnits (wf_eligibleProfit w) = Inr eligible
    \<and> decimalToUnits (wf_lossCarry w) = Inr carry \<and> decimalToUnits (wf_feeAmount w) = Inr fee
    \<and> decimalToUnits (wf_cumulativeNetPnl w) = Inr c \<and> decimalToUnits (wf_committedHighWaterMark w) = Inr h
    \<and> decimalToUnits (wf_weekNetPnl w) = decimalToUnits (wi_weekNetPnl i)
    \<and> 0 \<le> eligible \<and> 0 \<le> carry \<and> eligible * carry = 0 \<and> c = h + eligible - carry
    \<and> 0 \<le> fee \<and> fee \<le> eligible \<and> 10000 * fee \<le> eligible * big_int (wi_feeBps i)
    \<and> eligible * big_int (wi_feeBps i) < 10000 * fee + 10000"
proof -
  define e l where "e = (if h < c then c - h else 0)" and "l = (if c < h then h - c else 0)"
  define bps where "bps = big_int (wi_feeBps i)"
  define f where "f = e * bps div 10000"
  have v: "is_integer (wi_feeBps i)" "\<not> wi_feeBps i < N 0" "\<not> N 10000 < wi_feeBps i"
    using assms(1) by (auto simp: calculateWeeklyPerformanceFee_def split: if_splits)
  have b: "0 \<le> bps" "bps \<le> 10000" using big_int_bounds [OF v] by (simp_all add: bps_def)
  have "ebind (decimalToUnits (wi_weekNetPnl i)) (\<lambda>k. Inr \<lparr>wf_weekNetPnl = signedUnitsToDecimal k,
      wf_cumulativeNetPnl = signedUnitsToDecimal c, wf_committedHighWaterMark = signedUnitsToDecimal h,
      wf_eligibleProfit = signedUnitsToDecimal e, wf_lossCarry = signedUnitsToDecimal l,
      wf_feeAmount = signedUnitsToDecimal f\<rparr>) = Inr w"
    using assms(1) v by (simp add: calculateWeeklyPerformanceFee_def c h Let_def f_def e_def l_def bps_def)
  then obtain k where k: "decimalToUnits (wi_weekNetPnl i) = Inr k" and w: "w = \<lparr>wf_weekNetPnl = signedUnitsToDecimal k,
      wf_cumulativeNetPnl = signedUnitsToDecimal c, wf_committedHighWaterMark = signedUnitsToDecimal h,
      wf_eligibleProfit = signedUnitsToDecimal e, wf_lossCarry = signedUnitsToDecimal l,
      wf_feeAmount = signedUnitsToDecimal f\<rparr>" unfolding ebind_Inr_iff by blast
  have e: "0 \<le> e" "0 \<le> l" "e * l = 0" "c = h + e - l" by (simp_all add: e_def l_def)
  have m: "e * bps \<le> e * 10000" using b e by (simp add: mult_left_mono)
  have p: "0 \<le> e * bps" using b e by simp
  have f: "10000 * f \<le> e * bps" "e * bps < 10000 * f + 10000" "0 \<le> f"
    unfolding f_def using p by linarith+
  have "f \<le> e" using f(1) m by linarith
  with e f show ?thesis unfolding w weekly_fee.simps decimalToUnits_signed k bps_def by blast
qed

subsection \<open>A customer's weeks\<close>

text \<open>
  One settled week, with the mark as the table's column gives it: the statement is calculated against
  the mark and approved; when it has a fee the fee is paid and the mark moves. The state is the mark
  and what has been paid.
\<close>

definition settleWeek :: "jsnum \<Rightarrow> string \<times> string \<Rightarrow> int \<times> int \<Rightarrow> (string, int \<times> int) result" where
  "settleWeek feeBps week s = ebind (calculateWeeklyPerformanceFee
       \<lparr>wi_weekNetPnl = fst week, wi_cumulativeNetPnl = snd week,
        wi_committedHighWaterMark = numeric_text (fst s), wi_feeBps = feeBps\<rparr>)
     (\<lambda>w. ebind (approvedStatus (wf_feeAmount w)) (\<lambda>st. case st of
         NoFee \<Rightarrow> Inr s
       | PaymentPending \<Rightarrow> ebind (decimalToUnits (wf_feeAmount w)) (\<lambda>fee.
           ebind (decimalToUnits (wf_cumulativeNetPnl w)) (\<lambda>c.
             Inr (paidHighWaterMark (fst s) c, snd s + fee)))))"

lemma zero_text [simp]: "decimalToUnits ''0'' = Inr 0"
proof -
  have d: "list_all is_digit ''0''" "''0'' \<noteq> []" by simp_all
  have "parse_digits ''0'' = 0" using parse_digits_zeros [of 1 "[]"] by simp
  then have "units_of (''0'', None) = 0" by (simp add: units_of_def)
  then show ?thesis using trim_digits [OF d] decimal_parts_digits [OF d]
    by (simp add: decimalToUnits_def signed_parts_def)
qed

lemma settleWeek_step:
  assumes "settleWeek feeBps week (m, p) = Inr (m', p')"
  shows "m \<le> m' \<and> p \<le> p' \<and> 10000 * (p' - p) \<le> (m' - m) * big_int feeBps
    \<and> (m' = m \<or> decimalToUnits (snd week) = Inr m')"
proof -
  let ?i = "\<lparr>wi_weekNetPnl = fst week, wi_cumulativeNetPnl = snd week,
        wi_committedHighWaterMark = numeric_text m, wi_feeBps = feeBps\<rparr>"
  obtain w where w: "calculateWeeklyPerformanceFee ?i = Inr w"
    using assms by (auto simp: settleWeek_def ebind_Inr_iff)
  then obtain c where c: "decimalToUnits (snd week) = Inr c"
    by (auto simp: calculateWeeklyPerformanceFee_def ebind_Inr_iff split: if_splits)
  from weekly_fee_exact [OF w, of c m] c obtain e l f where x: "decimalToUnits (wf_feeAmount w) = Inr f"
      "decimalToUnits (wf_cumulativeNetPnl w) = Inr c" "0 \<le> e" "0 \<le> l" "e * l = 0" "c = m + e - l" "0 \<le> f"
      "f \<le> e" "10000 * f \<le> e * big_int feeBps" by auto
  show ?thesis
  proof (cases "f = 0")
    case True
    then have "(m', p') = (m, p)"
      using assms x(1) by (simp add: settleWeek_def w approvedStatus_def compareSignedDecimalStrings_def)
    then show ?thesis by simp
  next
    case False
    then have s: "m' = max m c" "p' = p + f"
      using assms x(1,2) by (simp_all add: settleWeek_def w approvedStatus_def compareSignedDecimalStrings_def
          paidHighWaterMark_def split: if_splits)
    have "0 < e" using False x(7,8) by simp
    then have "l = 0" using x(5) by simp
    with x have "m' = c" "c - m = e" using s \<open>0 < e\<close> by simp_all
    with x c s \<open>0 < e\<close> show ?thesis by (simp add: algebra_simps)
  qed
qed



end
