(* ===== verification/Credits.thy ===== *)
theory Credits
  imports Prelude
begin

text \<open>
  The rules of the credit ledger (\<open>packages/domain/src/credits/credit-ledger.ts\<close>): which changes of
  the two balances a mutation may make, how it is applied, and the life of a reservation. Credits are
  bigints, so integers.
\<close>

datatype credit_mutation = Grant | Reserve | Settle | Release | Adjust

record credit_delta =
  availableDelta :: int
  reservedDelta :: int

record credit_balance =
  available :: int
  reserved :: int

subsection \<open>Mutations\<close>

fun isValidCreditMutation :: "credit_mutation \<Rightarrow> 'a credit_delta_scheme \<Rightarrow> bool" where
  "isValidCreditMutation Grant d = (availableDelta d > 0 \<and> reservedDelta d = 0)"
| "isValidCreditMutation Reserve d = (availableDelta d < 0 \<and> reservedDelta d = - availableDelta d)"
| "isValidCreditMutation Settle d =
     (availableDelta d \<ge> 0 \<and> reservedDelta d < 0 \<and> availableDelta d + reservedDelta d \<le> 0)"
| "isValidCreditMutation Release d = (availableDelta d > 0 \<and> reservedDelta d = - availableDelta d)"
| "isValidCreditMutation Adjust d = (reservedDelta d = 0 \<and> availableDelta d \<noteq> 0)"

definition applyCreditDelta :: "credit_balance \<Rightarrow> 'a credit_delta_scheme \<Rightarrow> credit_balance option" where
  "applyCreditDelta b d =
     (let a = available b + availableDelta d; r = reserved b + reservedDelta d
      in if a < 0 \<or> r < 0 then None else Some \<lparr>available = a, reserved = r\<rparr>)"

subsection \<open>Reservations\<close>

datatype reservation_status = Reserved | Settled | Released

datatype reservation_target = ToSettled | ToReleased

datatype transition = Proceed | Replay | Conflict

fun target_status :: "reservation_target \<Rightarrow> reservation_status" where
  "target_status ToSettled = Settled"
| "target_status ToReleased = Released"

definition resolveReservationTransition :: "reservation_status \<Rightarrow> reservation_target \<Rightarrow> transition" where
  "resolveReservationTransition current target =
     (if current = target_status target then Replay else if current = Reserved then Proceed else Conflict)"

text \<open>\<open>Inl\<close> is a refused plan with its reason.\<close>

definition planReservationSettlement :: "int \<Rightarrow> int \<Rightarrow> (string, credit_delta \<times> int) result" where
  "planReservationSettlement estimated actual =
     (if actual > estimated then Inl ''EXCEEDS_RESERVATION''
      else Inr (\<lparr>availableDelta = estimated - actual, reservedDelta = - estimated\<rparr>, actual))"

definition planReservationRelease :: "int \<Rightarrow> credit_delta" where
  "planReservationRelease estimated = \<lparr>availableDelta = estimated, reservedDelta = - estimated\<rparr>"

subsection \<open>What the rules say about the sum\<close>

definition total :: "credit_balance \<Rightarrow> int" where
  "total b = available b + reserved b"

lemma applyCreditDelta_Some:
  "applyCreditDelta b d = Some b' \<longleftrightarrow> 0 \<le> available b + availableDelta d \<and> 0 \<le> reserved b + reservedDelta d
     \<and> b' = \<lparr>available = available b + availableDelta d, reserved = reserved b + reservedDelta d\<rparr>"
  by (auto simp: applyCreditDelta_def Let_def)

text \<open>Only a grant or an adjustment upwards makes credits; a reservation and a release move them, a
settlement takes at most what was reserved; no balance gets negative.\<close>

theorem credit_mutation_effect:
  assumes "isValidCreditMutation t d" "applyCreditDelta b d = Some b'" "0 \<le> available b" "0 \<le> reserved b"
  shows "0 \<le> available b' \<and> 0 \<le> reserved b' \<and>
    (case t of
       Grant \<Rightarrow> total b < total b' \<and> reserved b' = reserved b
     | Reserve \<Rightarrow> total b' = total b \<and> available b' < available b
     | Settle \<Rightarrow> total b' \<le> total b \<and> total b - total b' \<le> reserved b - reserved b' \<and> available b \<le> available b'
     | Release \<Rightarrow> total b' = total b \<and> reserved b' < reserved b
     | Adjust \<Rightarrow> reserved b' = reserved b \<and> total b' \<noteq> total b)"
  using assms by (cases t) (auto simp: applyCreditDelta_Some total_def)

lemma settlement_valid:
  assumes "planReservationSettlement estimated actual = Inr (d, s)" "0 < estimated" "0 \<le> actual"
  shows "isValidCreditMutation Settle d \<and> s = actual \<and> availableDelta d + reservedDelta d = - actual"
  using assms by (auto simp: planReservationSettlement_def split: if_splits)

lemma release_valid: "0 < estimated \<Longrightarrow> isValidCreditMutation Release (planReservationRelease estimated)"
  by (simp add: planReservationRelease_def)

lemma transition_cases:
  "resolveReservationTransition s t = Proceed \<longleftrightarrow> s = Reserved"
  "resolveReservationTransition s t = Replay \<longleftrightarrow> s = target_status t"
  by (cases t; auto simp: resolveReservationTransition_def)+

end
