(* ===== verification/CreditStore.thy ===== *)
theory CreditStore
  imports Credits MembershipFees CanonicalJson JsDate
begin

text \<open>
  The credit tables and the services that write them: \<open>lib/ai-credit-service.ts\<close>,
  \<open>lib/credit-adjustment-service.ts\<close> and the reader \<open>lib/client-credit-view.ts\<close>, with the
  constraints of migrations 0023 and 0031. A function that runs in a transaction returns its result
  and the new tables, or throws and leaves them as they were. Error values are the messages or
  codes of the source, \<open>CONSTRAINT\<close> a constraint of the database. Rows that only record (audit,
  notifications) are left out; the identifiers that \<open>randomUUID\<close> gives, the clock and the host's
  digest and collation come with the environment of a call.
\<close>

subsection \<open>The payload hash\<close>

text \<open>\<open>canonical\<close> of \<open>lib/commercial-idempotency.ts\<close>; \<open>None\<close> is \<open>undefined\<close>. A joined array shows it
as nothing, a template text as a word.\<close>

record payload_hash =
  ph_collate :: "string \<Rightarrow> string \<Rightarrow> bool"
  ph_digest :: "string \<Rightarrow> string"

fun canonical :: "(string \<Rightarrow> string \<Rightarrow> bool) \<Rightarrow> json \<Rightarrow> string option"
and payload_items :: "(string \<Rightarrow> string \<Rightarrow> bool) \<Rightarrow> json list \<Rightarrow> string list"
and payload_entries :: "(string \<Rightarrow> string \<Rightarrow> bool) \<Rightarrow> (string \<times> json) list \<Rightarrow> (string \<times> string) list" where
  "canonical le JUndef = None"
| "canonical le JNull = Some ''null''"
| "canonical le (JBool b) = Some (if b then ''true'' else ''false'')"
| "canonical le (JStr s) = Some (json_string s)"
| "canonical le (JNum x) = Some (if is_finite x then js_show x else ''null'')"
| "canonical le (JArr xs) = Some (''['' @ join_with '','' (payload_items le xs) @ '']'')"
| "canonical le (JObj es) = Some (''{'' @ join_with '','' (map (\<lambda>(k, t). json_string k @ '':'' @ t)
     (sort_by (\<lambda>a b. le (fst a) (fst b)) (payload_entries le es))) @ ''}'')"
| "payload_items le [] = []"
| "payload_items le (x # xs) = (case canonical le x of None \<Rightarrow> [] | Some t \<Rightarrow> t) # payload_items le xs"
| "payload_entries le [] = []"
| "payload_entries le ((k, v) # es) =
     (k, case canonical le v of None \<Rightarrow> ''undefined'' | Some t \<Rightarrow> t) # payload_entries le es"

definition canonicalPayloadHash :: "payload_hash \<Rightarrow> json \<Rightarrow> (string, string) result" where
  "canonicalPayloadHash ph v = (case canonical (ph_collate ph) v of
     None \<Rightarrow> Inl ''TypeError'' | Some t \<Rightarrow> Inr (ph_digest ph t))"

text \<open>What a \<open>jsonb\<close> column gives back of \<open>JSON.stringify(v)\<close>; it keeps the entries of an object in an
order of its own, which the canonical text does not show.\<close>

fun stored_json :: "json \<Rightarrow> json"
and stored_items :: "json list \<Rightarrow> json list"
and stored_entries :: "(string \<times> json) list \<Rightarrow> (string \<times> json) list" where
  "stored_json (JArr xs) = JArr (stored_items xs)"
| "stored_json (JObj es) = JObj (stored_entries es)"
| "stored_json (JNum x) = (if is_finite x then JNum x else JNull)"
| "stored_json v = v"
| "stored_items [] = []"
| "stored_items (x # xs) = (if x = JUndef then JNull else stored_json x) # stored_items xs"
| "stored_entries [] = []"
| "stored_entries ((k, v) # es) = (if v = JUndef then stored_entries es else (k, stored_json v) # stored_entries es)"

subsection \<open>The tables\<close>

record credit_account =
  ac_id :: string
  ac_user :: string
  ac_available :: int
  ac_reserved :: int
  ac_version :: int
  ac_updatedAt :: int

record credit_reservation =
  rs_id :: string
  rs_account :: string
  rs_estimated :: int
  rs_settled :: "int option"
  rs_status :: reservation_status
  rs_key :: string
  rs_expiresAt :: int

record credit_entry =
  en_id :: string
  en_account :: string
  en_type :: credit_mutation
  en_availableDelta :: int
  en_reservedDelta :: int
  en_balanceAvailable :: int
  en_balanceReserved :: int
  en_sourceType :: string
  en_sourceId :: string
  en_reservation :: "string option"
  en_costModel :: "string option"
  en_usage :: "json option"
  en_key :: string
  en_createdBy :: "string option"

datatype request_status = PendingReview | Approved | Rejected

record adjustment_request =
  rq_id :: string
  rq_no :: string
  rq_user :: string
  rq_account :: "string option"
  rq_delta :: int
  rq_reason :: string
  rq_evidence :: string
  rq_status :: request_status
  rq_requestedBy :: string
  rq_key :: string
  rq_decidedBy :: "string option"
  rq_requestedAt :: int

datatype review_decision = Approve | Reject

record adjustment_decision =
  dc_id :: string
  dc_request :: string
  dc_reviewer :: string
  dc_decision :: review_decision
  dc_key :: string

record credit_db =
  db_users :: "string list"
  db_accounts :: "credit_account list"
  db_reservations :: "credit_reservation list"
  db_entries :: "credit_entry list"
  db_requests :: "adjustment_request list"
  db_decisions :: "adjustment_decision list"

record credit_env =
  env_hash :: payload_hash
  env_now :: int
  env_accountId :: string
  env_reservationId :: string
  env_entryId :: string
  env_rowId :: string

text \<open>A value of a \<open>numeric(36,0)\<close> column.\<close>

definition fits :: "int \<Rightarrow> bool" where
  "fits x \<longleftrightarrow> \<bar>x\<bar> < 10 ^ 36"

definition account_checks :: "credit_account \<Rightarrow> bool" where
  "account_checks a \<longleftrightarrow> fits (ac_available a) \<and> fits (ac_reserved a) \<and> 0 \<le> ac_available a \<and> 0 \<le> ac_reserved a
     \<and> 0 < ac_version a"

definition known_user :: "credit_db \<Rightarrow> string option \<Rightarrow> bool" where
  "known_user db u \<longleftrightarrow> (case u of None \<Rightarrow> True | Some x \<Rightarrow> x \<in> set (db_users db))"

definition account_with :: "credit_db \<Rightarrow> string \<Rightarrow> credit_account option" where
  "account_with db i = find (\<lambda>a. ac_id a = i) (db_accounts db)"

definition account_of :: "credit_db \<Rightarrow> string \<Rightarrow> credit_account option" where
  "account_of db u = find (\<lambda>a. ac_user a = u) (db_accounts db)"

subsection \<open>Statements\<close>

text \<open>\<open>INSERT INTO ai_credit_accounts ... ON CONFLICT (user_id) DO NOTHING\<close>, with the balances given.\<close>

definition insert_account :: "credit_env \<Rightarrow> string \<Rightarrow> int \<Rightarrow> credit_db \<Rightarrow> (string, credit_db) result" where
  "insert_account env user amount db =
     (let row = \<lparr>ac_id = env_accountId env, ac_user = user, ac_available = amount, ac_reserved = 0,
                 ac_version = 1, ac_updatedAt = env_now env\<rparr>
      in if user \<notin> set (db_users db) \<or> account_with db (env_accountId env) \<noteq> None \<or> \<not> account_checks row
         then Inl ''CONSTRAINT''
         else Inr (db\<lparr>db_accounts := db_accounts db @ [row]\<rparr>))"

definition ensure_account :: "credit_env \<Rightarrow> string \<Rightarrow> credit_db \<Rightarrow> (string, credit_db) result" where
  "ensure_account env user db =
     (if account_of db user \<noteq> None then Inr db else insert_account env user 0 db)"

definition update_account :: "credit_env \<Rightarrow> string \<Rightarrow> int \<Rightarrow> int \<Rightarrow> credit_db \<Rightarrow> (string, credit_db) result" where
  "update_account env i avail res db =
     (let f = (\<lambda>a. a\<lparr>ac_available := avail, ac_reserved := res, ac_version := ac_version a + 1,
                     ac_updatedAt := env_now env\<rparr>)
      in if list_all (\<lambda>a. ac_id a = i \<longrightarrow> account_checks (f a)) (db_accounts db)
         then Inr (db\<lparr>db_accounts := map (\<lambda>a. if ac_id a = i then f a else a) (db_accounts db)\<rparr>)
         else Inl ''CONSTRAINT'')"

definition entry_checks :: "credit_db \<Rightarrow> credit_entry \<Rightarrow> bool" where
  "entry_checks db e \<longleftrightarrow> account_with db (en_account e) \<noteq> None \<and> known_user db (en_createdBy e)
     \<and> (case en_reservation e of None \<Rightarrow> True | Some r \<Rightarrow> r \<in> set (map rs_id (db_reservations db)))
     \<and> fits (en_availableDelta e) \<and> fits (en_reservedDelta e)
     \<and> fits (en_balanceAvailable e) \<and> fits (en_balanceReserved e)
     \<and> 0 \<le> en_balanceAvailable e \<and> 0 \<le> en_balanceReserved e
     \<and> (en_availableDelta e \<noteq> 0 \<or> en_reservedDelta e \<noteq> 0)
     \<and> list_all (\<lambda>x. en_id x \<noteq> en_id e \<and> en_key x \<noteq> en_key e
          \<and> (en_sourceType x, en_sourceId x, en_type x) \<noteq> (en_sourceType e, en_sourceId e, en_type e)) (db_entries db)"

definition insert_entry :: "credit_entry \<Rightarrow> credit_db \<Rightarrow> (string, credit_db) result" where
  "insert_entry e db = (if entry_checks db e then Inr (db\<lparr>db_entries := db_entries db @ [e]\<rparr>) else Inl ''CONSTRAINT'')"

definition insert_reservation :: "credit_reservation \<Rightarrow> credit_db \<Rightarrow> (string, credit_db) result" where
  "insert_reservation r db =
     (if account_with db (rs_account r) = None \<or> rs_estimated r \<le> 0 \<or> \<not> fits (rs_estimated r)
        \<or> list_ex (\<lambda>x. rs_id x = rs_id r \<or> rs_key x = rs_key r) (db_reservations db)
      then Inl ''CONSTRAINT'' else Inr (db\<lparr>db_reservations := db_reservations db @ [r]\<rparr>))"

definition close_reservation :: "string \<Rightarrow> reservation_status \<Rightarrow> int option \<Rightarrow> credit_db \<Rightarrow> credit_db" where
  "close_reservation i s settled db = db\<lparr>db_reservations := map (\<lambda>r. if rs_id r = i
     then r\<lparr>rs_status := s, rs_settled := (if settled = None then rs_settled r else settled)\<rparr> else r) (db_reservations db)\<rparr>"

definition reservation_with :: "credit_db \<Rightarrow> string \<Rightarrow> credit_reservation option" where
  "reservation_with db i = find (\<lambda>r. rs_id r = i) (db_reservations db)"

subsection \<open>\<open>mutateAiCredits\<close>\<close>

record credit_input = credit_delta +
  ci_userId :: string
  ci_type :: credit_mutation
  ci_sourceType :: string
  ci_sourceId :: string
  ci_idempotencyKey :: string
  ci_actorUserId :: "string option"
  ci_reservationId :: "string option"
  ci_costModelVersion :: "string option"
  ci_usage :: "(string \<times> json) list option"

record credit_result =
  cres_entryId :: string
  cres_available :: int
  cres_reserved :: int
  cres_created :: bool

definition json_or_null :: "json option \<Rightarrow> json" where
  "json_or_null v = (case v of None \<Rightarrow> JNull | Some x \<Rightarrow> x)"

text \<open>Whether an entry is the one a repeated call means.\<close>

definition same_mutation :: "payload_hash \<Rightarrow> credit_input \<Rightarrow> credit_entry \<Rightarrow> string \<Rightarrow> bool" where
  "same_mutation ph i e user \<longleftrightarrow> user = ci_userId i \<and> en_type e = ci_type i
     \<and> en_sourceType e = ci_sourceType i \<and> en_sourceId e = ci_sourceId i
     \<and> en_availableDelta e = availableDelta i \<and> en_reservedDelta e = reservedDelta i
     \<and> en_reservation e = ci_reservationId i \<and> en_costModel e = ci_costModelVersion i
     \<and> en_createdBy e = ci_actorUserId i
     \<and> canonicalPayloadHash ph (json_or_null (en_usage e))
         = canonicalPayloadHash ph (json_or_null (map_option JObj (ci_usage i)))"

definition new_entry :: "credit_env \<Rightarrow> credit_input \<Rightarrow> string \<Rightarrow> credit_balance \<Rightarrow> credit_entry" where
  "new_entry env i account b = \<lparr>en_id = env_entryId env, en_account = account, en_type = ci_type i,
     en_availableDelta = availableDelta i, en_reservedDelta = reservedDelta i,
     en_balanceAvailable = available b, en_balanceReserved = reserved b,
     en_sourceType = ci_sourceType i, en_sourceId = ci_sourceId i,
     en_reservation = ci_reservationId i, en_costModel = ci_costModelVersion i,
     en_usage = map_option (\<lambda>es. stored_json (JObj es)) (ci_usage i),
     en_key = ci_idempotencyKey i, en_createdBy = ci_actorUserId i\<rparr>"

definition entry_with_key :: "credit_db \<Rightarrow> string \<Rightarrow> (credit_entry \<times> credit_account) option" where
  "entry_with_key db key = (case find (\<lambda>e. en_key e = key) (db_entries db) of
     None \<Rightarrow> None | Some e \<Rightarrow> map_option (Pair e) (account_with db (en_account e)))"

definition mutateAiCredits ::
    "credit_env \<Rightarrow> credit_input \<Rightarrow> credit_db \<Rightarrow> (string, credit_result \<times> credit_db) result" where
  "mutateAiCredits env i db =
     (if \<not> isValidCreditMutation (ci_type i) i then Inl ''AI_CREDIT_MUTATION_INVALID''
      else (case entry_with_key db (ci_idempotencyKey i) of
          Some (e, a) \<Rightarrow>
            if \<not> same_mutation (env_hash env) i e (ac_user a) then Inl ''IDEMPOTENCY_KEY_COLLISION''
            else Inr (\<lparr>cres_entryId = en_id e, cres_available = en_balanceAvailable e,
                       cres_reserved = en_balanceReserved e, cres_created = False\<rparr>, db)
        | None \<Rightarrow> ebind (ensure_account env (ci_userId i) db) (\<lambda>db1.
            case account_of db1 (ci_userId i) of
              None \<Rightarrow> Inl ''AI_CREDIT_ACCOUNT_MISSING''
            | Some a \<Rightarrow> (case applyCreditDelta \<lparr>available = ac_available a, reserved = ac_reserved a\<rparr> i of
                None \<Rightarrow> Inl ''AI_CREDIT_INSUFFICIENT''
              | Some b \<Rightarrow> ebind (update_account env (ac_id a) (available b) (reserved b) db1) (\<lambda>db2.
                  ebind (insert_entry (new_entry env i (ac_id a) b) db2) (\<lambda>db3.
                    Inr (\<lparr>cres_entryId = env_entryId env, cres_available = available b,
                          cres_reserved = reserved b, cres_created = True\<rparr>, db3)))))))"

subsection \<open>Reserving\<close>

record reserve_input =
  ri_userId :: string
  ri_credits :: int
  ri_sourceType :: string
  ri_sourceId :: string
  ri_idempotencyKey :: string
  ri_expiresAt :: string
  ri_actorUserId :: "string option"

text \<open>The reservation's account and its \<open>reserve\<close> entry, joined to a reservation.\<close>

definition reserve_entry :: "credit_db \<Rightarrow> string \<Rightarrow> credit_entry option" where
  "reserve_entry db i = find (\<lambda>e. en_reservation e = Some i \<and> en_type e = Reserve) (db_entries db)"

definition reservation_with_key :: "credit_db \<Rightarrow> string \<Rightarrow> (credit_reservation \<times> credit_account) option" where
  "reservation_with_key db key = (case find (\<lambda>r. rs_key r = key) (db_reservations db) of
     None \<Rightarrow> None | Some r \<Rightarrow> map_option (Pair r) (account_with db (rs_account r)))"

definition same_reservation ::
    "reserve_input \<Rightarrow> string \<Rightarrow> credit_reservation \<Rightarrow> credit_account \<Rightarrow> credit_entry option \<Rightarrow> bool" where
  "same_reservation i expires r a e \<longleftrightarrow> ac_user a = ri_userId i \<and> rs_estimated r = ri_credits i
     \<and> iso_text (rs_expiresAt r) = expires
     \<and> map_option en_sourceType e = Some (ri_sourceType i) \<and> map_option en_sourceId e = Some (ri_sourceId i)
     \<and> (case e of None \<Rightarrow> None | Some x \<Rightarrow> en_createdBy x) = ri_actorUserId i"

definition reserve_mutation :: "reserve_input \<Rightarrow> string \<Rightarrow> credit_input" where
  "reserve_mutation i reservation = \<lparr>availableDelta = - ri_credits i, reservedDelta = ri_credits i,
     ci_userId = ri_userId i, ci_type = Reserve, ci_sourceType = ri_sourceType i, ci_sourceId = ri_sourceId i,
     ci_idempotencyKey = ri_idempotencyKey i @ '':ledger'', ci_actorUserId = ri_actorUserId i,
     ci_reservationId = Some reservation, ci_costModelVersion = None, ci_usage = None\<rparr>"

text \<open>The result is the reservation's id and whether it is new. An existing row was stored with a valid
date, so that only the date of the request can fail to print.\<close>

definition reserveAiCredits ::
    "credit_env \<Rightarrow> reserve_input \<Rightarrow> credit_db \<Rightarrow> (string, (string \<times> bool) \<times> credit_db) result" where
  "reserveAiCredits env i db =
     (if ri_credits i \<le> 0 then Inl ''AI_CREDIT_AMOUNT_INVALID''
      else (case reservation_with_key db (ri_idempotencyKey i) of
          Some (r, a) \<Rightarrow>
            if ac_user a \<noteq> ri_userId i \<or> rs_estimated r \<noteq> ri_credits i then Inl ''IDEMPOTENCY_KEY_COLLISION''
            else ebind (iso_or_throw (to_date (date_parse (ri_expiresAt i)))) (\<lambda>expires.
              if \<not> same_reservation i expires r a (reserve_entry db (rs_id r)) then Inl ''IDEMPOTENCY_KEY_COLLISION''
              else Inr ((rs_id r, False), db))
        | None \<Rightarrow> ebind (ensure_account env (ri_userId i) db) (\<lambda>db1.
            case account_of db1 (ri_userId i) of
              None \<Rightarrow> Inl ''TypeError''
            | Some a \<Rightarrow> (case to_date (date_parse (ri_expiresAt i)) of
                None \<Rightarrow> Inl ''CONSTRAINT''
              | Some t \<Rightarrow> ebind (insert_reservation \<lparr>rs_id = env_reservationId env, rs_account = ac_id a,
                    rs_estimated = ri_credits i, rs_settled = None, rs_status = Reserved,
                    rs_key = ri_idempotencyKey i, rs_expiresAt = t\<rparr> db1) (\<lambda>db2.
                  ebind (mutateAiCredits env (reserve_mutation i (env_reservationId env)) db2) (\<lambda>(_, db3).
                    Inr ((env_reservationId env, True), db3)))))))"

subsection \<open>Settling and releasing\<close>

record trusted_usage =
  us_source :: string
  us_providerRequestId :: "string option"
  us_usageId :: string
  us_inputTokens :: jsnum
  us_outputTokens :: jsnum

record settlement_input =
  si_reservationId :: string
  si_idempotencyKey :: string
  si_actorUserId :: "string option"
  si_costModelVersion :: string
  si_trustedUsage :: trusted_usage

text \<open>\<open>{...trustedUsage, costModelVersion, credits}\<close>; a provider id that is missing is no entry of it.\<close>

definition usage_record :: "trusted_usage \<Rightarrow> string \<Rightarrow> int \<Rightarrow> (string \<times> json) list" where
  "usage_record u model credits = [(''source'', JStr (us_source u))]
     @ (case us_providerRequestId u of None \<Rightarrow> [] | Some p \<Rightarrow> [(''providerRequestId'', JStr p)])
     @ [(''usageId'', JStr (us_usageId u)), (''inputTokens'', JNum (us_inputTokens u)),
        (''outputTokens'', JNum (us_outputTokens u)), (''costModelVersion'', JStr model),
        (''credits'', JStr (show_digits credits))]"

text \<open>The entry that closed a reservation.\<close>

definition closing_entry :: "credit_db \<Rightarrow> string \<Rightarrow> credit_mutation \<Rightarrow> credit_entry option" where
  "closing_entry db i t = find (\<lambda>e. en_reservation e = Some i \<and> en_type e = t) (db_entries db)"

definition reservation_join :: "credit_db \<Rightarrow> string \<Rightarrow> (credit_reservation \<times> credit_account) option" where
  "reservation_join db i = (case reservation_with db i of
     None \<Rightarrow> None | Some r \<Rightarrow> map_option (Pair r) (account_with db (rs_account r)))"

definition settlement_mutation ::
    "settlement_input \<Rightarrow> string \<Rightarrow> credit_delta \<Rightarrow> int \<Rightarrow> credit_input" where
  "settlement_mutation i user d credits = \<lparr>availableDelta = availableDelta d, reservedDelta = reservedDelta d,
     ci_userId = user, ci_type = Settle, ci_sourceType = ''ai_credit_reservation'',
     ci_sourceId = si_reservationId i, ci_idempotencyKey = si_idempotencyKey i,
     ci_actorUserId = si_actorUserId i, ci_reservationId = Some (si_reservationId i),
     ci_costModelVersion = Some (si_costModelVersion i),
     ci_usage = Some (usage_record (si_trustedUsage i) (si_costModelVersion i) credits)\<rparr>"

definition usage_cost :: "settlement_input \<Rightarrow> (string, int) result" where
  "usage_cost i = calculateTokenCost \<lparr>tu_modelVersion = si_costModelVersion i, tu_usageReliable = True,
     tu_rateReliable = True, tu_inputTokens = us_inputTokens (si_trustedUsage i),
     tu_outputTokens = us_outputTokens (si_trustedUsage i)\<rparr>"

text \<open>The result is whether the settlement is new, and the credits settled.\<close>

definition settleAiCreditReservation ::
    "credit_env \<Rightarrow> settlement_input \<Rightarrow> credit_db \<Rightarrow> (string, (bool \<times> int) \<times> credit_db) result" where
  "settleAiCreditReservation env i db =
     (if us_source (si_trustedUsage i) \<noteq> ''provider_metering'' \<or> js_trim (us_usageId (si_trustedUsage i)) = []
      then Inl ''AI_USAGE_NOT_RELIABLE''
      else ebind (usage_cost i) (\<lambda>cost.
        case reservation_join db (si_reservationId i) of
          None \<Rightarrow> Inl ''AI_CREDIT_RESERVATION_NOT_FOUND''
        | Some (r, a) \<Rightarrow> (case resolveReservationTransition (rs_status r) ToSettled of
            Replay \<Rightarrow> (case closing_entry db (si_reservationId i) Settle of
                None \<Rightarrow> Inl ''IDEMPOTENCY_KEY_COLLISION''
              | Some e \<Rightarrow>
                if en_key e \<noteq> si_idempotencyKey i \<or> en_createdBy e \<noteq> si_actorUserId i
                  \<or> en_costModel e \<noteq> Some (si_costModelVersion i)
                  \<or> canonicalPayloadHash (env_hash env) (json_or_null (en_usage e))
                    \<noteq> canonicalPayloadHash (env_hash env)
                        (JObj (usage_record (si_trustedUsage i) (si_costModelVersion i) cost))
                then Inl ''IDEMPOTENCY_KEY_COLLISION''
                else Inr ((False, case rs_settled r of None \<Rightarrow> cost | Some c \<Rightarrow> c), db))
          | Conflict \<Rightarrow> Inl ''AI_CREDIT_RESERVATION_STATE_CONFLICT''
          | Proceed \<Rightarrow> (case planReservationSettlement (rs_estimated r) cost of
              Inl _ \<Rightarrow> Inl ''AI_CREDIT_RESERVATION_EXCEEDED''
            | Inr (d, credits) \<Rightarrow>
                ebind (mutateAiCredits env (settlement_mutation i (ac_user a) d cost) db) (\<lambda>(_, db1).
                  Inr ((True, cost), close_reservation (si_reservationId i) Settled (Some cost) db1))))))"

record release_input =
  li_reservationId :: string
  li_idempotencyKey :: string
  li_actorUserId :: "string option"

definition release_mutation :: "release_input \<Rightarrow> string \<Rightarrow> credit_delta \<Rightarrow> credit_input" where
  "release_mutation i user d = \<lparr>availableDelta = availableDelta d, reservedDelta = reservedDelta d,
     ci_userId = user, ci_type = Release, ci_sourceType = ''ai_credit_reservation'',
     ci_sourceId = li_reservationId i, ci_idempotencyKey = li_idempotencyKey i,
     ci_actorUserId = li_actorUserId i, ci_reservationId = Some (li_reservationId i),
     ci_costModelVersion = None, ci_usage = None\<rparr>"

definition same_release :: "release_input \<Rightarrow> int \<Rightarrow> credit_entry \<Rightarrow> bool" where
  "same_release i credits e \<longleftrightarrow> en_key e = li_idempotencyKey i \<and> en_createdBy e = li_actorUserId i
     \<and> en_availableDelta e = credits \<and> en_reservedDelta e = - credits
     \<and> en_sourceType e = ''ai_credit_reservation'' \<and> en_sourceId e = li_reservationId i
     \<and> en_reservation e = Some (li_reservationId i)"

definition releaseAiCreditReservation ::
    "credit_env \<Rightarrow> release_input \<Rightarrow> credit_db \<Rightarrow> (string, bool \<times> credit_db) result" where
  "releaseAiCreditReservation env i db =
     (case reservation_join db (li_reservationId i) of
        None \<Rightarrow> Inl ''AI_CREDIT_RESERVATION_NOT_FOUND''
      | Some (r, a) \<Rightarrow> (case resolveReservationTransition (rs_status r) ToReleased of
          Replay \<Rightarrow> (case closing_entry db (li_reservationId i) Release of
              None \<Rightarrow> Inl ''IDEMPOTENCY_KEY_COLLISION''
            | Some e \<Rightarrow> if same_release i (rs_estimated r) e then Inr (False, db)
                else Inl ''IDEMPOTENCY_KEY_COLLISION'')
        | Conflict \<Rightarrow> Inl ''AI_CREDIT_RESERVATION_STATE_CONFLICT''
        | Proceed \<Rightarrow>
            ebind (mutateAiCredits env (release_mutation i (ac_user a) (planReservationRelease (rs_estimated r))) db)
              (\<lambda>(_, db1). Inr (True, close_reservation (li_reservationId i) Released None db1))))"

text \<open>A call through the pool: commit or roll back.\<close>

definition creditTransaction ::
    "(credit_db \<Rightarrow> (string, 'a \<times> credit_db) result) \<Rightarrow> credit_db \<Rightarrow> (string, 'a) result \<times> credit_db" where
  "creditTransaction operation db =
     (case operation db of Inl e \<Rightarrow> (Inl e, db) | Inr (r, db') \<Rightarrow> (Inr r, db'))"

subsection \<open>Adjustments by two people\<close>

text \<open>\<open>^-?[1-9]\d{0,11}$\<close> and the bound.\<close>

definition normalizeDelta :: "string \<Rightarrow> (string, int) result" where
  "normalizeDelta value =
     (let s = js_trim value; neg = (case s of c # _ \<Rightarrow> c = CHR ''-'' | [] \<Rightarrow> False);
          digits = (if neg then tl s else s); delta = (if neg then - parse_digits digits else parse_digits digits)
      in if digits = [] \<or> hd digits = CHR ''0'' \<or> \<not> list_all is_digit digits \<or> length digits > 12
         then Inl ''CREDIT_DELTA_INVALID''
         else if delta = 0 \<or> delta > 999999999999 \<or> delta < - 999999999999 then Inl ''CREDIT_DELTA_INVALID''
         else Inr delta)"

definition bounded_text :: "string \<Rightarrow> nat \<Rightarrow> nat \<Rightarrow> string \<Rightarrow> (string, string) result" where
  "bounded_text value minimum maximum code =
     (let s = js_trim value in if length s < minimum \<or> maximum < length s then Inl code else Inr s)"

definition requestNumber :: "credit_env \<Rightarrow> string" where
  "requestNumber env = ''CA-'' @ filter (\<lambda>c. c \<noteq> CHR ''-'') (take 10 (iso_text (env_now env)))
     @ ''-'' @ js_upper (take 8 (env_entryId env))"

record submit_input =
  sb_actorUserId :: string
  sb_customerId :: string
  sb_amountDelta :: string
  sb_reason :: string
  sb_evidenceReference :: string
  sb_idempotencyKey :: string

record submit_result =
  sr_id :: string
  sr_requestNo :: string
  sr_status :: request_status
  sr_amountDelta :: int
  sr_requestedAt :: int
  sr_replayed :: bool

definition request_checks :: "adjustment_request \<Rightarrow> bool" where
  "request_checks r \<longleftrightarrow> rq_delta r \<noteq> 0 \<and> fits (rq_delta r) \<and> 3 \<le> length (rq_reason r) \<and> length (rq_reason r) \<le> 500
     \<and> length (rq_evidence r) \<le> 500 \<and> (rq_status r = PendingReview \<longleftrightarrow> rq_decidedBy r = None)
     \<and> rq_decidedBy r \<noteq> Some (rq_requestedBy r)"

text \<open>A unique index of the requests: a key of its own, one key per requester, one open request per customer.\<close>

definition request_clash :: "adjustment_request \<Rightarrow> adjustment_request \<Rightarrow> bool" where
  "request_clash x r \<longleftrightarrow> rq_id x = rq_id r \<or> rq_no x = rq_no r
     \<or> (rq_requestedBy x = rq_requestedBy r \<and> rq_key x = rq_key r)
     \<or> (rq_status x = PendingReview \<and> rq_status r = PendingReview \<and> rq_user x = rq_user r)"

definition insert_request :: "adjustment_request \<Rightarrow> credit_db \<Rightarrow> (string, credit_db) result" where
  "insert_request r db =
     (if \<not> request_checks r then Inl ''CONSTRAINT''
      else if list_ex (\<lambda>x. request_clash x r) (db_requests db) then Inl ''CREDIT_ADJUSTMENT_PENDING''
      else if rq_user r \<notin> set (db_users db) \<or> rq_requestedBy r \<notin> set (db_users db) then Inl ''CONSTRAINT''
      else Inr (db\<lparr>db_requests := db_requests db @ [r]\<rparr>))"

text \<open>\<open>authorize\<close> is the caller's check on the customer; it may throw.\<close>

definition submitCreditAdjustment ::
    "credit_env \<Rightarrow> (string \<Rightarrow> (string, unit) result) \<Rightarrow> submit_input \<Rightarrow> credit_db \<Rightarrow> (string, submit_result \<times> credit_db) result" where
  "submitCreditAdjustment env authorize i db =
     ebind (normalizeDelta (sb_amountDelta i)) (\<lambda>delta.
     ebind (bounded_text (sb_reason i) 3 500 ''CREDIT_REASON_INVALID'') (\<lambda>reason.
     let evidence = js_trim (sb_evidenceReference i) in
     if 500 < length evidence then Inl ''CREDIT_EVIDENCE_INVALID''
     else ebind (bounded_text (sb_idempotencyKey i) 8 160 ''IDEMPOTENCY_KEY_INVALID'') (\<lambda>key.
       case find (\<lambda>r. rq_requestedBy r = sb_actorUserId i \<and> rq_key r = key) (db_requests db) of
         Some r \<Rightarrow>
           if rq_user r \<noteq> sb_customerId i \<or> rq_delta r \<noteq> delta \<or> rq_reason r \<noteq> reason \<or> rq_evidence r \<noteq> evidence
           then Inl ''IDEMPOTENCY_CONFLICT''
           else Inr (\<lparr>sr_id = rq_id r, sr_requestNo = rq_no r, sr_status = rq_status r,
                      sr_amountDelta = rq_delta r, sr_requestedAt = rq_requestedAt r, sr_replayed = True\<rparr>, db)
       | None \<Rightarrow> ebind (authorize (sb_customerId i)) (\<lambda>_.
           let r = \<lparr>rq_id = env_rowId env, rq_no = requestNumber env, rq_user = sb_customerId i,
                    rq_account = map_option ac_id (account_of db (sb_customerId i)), rq_delta = delta,
                    rq_reason = reason, rq_evidence = evidence, rq_status = PendingReview,
                    rq_requestedBy = sb_actorUserId i, rq_key = key, rq_decidedBy = None,
                    rq_requestedAt = env_now env\<rparr>
           in ebind (insert_request r db) (\<lambda>db1.
             Inr (\<lparr>sr_id = rq_id r, sr_requestNo = rq_no r, sr_status = PendingReview, sr_amountDelta = delta,
                   sr_requestedAt = env_now env, sr_replayed = False\<rparr>, db1))))))"

record decide_input =
  di_actorUserId :: string
  di_adjustmentId :: string
  di_decision :: review_decision
  di_note :: string
  di_idempotencyKey :: string

definition decided_status :: "review_decision \<Rightarrow> request_status" where
  "decided_status d = (case d of Approve \<Rightarrow> Approved | Reject \<Rightarrow> Rejected)"

definition adjustment_entry :: "credit_env \<Rightarrow> decide_input \<Rightarrow> adjustment_request \<Rightarrow> string \<Rightarrow> int \<Rightarrow> int \<Rightarrow> credit_entry" where
  "adjustment_entry env i r account avail res = \<lparr>en_id = env_entryId env, en_account = account, en_type = Adjust,
     en_availableDelta = rq_delta r, en_reservedDelta = 0, en_balanceAvailable = avail, en_balanceReserved = res,
     en_sourceType = ''ops_credit_adjustment'', en_sourceId = rq_id r, en_reservation = None, en_costModel = None,
     en_usage = None, en_key = ''credit-adjustment:'' @ rq_id r, en_createdBy = Some (di_actorUserId i)\<rparr>"

text \<open>The booking of an approved request; the account's id is noted in the request.\<close>

definition book_adjustment ::
    "credit_env \<Rightarrow> decide_input \<Rightarrow> adjustment_request \<Rightarrow> credit_db \<Rightarrow> (string, string \<times> int \<times> credit_db) result" where
  "book_adjustment env i r db = (case account_of db (rq_user r) of
     None \<Rightarrow>
       if rq_delta r < 0 then Inl ''CREDIT_BALANCE_INSUFFICIENT''
       else ebind (insert_account env (rq_user r) (rq_delta r) db) (\<lambda>db1.
         ebind (insert_entry (adjustment_entry env i r (env_accountId env) (rq_delta r) 0) db1) (\<lambda>db2.
           Inr (env_accountId env, rq_delta r, db2)))
   | Some a \<Rightarrow> (let balance = ac_available a + rq_delta r in
       if balance < 0 then Inl ''CREDIT_BALANCE_INSUFFICIENT''
       else ebind (update_account env (ac_id a) balance (ac_reserved a) db) (\<lambda>db1.
         ebind (insert_entry (adjustment_entry env i r (ac_id a) balance (ac_reserved a)) db1) (\<lambda>db2.
           Inr (ac_id a, balance, db2)))))"

definition insert_decision :: "adjustment_decision \<Rightarrow> credit_db \<Rightarrow> (string, credit_db) result" where
  "insert_decision d db =
     (if list_ex (\<lambda>x. dc_id x = dc_id d \<or> dc_request x = dc_request d \<or> dc_key x = dc_key d) (db_decisions db)
        \<or> dc_reviewer d \<notin> set (db_users db) \<or> dc_request d \<notin> set (map rq_id (db_requests db))
      then Inl ''CONSTRAINT'' else Inr (db\<lparr>db_decisions := db_decisions db @ [d]\<rparr>))"

definition close_request ::
    "string \<Rightarrow> string option \<Rightarrow> request_status \<Rightarrow> string \<Rightarrow> credit_db \<Rightarrow> (string, credit_db) result" where
  "close_request i account s actor db =
     (let f = (\<lambda>r. r\<lparr>rq_account := account, rq_status := s, rq_decidedBy := Some actor\<rparr>)
      in if list_all (\<lambda>r. rq_id r = i \<longrightarrow> request_checks (f r)) (db_requests db)
         then Inr (db\<lparr>db_requests := map (\<lambda>r. if rq_id r = i then f r else r) (db_requests db)\<rparr>)
         else Inl ''CONSTRAINT'')"

text \<open>The result is the request's status and whether the call was a replay.\<close>

definition decideCreditAdjustment ::
    "credit_env \<Rightarrow> (string \<Rightarrow> (string, unit) result) \<Rightarrow> decide_input \<Rightarrow> credit_db
     \<Rightarrow> (string, (request_status \<times> bool) \<times> credit_db) result" where
  "decideCreditAdjustment env authorize i db =
     ebind (bounded_text (di_note i) 3 500 ''CREDIT_DECISION_NOTE_INVALID'') (\<lambda>note.
     ebind (bounded_text (di_idempotencyKey i) 8 160 ''IDEMPOTENCY_KEY_INVALID'') (\<lambda>key.
       case find (\<lambda>d. dc_key d = key \<and> dc_request d \<in> set (map rq_id (db_requests db))) (db_decisions db) of
         Some d \<Rightarrow>
           if dc_request d \<noteq> di_adjustmentId i \<or> dc_reviewer d \<noteq> di_actorUserId i \<or> dc_decision d \<noteq> di_decision i
           then Inl ''IDEMPOTENCY_CONFLICT''
           else (case find (\<lambda>r. rq_id r = dc_request d) (db_requests db) of
               Some r \<Rightarrow> Inr ((rq_status r, True), db) | None \<Rightarrow> Inl ''CREDIT_ADJUSTMENT_NOT_FOUND'')
       | None \<Rightarrow> (case find (\<lambda>r. rq_id r = di_adjustmentId i) (db_requests db) of
           None \<Rightarrow> Inl ''CREDIT_ADJUSTMENT_NOT_FOUND''
         | Some r \<Rightarrow> ebind (authorize (rq_user r)) (\<lambda>_.
             if rq_requestedBy r = di_actorUserId i then Inl ''CREDIT_ADJUSTMENT_SELF_REVIEW''
             else if rq_status r \<noteq> PendingReview then Inl ''CREDIT_ADJUSTMENT_STATE_CONFLICT''
             else ebind (case di_decision i of
                 Reject \<Rightarrow> Inr (rq_account r, db)
               | Approve \<Rightarrow> ebind (book_adjustment env i r db) (\<lambda>(a, _, db1). Inr (Some a, db1))) (\<lambda>(account, db1).
               ebind (insert_decision \<lparr>dc_id = env_rowId env, dc_request = rq_id r, dc_reviewer = di_actorUserId i,
                   dc_decision = di_decision i, dc_key = key\<rparr> db1) (\<lambda>db2.
               ebind (close_request (rq_id r) account (decided_status (di_decision i)) (di_actorUserId i) db2)
                 (\<lambda>db3. Inr ((decided_status (di_decision i), False), db3))))))))"

subsection \<open>What the customer sees\<close>

record credit_view =
  vw_available :: int
  vw_reserved :: int
  vw_lifetimeGranted :: int
  vw_lifetimeConsumed :: int
  vw_version :: int
  vw_updatedAt :: "int option"

definition readClientCreditBalance :: "credit_db \<Rightarrow> string \<Rightarrow> credit_view" where
  "readClientCreditBalance db user = (case account_of db user of
     None \<Rightarrow> \<lparr>vw_available = 0, vw_reserved = 0, vw_lifetimeGranted = 0, vw_lifetimeConsumed = 0,
             vw_version = 0, vw_updatedAt = None\<rparr>
   | Some a \<Rightarrow> (let es = filter (\<lambda>e. en_account e = ac_id a) (db_entries db) in
       \<lparr>vw_available = ac_available a, vw_reserved = ac_reserved a,
        vw_lifetimeGranted = sum_list (map en_availableDelta (filter (\<lambda>e. en_type e = Grant) es)),
        vw_lifetimeConsumed = - sum_list (map (\<lambda>e. en_availableDelta e + en_reservedDelta e)
                                          (filter (\<lambda>e. en_type e = Settle) es)),
        vw_version = ac_version a, vw_updatedAt = Some (ac_updatedAt a)\<rparr>))"

subsection \<open>The grant of a membership\<close>

text \<open>The call of \<open>lib/membership-wallet-payment.ts\<close> and \<open>lib/commercial-membership-service.ts\<close>.\<close>

definition grantMembershipCredits ::
    "credit_env \<Rightarrow> string \<Rightarrow> int \<Rightarrow> string \<Rightarrow> string \<Rightarrow> credit_db \<Rightarrow> (string, credit_result \<times> credit_db) result" where
  "grantMembershipCredits env user grant order actor = mutateAiCredits env
     \<lparr>availableDelta = grant, reservedDelta = 0, ci_userId = user, ci_type = Grant,
      ci_sourceType = ''commercial_membership_order'', ci_sourceId = order,
      ci_idempotencyKey = ''membership-credit:'' @ order, ci_actorUserId = Some actor,
      ci_reservationId = None, ci_costModelVersion = None, ci_usage = None\<rparr>"

end
