(* ===== verification/CreditBooks.thy ===== *)
theory CreditBooks
  imports CreditStore
begin

text \<open>
  What the credit tables keep: every balance is the sum of its ledger entries, the reserved balance
  is what the open reservations hold, and a closed reservation stays as it was closed.
\<close>

subsection \<open>The books\<close>

definition entry_sum :: "(credit_entry \<Rightarrow> int) \<Rightarrow> string \<Rightarrow> credit_entry list \<Rightarrow> int" where
  "entry_sum f account es = sum_list (map f (filter (\<lambda>e. en_account e = account) es))"

definition active_sum :: "string \<Rightarrow> credit_reservation list \<Rightarrow> int" where
  "active_sum account rs = sum_list (map rs_estimated (filter (\<lambda>r. rs_account r = account \<and> rs_status r = Reserved) rs))"

definition entry_shape :: "credit_entry \<Rightarrow> bool" where
  "entry_shape e \<longleftrightarrow> isValidCreditMutation (en_type e)
     \<lparr>availableDelta = en_availableDelta e, reservedDelta = en_reservedDelta e\<rparr>"

definition account_balanced :: "credit_entry list \<Rightarrow> credit_account \<Rightarrow> bool" where
  "account_balanced es a \<longleftrightarrow> 0 \<le> ac_available a \<and> 0 \<le> ac_reserved a
     \<and> ac_available a = entry_sum en_availableDelta (ac_id a) es
     \<and> ac_reserved a = entry_sum en_reservedDelta (ac_id a) es"

definition ledger_ok :: "credit_db \<Rightarrow> bool" where
  "ledger_ok db \<longleftrightarrow> distinct (map ac_id (db_accounts db)) \<and> distinct (map ac_user (db_accounts db))
     \<and> list_all (account_balanced (db_entries db)) (db_accounts db)
     \<and> list_all (\<lambda>e. entry_shape e \<and> en_account e \<in> set (map ac_id (db_accounts db))) (db_entries db)"

lemma entry_sum_simps [simp]:
  "entry_sum f x [] = 0"
  "entry_sum f x (es @ fs) = entry_sum f x es + entry_sum f x fs"
  "entry_sum f x (e # es) = (if en_account e = x then f e else 0) + entry_sum f x es"
  by (simp_all add: entry_sum_def)

lemma active_sum_simps [simp]:
  "active_sum x [] = 0"
  "active_sum x (rs @ ss) = active_sum x rs + active_sum x ss"
  "active_sum x (r # rs) = (if rs_account r = x \<and> rs_status r = Reserved then rs_estimated r else 0) + active_sum x rs"
  by (simp_all add: active_sum_def)

lemma entry_sum_absent: "x \<notin> en_account ` set es \<Longrightarrow> entry_sum f x es = 0"
  by (induction es) auto

subsection \<open>Bookings\<close>

text \<open>An entry put on its account.\<close>

definition set_balance :: "credit_env \<Rightarrow> credit_entry \<Rightarrow> credit_account \<Rightarrow> credit_account" where
  "set_balance env e a = (if ac_id a = en_account e
     then a\<lparr>ac_available := en_balanceAvailable e, ac_reserved := en_balanceReserved e,
            ac_version := ac_version a + 1, ac_updatedAt := env_now env\<rparr> else a)"

definition booked :: "credit_env \<Rightarrow> credit_entry \<Rightarrow> credit_db \<Rightarrow> credit_db" where
  "booked env e db = db\<lparr>db_accounts := map (set_balance env e) (db_accounts db), db_entries := db_entries db @ [e]\<rparr>"

text \<open>What makes an entry fit the account it is booked on.\<close>

definition continues :: "credit_account \<Rightarrow> credit_entry \<Rightarrow> bool" where
  "continues a e \<longleftrightarrow> entry_shape e \<and> en_account e = ac_id a
     \<and> en_balanceAvailable e = ac_available a + en_availableDelta e \<and> 0 \<le> en_balanceAvailable e
     \<and> en_balanceReserved e = ac_reserved a + en_reservedDelta e \<and> 0 \<le> en_balanceReserved e"

lemma set_balance_keys [simp]: "ac_id (set_balance env e a) = ac_id a" "ac_user (set_balance env e a) = ac_user a"
  by (simp_all add: set_balance_def)

lemma map_set_balance [simp]:
  "map (ac_id \<circ> set_balance env e) as = map ac_id as" "map (ac_user \<circ> set_balance env e) as = map ac_user as"
  by simp_all

lemma booked_ledger:
  assumes ok: "ledger_ok db" and a: "a \<in> set (db_accounts db)" and c: "continues a e"
  shows "ledger_ok (booked env e db)"
proof -
  have "account_balanced (db_entries db @ [e]) (set_balance env e x)" if x: "x \<in> set (db_accounts db)" for x
  proof (cases "ac_id x = en_account e")
    case True
    then have "x = a"
      using ok a x c by (auto simp: ledger_ok_def continues_def distinct_map inj_on_def)
    with ok a c True show ?thesis
      by (auto simp: account_balanced_def set_balance_def ledger_ok_def continues_def list_all_iff)
  next
    case False
    with ok x show ?thesis
      by (auto simp: account_balanced_def set_balance_def ledger_ok_def list_all_iff)
  qed
  with ok a c show ?thesis
    by (auto simp: ledger_ok_def booked_def continues_def list_all_iff)
qed

text \<open>A new account, with the entry that explains its first balance if there is one.\<close>

definition opened :: "credit_account \<Rightarrow> credit_entry list \<Rightarrow> credit_db \<Rightarrow> credit_db" where
  "opened a es db = db\<lparr>db_accounts := db_accounts db @ [a], db_entries := db_entries db @ es\<rparr>"

lemma opened_ledger:
  assumes ok: "ledger_ok db" and new: "ac_id a \<notin> set (map ac_id (db_accounts db))"
      "ac_user a \<notin> set (map ac_user (db_accounts db))"
    and es: "list_all (\<lambda>e. entry_shape e \<and> en_account e = ac_id a) es" and b: "account_balanced es a"
  shows "ledger_ok (opened a es db)"
proof -
  have "ac_id a \<notin> en_account ` set (db_entries db)"
    using ok new(1) by (auto simp: ledger_ok_def list_all_iff)
  then have z: "entry_sum f (ac_id a) (db_entries db) = 0" for f by (rule entry_sum_absent)
  have "entry_sum f (ac_id x) es = 0" if "x \<in> set (db_accounts db)" for x f
  proof (rule entry_sum_absent)
    have "ac_id x \<noteq> ac_id a" using that new(1) by (metis image_eqI set_map)
    then show "ac_id x \<notin> en_account ` set es" using es by (auto simp: list_all_iff)
  qed
  with ok b z have "list_all (account_balanced (db_entries db @ es)) (db_accounts db @ [a])"
    by (auto simp: ledger_ok_def list_all_iff account_balanced_def)
  with ok new es show ?thesis
    by (auto simp: ledger_ok_def opened_def list_all_iff)
qed

subsection \<open>The statements as bookings\<close>

lemma insert_account_opened:
  assumes "insert_account env user amount db = Inr db'" "account_of db user = None"
  shows "\<exists>a. db' = opened a [] db \<and> ac_id a = env_accountId env \<and> ac_user a = user \<and> ac_available a = amount
    \<and> ac_reserved a = 0 \<and> 0 \<le> amount \<and> ac_id a \<notin> set (map ac_id (db_accounts db))
    \<and> user \<notin> set (map ac_user (db_accounts db))"
proof -
  let ?a = "\<lparr>ac_id = env_accountId env, ac_user = user, ac_available = amount, ac_reserved = 0,
    ac_version = 1, ac_updatedAt = env_now env\<rparr>"
  have "db' = opened ?a [] db \<and> 0 \<le> amount \<and> account_with db (env_accountId env) = None"
    using assms(1) by (auto simp: insert_account_def Let_def opened_def account_checks_def split: if_splits)
  then show ?thesis using assms(2)
    by (intro exI [of _ ?a]) (auto simp: account_with_def account_of_def find_None_all)
qed

lemma ensure_account_ledger:
  assumes "ensure_account env user db = Inr db1" "ledger_ok db"
  shows "ledger_ok db1 \<and> (db1 = db \<or> (\<exists>a. db1 = opened a [] db \<and> ac_reserved a = 0
    \<and> ac_id a \<notin> set (map ac_id (db_accounts db)))) \<and> account_of db1 user \<noteq> None"
proof (cases "account_of db user")
  case None
  then have "insert_account env user 0 db = Inr db1" using assms(1) by (simp add: ensure_account_def)
  from insert_account_opened [OF this None] obtain a where a: "db1 = opened a [] db" "ac_user a = user"
      "ac_available a = 0" "ac_reserved a = 0" "ac_id a \<notin> set (map ac_id (db_accounts db))"
      "user \<notin> set (map ac_user (db_accounts db))" by blast
  then have "ledger_ok db1"
    using opened_ledger [OF assms(2), of a "[]"] by (simp add: account_balanced_def)
  moreover have "account_of db1 user \<noteq> None" using a by (auto simp: opened_def account_of_def find_None_all)
  ultimately show ?thesis using a by blast
next
  case (Some a)
  then show ?thesis using assms by (simp add: ensure_account_def)
qed

lemma update_insert_booked:
  assumes "update_account env (en_account e) (en_balanceAvailable e) (en_balanceReserved e) db = Inr db1"
    and "insert_entry e db1 = Inr db2"
  shows "db2 = booked env e db \<and> entry_checks db1 e"
  using assms by (auto simp: update_account_def insert_entry_def booked_def set_balance_def [abs_def] Let_def
      split: if_splits intro!: map_cong)

lemma account_of_in: "account_of db u = Some a \<Longrightarrow> a \<in> set (db_accounts db) \<and> ac_user a = u"
  unfolding account_of_def by (drule find_Some_set) simp

lemma account_with_in: "account_with db i = Some a \<Longrightarrow> a \<in> set (db_accounts db) \<and> ac_id a = i"
  unfolding account_with_def by (drule find_Some_set) simp

lemma mutate_cases:
  assumes m: "mutateAiCredits env i db = Inr (res, db')" and ok: "ledger_ok db"
  obtains (replay) e and a :: credit_account where "db' = db" "\<not> cres_created res" "e \<in> set (db_entries db)" "en_key e = ci_idempotencyKey i"
      "same_mutation (env_hash env) i e (ac_user a)"
    | (created) db1 a where "ensure_account env (ci_userId i) db = Inr db1" "account_of db1 (ci_userId i) = Some a"
      "db' = booked env (new_entry env i (ac_id a)
         \<lparr>available = ac_available a + availableDelta i, reserved = ac_reserved a + reservedDelta i\<rparr>) db1"
      "continues a (new_entry env i (ac_id a)
         \<lparr>available = ac_available a + availableDelta i, reserved = ac_reserved a + reservedDelta i\<rparr>)"
      "cres_created res" "isValidCreditMutation (ci_type i) i" "entry_with_key db (ci_idempotencyKey i) = None"
proof (cases "entry_with_key db (ci_idempotencyKey i)")
  case (Some p)
  obtain e a where p: "p = (e, a)" by (cases p)
  then have "e \<in> set (db_entries db)" "en_key e = ci_idempotencyKey i"
    using Some by (auto simp: entry_with_key_def split: option.splits dest: find_Some_set)
  moreover have "db' = db" "\<not> cres_created res" "same_mutation (env_hash env) i e (ac_user a)"
    using m Some p by (auto simp: mutateAiCredits_def split: if_splits)
  ultimately show ?thesis by (intro replay [of e a])
next
  case None
  have v: "isValidCreditMutation (ci_type i) i" using m by (auto simp: mutateAiCredits_def split: if_splits)
  obtain db1 where d1: "ensure_account env (ci_userId i) db = Inr db1"
      and m1: "(case account_of db1 (ci_userId i) of
              None \<Rightarrow> Inl ''AI_CREDIT_ACCOUNT_MISSING''
            | Some a \<Rightarrow> (case applyCreditDelta \<lparr>available = ac_available a, reserved = ac_reserved a\<rparr> i of
                None \<Rightarrow> Inl ''AI_CREDIT_INSUFFICIENT''
              | Some b \<Rightarrow> ebind (update_account env (ac_id a) (available b) (reserved b) db1) (\<lambda>db2.
                  ebind (insert_entry (new_entry env i (ac_id a) b) db2) (\<lambda>db3.
                    Inr (\<lparr>cres_entryId = env_entryId env, cres_available = available b,
                          cres_reserved = reserved b, cres_created = True\<rparr>, db3))))) = Inr (res, db')"
    using m v unfolding mutateAiCredits_def None by (auto simp: ebind_Inr_iff)
  obtain a where a: "account_of db1 (ci_userId i) = Some a" using m1 by (cases "account_of db1 (ci_userId i)") auto
  obtain b where b: "applyCreditDelta \<lparr>available = ac_available a, reserved = ac_reserved a\<rparr> i = Some b"
    using m1 a by (cases "applyCreditDelta \<lparr>available = ac_available a, reserved = ac_reserved a\<rparr> i") auto
  obtain db2 where d: "ensure_account env (ci_userId i) db = Inr db1" "account_of db1 (ci_userId i) = Some a"
      "applyCreditDelta \<lparr>available = ac_available a, reserved = ac_reserved a\<rparr> i = Some b"
      "update_account env (ac_id a) (available b) (reserved b) db1 = Inr db2"
      "insert_entry (new_entry env i (ac_id a) b) db2 = Inr db'" "cres_created res"
    using m1 a b d1 by (auto simp: ebind_Inr_iff)
  have b: "b = \<lparr>available = ac_available a + availableDelta i, reserved = ac_reserved a + reservedDelta i\<rparr>"
      "0 \<le> ac_available a + availableDelta i" "0 \<le> ac_reserved a + reservedDelta i"
    using d(3) by (simp_all add: applyCreditDelta_Some)
  have sh: "isValidCreditMutation t \<lparr>availableDelta = availableDelta i, reservedDelta = reservedDelta i\<rparr>
      = isValidCreditMutation t i" for t by (cases t) simp_all
  have "db' = booked env (new_entry env i (ac_id a) b) db1"
    using update_insert_booked [of env "new_entry env i (ac_id a) b" db1 db2 db'] d(4,5) by (simp add: new_entry_def)
  moreover have "continues a (new_entry env i (ac_id a) b)"
    using b v by (simp add: continues_def new_entry_def entry_shape_def sh)
  ultimately show ?thesis using d v None b(1) by (intro created) simp_all
qed

lemma mutate_ledger:
  assumes "mutateAiCredits env i db = Inr (res, db')" "ledger_ok db"
  shows "ledger_ok db' \<and> db_reservations db' = db_reservations db \<and> db_users db' = db_users db
    \<and> db_requests db' = db_requests db \<and> db_decisions db' = db_decisions db"
  using assms
proof (cases rule: mutate_cases)
  case (created db1 a)
  from ensure_account_ledger [OF created(1) assms(2)]
  have o: "ledger_ok db1" "db1 = db \<or> (\<exists>a. db1 = opened a [] db)" by blast+
  from booked_ledger [OF o(1) account_of_in [OF created(2), THEN conjunct1] created(4)] o(2)
  show ?thesis unfolding created(3) by (auto simp: booked_def opened_def)
qed (use assms in auto)

subsection \<open>Reservations and their entries\<close>

definition reservation_ok :: "credit_reservation \<Rightarrow> bool" where
  "reservation_ok r \<longleftrightarrow> 0 < rs_estimated r
     \<and> (rs_status r = Settled \<longrightarrow> (\<exists>c. rs_settled r = Some c \<and> 0 \<le> c \<and> c \<le> rs_estimated r))"

text \<open>An entry that closes a reservation finds it closed that way, with the credits it took.\<close>

definition entry_linked :: "credit_reservation list \<Rightarrow> credit_entry \<Rightarrow> bool" where
  "entry_linked rs e \<longleftrightarrow> (case en_reservation e of None \<Rightarrow> True
     | Some i \<Rightarrow> \<exists>r \<in> set rs. rs_id r = i \<and> (en_type e = Release \<longrightarrow> rs_status r = Released)
         \<and> (en_type e = Settle \<longrightarrow> rs_status r = Settled \<and>
              rs_settled r = Some (- (en_availableDelta e + en_reservedDelta e))))"

lemma entry_linkedI:
  assumes "en_reservation e = Some i" "r \<in> set rs" "rs_id r = i"
    "en_type e = Release \<Longrightarrow> rs_status r = Released" "en_type e = Settle \<Longrightarrow> rs_status r = Settled"
    "en_type e = Settle \<Longrightarrow> rs_settled r = Some (- (en_availableDelta e + en_reservedDelta e))"
  shows "entry_linked rs e"
  unfolding entry_linked_def using assms by auto

definition books_ok :: "credit_db \<Rightarrow> bool" where
  "books_ok db \<longleftrightarrow> ledger_ok db \<and> distinct (map rs_id (db_reservations db))
     \<and> list_all (\<lambda>r. reservation_ok r \<and> rs_account r \<in> set (map ac_id (db_accounts db))) (db_reservations db)
     \<and> list_all (\<lambda>a. ac_reserved a = active_sum (ac_id a) (db_reservations db)) (db_accounts db)
     \<and> list_all (entry_linked (db_reservations db)) (db_entries db)"

lemma books_okD:
  assumes "books_ok db"
  shows "ledger_ok db" "distinct (map rs_id (db_reservations db))"
    and "r \<in> set (db_reservations db) \<Longrightarrow> reservation_ok r \<and> rs_account r \<in> set (map ac_id (db_accounts db))"
    and "a \<in> set (db_accounts db) \<Longrightarrow> ac_reserved a = active_sum (ac_id a) (db_reservations db)"
    and "e \<in> set (db_entries db) \<Longrightarrow> entry_linked (db_reservations db) e"
  using assms by (auto simp: books_ok_def list_all_iff)

lemma same_account: "ledger_ok db \<Longrightarrow> a \<in> set (db_accounts db) \<Longrightarrow> b \<in> set (db_accounts db)
    \<Longrightarrow> ac_id a = ac_id b \<or> ac_user a = ac_user b \<Longrightarrow> a = b"
  by (auto simp: ledger_ok_def distinct_map inj_on_def)

lemma booked_books:
  assumes ok: "ledger_ok db" and a: "a \<in> set (db_accounts db)" and c: "continues a e"
    and rs: "distinct (map rs_id rs)" "list_all (\<lambda>r. reservation_ok r \<and> rs_account r \<in> set (map ac_id (db_accounts db))) rs"
    and act: "\<And>x. x \<in> set (db_accounts db) \<Longrightarrow>
      active_sum (ac_id x) rs = ac_reserved x + (if ac_id x = ac_id a then en_reservedDelta e else 0)"
    and l: "list_all (entry_linked rs) (db_entries db @ [e])"
  shows "books_ok ((booked env e db)\<lparr>db_reservations := rs\<rparr>)"
proof -
  have "ledger_ok (booked env e db)" using ok a c by (rule booked_ledger)
  then have "ledger_ok ((booked env e db)\<lparr>db_reservations := rs\<rparr>)" by (simp add: ledger_ok_def)
  moreover have "ac_reserved (set_balance env e x) = active_sum (ac_id x) rs" if x: "x \<in> set (db_accounts db)" for x
  proof (cases "ac_id x = ac_id a")
    case True
    with same_account [OF ok x a] have "x = a" by simp
    with act [OF x] c show ?thesis by (simp add: set_balance_def continues_def)
  next
    case False
    with act [OF x] c show ?thesis by (simp add: set_balance_def continues_def)
  qed
  ultimately show ?thesis using rs l by (simp add: books_ok_def booked_def list_all_iff)
qed

lemma opened_books:
  assumes ok: "books_ok db" and "ledger_ok (opened a es db)" "ac_reserved a = 0"
    and new: "ac_id a \<notin> set (map ac_id (db_accounts db))" and es: "list_all (\<lambda>e. en_reservation e = None) es"
  shows "books_ok (opened a es db)"
proof -
  have "active_sum (ac_id a) rs = 0" if "ac_id a \<notin> rs_account ` set rs" for rs
    using that by (induction rs) auto
  moreover have "ac_id a \<notin> rs_account ` set (db_reservations db)"
    using ok new by (auto simp: books_ok_def list_all_iff)
  ultimately have "active_sum (ac_id a) (db_reservations db) = 0" by simp
  moreover have "list_all (entry_linked (db_reservations db)) es"
    using es by (auto simp: list_all_iff entry_linked_def)
  ultimately show ?thesis using assms by (auto simp: books_ok_def opened_def list_all_iff)
qed

lemma ensure_books:
  assumes "ensure_account env user db = Inr db1" "books_ok db"
  shows "books_ok db1 \<and> db_reservations db1 = db_reservations db \<and> db_entries db1 = db_entries db
    \<and> account_of db1 user \<noteq> None"
  using ensure_account_ledger [OF assms(1) books_okD(1) [OF assms(2)]] opened_books [OF assms(2), of _ "[]"] assms(2)
  by (auto simp: opened_def)

text \<open>A mutation that concerns no reservation.\<close>

lemma mutate_plain_books:
  assumes m: "mutateAiCredits env i db = Inr (res, db')" and ok: "books_ok db"
    and i: "ci_reservationId i = None" "reservedDelta i = 0"
  shows "books_ok db'"
  using m books_okD(1) [OF ok]
proof (cases rule: mutate_cases)
  case (created db1 a)
  let ?e = "new_entry env i (ac_id a) \<lparr>available = ac_available a + availableDelta i, reserved = ac_reserved a + reservedDelta i\<rparr>"
  note b = ensure_books [OF created(1) ok, THEN conjunct1]
  have "books_ok ((booked env ?e db1)\<lparr>db_reservations := db_reservations db1\<rparr>)"
  proof (rule booked_books [OF books_okD(1) [OF b] account_of_in [OF created(2), THEN conjunct1] created(4) books_okD(2) [OF b]])
    show "active_sum (ac_id x) (db_reservations db1) = ac_reserved x + (if ac_id x = ac_id a then en_reservedDelta ?e else 0)"
      if "x \<in> set (db_accounts db1)" for x using books_okD(4) [OF b that] i(2) by (simp add: new_entry_def)
  qed (use b i in \<open>simp_all add: books_ok_def entry_linked_def new_entry_def\<close>)
  then show ?thesis unfolding created(3) by (simp add: booked_def)
qed (use ok in simp)

text \<open>A mutation of an account that exists and for a reservation that no entry names this way.\<close>

lemma mutate_fresh:
  assumes m: "mutateAiCredits env i db = Inr (res, db')" and ok: "ledger_ok db"
    and a: "a \<in> set (db_accounts db)" "ac_user a = ci_userId i"
    and fresh: "\<And>e. e \<in> set (db_entries db) \<Longrightarrow> en_reservation e = ci_reservationId i \<Longrightarrow> en_type e = ci_type i \<Longrightarrow> False"
  shows "\<exists>e. db' = booked env e db \<and> continues a e \<and> cres_created res \<and> en_type e = ci_type i
    \<and> en_reservation e = ci_reservationId i \<and> en_availableDelta e = availableDelta i
    \<and> en_reservedDelta e = reservedDelta i \<and> en_key e = ci_idempotencyKey i
    \<and> en_usage e = map_option (\<lambda>es. stored_json (JObj es)) (ci_usage i)
    \<and> en_costModel e = ci_costModelVersion i \<and> en_createdBy e = ci_actorUserId i
    \<and> en_sourceType e = ci_sourceType i \<and> en_sourceId e = ci_sourceId i"
  using m ok
proof (cases rule: mutate_cases)
  case (replay e b)
  then have "en_reservation e = ci_reservationId i" "en_type e = ci_type i" by (simp_all add: same_mutation_def)
  with fresh replay(3) show ?thesis by blast
next
  case (created db1 b)
  have "account_of db (ci_userId i) \<noteq> None" using a by (auto simp: account_of_def find_None_all)
  then have d: "db1 = db" using created(1) by (simp add: ensure_account_def)
  then have "b = a" using created(2) a same_account [OF ok] account_of_in [of db] by metis
  with created d show ?thesis
    by (intro exI [of _ "new_entry env i (ac_id a) \<lparr>available = ac_available a + availableDelta i,
      reserved = ac_reserved a + reservedDelta i\<rparr>"]) (simp add: new_entry_def)
qed

subsection \<open>Every operation keeps the books\<close>

lemma insert_reservation_Inr:
  "insert_reservation r db = Inr db' \<Longrightarrow> db' = db\<lparr>db_reservations := db_reservations db @ [r]\<rparr>
     \<and> 0 < rs_estimated r \<and> rs_id r \<notin> set (map rs_id (db_reservations db))
     \<and> rs_key r \<notin> set (map rs_key (db_reservations db))"
  by (auto simp: insert_reservation_def list_ex_iff split: if_splits)

lemma entry_linked_mono:
  assumes "entry_linked rs e" "set rs \<subseteq> set ss"
  shows "entry_linked ss e"
  using assms by (auto simp: entry_linked_def split: option.splits)

lemma reserve_cases:
  assumes "reserveAiCredits env i db = Inr ((rid, new), db')"
  obtains (replay) "db' = db" "\<not> new"
    | (created) db1 a t res where "ensure_account env (ri_userId i) db = Inr db1" "account_of db1 (ri_userId i) = Some a"
      "insert_reservation \<lparr>rs_id = env_reservationId env, rs_account = ac_id a, rs_estimated = ri_credits i,
         rs_settled = None, rs_status = Reserved, rs_key = ri_idempotencyKey i, rs_expiresAt = t\<rparr> db1
         = Inr (db1\<lparr>db_reservations := db_reservations db1 @ [\<lparr>rs_id = env_reservationId env, rs_account = ac_id a,
             rs_estimated = ri_credits i, rs_settled = None, rs_status = Reserved, rs_key = ri_idempotencyKey i,
             rs_expiresAt = t\<rparr>]\<rparr>)"
      "mutateAiCredits env (reserve_mutation i (env_reservationId env))
         (db1\<lparr>db_reservations := db_reservations db1 @ [\<lparr>rs_id = env_reservationId env, rs_account = ac_id a,
             rs_estimated = ri_credits i, rs_settled = None, rs_status = Reserved, rs_key = ri_idempotencyKey i,
             rs_expiresAt = t\<rparr>]\<rparr>) = Inr (res, db')" "new" "rid = env_reservationId env"
proof (cases "reservation_with_key db (ri_idempotencyKey i)")
  case (Some p)
  obtain r a where "p = (r, a)" by (cases p)
  then show ?thesis using assms Some
    by (intro replay) (auto simp: reserveAiCredits_def ebind_Inr_iff split: if_splits)
next
  case None
  obtain db1 where d: "ensure_account env (ri_userId i) db = Inr db1"
    using assms None by (auto simp: reserveAiCredits_def ebind_Inr_iff split: if_splits)
  obtain a where a: "account_of db1 (ri_userId i) = Some a"
    using assms None d by (cases "account_of db1 (ri_userId i)") (auto simp: reserveAiCredits_def split: if_splits)
  obtain t where t: "to_date (date_parse (ri_expiresAt i)) = Some t"
    using assms None d a by (cases "to_date (date_parse (ri_expiresAt i))") (auto simp: reserveAiCredits_def split: if_splits)
  obtain db2 res where e: "insert_reservation \<lparr>rs_id = env_reservationId env, rs_account = ac_id a,
      rs_estimated = ri_credits i, rs_settled = None, rs_status = Reserved, rs_key = ri_idempotencyKey i,
      rs_expiresAt = t\<rparr> db1 = Inr db2" "mutateAiCredits env (reserve_mutation i (env_reservationId env)) db2 = Inr (res, db')"
      "new" "rid = env_reservationId env"
    using assms None d a t by (auto simp: reserveAiCredits_def ebind_Inr_iff split: if_splits)
  with insert_reservation_Inr [OF e(1)] d a show ?thesis by (intro created [of db1 a t res]) auto
qed

lemma reserve_books:
  assumes r: "reserveAiCredits env i db = Inr ((rid, new), db')" and ok: "books_ok db"
  shows "books_ok db'"
  using r
proof (cases rule: reserve_cases)
  case replay
  with ok show ?thesis by simp
next
  case (created db1 a t res)
  let ?r = "\<lparr>rs_id = env_reservationId env, rs_account = ac_id a, rs_estimated = ri_credits i, rs_settled = None,
    rs_status = Reserved, rs_key = ri_idempotencyKey i, rs_expiresAt = t\<rparr>"
  let ?rs = "db_reservations db1 @ [?r]" and ?i = "reserve_mutation i (env_reservationId env)"
  let ?db2 = "db1\<lparr>db_reservations := ?rs\<rparr>"
  note b = ensure_books [OF created(1) ok, THEN conjunct1]
  note a = account_of_in [OF created(2)]
  from insert_reservation_Inr [OF created(3)]
  have n: "0 < ri_credits i" "env_reservationId env \<notin> set (map rs_id (db_reservations db1))" by simp_all
  have l2: "ledger_ok ?db2" using books_okD(1) [OF b] by (simp add: ledger_ok_def)
  have fresh: "en_reservation e \<noteq> Some (env_reservationId env)" if "e \<in> set (db_entries db1)" for e
  proof
    assume "en_reservation e = Some (env_reservationId env)"
    with books_okD(5) [OF b that] obtain r where "r \<in> set (db_reservations db1)" "rs_id r = env_reservationId env"
      by (auto simp: entry_linked_def)
    with n(2) show False by (metis image_eqI set_map)
  qed
  have "\<exists>e. db' = booked env e ?db2 \<and> continues a e \<and> cres_created res \<and> en_type e = Reserve
      \<and> en_reservation e = Some (env_reservationId env) \<and> en_reservedDelta e = ri_credits i"
    using mutate_fresh [OF created(4) l2, of a] a fresh by (auto simp: reserve_mutation_def)
  then obtain e where e: "db' = booked env e ?db2" "continues a e" "en_type e = Reserve"
      "en_reservation e = Some (env_reservationId env)" "en_reservedDelta e = ri_credits i" by blast
  have "books_ok ((booked env e ?db2)\<lparr>db_reservations := ?rs\<rparr>)"
  proof (rule booked_books [OF l2 _ e(2)])
    show "a \<in> set (db_accounts ?db2)" using a by simp
    show "distinct (map rs_id ?rs)" using books_okD(2) [OF b] n(2) by simp
    show "list_all (\<lambda>r. reservation_ok r \<and> rs_account r \<in> set (map ac_id (db_accounts ?db2))) ?rs"
      using books_okD(3) [OF b] a n(1) by (auto simp: list_all_iff reservation_ok_def)
    show "active_sum (ac_id x) ?rs = ac_reserved x + (if ac_id x = ac_id a then en_reservedDelta e else 0)"
      if "x \<in> set (db_accounts ?db2)" for x using books_okD(4) [OF b, of x] that e(5) by auto
    have "entry_linked ?rs x" if "x \<in> set (db_entries db1)" for x
      using books_okD(5) [OF b that] by (rule entry_linked_mono) auto
    then show "list_all (entry_linked ?rs) (db_entries ?db2 @ [e])"
      using e(3,4) by (auto simp: list_all_iff entry_linked_def)
  qed
  moreover have "(booked env e ?db2)\<lparr>db_reservations := ?rs\<rparr> = booked env e ?db2"
    by (rule credit_db.equality) (simp_all add: booked_def)
  ultimately show ?thesis unfolding e(1) by simp
qed

subsubsection \<open>Closing a reservation\<close>

definition closed_row :: "string \<Rightarrow> reservation_status \<Rightarrow> int option \<Rightarrow> credit_reservation \<Rightarrow> credit_reservation" where
  "closed_row i s c r = (if rs_id r = i
     then r\<lparr>rs_status := s, rs_settled := (if c = None then rs_settled r else c)\<rparr> else r)"

lemma closed_row_keys [simp]:
  "rs_id (closed_row i s c r) = rs_id r" "rs_account (closed_row i s c r) = rs_account r"
  "rs_estimated (closed_row i s c r) = rs_estimated r" "rs_key (closed_row i s c r) = rs_key r"
  "rs_expiresAt (closed_row i s c r) = rs_expiresAt r"
  by (simp_all add: closed_row_def)

lemma close_reservation_map:
  "close_reservation i s c db = db\<lparr>db_reservations := map (closed_row i s c) (db_reservations db)\<rparr>"
  by (simp add: close_reservation_def closed_row_def [abs_def])

lemma active_sum_closed:
  assumes "distinct (map rs_id rs)" "r \<in> set rs" "rs_status r = Reserved" "s \<noteq> Reserved"
  shows "active_sum x (map (closed_row (rs_id r) s c) rs) = active_sum x rs - (if rs_account r = x then rs_estimated r else 0)"
  using assms(1,2)
proof (induction rs)
  case (Cons q rs)
  show ?case
  proof (cases "q = r")
    case True
    have "closed_row (rs_id r) s c p = p" if "p \<in> set rs" for p
    proof -
      have "rs_id p \<noteq> rs_id r" using Cons.prems(1) True that by (metis distinct.simps(2) image_eqI list.simps(9) set_map)
      then show ?thesis by (simp add: closed_row_def)
    qed
    then have "map (closed_row (rs_id r) s c) rs = rs" by (simp add: map_idI)
    moreover have "rs_status (closed_row (rs_id r) s c r) = s" by (simp add: closed_row_def)
    ultimately show ?thesis using True assms(3,4) by simp
  next
    case False
    then have "rs_id q \<noteq> rs_id r" using Cons.prems by (auto simp: image_iff)
    with False Cons show ?thesis by (auto simp: closed_row_def)
  qed
qed simp

lemma entry_linked_closed:
  assumes "entry_linked rs e" "distinct (map rs_id rs)" "r \<in> set rs" "rs_status r = Reserved"
  shows "entry_linked (map (closed_row (rs_id r) s c) rs) e"
proof (cases "en_reservation e")
  case (Some i)
  then obtain q where q: "q \<in> set rs" "rs_id q = i" "en_type e = Release \<longrightarrow> rs_status q = Released"
      "en_type e = Settle \<longrightarrow> rs_status q = Settled \<and> rs_settled q = Some (- (en_availableDelta e + en_reservedDelta e))"
    using assms(1) by (auto simp: entry_linked_def)
  let ?q = "closed_row (rs_id r) s c q"
  have "q = r" if "rs_id q = rs_id r" using that q(1) assms(2,3) by (auto simp: distinct_map inj_on_def)
  then have "(en_type e = Release \<longrightarrow> rs_status ?q = Released) \<and> (en_type e = Settle \<longrightarrow> rs_status ?q = Settled
      \<and> rs_settled ?q = Some (- (en_availableDelta e + en_reservedDelta e)))"
    using q(3,4) assms(4) by (auto simp: closed_row_def)
  with q(1,2) Some show ?thesis by (auto simp: entry_linked_def)
qed (simp add: entry_linked_def)

text \<open>The common part of settling and releasing: the mutation that closes an open reservation.\<close>

lemma closing_books:
  assumes m: "mutateAiCredits env i db = Inr (res, db1)" and ok: "books_ok db"
    and r: "reservation_join db rid = Some (r, a)" "rs_status r = Reserved"
    and i: "ci_userId i = ac_user a" "ci_reservationId i = Some rid" "reservedDelta i = - rs_estimated r"
    and t: "ci_type i = Settle \<and> s = Settled \<and> c = Some (- (availableDelta i + reservedDelta i)) \<and> availableDelta i \<le> rs_estimated r
          \<and> 0 \<le> availableDelta i
        \<or> ci_type i = Release \<and> s = Released \<and> c = None"
  shows "books_ok (close_reservation rid s c db1) \<and> cres_created res \<and> db_reservations db1 = db_reservations db
    \<and> (\<exists>e. db1 = booked env e db \<and> continues a e \<and> en_key e = ci_idempotencyKey i \<and> en_type e = ci_type i
        \<and> en_reservation e = Some rid \<and> en_availableDelta e = availableDelta i \<and> en_reservedDelta e = reservedDelta i
        \<and> en_usage e = map_option (\<lambda>es. stored_json (JObj es)) (ci_usage i) \<and> en_costModel e = ci_costModelVersion i
        \<and> en_createdBy e = ci_actorUserId i \<and> en_sourceType e = ci_sourceType i \<and> en_sourceId e = ci_sourceId i)"
proof -
  note l = books_okD(1) [OF ok]
  have rr: "r \<in> set (db_reservations db)" "rs_id r = rid" "a \<in> set (db_accounts db)" "ac_id a = rs_account r"
    using r(1) by (auto simp: reservation_join_def reservation_with_def split: option.splits
        dest: find_Some_set account_with_in)
  have unlinked: False if "e \<in> set (db_entries db)" "en_reservation e = ci_reservationId i" "en_type e = ci_type i" for e
  proof -
    from books_okD(5) [OF ok that(1)] that(2,3) i(2) t obtain q where
      "q \<in> set (db_reservations db)" "rs_id q = rid" "rs_status q \<noteq> Reserved"
      by (auto simp: entry_linked_def)
    moreover have "q = r" using calculation rr books_okD(2) [OF ok] by (auto simp: distinct_map inj_on_def)
    ultimately show False using r(2) by simp
  qed
  have "\<exists>e. db1 = booked env e db \<and> continues a e \<and> cres_created res \<and> en_type e = ci_type i
    \<and> en_reservation e = ci_reservationId i \<and> en_availableDelta e = availableDelta i
    \<and> en_reservedDelta e = reservedDelta i \<and> en_key e = ci_idempotencyKey i
    \<and> en_usage e = map_option (\<lambda>es. stored_json (JObj es)) (ci_usage i)
    \<and> en_costModel e = ci_costModelVersion i \<and> en_createdBy e = ci_actorUserId i
    \<and> en_sourceType e = ci_sourceType i \<and> en_sourceId e = ci_sourceId i"
    using m l rr(3) i(1) [symmetric] by (rule mutate_fresh) (rule unlinked)
  then obtain e where e: "db1 = booked env e db" "continues a e"
      "cres_created res" "en_type e = ci_type i" "en_reservation e = ci_reservationId i"
      "en_availableDelta e = availableDelta i" "en_reservedDelta e = reservedDelta i" "en_key e = ci_idempotencyKey i"
      "en_usage e = map_option (\<lambda>es. stored_json (JObj es)) (ci_usage i)"
      "en_costModel e = ci_costModelVersion i" "en_createdBy e = ci_actorUserId i"
      "en_sourceType e = ci_sourceType i" "en_sourceId e = ci_sourceId i" by blast
  let ?rs = "map (closed_row rid s c) (db_reservations db)"
  have s: "s \<noteq> Reserved" using t by auto
  have "books_ok ((booked env e db)\<lparr>db_reservations := ?rs\<rparr>)"
  proof (rule booked_books [OF l rr(3) e(2)])
    show "distinct (map rs_id ?rs)" using books_okD(2) [OF ok] by (simp add: comp_def)
    have "reservation_ok (closed_row rid s c q)" if q: "q \<in> set (db_reservations db)" for q
    proof (cases "rs_id q = rid")
      case True
      then have "q = r" using q rr books_okD(2) [OF ok] by (auto simp: distinct_map inj_on_def)
      with t i(3) books_okD(3) [OF ok rr(1)] rr(2) show ?thesis by (auto simp: reservation_ok_def closed_row_def)
    next
      case False
      with books_okD(3) [OF ok q] show ?thesis by (simp add: closed_row_def)
    qed
    with books_okD(3) [OF ok] show
      "list_all (\<lambda>r. reservation_ok r \<and> rs_account r \<in> set (map ac_id (db_accounts db))) ?rs"
      by (simp add: list_all_iff)
    show "active_sum (ac_id x) ?rs = ac_reserved x + (if ac_id x = ac_id a then en_reservedDelta e else 0)"
      if "x \<in> set (db_accounts db)" for x
      using active_sum_closed [OF books_okD(2) [OF ok] rr(1) r(2) s, of "ac_id x" c] books_okD(4) [OF ok that]
        e(7) i(3) rr(2,4) by (auto split: if_splits)
    have "entry_linked ?rs x" if "x \<in> set (db_entries db)" for x
      using entry_linked_closed [OF books_okD(5) [OF ok that] books_okD(2) [OF ok] rr(1) r(2), of s c] rr(2) by simp
    moreover have "entry_linked ?rs e"
    proof -
      have "closed_row rid s c r \<in> set ?rs" using rr(1) by simp
      moreover have "rs_status (closed_row rid s c r) = s" "c \<noteq> None \<Longrightarrow> rs_settled (closed_row rid s c r) = c"
        using rr(2) by (auto simp: closed_row_def)
      ultimately show ?thesis using t e(4-7) i(2) rr(2)
        by (intro entry_linkedI [of e rid "closed_row rid s c r"]) auto
    qed
    ultimately show "list_all (entry_linked ?rs) (db_entries db @ [e])" by (simp add: list_all_iff)
  qed
  moreover have "close_reservation rid s c db1 = (booked env e db)\<lparr>db_reservations := ?rs\<rparr>"
    by (simp add: close_reservation_map e(1) booked_def)
  ultimately have bk: "books_ok (close_reservation rid s c db1)" by simp
  have "db_reservations db1 = db_reservations db" by (simp add: e(1) booked_def)
  with bk e(3) show ?thesis by (intro conjI exI [of _ e] e) (simp_all add: e i(2) del: stored_json.simps)
qed

lemma settle_cases:
  assumes "settleAiCreditReservation env i db = Inr ((new, c), db')"
  obtains (replay) r a e where "db' = db" "\<not> new" "reservation_join db (si_reservationId i) = Some (r, a)"
      "rs_status r = Settled" "closing_entry db (si_reservationId i) Settle = Some e"
      "c = (case rs_settled r of None \<Rightarrow> c | Some x \<Rightarrow> x)"
    | (created) r a res db1 where "reservation_join db (si_reservationId i) = Some (r, a)" "rs_status r = Reserved"
      "usage_cost i = Inr c" "c \<le> rs_estimated r" "new"
      "mutateAiCredits env (settlement_mutation i (ac_user a)
         \<lparr>availableDelta = rs_estimated r - c, reservedDelta = - rs_estimated r\<rparr> c) db = Inr (res, db1)"
      "db' = close_reservation (si_reservationId i) Settled (Some c) db1"
proof -
  obtain cost where c: "usage_cost i = Inr cost"
    using assms by (auto simp: settleAiCreditReservation_def ebind_Inr_iff split: if_splits)
  obtain r a where j: "reservation_join db (si_reservationId i) = Some (r, a)"
    using assms c by (cases "reservation_join db (si_reservationId i)")
      (auto simp: settleAiCreditReservation_def split: if_splits)
  show ?thesis
  proof (cases "resolveReservationTransition (rs_status r) ToSettled")
    case Replay
    then have s: "rs_status r = Settled" by (simp add: transition_cases)
    obtain e where e: "closing_entry db (si_reservationId i) Settle = Some e"
      using assms c j Replay by (cases "closing_entry db (si_reservationId i) Settle")
        (auto simp: settleAiCreditReservation_def split: if_splits)
    with s show ?thesis using assms c j Replay
      by (intro replay [of r a e]) (auto simp: settleAiCreditReservation_def split: if_splits option.splits)
  next
    case Conflict
    then show ?thesis using assms c j by (auto simp: settleAiCreditReservation_def split: if_splits)
  next
    case Proceed
    then have s: "rs_status r = Reserved" by (simp add: transition_cases)
    show ?thesis
    proof (cases "cost \<le> rs_estimated r")
      case True
      then have p: "planReservationSettlement (rs_estimated r) cost
          = Inr (\<lparr>availableDelta = rs_estimated r - cost, reservedDelta = - rs_estimated r\<rparr>, cost)"
        by (simp add: planReservationSettlement_def)
      obtain res db1 where "mutateAiCredits env (settlement_mutation i (ac_user a)
          \<lparr>availableDelta = rs_estimated r - cost, reservedDelta = - rs_estimated r\<rparr> cost) db = Inr (res, db1)"
          "new" "c = cost" "db' = close_reservation (si_reservationId i) Settled (Some cost) db1"
        using assms c j Proceed p by (auto simp: settleAiCreditReservation_def ebind_Inr_iff split: if_splits)
      with True c j s show ?thesis by (intro created [of r a res db1]) auto
    next
      case False
      then have "planReservationSettlement (rs_estimated r) cost = Inl ''EXCEEDS_RESERVATION''"
        by (simp add: planReservationSettlement_def)
      then show ?thesis using assms c j Proceed by (auto simp: settleAiCreditReservation_def split: if_splits)
    qed
  qed
qed

lemma usage_cost_nonneg: "usage_cost i = Inr c \<Longrightarrow> 0 \<le> c"
  unfolding usage_cost_def by (drule token_cost_nonneg) simp

lemma settle_books:
  assumes s: "settleAiCreditReservation env i db = Inr ((new, c), db')" and ok: "books_ok db"
  shows "books_ok db'"
  using s
proof (cases rule: settle_cases)
  case replay
  with ok show ?thesis by simp
next
  case (created r a res db1)
  then show ?thesis
    using closing_books [OF created(6) ok created(1,2), of Settled "Some c"] usage_cost_nonneg [OF created(3)]
    by (simp add: settlement_mutation_def)
qed

lemma release_cases:
  assumes "releaseAiCreditReservation env i db = Inr (new, db')"
  obtains (replay) "db' = db" "\<not> new"
    | (created) r a res db1 where "reservation_join db (li_reservationId i) = Some (r, a)" "rs_status r = Reserved" "new"
      "mutateAiCredits env (release_mutation i (ac_user a) (planReservationRelease (rs_estimated r))) db = Inr (res, db1)"
      "db' = close_reservation (li_reservationId i) Released None db1"
proof -
  obtain r a where j: "reservation_join db (li_reservationId i) = Some (r, a)"
    using assms by (cases "reservation_join db (li_reservationId i)") (auto simp: releaseAiCreditReservation_def)
  show ?thesis
  proof (cases "resolveReservationTransition (rs_status r) ToReleased")
    case Replay
    then show ?thesis using assms j
      by (intro replay) (auto simp: releaseAiCreditReservation_def split: if_splits option.splits)
  next
    case Conflict
    then show ?thesis using assms j by (auto simp: releaseAiCreditReservation_def)
  next
    case Proceed
    then have "rs_status r = Reserved" by (simp add: transition_cases)
    moreover obtain res db1 where
      "mutateAiCredits env (release_mutation i (ac_user a) (planReservationRelease (rs_estimated r))) db = Inr (res, db1)"
      "new" "db' = close_reservation (li_reservationId i) Released None db1"
      using assms j Proceed by (auto simp: releaseAiCreditReservation_def ebind_Inr_iff)
    ultimately show ?thesis using j by (intro created [of r a res db1]) auto
  qed
qed

lemma release_books:
  assumes s: "releaseAiCreditReservation env i db = Inr (new, db')" and ok: "books_ok db"
  shows "books_ok db'"
  using s
proof (cases rule: release_cases)
  case replay
  with ok show ?thesis by simp
next
  case (created r a res db1)
  then show ?thesis
    using closing_books [OF created(4) ok created(1,2), of Released None]
    by (simp add: release_mutation_def planReservationRelease_def)
qed

lemma books_frame:
  "books_ok (db\<lparr>db_requests := x\<rparr>) = books_ok db" "books_ok (db\<lparr>db_decisions := y\<rparr>) = books_ok db"
  by (simp_all add: books_ok_def ledger_ok_def)

lemma adjustment_shape: "rq_delta r \<noteq> 0 \<Longrightarrow> entry_shape (adjustment_entry env i r account avail res)"
  by (simp add: entry_shape_def adjustment_entry_def)

lemma entry_checks_delta: "entry_checks db e \<Longrightarrow> en_availableDelta e \<noteq> 0 \<or> en_reservedDelta e \<noteq> 0"
  by (simp add: entry_checks_def)

lemma book_adjustment_books:
  assumes b: "book_adjustment env i r db = Inr (acc, bal, db')" and ok: "books_ok db"
  shows "books_ok db' \<and> db_requests db' = db_requests db \<and> db_decisions db' = db_decisions db
    \<and> (\<exists>e. db_entries db' = db_entries db @ [e] \<and> en_availableDelta e = rq_delta r
         \<and> en_key e = ''credit-adjustment:'' @ rq_id r)"
proof (cases "account_of db (rq_user r)")
  case None
  let ?e = "adjustment_entry env i r (env_accountId env) (rq_delta r) 0"
  obtain db1 where d: "insert_account env (rq_user r) (rq_delta r) db = Inr db1" "insert_entry ?e db1 = Inr db'"
    using b None by (auto simp: book_adjustment_def ebind_Inr_iff split: if_splits)
  from insert_account_opened [OF d(1) None] obtain a where a: "db1 = opened a [] db" "ac_id a = env_accountId env"
      "ac_user a = rq_user r" "ac_available a = rq_delta r" "ac_reserved a = 0" "0 \<le> rq_delta r"
      "ac_id a \<notin> set (map ac_id (db_accounts db))" "rq_user r \<notin> set (map ac_user (db_accounts db))" by blast
  have e: "entry_checks db1 ?e" "db' = opened a [?e] db"
    using d(2) by (auto simp: insert_entry_def a(1) opened_def split: if_splits)
  have n: "rq_delta r \<noteq> 0" using entry_checks_delta [OF e(1)] by (simp add: adjustment_entry_def)
  have "ledger_ok (opened a [?e] db)"
    using a n by (intro opened_ledger [OF books_okD(1) [OF ok]])
      (simp_all add: adjustment_shape account_balanced_def, simp_all add: adjustment_entry_def)
  then have "books_ok (opened a [?e] db)"
    using a by (intro opened_books [OF ok]) (simp_all add: adjustment_entry_def)
  with e(2) show ?thesis by (simp add: opened_def adjustment_entry_def)
next
  case (Some a)
  let ?b = "ac_available a + rq_delta r"
  let ?e = "adjustment_entry env i r (ac_id a) ?b (ac_reserved a)"
  note a = account_of_in [OF Some, THEN conjunct1]
  obtain db1 where d: "update_account env (ac_id a) ?b (ac_reserved a) db = Inr db1" "insert_entry ?e db1 = Inr db'" "0 \<le> ?b"
    using b Some by (auto simp: book_adjustment_def ebind_Inr_iff Let_def split: if_splits)
  have e: "db' = booked env ?e db" "entry_checks db1 ?e"
    using update_insert_booked [of env ?e db db1 db'] d by (simp_all add: adjustment_entry_def)
  have n: "rq_delta r \<noteq> 0" using entry_checks_delta [OF e(2)] by (simp add: adjustment_entry_def)
  have c: "continues a ?e"
    using adjustment_shape [OF n] d(3) books_okD(1) [OF ok] a
    by (auto simp: continues_def adjustment_entry_def ledger_ok_def list_all_iff account_balanced_def)
  have "books_ok ((booked env ?e db)\<lparr>db_reservations := db_reservations db\<rparr>)"
  proof (rule booked_books [OF books_okD(1) [OF ok] a c books_okD(2) [OF ok]])
    show "active_sum (ac_id x) (db_reservations db) = ac_reserved x + (if ac_id x = ac_id a then en_reservedDelta ?e else 0)"
      if "x \<in> set (db_accounts db)" for x using books_okD(4) [OF ok that] by (simp add: adjustment_entry_def)
  qed (use ok in \<open>simp_all add: books_ok_def entry_linked_def adjustment_entry_def\<close>)
  moreover have "(booked env ?e db)\<lparr>db_reservations := db_reservations db\<rparr> = booked env ?e db"
    by (rule credit_db.equality) (simp_all add: booked_def)
  ultimately show ?thesis unfolding e(1) by (simp add: booked_def adjustment_entry_def)
qed

lemma decide_cases:
  assumes "decideCreditAdjustment env authorize i db = Inr ((st, replayed), db')"
  obtains (replay) "db' = db" "replayed"
    | (decided) r acc db1 db2 where "find (\<lambda>r. rq_id r = di_adjustmentId i) (db_requests db) = Some r"
      "authorize (rq_user r) = Inr ()" "rq_requestedBy r \<noteq> di_actorUserId i" "rq_status r = PendingReview"
      "(di_decision i = Reject \<and> db1 = db \<and> acc = rq_account r)
        \<or> (di_decision i = Approve \<and> (\<exists>a bal. acc = Some a \<and> book_adjustment env i r db = Inr (a, bal, db1)))"
      "insert_decision \<lparr>dc_id = env_rowId env, dc_request = rq_id r, dc_reviewer = di_actorUserId i,
         dc_decision = di_decision i, dc_key = js_trim (di_idempotencyKey i)\<rparr> db1 = Inr db2"
      "close_request (rq_id r) acc (decided_status (di_decision i)) (di_actorUserId i) db2 = Inr db'"
      "st = decided_status (di_decision i)" "\<not> replayed"
proof -
  obtain note_text key where k: "bounded_text (di_note i) 3 500 ''CREDIT_DECISION_NOTE_INVALID'' = Inr note_text"
      "bounded_text (di_idempotencyKey i) 8 160 ''IDEMPOTENCY_KEY_INVALID'' = Inr key"
    using assms by (auto simp: decideCreditAdjustment_def ebind_Inr_iff)
  have kt: "key = js_trim (di_idempotencyKey i)" using k(2) by (auto simp: bounded_text_def Let_def split: if_splits)
  show ?thesis
  proof (cases "find (\<lambda>d. dc_key d = key \<and> dc_request d \<in> set (map rq_id (db_requests db))) (db_decisions db)")
    case (Some d)
    then show ?thesis using assms k
      by (intro replay) (auto simp: decideCreditAdjustment_def split: if_splits option.splits)
  next
    case None
    obtain r where r: "find (\<lambda>r. rq_id r = di_adjustmentId i) (db_requests db) = Some r"
      using assms k None by (cases "find (\<lambda>r. rq_id r = di_adjustmentId i) (db_requests db)")
        (auto simp: decideCreditAdjustment_def)
    obtain acc db1 db2 where "authorize (rq_user r) = Inr ()" "rq_requestedBy r \<noteq> di_actorUserId i" "rq_status r = PendingReview"
      "(case di_decision i of Reject \<Rightarrow> Inr (rq_account r, db)
          | Approve \<Rightarrow> ebind (book_adjustment env i r db) (\<lambda>(a, _, db1). Inr (Some a, db1))) = Inr (acc, db1)"
      "insert_decision \<lparr>dc_id = env_rowId env, dc_request = rq_id r, dc_reviewer = di_actorUserId i,
         dc_decision = di_decision i, dc_key = key\<rparr> db1 = Inr db2"
      "close_request (rq_id r) acc (decided_status (di_decision i)) (di_actorUserId i) db2 = Inr db'"
      "st = decided_status (di_decision i)" "\<not> replayed"
      using assms k None r by (auto simp: decideCreditAdjustment_def ebind_Inr_iff split: if_splits)
    with r kt show ?thesis
      by (intro decided [of r db1 acc db2]) (auto simp: ebind_Inr_iff split: review_decision.splits)
  qed
qed

lemma insert_decision_Inr: "insert_decision d db = Inr db' \<Longrightarrow> db' = db\<lparr>db_decisions := db_decisions db @ [d]\<rparr>"
  by (auto simp: insert_decision_def split: if_splits)

lemma close_request_Inr: "close_request i acc s u db = Inr db' \<Longrightarrow> \<exists>rs. db' = db\<lparr>db_requests := rs\<rparr>"
  by (auto simp: close_request_def Let_def split: if_splits)

lemma decide_books:
  assumes s: "decideCreditAdjustment env authorize i db = Inr (res, db')" and ok: "books_ok db"
  shows "books_ok db'"
proof -
  obtain st rp where "res = (st, rp)" by (cases res)
  with s have s': "decideCreditAdjustment env authorize i db = Inr ((st, rp), db')" by simp
  then show ?thesis
  proof (cases rule: decide_cases)
    case (decided r acc db1 db2)
    have "books_ok db1" using decided(5) book_adjustment_books ok by blast
    then show ?thesis
      using insert_decision_Inr [OF decided(6)] close_request_Inr [OF decided(7)] by (auto simp: books_frame)
  qed (use ok in simp)
qed

lemma submit_books:
  assumes s: "submitCreditAdjustment env authorize i db = Inr (res, db')" and ok: "books_ok db"
  shows "books_ok db'"
proof -
  have "db' = db \<or> (\<exists>rs. db' = db\<lparr>db_requests := rs\<rparr>)"
    using s by (auto simp: submitCreditAdjustment_def insert_request_def ebind_Inr_iff Let_def
        split: if_splits option.splits)
  with ok show ?thesis by (auto simp: books_frame)
qed

end
