(* ===== verification/CreditLife.thy ===== *)
theory CreditLife
  imports CreditBooks
begin

text \<open>
  The credit services over time: every call is a step on the tables, committed or rolled back. The
  theorems say what holds after any sequence of calls from empty tables.
\<close>

subsection \<open>Steps\<close>

datatype credit_op =
    GrantOp string int string string
  | ReserveOp reserve_input
  | SettleOp settlement_input
  | ReleaseOp release_input
  | SubmitOp "string \<Rightarrow> (string, unit) result" submit_input
  | DecideOp "string \<Rightarrow> (string, unit) result" decide_input

fun run_op :: "credit_env \<Rightarrow> credit_op \<Rightarrow> credit_db \<Rightarrow> credit_db" where
  "run_op env (GrantOp user grant order actor) db = snd (creditTransaction (grantMembershipCredits env user grant order actor) db)"
| "run_op env (ReserveOp i) db = snd (creditTransaction (reserveAiCredits env i) db)"
| "run_op env (SettleOp i) db = snd (creditTransaction (settleAiCreditReservation env i) db)"
| "run_op env (ReleaseOp i) db = snd (creditTransaction (releaseAiCreditReservation env i) db)"
| "run_op env (SubmitOp authorize i) db = snd (creditTransaction (submitCreditAdjustment env authorize i) db)"
| "run_op env (DecideOp authorize i) db = snd (creditTransaction (decideCreditAdjustment env authorize i) db)"

definition empty_db :: "string list \<Rightarrow> credit_db" where
  "empty_db users = \<lparr>db_users = users, db_accounts = [], db_reservations = [], db_entries = [], db_requests = [],
     db_decisions = []\<rparr>"

text \<open>\<open>later db db'\<close>: some calls lead from the one to the other.\<close>

inductive later :: "credit_db \<Rightarrow> credit_db \<Rightarrow> bool" where
  now: "later db db"
| call: "later db db' \<Longrightarrow> later db (run_op env op db')"

lemma transaction_step:
  "snd (creditTransaction f db) = db' \<Longrightarrow> db' = db \<or> (\<exists>r. f db = Inr (r, db'))"
  by (auto simp: creditTransaction_def split: sum.splits)

lemma run_op_cases:
  obtains (none) "run_op env op db = db"
    | (grant) user grant order actor r where "op = GrantOp user grant order actor"
        "grantMembershipCredits env user grant order actor db = Inr (r, run_op env op db)"
    | (reserve) i r where "op = ReserveOp i" "reserveAiCredits env i db = Inr (r, run_op env op db)"
    | (settle) i r where "op = SettleOp i" "settleAiCreditReservation env i db = Inr (r, run_op env op db)"
    | (release) i r where "op = ReleaseOp i" "releaseAiCreditReservation env i db = Inr (r, run_op env op db)"
    | (submit) authorize i r where "op = SubmitOp authorize i"
        "submitCreditAdjustment env authorize i db = Inr (r, run_op env op db)"
    | (decide) authorize i r where "op = DecideOp authorize i"
        "decideCreditAdjustment env authorize i db = Inr (r, run_op env op db)"
proof (cases op)
  case (GrantOp user grant order actor)
  with transaction_step [OF refl, of "grantMembershipCredits env user grant order actor" db] that(1,2) show ?thesis
    by fastforce
next
  case (ReserveOp i)
  with transaction_step [OF refl, of "reserveAiCredits env i" db] that(1,3) show ?thesis by fastforce
next
  case (SettleOp i)
  with transaction_step [OF refl, of "settleAiCreditReservation env i" db] that(1,4) show ?thesis by fastforce
next
  case (ReleaseOp i)
  with transaction_step [OF refl, of "releaseAiCreditReservation env i" db] that(1,5) show ?thesis by fastforce
next
  case (SubmitOp authorize i)
  with transaction_step [OF refl, of "submitCreditAdjustment env authorize i" db] that(1,6) show ?thesis by fastforce
next
  case (DecideOp authorize i)
  with transaction_step [OF refl, of "decideCreditAdjustment env authorize i" db] that(1,7) show ?thesis by fastforce
qed

lemma grant_books:
  assumes "grantMembershipCredits env user grant order actor db = Inr (r, db')" "books_ok db"
  shows "books_ok db'"
  using mutate_plain_books [OF assms(1) [unfolded grantMembershipCredits_def] assms(2)] by simp

lemma run_op_books: "books_ok db \<Longrightarrow> books_ok (run_op env op db)"
  by (cases rule: run_op_cases [of env op db])
    (simp_all, metis grant_books, metis reserve_books surj_pair, metis settle_books surj_pair, metis release_books,
     metis submit_books, metis decide_books)

lemma later_books: "later db db' \<Longrightarrow> books_ok db \<Longrightarrow> books_ok db'"
  by (induction rule: later.induct) (auto intro: run_op_books)

lemma empty_books: "books_ok (empty_db users)"
  by (simp add: books_ok_def ledger_ok_def empty_db_def)

text \<open>C9. After any calls, every account's two balances are not negative, each is the sum of its ledger
entries, and the reserved balance is exactly what the open reservations hold.\<close>

theorem credit_books_balance:
  assumes "later (empty_db users) db" "a \<in> set (db_accounts db)"
  shows "0 \<le> ac_available a \<and> 0 \<le> ac_reserved a
    \<and> ac_available a = entry_sum en_availableDelta (ac_id a) (db_entries db)
    \<and> ac_reserved a = entry_sum en_reservedDelta (ac_id a) (db_entries db)
    \<and> ac_reserved a = active_sum (ac_id a) (db_reservations db)"
proof -
  have b: "books_ok db" using later_books [OF assms(1) empty_books] .
  with assms(2) have "account_balanced (db_entries db) a" by (auto simp: books_ok_def ledger_ok_def list_all_iff)
  with books_okD(4) [OF b assms(2)] show ?thesis by (simp add: account_balanced_def)
qed

subsection \<open>What the customer sees adds up\<close>

definition adjusted :: "credit_db \<Rightarrow> string \<Rightarrow> int" where
  "adjusted db user = (case account_of db user of None \<Rightarrow> 0
     | Some a \<Rightarrow> entry_sum en_availableDelta (ac_id a) (filter (\<lambda>e. en_type e = Adjust) (db_entries db)))"

lemma shape_simps:
  assumes "entry_shape e"
  shows "en_type e = Grant \<Longrightarrow> en_reservedDelta e = 0 \<and> 0 < en_availableDelta e"
    "en_type e = Adjust \<Longrightarrow> en_reservedDelta e = 0"
    "en_type e = Settle \<Longrightarrow> en_availableDelta e + en_reservedDelta e \<le> 0"
    "en_type e = Reserve \<or> en_type e = Release \<Longrightarrow> en_availableDelta e + en_reservedDelta e = 0"
  using assms by (cases "en_type e"; simp add: entry_shape_def)+

lemma entry_sums_by_type:
  assumes "list_all entry_shape es"
  shows "entry_sum en_availableDelta x es + entry_sum en_reservedDelta x es
    = entry_sum en_availableDelta x (filter (\<lambda>e. en_type e = Grant) es)
      + entry_sum (\<lambda>e. en_availableDelta e + en_reservedDelta e) x (filter (\<lambda>e. en_type e = Settle) es)
      + entry_sum en_availableDelta x (filter (\<lambda>e. en_type e = Adjust) es)
    \<and> 0 \<le> entry_sum en_availableDelta x (filter (\<lambda>e. en_type e = Grant) es)
    \<and> entry_sum (\<lambda>e. en_availableDelta e + en_reservedDelta e) x (filter (\<lambda>e. en_type e = Settle) es) \<le> 0"
  using assms
proof (induction es)
  case (Cons e es)
  then have s: "entry_shape e" by simp
  from Cons shape_simps [OF s] show ?case by (cases "en_type e") auto
qed simp

text \<open>What is available, reserved and consumed together is what was granted and adjusted: the five
figures a customer's page is made of never drift apart.\<close>

theorem credit_view_adds_up:
  assumes "later (empty_db users) db"
  shows "vw_available (readClientCreditBalance db user) + vw_reserved (readClientCreditBalance db user)
      + vw_lifetimeConsumed (readClientCreditBalance db user)
    = vw_lifetimeGranted (readClientCreditBalance db user) + adjusted db user
    \<and> 0 \<le> vw_available (readClientCreditBalance db user) \<and> 0 \<le> vw_reserved (readClientCreditBalance db user)
    \<and> 0 \<le> vw_lifetimeConsumed (readClientCreditBalance db user) \<and> 0 \<le> vw_lifetimeGranted (readClientCreditBalance db user)"
proof (cases "account_of db user")
  case None
  then show ?thesis by (simp add: readClientCreditBalance_def adjusted_def)
next
  case (Some a)
  have b: "books_ok db" using later_books [OF assms empty_books] .
  then have sh: "list_all entry_shape (db_entries db)" by (auto simp: books_ok_def ledger_ok_def list_all_iff)
  have bal: "account_balanced (db_entries db) a"
    using b account_of_in [OF Some] by (auto simp: books_ok_def ledger_ok_def list_all_iff)
  have f: "sum_list (map f (filter (\<lambda>e. en_account e = ac_id a \<and> en_type e = t) (db_entries db)))
      = entry_sum f (ac_id a) (filter (\<lambda>e. en_type e = t) (db_entries db))" for f t
    unfolding entry_sum_def filter_filter by (intro arg_cong [where f = "\<lambda>xs. sum_list (map f xs)"] filter_cong) auto
  show ?thesis
    using entry_sums_by_type [OF sh, of "ac_id a"] bal
    by (simp add: readClientCreditBalance_def Some Let_def f adjusted_def account_balanced_def)
qed

subsection \<open>What stays\<close>

definition same_row :: "credit_reservation \<Rightarrow> credit_reservation \<Rightarrow> bool" where
  "same_row r q \<longleftrightarrow> rs_id q = rs_id r \<and> rs_account q = rs_account r \<and> rs_estimated q = rs_estimated r
     \<and> rs_key q = rs_key r \<and> rs_expiresAt q = rs_expiresAt r \<and> (rs_status r \<noteq> Reserved \<longrightarrow> q = r)"

definition extends :: "credit_db \<Rightarrow> credit_db \<Rightarrow> bool" where
  "extends db db' \<longleftrightarrow> (\<exists>es. db_entries db' = db_entries db @ es)
     \<and> (\<exists>rs f. db_reservations db' = map f (db_reservations db) @ rs \<and> (\<forall>r \<in> set (db_reservations db). same_row r (f r)))
     \<and> (\<exists>as. map (\<lambda>a. (ac_id a, ac_user a)) (db_accounts db') = map (\<lambda>a. (ac_id a, ac_user a)) (db_accounts db) @ as)"

lemma same_row_refl [simp]: "same_row r r"
  by (simp add: same_row_def)

lemma same_row_trans: "same_row a b \<Longrightarrow> same_row b c \<Longrightarrow> same_row a c"
  by (auto simp: same_row_def)

lemma extendsI:
  assumes "db_entries db' = db_entries db @ es" "db_reservations db' = map f (db_reservations db) @ rs"
    "\<And>r. r \<in> set (db_reservations db) \<Longrightarrow> same_row r (f r)"
    "map (\<lambda>a. (ac_id a, ac_user a)) (db_accounts db') = map (\<lambda>a. (ac_id a, ac_user a)) (db_accounts db) @ as"
  shows "extends db db'"
  using assms unfolding extends_def by blast

lemma extends_refl [simp]: "extends db db"
  by (rule extendsI [of _ _ "[]" id "[]" "[]"]) simp_all

lemma extends_trans:
  assumes "extends a b" "extends b c"
  shows "extends a c"
proof -
  obtain es rs f as where 1: "db_entries b = db_entries a @ es" "db_reservations b = map f (db_reservations a) @ rs"
      "\<forall>r \<in> set (db_reservations a). same_row r (f r)"
      "map (\<lambda>a. (ac_id a, ac_user a)) (db_accounts b) = map (\<lambda>a. (ac_id a, ac_user a)) (db_accounts a) @ as"
    using assms(1) unfolding extends_def by blast
  obtain es' rs' g as' where 2: "db_entries c = db_entries b @ es'" "db_reservations c = map g (db_reservations b) @ rs'"
      "\<forall>r \<in> set (db_reservations b). same_row r (g r)"
      "map (\<lambda>a. (ac_id a, ac_user a)) (db_accounts c) = map (\<lambda>a. (ac_id a, ac_user a)) (db_accounts b) @ as'"
    using assms(2) unfolding extends_def by blast
  show ?thesis
  proof (rule extendsI)
    show "db_entries c = db_entries a @ (es @ es')" using 1(1) 2(1) by simp
    show "db_reservations c = map (g \<circ> f) (db_reservations a) @ (map g rs @ rs')" using 1(2) 2(2) by simp
    show "same_row r ((g \<circ> f) r)" if "r \<in> set (db_reservations a)" for r
      using same_row_trans [of r "f r" "g (f r)"] 1(2,3) 2(3) that by auto
    show "map (\<lambda>a. (ac_id a, ac_user a)) (db_accounts c) = map (\<lambda>a. (ac_id a, ac_user a)) (db_accounts a) @ (as @ as')"
      using 1(4) 2(4) by simp
  qed
qed

lemma opened_extends: "extends db (opened a es db)"
  by (rule extendsI [of _ _ es id "[]" "[(ac_id a, ac_user a)]"]) (simp_all add: opened_def)

lemma booked_extends: "extends db (booked env e db)"
  by (rule extendsI [of _ _ "[e]" id "[]" "[]"]) (simp_all add: booked_def comp_def)

lemma ensure_extends: "ensure_account env user db = Inr db1 \<Longrightarrow> ledger_ok db \<Longrightarrow> extends db db1"
  using ensure_account_ledger opened_extends extends_refl by metis

lemma mutate_extends:
  assumes "mutateAiCredits env i db = Inr (res, db')" "ledger_ok db"
  shows "extends db db'"
  using assms
proof (cases rule: mutate_cases)
  case (created db1 a)
  with ensure_extends [OF created(1) assms(2)] booked_extends extends_trans show ?thesis by metis
qed simp

lemma reservation_join_in:
  "reservation_join db i = Some (r, a) \<Longrightarrow> r \<in> set (db_reservations db) \<and> rs_id r = i
     \<and> a \<in> set (db_accounts db) \<and> ac_id a = rs_account r"
  by (auto simp: reservation_join_def reservation_with_def split: option.splits dest: find_Some_set account_with_in)

lemma close_extends:
  assumes "distinct (map rs_id (db_reservations db))" "rs_status r = Reserved"
    and r: "r \<in> set (db_reservations db)" "rs_id r = i"
  shows "extends db (close_reservation i s c db)"
proof -
  show ?thesis
  proof (rule extendsI [of _ _ "[]" "closed_row i s c" "[]" "[]"])
    show "same_row q (closed_row i s c q)" if "q \<in> set (db_reservations db)" for q
    proof (cases "rs_id q = i")
      case True
      then have "q = r" using that r assms(1) by (auto simp: distinct_map inj_on_def)
      with assms(2) show ?thesis by (simp add: same_row_def)
    qed (simp add: closed_row_def)
  qed (simp_all add: close_reservation_map)
qed

lemma closing_extends:
  assumes ok: "books_ok db" and j: "reservation_join db i = Some (r, a)" "rs_status r = Reserved"
    and m: "mutateAiCredits env input db = Inr (res, db1)"
  shows "extends db (close_reservation i s c db1)"
proof -
  note l = mutate_ledger [OF m books_okD(1) [OF ok]]
  have "extends db1 (close_reservation i s c db1)"
    using books_okD(2) [OF ok] reservation_join_in [OF j(1)] j(2) l by (intro close_extends [of _ r]) simp_all
  with mutate_extends [OF m books_okD(1) [OF ok]] show ?thesis by (rule extends_trans)
qed

lemma reserve_extends:
  assumes r: "reserveAiCredits env i db = Inr ((rid, new), db')" and ok: "books_ok db"
  shows "extends db db'"
  using r
proof (cases rule: reserve_cases)
  case (created db1 a t res)
  let ?r = "\<lparr>rs_id = env_reservationId env, rs_account = ac_id a, rs_estimated = ri_credits i, rs_settled = None,
    rs_status = Reserved, rs_key = ri_idempotencyKey i, rs_expiresAt = t\<rparr>"
  let ?db2 = "db1\<lparr>db_reservations := db_reservations db1 @ [?r]\<rparr>"
  have l: "ledger_ok db1" using ensure_account_ledger [OF created(1) books_okD(1) [OF ok]] by blast
  then have 1: "extends ?db2 db'" by (intro mutate_extends [OF created(4)]) (simp add: ledger_ok_def)
  have 2: "extends db1 ?db2" by (rule extendsI [of _ _ "[]" id "[?r]" "[]"]) simp_all
  have 3: "extends db db1" using created(1) books_okD(1) [OF ok] by (rule ensure_extends)
  from extends_trans [OF 3 extends_trans [OF 2 1]] show ?thesis .
qed simp

lemma settle_extends:
  assumes s: "settleAiCreditReservation env i db = Inr ((new, c), db')" and ok: "books_ok db"
  shows "extends db db'"
  using s
proof (cases rule: settle_cases)
  case (created r a res db1)
  then show ?thesis using closing_extends [OF ok created(1,2,6)] by simp
qed simp

lemma release_extends:
  assumes s: "releaseAiCreditReservation env i db = Inr (new, db')" and ok: "books_ok db"
  shows "extends db db'"
  using s
proof (cases rule: release_cases)
  case (created r a res db1)
  then show ?thesis using closing_extends [OF ok created(1,2,4)] by simp
qed simp

lemma frame_extends: "extends db (db'\<lparr>db_requests := x\<rparr>) = extends db db'" "extends db (db'\<lparr>db_decisions := y\<rparr>) = extends db db'"
  by (simp_all add: extends_def)

lemma book_adjustment_extends:
  assumes b: "book_adjustment env i r db = Inr (acc, bal, db')"
  shows "extends db db'"
proof (cases "account_of db (rq_user r)")
  case None
  let ?e = "adjustment_entry env i r (env_accountId env) (rq_delta r) 0"
  obtain db1 where d: "insert_account env (rq_user r) (rq_delta r) db = Inr db1" "insert_entry ?e db1 = Inr db'"
    using b None by (auto simp: book_adjustment_def ebind_Inr_iff split: if_splits)
  from insert_account_opened [OF d(1) None] obtain a where "db1 = opened a [] db" by blast
  with d(2) have "db' = opened a [?e] db" by (auto simp: insert_entry_def opened_def split: if_splits)
  then show ?thesis by (simp add: opened_extends)
next
  case (Some a)
  let ?e = "adjustment_entry env i r (ac_id a) (ac_available a + rq_delta r) (ac_reserved a)"
  obtain db1 where d: "update_account env (ac_id a) (ac_available a + rq_delta r) (ac_reserved a) db = Inr db1"
      "insert_entry ?e db1 = Inr db'"
    using b Some by (auto simp: book_adjustment_def ebind_Inr_iff Let_def split: if_splits)
  then have "db' = booked env ?e db"
    using update_insert_booked [of env ?e db db1 db'] by (simp add: adjustment_entry_def)
  then show ?thesis by (simp add: booked_extends)
qed

lemma decide_extends:
  assumes s: "decideCreditAdjustment env authorize i db = Inr (res, db')"
  shows "extends db db'"
proof -
  obtain st rp where "res = (st, rp)" by (cases res)
  with s have s': "decideCreditAdjustment env authorize i db = Inr ((st, rp), db')" by simp
  then show ?thesis
  proof (cases rule: decide_cases)
    case (decided r acc db1 db2)
    have "extends db db1" using decided(5) book_adjustment_extends by auto
    then show ?thesis
      using insert_decision_Inr [OF decided(6)] close_request_Inr [OF decided(7)] by (auto simp: frame_extends)
  qed simp
qed

lemma submit_extends:
  assumes s: "submitCreditAdjustment env authorize i db = Inr (res, db')"
  shows "extends db db'"
proof -
  have "db' = db \<or> (\<exists>rs. db' = db\<lparr>db_requests := rs\<rparr>)"
    using s by (auto simp: submitCreditAdjustment_def insert_request_def ebind_Inr_iff Let_def
        split: if_splits option.splits)
  then show ?thesis by (auto simp: frame_extends)
qed

lemma run_op_extends:
  assumes "books_ok db"
  shows "extends db (run_op env op db)"
proof (cases rule: run_op_cases [of env op db])
  case (grant user grant order actor r)
  then show ?thesis using mutate_extends books_okD(1) [OF assms] by (auto simp: grantMembershipCredits_def)
next
  case (reserve i r)
  then show ?thesis using reserve_extends assms by (metis surj_pair)
next
  case (settle i r)
  then show ?thesis using settle_extends assms by (metis surj_pair)
next
  case (release i r)
  then show ?thesis using release_extends assms by metis
next
  case (submit authorize i r)
  then show ?thesis using submit_extends by metis
next
  case (decide authorize i r)
  then show ?thesis using decide_extends by metis
qed simp

lemma later_extends: "later db db' \<Longrightarrow> books_ok db \<Longrightarrow> extends db db'"
proof (induction rule: later.induct)
  case (call db db' env op)
  then show ?case using run_op_extends [OF later_books] extends_trans by metis
qed simp

lemma later_trans: "later b c \<Longrightarrow> later a b \<Longrightarrow> later a c"
  by (induction rule: later.induct) (auto intro: later.call)

text \<open>Closed stays closed: no later call changes a settled or released reservation, and no ledger entry
is ever changed or removed.\<close>

theorem closed_reservation_final:
  assumes "later (empty_db users) db" "later db db'"
  shows "(\<forall>r \<in> set (db_reservations db). rs_status r \<noteq> Reserved \<longrightarrow> r \<in> set (db_reservations db'))
    \<and> (\<exists>new. db_entries db' = db_entries db @ new)"
proof -
  have "extends db db'" using later_extends [OF assms(2) later_books [OF assms(1) empty_books]] .
  then obtain es rs f where "db_entries db' = db_entries db @ es" "db_reservations db' = map f (db_reservations db) @ rs"
      "\<forall>r \<in> set (db_reservations db). same_row r (f r)" unfolding extends_def by blast
  then show ?thesis by (force simp: same_row_def)
qed

subsection \<open>Settling once\<close>

lemma usage_cost_counts:
  assumes "usage_cost i = Inr c"
  shows "token_count (us_inputTokens (si_trustedUsage i)) \<and> token_count (us_outputTokens (si_trustedUsage i))"
  using assms by (auto simp: usage_cost_def calculateTokenCost_def split: if_splits)

lemma usage_stored:
  assumes "usage_cost i = Inr c"
  shows "stored_json (JObj (usage_record (si_trustedUsage i) m k)) = JObj (usage_record (si_trustedUsage i) m k)"
proof -
  have "token_count v \<Longrightarrow> is_finite v" for v by (cases v) (auto simp: token_count_def)
  with usage_cost_counts [OF assms] show ?thesis by (simp add: usage_record_def split: option.splits)
qed

text \<open>C12. A settlement takes the whole reservation out of the reserved balance, gives back what the call did
not cost and keeps the cost, which is never more than was reserved; no other account is touched.\<close>

theorem settlement_charges_metered_cost:
  assumes "later (empty_db users) db" "settleAiCreditReservation env i db = Inr ((True, c), db')"
  shows "\<exists>r a a'. reservation_with db (si_reservationId i) = Some r \<and> rs_status r = Reserved
    \<and> usage_cost i = Inr c \<and> 0 \<le> c \<and> c \<le> rs_estimated r
    \<and> a \<in> set (db_accounts db) \<and> a' \<in> set (db_accounts db') \<and> ac_id a = rs_account r \<and> ac_id a' = rs_account r
    \<and> ac_available a' = ac_available a + (rs_estimated r - c) \<and> ac_reserved a' = ac_reserved a - rs_estimated r
    \<and> (\<forall>x \<in> set (db_accounts db). ac_id x \<noteq> rs_account r \<longrightarrow> x \<in> set (db_accounts db'))"
  using assms(2)
proof (cases rule: settle_cases)
  case (created r a res db1)
  have ok: "books_ok db" using later_books [OF assms(1) empty_books] .
  note j = reservation_join_in [OF created(1)]
  have "\<exists>e. db1 = booked env e db \<and> continues a e \<and> en_availableDelta e = rs_estimated r - c
      \<and> en_reservedDelta e = - rs_estimated r"
    using closing_books [OF created(6) ok created(1,2), of Settled "Some c"] created(4) usage_cost_nonneg [OF created(3)]
    by (auto simp: settlement_mutation_def)
  then obtain e where e: "db1 = booked env e db" "continues a e" "en_availableDelta e = rs_estimated r - c"
      "en_reservedDelta e = - rs_estimated r" by blast
  have acc: "db_accounts db' = map (set_balance env e) (db_accounts db)"
    unfolding created(7) e(1) by (simp add: close_reservation_map booked_def)
  have "ac_id (set_balance env e a) = rs_account r"
      "ac_available (set_balance env e a) = ac_available a + (rs_estimated r - c)"
      "ac_reserved (set_balance env e a) = ac_reserved a - rs_estimated r"
    using e(2-4) j by (simp_all add: set_balance_def continues_def)
  moreover have "x \<in> set (db_accounts db')" if "x \<in> set (db_accounts db)" "ac_id x \<noteq> rs_account r" for x
    unfolding acc set_map using that j e(2) by (intro image_eqI [of _ _ x]) (simp_all add: set_balance_def continues_def)
  moreover have "set_balance env e a \<in> set (db_accounts db')" using j acc by simp
  moreover have "reservation_with db (si_reservationId i) = Some r"
    using created(1) by (auto simp: reservation_join_def split: option.splits)
  ultimately show ?thesis using created(2-4) usage_cost_nonneg [OF created(3)] j by blast
qed simp

lemma reservation_with_unique:
  assumes "distinct (map rs_id (db_reservations db))" "r \<in> set (db_reservations db)"
  shows "reservation_with db (rs_id r) = Some r"
proof -
  obtain q where q: "reservation_with db (rs_id r) = Some q"
    using assms(2) by (cases "reservation_with db (rs_id r)") (auto simp: reservation_with_def find_None_all)
  then have "q \<in> set (db_reservations db)" "rs_id q = rs_id r"
    unfolding reservation_with_def by (auto dest: find_Some_set)
  with assms q show ?thesis by (auto simp: distinct_map inj_on_def)
qed

lemma find_append_Some: "find P xs = Some x \<Longrightarrow> find P (xs @ ys) = Some x"
  by (induction xs) auto

lemma find_append_None: "find P xs = None \<Longrightarrow> find P (xs @ ys) = find P ys"
  by (induction xs) auto

text \<open>What a finished settlement leaves behind.\<close>

definition settled_as :: "credit_env \<Rightarrow> settlement_input \<Rightarrow> int \<Rightarrow> credit_db \<Rightarrow> bool" where
  "settled_as env i c db \<longleftrightarrow> (\<exists>r e. r \<in> set (db_reservations db) \<and> rs_id r = si_reservationId i \<and> rs_status r = Settled
     \<and> rs_settled r = Some c \<and> closing_entry db (si_reservationId i) Settle = Some e
     \<and> en_key e = si_idempotencyKey i \<and> en_createdBy e = si_actorUserId i \<and> en_costModel e = Some (si_costModelVersion i)
     \<and> (\<exists>cost. usage_cost i = Inr cost \<and> canonicalPayloadHash (env_hash env) (json_or_null (en_usage e))
         = canonicalPayloadHash (env_hash env) (JObj (usage_record (si_trustedUsage i) (si_costModelVersion i) cost)))
     \<and> us_source (si_trustedUsage i) = ''provider_metering'' \<and> js_trim (us_usageId (si_trustedUsage i)) \<noteq> [])"

lemma settled_as_stays:
  assumes "settled_as env i c db" "extends db db'"
  shows "settled_as env i c db'"
proof -
  from assms(1) obtain r e where r: "r \<in> set (db_reservations db)" "rs_status r = Settled"
      and e: "closing_entry db (si_reservationId i) Settle = Some e"
      and rest: "settled_as env i c db" "rs_id r = si_reservationId i" "rs_settled r = Some c"
    unfolding settled_as_def by blast
  from assms(2) obtain es rs f where x: "db_entries db' = db_entries db @ es"
      "db_reservations db' = map f (db_reservations db) @ rs" "\<forall>r \<in> set (db_reservations db). same_row r (f r)"
    unfolding extends_def by blast
  have "f r = r" using x(3) r by (auto simp: same_row_def)
  then have "r \<in> set (db_reservations db')" using x(2) r(1) by force
  moreover have "closing_entry db' (si_reservationId i) Settle = Some e"
    using e x(1) by (simp add: closing_entry_def find_append_Some)
  ultimately show ?thesis using rest r(2) e unfolding settled_as_def by fastforce
qed

lemma settle_settles:
  assumes s: "settleAiCreditReservation env i db = Inr ((new, c), db')" and ok: "books_ok db"
  shows "settled_as env i c db'"
proof -
  have src: "us_source (si_trustedUsage i) = ''provider_metering''" "js_trim (us_usageId (si_trustedUsage i)) \<noteq> []"
    using s by (auto simp: settleAiCreditReservation_def split: if_splits)
  obtain cost where cost: "usage_cost i = Inr cost"
    using s src by (auto simp: settleAiCreditReservation_def ebind_Inr_iff)
  from s show ?thesis
  proof (cases rule: settle_cases)
    case (replay r a e)
    note j = reservation_join_in [OF replay(3)]
    have "rs_settled r = Some c"
      using books_okD(3) [OF ok j [THEN conjunct1]] replay(4,6) by (auto simp: reservation_ok_def)
    moreover have "en_key e = si_idempotencyKey i \<and> en_createdBy e = si_actorUserId i
        \<and> en_costModel e = Some (si_costModelVersion i)
        \<and> canonicalPayloadHash (env_hash env) (json_or_null (en_usage e))
          = canonicalPayloadHash (env_hash env) (JObj (usage_record (si_trustedUsage i) (si_costModelVersion i) cost))"
      using s src cost replay(3,4,5) transition_cases(2) [of "rs_status r" ToSettled]
      by (auto simp: settleAiCreditReservation_def split: if_splits)
    ultimately show ?thesis using replay(1,4,5) j src cost unfolding settled_as_def by blast
  next
    case (created r a res db1)
    note j = reservation_join_in [OF created(1)]
    have cc: "cost = c" using cost created(3) by simp
    have "\<exists>e. db1 = booked env e db \<and> en_key e = si_idempotencyKey i \<and> en_type e = Settle
        \<and> en_reservation e = Some (si_reservationId i) \<and> en_costModel e = Some (si_costModelVersion i)
        \<and> en_createdBy e = si_actorUserId i
        \<and> en_usage e = Some (JObj (usage_record (si_trustedUsage i) (si_costModelVersion i) c))"
      using closing_books [OF created(6) ok created(1,2), of Settled "Some c"] created(4) usage_cost_nonneg [OF created(3)]
        usage_stored [OF created(3)]
      by (auto simp: settlement_mutation_def)
    then obtain e where e: "db1 = booked env e db" "en_key e = si_idempotencyKey i" "en_type e = Settle"
        "en_reservation e = Some (si_reservationId i)" "en_costModel e = Some (si_costModelVersion i)"
        "en_createdBy e = si_actorUserId i"
        "en_usage e = Some (JObj (usage_record (si_trustedUsage i) (si_costModelVersion i) c))" by blast
    have "closing_entry db (si_reservationId i) Settle = None"
    proof (rule ccontr)
      assume "closing_entry db (si_reservationId i) Settle \<noteq> None"
      then obtain x where x: "x \<in> set (db_entries db)" "en_reservation x = Some (si_reservationId i)" "en_type x = Settle"
        unfolding closing_entry_def by (auto dest: find_Some_set)
      with books_okD(5) [OF ok x(1)] obtain q where "q \<in> set (db_reservations db)" "rs_id q = rs_id r" "rs_status q = Settled"
        using j by (auto simp: entry_linked_def)
      with j created(2) books_okD(2) [OF ok] show False by (auto simp: distinct_map inj_on_def)
    qed
    then have "closing_entry db' (si_reservationId i) Settle = Some e"
      using e created(7) by (simp add: closing_entry_def close_reservation_map booked_def find_append_None)
    moreover have "closed_row (si_reservationId i) Settled (Some c) r \<in> set (db_reservations db')"
      using j e(1) created(7) by (simp add: close_reservation_map booked_def)
    moreover have "rs_id (closed_row (si_reservationId i) Settled (Some c) r) = si_reservationId i"
        "rs_status (closed_row (si_reservationId i) Settled (Some c) r) = Settled"
        "rs_settled (closed_row (si_reservationId i) Settled (Some c) r) = Some c"
      using j by (simp_all add: closed_row_def)
    ultimately show ?thesis using src created(3) e unfolding settled_as_def json_or_null_def by fastforce
  qed
qed

lemma settled_replays:
  assumes s: "settled_as env i c db" and ok: "books_ok db" and h: "env_hash env' = env_hash env"
  shows "settleAiCreditReservation env' i db = Inr ((False, c), db)"
proof -
  from s obtain r e cost where r: "r \<in> set (db_reservations db)" "rs_id r = si_reservationId i" "rs_status r = Settled"
     "rs_settled r = Some c" "closing_entry db (si_reservationId i) Settle = Some e"
     "en_key e = si_idempotencyKey i" "en_createdBy e = si_actorUserId i" "en_costModel e = Some (si_costModelVersion i)"
     "usage_cost i = Inr cost" "canonicalPayloadHash (env_hash env) (json_or_null (en_usage e))
         = canonicalPayloadHash (env_hash env) (JObj (usage_record (si_trustedUsage i) (si_costModelVersion i) cost))"
     "us_source (si_trustedUsage i) = ''provider_metering''" "js_trim (us_usageId (si_trustedUsage i)) \<noteq> []"
    unfolding settled_as_def by blast
  have "reservation_with db (si_reservationId i) = Some r"
    using reservation_with_unique [OF books_okD(2) [OF ok] r(1)] r(2) by simp
  moreover obtain a where "account_with db (rs_account r) = Some a"
    using books_okD(3) [OF ok r(1)] by (cases "account_with db (rs_account r)") (auto simp: account_with_def find_None_all)
  ultimately have "reservation_join db (si_reservationId i) = Some (r, a)" by (simp add: reservation_join_def)
  moreover have "resolveReservationTransition (rs_status r) ToSettled = Replay"
    using r(3) by (simp add: transition_cases)
  ultimately show ?thesis using r h by (simp add: settleAiCreditReservation_def)
qed

text \<open>C10. Whatever happens in between, sending the same settlement again charges nothing and answers with
the same credits.\<close>

theorem settlement_idempotent:
  assumes "later (empty_db users) db" "settleAiCreditReservation env i db = Inr ((new, c), db')"
    and "later db' db''" "env_hash env' = env_hash env"
  shows "settleAiCreditReservation env' i db'' = Inr ((False, c), db'')"
proof -
  have ok: "books_ok db" using later_books [OF assms(1) empty_books] .
  have ok': "books_ok db'" using settle_books [OF assms(2) ok] .
  have "settled_as env i c db''"
    using settled_as_stays [OF settle_settles [OF assms(2) ok] later_extends [OF assms(3) ok']] .
  then show ?thesis using later_books [OF assms(3) ok'] assms(4) by (rule settled_replays)
qed

subsection \<open>Two people for an adjustment\<close>

definition account_user :: "credit_db \<Rightarrow> string \<Rightarrow> string \<Rightarrow> bool" where
  "account_user db i u \<longleftrightarrow> (i, u) \<in> set (map (\<lambda>a. (ac_id a, ac_user a)) (db_accounts db))"

text \<open>The request that stands behind an adjustment entry: approved by someone else than who asked.\<close>

definition backed_by :: "credit_db \<Rightarrow> credit_entry \<Rightarrow> adjustment_request \<Rightarrow> bool" where
  "backed_by db e r \<longleftrightarrow> en_sourceId e = rq_id r \<and> rq_status r = Approved \<and> rq_delta r = en_availableDelta e
     \<and> en_createdBy e = rq_decidedBy r \<and> rq_decidedBy r \<noteq> None \<and> rq_decidedBy r \<noteq> Some (rq_requestedBy r)
     \<and> account_user db (en_account e) (rq_user r)"

definition reviewed :: "credit_db \<Rightarrow> bool" where
  "reviewed db \<longleftrightarrow> distinct (map rq_id (db_requests db))
     \<and> (\<forall>e \<in> set (db_entries db). en_type e = Adjust \<longrightarrow> (\<exists>r \<in> set (db_requests db). backed_by db e r))"

lemma account_user_extends: "account_user db i u \<Longrightarrow> extends db db' \<Longrightarrow> account_user db' i u"
  unfolding account_user_def extends_def by fastforce

lemma backed_by_extends: "backed_by db e r \<Longrightarrow> extends db db' \<Longrightarrow> backed_by db' e r"
  by (auto simp: backed_by_def intro: account_user_extends)

text \<open>A call that adds no adjustment and leaves the requests alone.\<close>

definition adds_plain :: "credit_db \<Rightarrow> credit_db \<Rightarrow> bool" where
  "adds_plain db db' \<longleftrightarrow> db_requests db' = db_requests db
     \<and> (\<exists>es. db_entries db' = db_entries db @ es \<and> (\<forall>e \<in> set es. en_type e \<noteq> Adjust))"

lemma reviewed_plain: "reviewed db \<Longrightarrow> extends db db' \<Longrightarrow> adds_plain db db' \<Longrightarrow> reviewed db'"
  unfolding reviewed_def adds_plain_def using backed_by_extends by fastforce

lemma adds_plain_refl [simp]: "adds_plain db db"
  by (simp add: adds_plain_def)

lemma ensure_plain: "ensure_account env user db = Inr db1 \<Longrightarrow> db_requests db1 = db_requests db \<and> db_entries db1 = db_entries db"
  by (auto simp: ensure_account_def insert_account_def Let_def split: if_splits)

lemma mutate_plain:
  assumes "mutateAiCredits env i db = Inr (res, db')" "ledger_ok db" "ci_type i \<noteq> Adjust"
  shows "adds_plain db db'"
  using assms(1,2)
proof (cases rule: mutate_cases)
  case (created db1 a)
  with assms(3) ensure_plain [OF created(1)] show ?thesis by (simp add: adds_plain_def booked_def new_entry_def)
qed simp

lemma run_op_plain:
  assumes ok: "books_ok db" and op: "\<forall>a i. op \<noteq> SubmitOp a i" "\<forall>a i. op \<noteq> DecideOp a i"
  shows "adds_plain db (run_op env op db)"
proof (cases rule: run_op_cases [of env op db])
  case (grant user grant order actor r)
  then show ?thesis using mutate_plain books_okD(1) [OF ok] by (auto simp: grantMembershipCredits_def)
next
  case (reserve i r)
  obtain rid new where "reserveAiCredits env i db = Inr ((rid, new), run_op env op db)" using reserve(2) by (cases r) auto
  then show ?thesis
  proof (cases rule: reserve_cases)
    case (created db1 a t res)
    have "ledger_ok db1" using ensure_account_ledger [OF created(1) books_okD(1) [OF ok]] by blast
    then have "adds_plain (db1\<lparr>db_reservations := db_reservations db1 @ [\<lparr>rs_id = env_reservationId env, rs_account = ac_id a,
        rs_estimated = ri_credits i, rs_settled = None, rs_status = Reserved, rs_key = ri_idempotencyKey i,
        rs_expiresAt = t\<rparr>]\<rparr>) (run_op env op db)"
      by (intro mutate_plain [OF created(4)]) (simp_all add: ledger_ok_def reserve_mutation_def)
    with ensure_plain [OF created(1)] show ?thesis by (simp add: adds_plain_def)
  qed simp
next
  case (settle i r)
  obtain new c where "settleAiCreditReservation env i db = Inr ((new, c), run_op env op db)" using settle(2) by (cases r) auto
  then show ?thesis
  proof (cases rule: settle_cases)
    case (created q a res db1)
    have "adds_plain db db1"
      by (rule mutate_plain [OF created(6) books_okD(1) [OF ok]]) (simp add: settlement_mutation_def)
    then show ?thesis unfolding created(7) by (simp add: adds_plain_def close_reservation_map)
  qed simp
next
  case (release i r)
  from release(2) show ?thesis
  proof (cases rule: release_cases)
    case (created q a res db1)
    have "adds_plain db db1"
      by (rule mutate_plain [OF created(4) books_okD(1) [OF ok]]) (simp add: release_mutation_def)
    then show ?thesis unfolding created(5) by (simp add: adds_plain_def close_reservation_map)
  qed simp
qed (use op in auto)

lemma submit_reviewed:
  assumes s: "submitCreditAdjustment env authorize i db = Inr (res, db')" and r: "reviewed db"
  shows "reviewed db'"
proof -
  have "db' = db \<or> (\<exists>r. db' = db\<lparr>db_requests := db_requests db @ [r]\<rparr> \<and> list_all (\<lambda>x. rq_id x \<noteq> rq_id r) (db_requests db))"
    using s by (auto simp: submitCreditAdjustment_def insert_request_def ebind_Inr_iff Let_def request_clash_def
        list_ex_iff list_all_iff split: if_splits option.splits)
  then show ?thesis
  proof
    assume "\<exists>r. db' = db\<lparr>db_requests := db_requests db @ [r]\<rparr> \<and> list_all (\<lambda>x. rq_id x \<noteq> rq_id r) (db_requests db)"
    then obtain q where q: "db' = db\<lparr>db_requests := db_requests db @ [q]\<rparr>" "list_all (\<lambda>x. rq_id x \<noteq> rq_id q) (db_requests db)"
      by blast
    have "backed_by db' = backed_by db" by (simp add: backed_by_def [abs_def] account_user_def q(1))
    with r q show ?thesis by (auto simp: reviewed_def list_all_iff)
  qed (use r in simp)
qed

lemma book_adjustment_entry:
  assumes b: "book_adjustment env i r db = Inr (acc, bal, db')"
  shows "\<exists>avail res. db_entries db' = db_entries db @ [adjustment_entry env i r acc avail res] \<and> account_user db' acc (rq_user r)"
proof (cases "account_of db (rq_user r)")
  case None
  let ?e = "adjustment_entry env i r (env_accountId env) (rq_delta r) 0"
  obtain db1 where d: "insert_account env (rq_user r) (rq_delta r) db = Inr db1" "insert_entry ?e db1 = Inr db'"
      "acc = env_accountId env"
    using b None by (auto simp: book_adjustment_def ebind_Inr_iff split: if_splits)
  from insert_account_opened [OF d(1) None] obtain a where "db1 = opened a [] db" "ac_id a = env_accountId env"
      "ac_user a = rq_user r" by blast
  with d(2) have "db' = opened a [?e] db" by (auto simp: insert_entry_def opened_def split: if_splits)
  then show ?thesis using \<open>ac_id a = env_accountId env\<close> \<open>ac_user a = rq_user r\<close> d(3)
    by (auto simp: opened_def account_user_def)
next
  case (Some a)
  let ?e = "adjustment_entry env i r (ac_id a) (ac_available a + rq_delta r) (ac_reserved a)"
  obtain db1 where d: "update_account env (ac_id a) (ac_available a + rq_delta r) (ac_reserved a) db = Inr db1"
      "insert_entry ?e db1 = Inr db'" "acc = ac_id a"
    using b Some by (auto simp: book_adjustment_def ebind_Inr_iff Let_def split: if_splits)
  then have "db' = booked env ?e db"
    using update_insert_booked [of env ?e db db1 db'] by (simp add: adjustment_entry_def)
  then show ?thesis using account_of_in [OF Some] d(3) by (auto simp: booked_def account_user_def)
qed

lemma close_request_rows:
  "close_request j acc s u db = Inr db' \<Longrightarrow> db' = db\<lparr>db_requests := map (\<lambda>r. if rq_id r = j
     then r\<lparr>rq_account := acc, rq_status := s, rq_decidedBy := Some u\<rparr> else r) (db_requests db)\<rparr>"
  by (auto simp: close_request_def Let_def split: if_splits)

lemma decide_reviewed:
  assumes s: "decideCreditAdjustment env authorize i db = Inr ((st, rp), db')" and rv: "reviewed db" and ok: "books_ok db"
  shows "reviewed db'"
  using s
proof (cases rule: decide_cases)
  case (decided r acc db1 db2)
  define g :: "adjustment_request \<Rightarrow> adjustment_request" where "g = (\<lambda>q. if rq_id q = rq_id r then q\<lparr>rq_account := acc, rq_status := decided_status (di_decision i),
      rq_decidedBy := Some (di_actorUserId i)\<rparr> else q)"
  have r: "r \<in> set (db_requests db)" using decided(1) by (auto dest: find_Some_set)
  have rq1: "db_requests db1 = db_requests db" using decided(5) book_adjustment_books ok by blast
  have db': "db' = db1\<lparr>db_decisions := db_decisions db2, db_requests := map g (db_requests db)\<rparr>"
    using insert_decision_Inr [OF decided(6)] close_request_rows [OF decided(7)] rq1 by (auto simp: g_def)
  have ex: "extends db db'"
    using decide_extends [OF s] .
  have keys: "map rq_id (map g (db_requests db)) = map rq_id (db_requests db)" by (simp add: g_def comp_def)
  have old: "\<exists>q \<in> set (db_requests db'). backed_by db' e q"
    if e: "e \<in> set (db_entries db)" "en_type e = Adjust" for e
  proof -
    from rv e obtain q where q: "q \<in> set (db_requests db)" "backed_by db e q" unfolding reviewed_def by blast
    have "rq_id q \<noteq> rq_id r"
    proof
      assume "rq_id q = rq_id r"
      with rv q r have "q = r" by (auto simp: reviewed_def distinct_map inj_on_def)
      with q(2) decided(4) show False by (simp add: backed_by_def)
    qed
    then have "g q = q" by (simp add: g_def)
    then have "q \<in> set (db_requests db')" using q(1) unfolding db' by force
    with backed_by_extends [OF q(2) ex] show ?thesis by blast
  qed
  have new: "\<exists>q \<in> set (db_requests db'). backed_by db' e q"
    if "e \<in> set (db_entries db1)" "e \<notin> set (db_entries db)" for e
  proof -
    from decided(5) that obtain a bal where b: "di_decision i = Approve" "acc = Some a" "book_adjustment env i r db = Inr (a, bal, db1)"
      by auto
    from book_adjustment_entry [OF b(3)] that obtain av rs where e: "e = adjustment_entry env i r a av rs"
        "account_user db1 a (rq_user r)" by auto
    have "g r \<in> set (db_requests db')" using r by (simp add: db')
    moreover have "backed_by db' e (g r)"
      using e b(1) decided(3) by (simp add: backed_by_def g_def adjustment_entry_def decided_status_def account_user_def db')
    ultimately show ?thesis by blast
  qed
  have en: "db_entries db' = db_entries db1" and rq: "db_requests db' = map g (db_requests db)" by (simp_all add: db')
  have "distinct (map rq_id (db_requests db'))" unfolding rq keys using rv by (simp add: reviewed_def)
  moreover have "\<exists>q \<in> set (db_requests db'). backed_by db' e q"
    if "e \<in> set (db_entries db')" "en_type e = Adjust" for e
    using old [of e] new [of e] that unfolding en by blast
  ultimately show ?thesis by (simp add: reviewed_def)
qed (use rv in simp)

lemma run_op_reviewed:
  assumes "books_ok db" "reviewed db"
  shows "reviewed (run_op env op db)"
proof (cases "(\<exists>a i. op = SubmitOp a i) \<or> (\<exists>a i. op = DecideOp a i)")
  case True
  then show ?thesis
  proof (cases rule: run_op_cases [of env op db])
    case (decide authorize i r)
    then show ?thesis using decide_reviewed assms by (metis surj_pair)
  next
    case (submit authorize i r)
    then show ?thesis using submit_reviewed assms by metis
  qed (use assms in auto)
next
  case False
  with reviewed_plain [OF assms(2) run_op_extends [OF assms(1)] run_op_plain [OF assms(1)]] show ?thesis by blast
qed

text \<open>C11. No single person changes a balance by hand: behind every adjustment in the ledger stands a request of
that amount for that customer, approved by the person who booked it, who is not the one who asked.\<close>

theorem adjustment_needs_two:
  assumes "later (empty_db users) db" "e \<in> set (db_entries db)" "en_type e = Adjust"
  shows "\<exists>r \<in> set (db_requests db). backed_by db e r"
proof -
  have "reviewed db"
    using assms(1)
  proof (induction "empty_db users" db rule: later.induct)
    case now
    then show ?case by (simp add: reviewed_def empty_db_def)
  next
    case (call db' env op)
    then show ?case using run_op_reviewed later_books empty_books by blast
  qed
  with assms(2,3) show ?thesis by (simp add: reviewed_def)
qed

subsection \<open>A sample history\<close>

definition sample_env :: credit_env where
  "sample_env = \<lparr>env_hash = \<lparr>ph_collate = \<lambda>a b. True, ph_digest = \<lambda>s. s\<rparr>, env_now = 0, env_accountId = ''a1'',
     env_reservationId = ''r1'', env_entryId = ''e1'', env_rowId = ''q1''\<rparr>"

definition sample_reserve :: reserve_input where
  "sample_reserve = \<lparr>ri_userId = ''u1'', ri_credits = 10, ri_sourceType = ''t'', ri_sourceId = ''s'',
     ri_idempotencyKey = ''k1'', ri_expiresAt = iso_text 0, ri_actorUserId = None\<rparr>"

definition sample_settlement :: settlement_input where
  "sample_settlement = \<lparr>si_reservationId = ''r1'', si_idempotencyKey = ''k2'', si_actorUserId = None,
     si_costModelVersion = ''token-cost-v1'', si_trustedUsage = \<lparr>us_source = ''provider_metering'',
       us_providerRequestId = None, us_usageId = ''x'', us_inputTokens = N 1000, us_outputTokens = N 1000\<rparr>\<rparr>"

definition sample_granted :: credit_db where
  "sample_granted = run_op sample_env (GrantOp ''u1'' 1000 ''o1'' ''u2'') (empty_db [''u1'', ''u2''])"

definition sample_reserved :: credit_db where
  "sample_reserved = run_op (sample_env\<lparr>env_entryId := ''e2''\<rparr>) (ReserveOp sample_reserve) sample_granted"

lemma sample_granted_db:
  "sample_granted = \<lparr>db_users = [''u1'', ''u2''],
     db_accounts = [\<lparr>ac_id = ''a1'', ac_user = ''u1'', ac_available = 1000, ac_reserved = 0, ac_version = 2, ac_updatedAt = 0\<rparr>],
     db_reservations = [],
     db_entries = [\<lparr>en_id = ''e1'', en_account = ''a1'', en_type = Grant, en_availableDelta = 1000, en_reservedDelta = 0,
       en_balanceAvailable = 1000, en_balanceReserved = 0, en_sourceType = ''commercial_membership_order'',
       en_sourceId = ''o1'', en_reservation = None, en_costModel = None, en_usage = None,
       en_key = ''membership-credit:o1'', en_createdBy = Some ''u2''\<rparr>],
     db_requests = [], db_decisions = []\<rparr>"
  by code_simp

lemma sample_reserved_db:
  "sample_reserved = \<lparr>db_users = [''u1'', ''u2''],
     db_accounts = [\<lparr>ac_id = ''a1'', ac_user = ''u1'', ac_available = 990, ac_reserved = 10, ac_version = 3, ac_updatedAt = 0\<rparr>],
     db_reservations = [\<lparr>rs_id = ''r1'', rs_account = ''a1'', rs_estimated = 10, rs_settled = None, rs_status = Reserved,
       rs_key = ''k1'', rs_expiresAt = 0\<rparr>],
     db_entries = [\<lparr>en_id = ''e1'', en_account = ''a1'', en_type = Grant, en_availableDelta = 1000, en_reservedDelta = 0,
       en_balanceAvailable = 1000, en_balanceReserved = 0, en_sourceType = ''commercial_membership_order'',
       en_sourceId = ''o1'', en_reservation = None, en_costModel = None, en_usage = None,
       en_key = ''membership-credit:o1'', en_createdBy = Some ''u2''\<rparr>,
       \<lparr>en_id = ''e2'', en_account = ''a1'', en_type = Reserve, en_availableDelta = - 10, en_reservedDelta = 10,
       en_balanceAvailable = 990, en_balanceReserved = 10, en_sourceType = ''t'',
       en_sourceId = ''s'', en_reservation = Some ''r1'', en_costModel = None, en_usage = None,
       en_key = ''k1:ledger'', en_createdBy = None\<rparr>],
     db_requests = [], db_decisions = []\<rparr>"
proof -
  have d: "to_date (date_parse (ri_expiresAt sample_reserve)) = Some 0"
    by (simp add: sample_reserve_def date_parse_iso max_time_def)
  show ?thesis
    unfolding sample_reserved_def sample_granted_db run_op.simps creditTransaction_def reserveAiCredits_def d
    by code_simp
qed

lemma sample_cost: "usage_cost sample_settlement = Inr 1"
  by (simp add: usage_cost_def sample_settlement_def calculateTokenCost_def token_count_def)

lemma sample_credit_history: "later (empty_db [''u1'', ''u2'']) sample_granted" "later (empty_db [''u1'', ''u2'']) sample_reserved"
  unfolding sample_reserved_def sample_granted_def by (intro later.intros)+

lemma sample_settles:
  "\<exists>db'. settleAiCreditReservation (sample_env\<lparr>env_entryId := ''e3''\<rparr>) sample_settlement sample_reserved = Inr ((True, 1), db')"
proof -
  have "map_sum id fst (settleAiCreditReservation (sample_env\<lparr>env_entryId := ''e3''\<rparr>) sample_settlement sample_reserved)
      = Inr (True, 1)"
    unfolding settleAiCreditReservation_def sample_cost sample_reserved_db ebind_simps sample_settlement_def by code_simp
  then show ?thesis by (cases "settleAiCreditReservation (sample_env\<lparr>env_entryId := ''e3''\<rparr>) sample_settlement sample_reserved")
    auto
qed

theorem credit_books_balance_witness:
  "\<exists>a \<in> set (db_accounts sample_reserved). ac_reserved a = 10
     \<and> ac_reserved a = active_sum (ac_id a) (db_reservations sample_reserved)"
  using credit_books_balance [OF sample_credit_history(2)] by (simp add: sample_reserved_db)

theorem credit_view_adds_up_witness:
  "vw_available (readClientCreditBalance sample_reserved ''u1'') + vw_reserved (readClientCreditBalance sample_reserved ''u1'')
      + vw_lifetimeConsumed (readClientCreditBalance sample_reserved ''u1'')
    = vw_lifetimeGranted (readClientCreditBalance sample_reserved ''u1'') + adjusted sample_reserved ''u1''"
  using credit_view_adds_up [OF sample_credit_history(2)] by blast

theorem settlement_charges_metered_cost_witness:
  "\<exists>db' r a a'. settleAiCreditReservation (sample_env\<lparr>env_entryId := ''e3''\<rparr>) sample_settlement sample_reserved = Inr ((True, 1), db')
     \<and> reservation_with sample_reserved ''r1'' = Some r \<and> a \<in> set (db_accounts sample_reserved) \<and> a' \<in> set (db_accounts db') \<and> ac_id a = rs_account r
     \<and> ac_available a' = ac_available a + (rs_estimated r - 1)"
proof -
  obtain db' where s: "settleAiCreditReservation (sample_env\<lparr>env_entryId := ''e3''\<rparr>) sample_settlement sample_reserved
      = Inr ((True, 1), db')" using sample_settles by blast
  have id: "si_reservationId sample_settlement = ''r1''" by (simp add: sample_settlement_def)
  from settlement_charges_metered_cost [OF sample_credit_history(2) s, unfolded id] s show ?thesis by blast
qed

theorem settlement_idempotent_witness:
  "\<exists>db'. settleAiCreditReservation (sample_env\<lparr>env_entryId := ''e3''\<rparr>) sample_settlement sample_reserved = Inr ((True, 1), db')
     \<and> settleAiCreditReservation sample_env sample_settlement db' = Inr ((False, 1), db')"
proof -
  obtain db' where s: "settleAiCreditReservation (sample_env\<lparr>env_entryId := ''e3''\<rparr>) sample_settlement sample_reserved
      = Inr ((True, 1), db')" using sample_settles by blast
  from settlement_idempotent [OF sample_credit_history(2) s later.now, of sample_env] s show ?thesis by auto
qed

theorem closed_reservation_final_witness:
  "\<exists>new. db_entries sample_reserved = db_entries sample_granted @ new"
proof -
  have "later sample_granted sample_reserved" unfolding sample_reserved_def by (intro later.intros)
  from closed_reservation_final [OF sample_credit_history(1) this] show ?thesis by blast
qed

definition sample_submit :: submit_input where
  "sample_submit = \<lparr>sb_actorUserId = ''u2'', sb_customerId = ''u1'', sb_amountDelta = ''-5'', sb_reason = ''late'',
     sb_evidenceReference = [], sb_idempotencyKey = ''12345678''\<rparr>"

definition sample_decide :: decide_input where
  "sample_decide = \<lparr>di_actorUserId = ''u3'', di_adjustmentId = ''q1'', di_decision = Approve, di_note = ''fine'',
     di_idempotencyKey = ''87654321''\<rparr>"

definition sample_adjusted :: credit_db where
  "sample_adjusted = run_op (sample_env\<lparr>env_entryId := ''e2''\<rparr>) (DecideOp (\<lambda>_. Inr ()) sample_decide)
     (run_op sample_env (SubmitOp (\<lambda>_. Inr ()) sample_submit)
       (run_op sample_env (GrantOp ''u1'' 1000 ''o1'' ''u2'') (empty_db [''u1'', ''u2'', ''u3''])))"

lemma sample_adjusted_entry:
  "map (\<lambda>e. (en_type e, en_availableDelta e)) (db_entries sample_adjusted) = [(Grant, 1000), (Adjust, - 5)]"
  by code_simp

theorem adjustment_needs_two_witness:
  "\<exists>e \<in> set (db_entries sample_adjusted). \<exists>r \<in> set (db_requests sample_adjusted).
     en_availableDelta e = - 5 \<and> backed_by sample_adjusted e r"
proof -
  have "later (empty_db [''u1'', ''u2'', ''u3'']) sample_adjusted" unfolding sample_adjusted_def by (intro later.intros)
  note t = adjustment_needs_two [OF this]
  obtain x y where "db_entries sample_adjusted = [x, y]" "en_type y = Adjust" "en_availableDelta y = - 5"
    using sample_adjusted_entry by (auto simp: map_eq_Cons_conv)
  with t [of y] show ?thesis by auto
qed

end
