(* ===== verification/Inference.thy ===== *)
theory Inference
  imports CreditLife
begin

text \<open>
  A customer's AI request from its claim to its end (\<open>lib/client-ai-inference-service.ts\<close>), on the
  request table of migration 0038 and the credit tables: a request reserves credits before the
  model is called, settles the metered cost when its result is stored, and releases the
  reservation when it fails, is cancelled or is left behind. Each exported function is one
  transaction, except the cleaning of expired requests, which is one per request. What
  \<open>persistResult\<close> and the metering function of the database do is an argument; the organisation
  noted with a request and the times of its row are left out.
\<close>

subsection \<open>The request table\<close>

datatype inference_status = Processing | Succeeded | Failed

record inference_row =
  if_id :: string
  if_user :: string
  if_operation :: string
  if_key :: string
  if_payload :: string
  if_revision :: string
  if_status :: inference_status
  if_reservation :: "string option"
  if_result :: "json option"
  if_error :: "(string \<times> string \<times> int) option"
  if_provider :: "string option"
  if_usage :: "string option"
  if_input :: "jsnum option"
  if_output :: "jsnum option"

record inference_db =
  ib_credit :: credit_db
  ib_rows :: "inference_row list"

definition text_between :: "string option \<Rightarrow> nat \<Rightarrow> nat \<Rightarrow> bool" where
  "text_between s a b \<longleftrightarrow> (case s of None \<Rightarrow> True | Some t \<Rightarrow> a \<le> length t \<and> length t \<le> b)"

text \<open>An \<open>integer\<close> column with a lower bound.\<close>

definition int4_from :: "jsnum \<Rightarrow> jsnum option \<Rightarrow> bool" where
  "int4_from lo v \<longleftrightarrow> (case v of None \<Rightarrow> True | Some x \<Rightarrow> is_integer x \<and> lo \<le> x \<and> x \<le> N 2147483647)"

definition inference_checks :: "inference_row \<Rightarrow> bool" where
  "inference_checks r \<longleftrightarrow> if_operation r \<in> {''assistant_message'', ''strategy_generation''}
     \<and> 8 \<le> length (if_key r) \<and> length (if_key r) \<le> 128
     \<and> (case if_error r of None \<Rightarrow> True | Some (_, _, s) \<Rightarrow> 400 \<le> s \<and> s \<le> 599)
     \<and> text_between (if_provider r) 1 200 \<and> text_between (if_usage r) 1 200
     \<and> int4_from (N 0) (if_input r) \<and> int4_from (N 1) (if_output r)
     \<and> (case if_status r of
          Processing \<Rightarrow> if_result r = None \<and> if_error r = None
        | Succeeded \<Rightarrow> if_result r \<noteq> None \<and> if_error r = None \<and> if_provider r \<noteq> None \<and> if_provider r = if_usage r
            \<and> if_input r \<noteq> None \<and> if_output r \<noteq> None
        | Failed \<Rightarrow> if_result r = None \<and> if_error r \<noteq> None)"

text \<open>The unique index on the provider's request.\<close>

definition provider_clash :: "inference_row \<Rightarrow> inference_row \<Rightarrow> bool" where
  "provider_clash x r \<longleftrightarrow> if_provider r \<noteq> None \<and> if_provider x = if_provider r \<and> if_revision x = if_revision r"

text \<open>\<open>UPDATE ... WHERE id = i AND status = 'processing'\<close>; the second value is the number of rows.\<close>

definition update_processing ::
    "string \<Rightarrow> (inference_row \<Rightarrow> inference_row) \<Rightarrow> inference_db \<Rightarrow> (string, inference_db \<times> nat) result" where
  "update_processing i f db = (let hit = (\<lambda>r. if_id r = i \<and> if_status r = Processing) in
     if list_all (\<lambda>r. hit r \<longrightarrow> inference_checks (f r)
          \<and> list_all (\<lambda>x. if_id x \<noteq> i \<longrightarrow> \<not> provider_clash x (f r)) (ib_rows db)) (ib_rows db)
     then Inr (db\<lparr>ib_rows := map (\<lambda>r. if hit r then f r else r) (ib_rows db)\<rparr>, length (filter hit (ib_rows db)))
     else Inl ''CONSTRAINT'')"

definition failed_row :: "string \<times> string \<times> int \<Rightarrow> inference_row \<Rightarrow> inference_row" where
  "failed_row e r = r\<lparr>if_status := Failed, if_error := Some e\<rparr>"

definition row_with :: "inference_db \<Rightarrow> string \<Rightarrow> inference_row option" where
  "row_with db i = find (\<lambda>r. if_id r = i) (ib_rows db)"

text \<open>A row joined with its reservation.\<close>

definition row_join :: "inference_db \<Rightarrow> string \<Rightarrow> (inference_row \<times> credit_reservation) option" where
  "row_join db i = (case row_with db i of None \<Rightarrow> None
     | Some r \<Rightarrow> (case if_reservation r of None \<Rightarrow> None
         | Some rid \<Rightarrow> map_option (Pair r) (reservation_with (ib_credit db) rid)))"

text \<open>A credit operation inside the transaction.\<close>

definition with_credit ::
    "(credit_db \<Rightarrow> (string, 'a \<times> credit_db) result) \<Rightarrow> inference_db \<Rightarrow> (string, 'a \<times> inference_db) result" where
  "with_credit f db = ebind (f (ib_credit db)) (\<lambda>(x, c). Inr (x, db\<lparr>ib_credit := c\<rparr>))"

definition inTransaction ::
    "(inference_db \<Rightarrow> (string, 'a \<times> inference_db) result) \<Rightarrow> inference_db \<Rightarrow> (string, 'a) result \<times> inference_db" where
  "inTransaction f db = (case f db of Inl e \<Rightarrow> (Inl e, db) | Inr (x, db') \<Rightarrow> (Inr x, db'))"

subsection \<open>The price reserved, the key, the replay\<close>

definition MAXIMUM_INPUT_TOKENS :: jsnum where
  "MAXIMUM_INPUT_TOKENS = N 128000"

definition estimatedClientAiCredits :: "jsnum \<Rightarrow> (string, int) result" where
  "estimatedClientAiCredits maxOutputTokens =
     (if \<not> is_safe_integer maxOutputTokens \<or> maxOutputTokens < N 1 \<or> N 8000 < maxOutputTokens
      then Inl ''AI_RATE_NOT_RELIABLE''
      else calculateTokenCost \<lparr>tu_modelVersion = ''token-cost-v1'', tu_usageReliable = True, tu_rateReliable = True,
             tu_inputTokens = MAXIMUM_INPUT_TOKENS, tu_outputTokens = maxOutputTokens\<rparr>)"

definition key_char :: "char \<Rightarrow> bool" where
  "key_char c \<longleftrightarrow> is_upper c \<or> is_lower c \<or> is_digit c \<or> c \<in> set ''._:-''"

definition validateIdempotencyKey :: "string \<Rightarrow> (string, unit) result" where
  "validateIdempotencyKey s = (if list_all key_char s \<and> 8 \<le> length s \<and> length s \<le> 128
     then Inr () else Inl ''IDEMPOTENCY_KEY_REQUIRED'')"

text \<open>The answer of a row that is there: its result, or an error by its code.\<close>

definition replay :: "inference_row \<Rightarrow> (string, json option) result" where
  "replay r = (case if_status r of
     Succeeded \<Rightarrow> Inr (if_result r)
   | Failed \<Rightarrow> Inl (case if_error r of None \<Rightarrow> ''AI_REQUEST_FAILED''
       | Some (code, _, _) \<Rightarrow> if code = [] then ''AI_REQUEST_FAILED'' else code)
   | Processing \<Rightarrow> Inl ''AI_REQUEST_IN_PROGRESS'')"

subsection \<open>Claiming a request\<close>

record begin_input =
  bi_userId :: string
  bi_operation :: string
  bi_idempotencyKey :: string
  bi_payload :: json
  bi_modelRevisionId :: string
  bi_estimatedCredits :: int

datatype begin_result = Started string string | AlreadyDone "json option"

text \<open>The environment of a claim: that of the credit tables, the new row's id, the model revisions that exist.\<close>

record inference_env = credit_env +
  env_requestRow :: string
  env_revisions :: "string list"

definition new_request :: "inference_env \<Rightarrow> begin_input \<Rightarrow> string \<Rightarrow> inference_row" where
  "new_request env i hash = \<lparr>if_id = env_requestRow env, if_user = bi_userId i, if_operation = bi_operation i,
     if_key = bi_idempotencyKey i, if_payload = hash, if_revision = bi_modelRevisionId i, if_status = Processing,
     if_reservation = None, if_result = None, if_error = None, if_provider = None, if_usage = None,
     if_input = None, if_output = None\<rparr>"

definition request_reservation :: "inference_env \<Rightarrow> begin_input \<Rightarrow> string \<Rightarrow> reserve_input" where
  "request_reservation env i expires = \<lparr>ri_userId = bi_userId i, ri_credits = bi_estimatedCredits i,
     ri_sourceType = ''client_ai_inference'', ri_sourceId = env_requestRow env,
     ri_idempotencyKey = ''client-ai:'' @ env_requestRow env @ '':reserve'', ri_expiresAt = expires,
     ri_actorUserId = None\<rparr>"

definition claim_request ::
    "inference_env \<Rightarrow> begin_input \<Rightarrow> string \<Rightarrow> inference_db \<Rightarrow> (string, begin_result \<times> inference_db) result" where
  "claim_request env i hash db =
     (let row = new_request env i hash in
      if \<not> inference_checks row then Inl ''CONSTRAINT''
      else (case find (\<lambda>r. if_user r = bi_userId i \<and> if_operation r = bi_operation i \<and> if_key r = bi_idempotencyKey i)
                (ib_rows db) of
          Some r \<Rightarrow> if if_payload r \<noteq> hash then Inl ''IDEMPOTENCY_KEY_COLLISION''
                    else ebind (replay r) (\<lambda>x. Inr (AlreadyDone x, db))
        | None \<Rightarrow>
            if row_with db (env_requestRow env) \<noteq> None \<or> bi_userId i \<notin> set (db_users (ib_credit db))
              \<or> bi_modelRevisionId i \<notin> set (env_revisions env) then Inl ''CONSTRAINT''
            else ebind (iso_or_throw (to_date (N (of_int (env_now env + 600000))))) (\<lambda>expires.
              ebind (with_credit (reserveAiCredits (credit_env.truncate env) (request_reservation env i expires))
                       (db\<lparr>ib_rows := ib_rows db @ [row]\<rparr>)) (\<lambda>((rid, _), db1).
                Inr (Started (env_requestRow env) rid, db1\<lparr>ib_rows := map (\<lambda>r. if if_id r = env_requestRow env
                  then r\<lparr>if_reservation := Some rid\<rparr> else r) (ib_rows db1)\<rparr>)))))"

definition beginClientAiInference ::
    "inference_env \<Rightarrow> begin_input \<Rightarrow> inference_db \<Rightarrow> (string, begin_result) result \<times> inference_db" where
  "beginClientAiInference env i db =
     (case ebind (validateIdempotencyKey (bi_idempotencyKey i)) (\<lambda>_.
        if js_trim (bi_modelRevisionId i) = [] \<or> 160 < length (bi_modelRevisionId i) then Inl ''PLATFORM_MODEL_NOT_CONFIGURED''
        else if bi_estimatedCredits i \<le> 0 then Inl ''AI_RATE_NOT_RELIABLE''
        else canonicalPayloadHash (env_hash env) (bi_payload i)) of
       Inl e \<Rightarrow> (Inl e, db)
     | Inr hash \<Rightarrow> (case inTransaction (claim_request env i hash) db of
         (Inl e, db') \<Rightarrow> (Inl (if e = ''AI_CREDIT_INSUFFICIENT'' then ''AI_CREDITS_INSUFFICIENT'' else e), db')
       | r \<Rightarrow> r))"

subsection \<open>Ending a request\<close>

record request_input =
  qi_requestId :: string
  qi_reservationId :: string
  qi_idempotencyKey :: string

definition own_row :: "request_input \<Rightarrow> inference_db \<Rightarrow> (string, inference_row) result" where
  "own_row i db = (case row_with db (qi_requestId i) of
     None \<Rightarrow> Inl ''AI_REQUEST_NOT_FOUND''
   | Some r \<Rightarrow> if if_reservation r \<noteq> Some (qi_reservationId i) \<or> if_key r \<noteq> qi_idempotencyKey i
       then Inl ''AI_REQUEST_NOT_FOUND'' else Inr r)"

definition request_settlement :: "request_input \<Rightarrow> trusted_usage \<Rightarrow> settlement_input" where
  "request_settlement i u = \<lparr>si_reservationId = qi_reservationId i,
     si_idempotencyKey = ''client-ai:'' @ qi_requestId i @ '':settle'', si_actorUserId = None,
     si_costModelVersion = ''token-cost-v1'', si_trustedUsage = u\<rparr>"

definition succeeded_row :: "json \<Rightarrow> trusted_usage \<Rightarrow> inference_row \<Rightarrow> inference_row" where
  "succeeded_row v u r = r\<lparr>if_status := Succeeded, if_result := Some (stored_json v),
     if_provider := us_providerRequestId u, if_usage := Some (us_usageId u),
     if_input := Some (us_inputTokens u), if_output := Some (us_outputTokens u)\<rparr>"

text \<open>\<open>persisted\<close> is what the metering and the persisting of the result give.\<close>

definition complete_request ::
    "credit_env \<Rightarrow> request_input \<Rightarrow> trusted_usage \<Rightarrow> (string, json) result \<Rightarrow> inference_db
     \<Rightarrow> (string, json option \<times> inference_db) result" where
  "complete_request env i u persisted db = ebind (own_row i db) (\<lambda>r.
     if if_status r \<noteq> Processing then ebind (replay r) (\<lambda>x. Inr (x, db))
     else ebind (with_credit (settleAiCreditReservation env (request_settlement i u)) db) (\<lambda>(_, db1).
       ebind persisted (\<lambda>v. if v = JUndef then Inl ''AI_RESULT_INVALID''
         else ebind (update_processing (qi_requestId i) (succeeded_row v u) db1) (\<lambda>(db2, n).
           if n \<noteq> 1 then Inl ''AI_REQUEST_STATE_CONFLICT'' else Inr (Some v, db2)))))"

definition completeClientAiInference ::
    "credit_env \<Rightarrow> request_input \<Rightarrow> trusted_usage \<Rightarrow> (string, json) result \<Rightarrow> inference_db
     \<Rightarrow> (string, json option) result \<times> inference_db" where
  "completeClientAiInference env i u persisted db =
     (case us_providerRequestId u of
        None \<Rightarrow> (Inl ''TypeError'', db)
      | Some p \<Rightarrow> if js_trim p = [] \<or> js_trim (us_usageId u) = [] \<or> p \<noteq> us_usageId u then (Inl ''AI_USAGE_NOT_RELIABLE'', db)
                  else inTransaction (complete_request env i u persisted) db)"

definition request_release :: "string \<Rightarrow> string \<Rightarrow> string \<Rightarrow> release_input" where
  "request_release i rid suffix = \<lparr>li_reservationId = rid, li_idempotencyKey = ''client-ai:'' @ i @ suffix,
     li_actorUserId = None\<rparr>"

text \<open>The result is whether the failure is new; \<open>Inr (Some v)\<close> replays a success.\<close>

definition fail_request ::
    "credit_env \<Rightarrow> request_input \<Rightarrow> string \<times> string \<times> int \<Rightarrow> inference_db
     \<Rightarrow> (string, (bool + json option) \<times> inference_db) result" where
  "fail_request env i e db = ebind (own_row i db) (\<lambda>r. case if_status r of
     Succeeded \<Rightarrow> ebind (replay r) (\<lambda>x. Inr (Inr x, db))
   | Failed \<Rightarrow> if if_error r \<noteq> Some e then Inl ''IDEMPOTENCY_KEY_COLLISION'' else Inr (Inl False, db)
   | Processing \<Rightarrow> ebind (with_credit (releaseAiCreditReservation env
         (request_release (qi_requestId i) (qi_reservationId i) '':release'')) db) (\<lambda>(_, db1).
       ebind (update_processing (qi_requestId i) (failed_row e) db1) (\<lambda>(db2, _). Inr (Inl True, db2))))"

definition failClientAiInference ::
    "credit_env \<Rightarrow> request_input \<Rightarrow> string \<times> string \<times> jsnum \<Rightarrow> inference_db
     \<Rightarrow> (string, bool + json option) result \<times> inference_db" where
  "failClientAiInference env i err db = (case err of (code, message, status) \<Rightarrow>
     let c = take 120 (js_trim code); m = take 500 (js_trim message) in
     if c = [] \<or> m = [] \<or> \<not> is_integer status \<or> status < N 400 \<or> N 599 < status
     then (Inl ''AI_FAILURE_STATE_INVALID'', db)
     else inTransaction (fail_request env i (c, m, big_int status)) db)"

subsection \<open>Requests left behind\<close>

datatype stale_outcome = Unchanged | StaleReleased | RequiresReview

definition review_error :: "string \<times> string \<times> int" where
  "review_error = (''AI_RECONCILIATION_REQUIRED'', ''settled_without_result'', 409)"

definition stale_error :: "string \<times> string \<times> int" where
  "stale_error = (''AI_REQUEST_STALE_RELEASED'', ''stale_released'', 409)"

definition cancelled_error :: "string \<times> string \<times> int" where
  "cancelled_error = (''AI_REQUEST_CANCELLED'', ''cancelled'', 409)"

definition reconcile_stale ::
    "credit_env \<Rightarrow> string \<Rightarrow> int \<Rightarrow> inference_db \<Rightarrow> (string, (stale_outcome \<times> inference_row option) \<times> inference_db) result" where
  "reconcile_stale env i now db = (case row_join db i of
     None \<Rightarrow> Inr ((Unchanged, None), db)
   | Some (r, q) \<Rightarrow>
       if if_status r \<noteq> Processing \<or> rs_expiresAt q > now then Inr ((Unchanged, Some r), db)
       else ebind (if rs_status q = Reserved
           then ebind (with_credit (releaseAiCreditReservation env (request_release i (rs_id q) '':stale-release'')) db)
             (\<lambda>(_, db1). Inr db1)
           else Inr db) (\<lambda>db1.
         let settled = (rs_status q = Settled); e = (if settled then review_error else stale_error) in
         ebind (update_processing i (failed_row e) db1) (\<lambda>(db2, n).
           if n = 0 then Inl ''AI_REQUEST_STATE_CONFLICT''
           else Inr ((if settled then RequiresReview else StaleReleased, row_with db2 i), db2))))"

definition reconcileStaleClientAiInference ::
    "credit_env \<Rightarrow> string \<Rightarrow> int \<Rightarrow> inference_db \<Rightarrow> (string, stale_outcome \<times> inference_row option) result \<times> inference_db" where
  "reconcileStaleClientAiInference env i now db = inTransaction (reconcile_stale env i now) db"

text \<open>The expired requests of a customer, the earliest first; \<open>le\<close> is the order of texts in the database.\<close>

definition expired_requests :: "(string \<Rightarrow> string \<Rightarrow> bool) \<Rightarrow> string \<Rightarrow> int \<Rightarrow> nat \<Rightarrow> inference_db \<Rightarrow> string list" where
  "expired_requests le user now limit db =
     (let joined = List.map_filter (\<lambda>r. if if_user r = user \<and> if_status r = Processing then row_join db (if_id r) else None)
                     (ib_rows db);
          due = filter (\<lambda>(r, q). rs_expiresAt q \<le> now) joined
      in take limit (map (\<lambda>(r, _). if_id r)
           (sort_by (\<lambda>(a, p) (b, q). rs_expiresAt p < rs_expiresAt q \<or> rs_expiresAt p = rs_expiresAt q \<and> le (if_id a) (if_id b)) due)))"

text \<open>One transaction per candidate; an error ends the loop, with what was committed before it. Each
candidate has its own environment.\<close>

fun reconcile_each ::
    "(credit_env \<times> string) list \<Rightarrow> int \<Rightarrow> nat \<times> nat \<Rightarrow> inference_db \<Rightarrow> (string, nat \<times> nat) result \<times> inference_db" where
  "reconcile_each [] now n db = (Inr n, db)"
| "reconcile_each ((env, i) # rest) now (released, review) db =
     (case reconcileStaleClientAiInference env i now db of
        (Inl e, db') \<Rightarrow> (Inl e, db')
      | (Inr (o', _), db') \<Rightarrow> reconcile_each rest now
          (if o' = StaleReleased then released + 1 else released, if o' = RequiresReview then review + 1 else review) db')"

text \<open>The result is (reconciled, released, requires review).\<close>

definition reconcileExpiredClientAiInferences ::
    "(nat \<Rightarrow> credit_env) \<Rightarrow> (string \<Rightarrow> string \<Rightarrow> bool) \<Rightarrow> string \<Rightarrow> int option \<Rightarrow> jsnum option \<Rightarrow> inference_db
     \<Rightarrow> (string, nat \<times> nat \<times> nat) result \<times> inference_db" where
  "reconcileExpiredClientAiInferences envs le user now limit db = (case now of
     None \<Rightarrow> (Inl ''AI_RECONCILIATION_TIME_INVALID'', db)
   | Some t \<Rightarrow> (let l = (case limit of None \<Rightarrow> N 10 | Some x \<Rightarrow> x) in
       if \<not> is_safe_integer l \<or> l < N 1 \<or> N 100 < l then (Inl ''AI_RECONCILIATION_LIMIT_INVALID'', db)
       else (let ids = expired_requests le user t (nat (big_int l)) db in
         case reconcile_each (zip (map envs [0..<length ids]) ids) t (0, 0) db of
           (Inl e, db') \<Rightarrow> (Inl e, db')
         | (Inr (released, review), db') \<Rightarrow> (Inr (released + review, released, review), db'))))"

text \<open>\<open>null\<close> is \<open>Inr None\<close>; the two readings of the clock are those of the test and of the cleaning.\<close>

definition readClientAiInferenceReplay ::
    "credit_env \<Rightarrow> int \<Rightarrow> int \<Rightarrow> string \<Rightarrow> string \<Rightarrow> string \<Rightarrow> json \<Rightarrow> inference_db
     \<Rightarrow> (string, json option option) result \<times> inference_db" where
  "readClientAiInferenceReplay env clock1 clock2 user operation key payload db =
     (case validateIdempotencyKey key of Inl e \<Rightarrow> (Inl e, db) | Inr _ \<Rightarrow>
      (case find (\<lambda>r. if_user r = user \<and> if_operation r = operation \<and> if_key r = key) (ib_rows db) of
        None \<Rightarrow> (Inr None, db)
      | Some r \<Rightarrow> (case canonicalPayloadHash (env_hash env) payload of
          Inl e \<Rightarrow> (Inl e, db)
        | Inr hash \<Rightarrow>
          if if_payload r \<noteq> hash then (Inl ''IDEMPOTENCY_KEY_COLLISION'', db)
          else if if_status r = Processing \<and> (case row_join db (if_id r) of None \<Rightarrow> False | Some (_, q) \<Rightarrow> rs_expiresAt q \<le> clock1)
          then (case reconcileStaleClientAiInference env (if_id r) clock2 db of
              (Inl e, db') \<Rightarrow> (Inl e, db')
            | (Inr (_, r'), db') \<Rightarrow> (ebind (replay (case r' of None \<Rightarrow> r | Some x \<Rightarrow> x)) (\<lambda>x. Inr (Some x)), db'))
          else (ebind (replay r) (\<lambda>x. Inr (Some x)), db))))"

subsection \<open>Cancelling\<close>

datatype cancellation = Cancelled bool | CancelTooLate | CancelAfterFailure | CancelReview

definition hex_lower :: "char \<Rightarrow> bool" where
  "hex_lower c \<longleftrightarrow> is_digit c \<or> (97 \<le> ccode (char_lower c) \<and> ccode (char_lower c) \<le> 102)"

definition is_uuid :: "string \<Rightarrow> bool" where
  "is_uuid s \<longleftrightarrow> length s = 36 \<and> (\<forall>k \<in> set [0..<36].
     if k \<in> set [8, 13, 18, 23] then s ! k = CHR ''-''
     else if k = 14 then s ! k \<in> set ''12345678''
     else if k = 19 then char_lower (s ! k) \<in> set ''89ab''
     else hex_lower (s ! k))"

definition cancel_request ::
    "credit_env \<Rightarrow> string \<Rightarrow> string \<Rightarrow> inference_db \<Rightarrow> (string, cancellation \<times> inference_db) result" where
  "cancel_request env user i db = (case row_join db i of
     None \<Rightarrow> Inl ''AI_REQUEST_NOT_FOUND''
   | Some (r, q) \<Rightarrow>
       if if_user r \<noteq> user then Inl ''AI_REQUEST_NOT_FOUND''
       else (case if_status r of
         Succeeded \<Rightarrow> Inr (CancelTooLate, db)
       | Failed \<Rightarrow> (let code = map_option fst (if_error r) in
           if code = Some ''AI_RECONCILIATION_REQUIRED'' \<or> rs_status q \<noteq> Released then Inr (CancelReview, db)
           else if code = Some ''AI_REQUEST_CANCELLED'' then Inr (Cancelled False, db)
           else Inr (CancelAfterFailure, db))
       | Processing \<Rightarrow>
           if rs_status q = Settled
           then ebind (update_processing i (failed_row review_error) db) (\<lambda>(db1, _). Inr (CancelReview, db1))
           else ebind (if rs_status q = Reserved
               then ebind (with_credit (releaseAiCreditReservation env (request_release i (rs_id q) '':cancel-release'')) db)
                 (\<lambda>(_, db1). Inr db1)
               else Inr db) (\<lambda>db1.
             ebind (update_processing i (failed_row cancelled_error) db1) (\<lambda>(db2, n).
               if n \<noteq> 1 then Inl ''AI_REQUEST_STATE_CONFLICT'' else Inr (Cancelled True, db2)))))"

definition cancelClientAiInference ::
    "credit_env \<Rightarrow> string \<Rightarrow> string \<Rightarrow> inference_db \<Rightarrow> (string, cancellation) result \<times> inference_db" where
  "cancelClientAiInference env user i db =
     (if \<not> is_uuid (js_trim i) then (Inl ''AI_REQUEST_NOT_FOUND'', db)
      else (case inTransaction (cancel_request env user (js_trim i)) db of
          (Inr CancelReview, db') \<Rightarrow> (Inl ''AI_RECONCILIATION_REQUIRED'', db')
        | x \<Rightarrow> x))"

subsection \<open>What the credit operations do to reservations\<close>

lemma ensure_reservations: "ensure_account env u db = Inr db1 \<Longrightarrow> db_reservations db1 = db_reservations db"
  by (auto simp: ensure_account_def insert_account_def Let_def split: if_splits)

lemma update_reservations: "update_account env i x y db = Inr db1 \<Longrightarrow> db_reservations db1 = db_reservations db"
  by (auto simp: update_account_def Let_def split: if_splits)

lemma insert_entry_reservations: "insert_entry e db = Inr db1 \<Longrightarrow> db_reservations db1 = db_reservations db"
  by (auto simp: insert_entry_def split: if_splits)

lemma mutate_reservations:
  assumes m: "mutateAiCredits env i db = Inr (res, db')"
  shows "db_reservations db' = db_reservations db"
proof (cases "entry_with_key db (ci_idempotencyKey i)")
  case (Some p)
  with m show ?thesis by (cases p) (auto simp: mutateAiCredits_def split: if_splits)
next
  case None
  with m obtain db1 where 1: "ensure_account env (ci_userId i) db = Inr db1"
    by (auto simp: mutateAiCredits_def ebind_Inr_iff split: if_splits)
  obtain a where 2: "account_of db1 (ci_userId i) = Some a"
    using m None 1 by (cases "account_of db1 (ci_userId i)") (auto simp: mutateAiCredits_def split: if_splits)
  obtain b where "applyCreditDelta \<lparr>available = ac_available a, reserved = ac_reserved a\<rparr> i = Some b"
    using m None 1 2 by (cases "applyCreditDelta \<lparr>available = ac_available a, reserved = ac_reserved a\<rparr> i")
      (auto simp: mutateAiCredits_def split: if_splits)
  with m None 1 2 show ?thesis
    by (auto simp: mutateAiCredits_def ebind_Inr_iff split: if_splits
        dest!: ensure_reservations update_reservations insert_entry_reservations)
qed

lemma join_unique:
  assumes "books_ok db" "q \<in> set (db_reservations db)" "reservation_join db (rs_id q) = Some (r, a)"
  shows "r = q"
  using reservation_join_in [OF assms(3)] assms(2) books_okD(2) [OF assms(1)] by (auto simp: distinct_map inj_on_def)

lemma settle_effect:
  assumes s: "settleAiCreditReservation env i db = Inr ((new, c), db')" and ok: "books_ok db"
    and q: "q \<in> set (db_reservations db)" "rs_id q = si_reservationId i" "rs_status q = Reserved"
  shows "usage_cost i = Inr c \<and> db_reservations db' = map (closed_row (rs_id q) Settled (Some c)) (db_reservations db)"
  using s
proof (cases rule: settle_cases)
  case (replay r a e)
  with join_unique [OF ok q(1)] q(2,3) show ?thesis by auto
next
  case (created r a res db1)
  then show ?thesis using mutate_reservations [OF created(6)] q(2) by (simp add: close_reservation_map)
qed

lemma release_effect:
  assumes s: "releaseAiCreditReservation env i db = Inr (new, db')" and ok: "books_ok db"
    and q: "q \<in> set (db_reservations db)" "rs_id q = li_reservationId i" "rs_status q = Reserved"
  shows "db_reservations db' = map (closed_row (rs_id q) Released None) (db_reservations db)"
proof -
  obtain a where j: "reservation_join db (li_reservationId i) = Some (q, a)"
    using s join_unique [OF ok q(1)] q(2) by (cases "reservation_join db (li_reservationId i)")
      (auto simp: releaseAiCreditReservation_def)
  have "resolveReservationTransition (rs_status q) ToReleased = Proceed" using q(3) by (simp add: transition_cases)
  with s j obtain res db1 where
      "mutateAiCredits env (release_mutation i (ac_user a) (planReservationRelease (rs_estimated q))) db = Inr (res, db1)"
      "db' = close_reservation (li_reservationId i) Released None db1"
    by (auto simp: releaseAiCreditReservation_def ebind_Inr_iff)
  then show ?thesis using mutate_reservations q(2) by (simp add: close_reservation_map)
qed

lemma reserve_effect:
  assumes r: "reserveAiCredits env i db = Inr ((rid, new), db')"
    and k: "ri_idempotencyKey i \<notin> set (map rs_key (db_reservations db))"
  obtains q where "db_reservations db' = db_reservations db @ [q]" "rs_id q = rid" "rs_status q = Reserved"
    "rs_key q = ri_idempotencyKey i" "rid \<notin> set (map rs_id (db_reservations db))"
proof -
  have "find (\<lambda>q. rs_key q = ri_idempotencyKey i) (db_reservations db) = None"
    using k by (force simp: find_None_iff)
  then have "reservation_with_key db (ri_idempotencyKey i) = None" by (simp add: reservation_with_key_def)
  with r have new: "new"
    by (auto simp: reserveAiCredits_def ebind_Inr_iff split: if_splits option.splits)
  from r show ?thesis
  proof (cases rule: reserve_cases)
    case replay
    with new show ?thesis by simp
  next
    case (created db1 a t res)
    note n = insert_reservation_Inr [OF created(3)]
    show ?thesis using mutate_reservations [OF created(4)] ensure_reservations [OF created(1)] created(6) n
      by (intro that) auto
  qed
qed

lemma book_reservations: "book_adjustment env i r db = Inr (acc, bal, db') \<Longrightarrow> db_reservations db' = db_reservations db"
  by (auto simp: book_adjustment_def insert_account_def insert_entry_def update_account_def Let_def ebind_Inr_iff
      split: option.splits if_splits)

subsection \<open>The invariant of the request table\<close>

definition reserve_key :: "string \<Rightarrow> string" where
  "reserve_key i = ''client-ai:'' @ i @ '':reserve''"

text \<open>The price of the tokens that a row notes.\<close>

definition row_cost :: "inference_row \<Rightarrow> (string, int) result" where
  "row_cost r = calculateTokenCost \<lparr>tu_modelVersion = ''token-cost-v1'', tu_usageReliable = True, tu_rateReliable = True,
     tu_inputTokens = (case if_input r of None \<Rightarrow> NaN | Some x \<Rightarrow> x),
     tu_outputTokens = (case if_output r of None \<Rightarrow> NaN | Some x \<Rightarrow> x)\<rparr>"

definition matched :: "inference_row \<Rightarrow> credit_reservation \<Rightarrow> bool" where
  "matched r q \<longleftrightarrow> if_reservation r = Some (rs_id q) \<and> rs_key q = reserve_key (if_id r)
     \<and> (case if_status r of Processing \<Rightarrow> rs_status q = Reserved
        | Succeeded \<Rightarrow> rs_status q = Settled \<and> (\<exists>c. rs_settled q = Some c \<and> row_cost r = Inr c)
        | Failed \<Rightarrow> rs_status q = Released)"

definition row_index :: "inference_row \<Rightarrow> string \<times> string \<times> string" where
  "row_index r = (if_user r, if_operation r, if_key r)"

definition requests_ok :: "inference_db \<Rightarrow> bool" where
  "requests_ok db \<longleftrightarrow> books_ok (ib_credit db) \<and> distinct (map if_id (ib_rows db)) \<and> distinct (map row_index (ib_rows db))
     \<and> (\<forall>r \<in> set (ib_rows db). \<exists>q \<in> set (db_reservations (ib_credit db)). matched r q)
     \<and> (\<forall>q \<in> set (db_reservations (ib_credit db)). \<exists>r \<in> set (ib_rows db). rs_key q = reserve_key (if_id r))"

lemma reserve_key_inj [simp]: "reserve_key i = reserve_key j \<longleftrightarrow> i = j"
  by (simp add: reserve_key_def)

lemma row_with_in: "row_with db i = Some r \<Longrightarrow> r \<in> set (ib_rows db) \<and> if_id r = i"
  unfolding row_with_def by (auto dest: find_Some_set)

text \<open>A step that ends one request and closes its reservation the way the row says.\<close>

definition end_row :: "string \<Rightarrow> (inference_row \<Rightarrow> inference_row) \<Rightarrow> inference_row \<Rightarrow> inference_row" where
  "end_row i f x = (if if_id x = i \<and> if_status x = Processing then f x else x)"

lemma update_processing_Inr:
  "update_processing i f db = Inr (db', n) \<Longrightarrow> db' = db\<lparr>ib_rows := map (end_row i f) (ib_rows db)\<rparr>"
  by (auto simp: update_processing_def end_row_def [abs_def] Let_def split: if_splits)

lemma ending_ok:
  assumes ok: "requests_ok db" and r: "r \<in> set (ib_rows db)" "if_status r = Processing"
    and q: "q \<in> set (db_reservations (ib_credit db))" "matched r q"
    and c: "books_ok c" "db_reservations c = map (closed_row (rs_id q) s v) (db_reservations (ib_credit db))"
    and f: "\<And>x. if_id (f x) = if_id x \<and> row_index (f x) = row_index x"
    and m: "matched (f r) (closed_row (rs_id q) s v q)"
  shows "requests_ok (db\<lparr>ib_credit := c, ib_rows := map (end_row (if_id r) f) (ib_rows db)\<rparr>)"
proof -
  let ?rows = "map (end_row (if_id r) f) (ib_rows db)"
  have ids: "if_id (end_row (if_id r) f x) = if_id x" "row_index (end_row (if_id r) f x) = row_index x" for x
    using f by (simp_all add: end_row_def)
  have "\<exists>p \<in> set (db_reservations c). matched (end_row (if_id r) f x) p" if x: "x \<in> set (ib_rows db)" for x
  proof (cases "if_id x = if_id r")
    case True
    then have "x = r" using x r(1) ok by (auto simp: requests_ok_def distinct_map inj_on_def)
    with r(2) q(1) m c(2) show ?thesis by (auto simp: end_row_def)
  next
    case False
    obtain p where p: "p \<in> set (db_reservations (ib_credit db))" "matched x p" using ok x by (auto simp: requests_ok_def)
    have "rs_key p \<noteq> rs_key q" using False p(2) q(2) by (simp add: matched_def)
    moreover have "inj_on rs_id (set (db_reservations (ib_credit db)))"
      using ok books_okD(2) by (auto simp: requests_ok_def distinct_map)
    ultimately have "rs_id p \<noteq> rs_id q" using p(1) q(1) by (auto dest: inj_onD)
    then have "closed_row (rs_id q) s v p = p" by (simp add: closed_row_def)
    then have "p \<in> set (db_reservations c)" using p(1) c(2) by force
    with p(2) False show ?thesis by (auto simp: end_row_def)
  qed
  moreover have "map if_id ?rows = map if_id (ib_rows db)" "map row_index ?rows = map row_index (ib_rows db)"
    using ids by simp_all
  moreover have "\<exists>x \<in> set ?rows. rs_key p = reserve_key (if_id x)" if "p \<in> set (db_reservations c)" for p
    using ok that ids by (auto simp: requests_ok_def c(2))
  ultimately show ?thesis using ok c(1) by (simp add: requests_ok_def comp_def ids)
qed

lemma processing_reservation:
  assumes ok: "requests_ok db" and r: "row_with db i = Some r" "if_status r = Processing" "if_reservation r = Some rid"
  obtains q where "q \<in> set (db_reservations (ib_credit db))" "matched r q" "rs_id q = rid" "rs_status q = Reserved"
proof -
  obtain q where "q \<in> set (db_reservations (ib_credit db))" "matched r q"
    using ok row_with_in [OF r(1)] by (auto simp: requests_ok_def)
  with r(2,3) show ?thesis by (intro that) (auto simp: matched_def)
qed

lemma with_credit_Inr:
  "with_credit f db = Inr (x, db') \<longleftrightarrow> (\<exists>c. f (ib_credit db) = Inr (x, c) \<and> db' = db\<lparr>ib_credit := c\<rparr>)"
  by (auto simp: with_credit_def ebind_Inr_iff)

lemma failed_row_keys [simp]:
  "if_id (failed_row e r) = if_id r" "row_index (failed_row e r) = row_index r"
  "if_reservation (failed_row e r) = if_reservation r" "if_status (failed_row e r) = Failed"
  by (simp_all add: failed_row_def row_index_def)

lemma succeeded_row_keys [simp]:
  "if_id (succeeded_row v u r) = if_id r" "row_index (succeeded_row v u r) = row_index r"
  "if_reservation (succeeded_row v u r) = if_reservation r" "if_status (succeeded_row v u r) = Succeeded"
  "if_result (succeeded_row v u r) = Some (stored_json v)"
  by (simp_all add: succeeded_row_def row_index_def)

text \<open>Releasing and failing: the common end of a failure, a cancellation and a cleaning.\<close>

lemma release_ends:
  assumes ok: "requests_ok db" and r: "row_with db i = Some r" "if_status r = Processing" "if_reservation r = Some rid"
    and c: "with_credit (releaseAiCreditReservation env (request_release i rid sfx)) db = Inr (x, db1)"
    and u: "update_processing i (failed_row e) db1 = Inr (db2, n)"
  shows "requests_ok db2"
proof -
  from ok r obtain q where q: "q \<in> set (db_reservations (ib_credit db))" "matched r q" "rs_id q = rid" "rs_status q = Reserved"
    by (rule processing_reservation)
  note i = row_with_in [OF r(1)]
  have b: "books_ok (ib_credit db)" using ok by (simp add: requests_ok_def)
  from c obtain d where d: "releaseAiCreditReservation env (request_release i rid sfx) (ib_credit db) = Inr (x, d)"
      "db1 = db\<lparr>ib_credit := d\<rparr>" by (auto simp: with_credit_Inr)
  have "requests_ok (db\<lparr>ib_credit := d, ib_rows := map (end_row (if_id r) (failed_row e)) (ib_rows db)\<rparr>)"
  proof (rule ending_ok [OF ok _ r(2) q(1,2)])
    show "r \<in> set (ib_rows db)" using i by simp
    show "books_ok d" using release_books [OF d(1) b] .
    show "db_reservations d = map (closed_row (rs_id q) Released None) (db_reservations (ib_credit db))"
      using release_effect [OF d(1) b q(1)] q(3,4) by (simp add: request_release_def)
    show "matched (failed_row e r) (closed_row (rs_id q) Released None q)"
      using q(2) by (simp add: matched_def) (simp add: closed_row_def)
  qed simp
  then show ?thesis using update_processing_Inr [OF u] i by (simp add: d(2))
qed

lemma own_row_Inr: "own_row i db = Inr r \<longleftrightarrow> row_with db (qi_requestId i) = Some r
    \<and> if_reservation r = Some (qi_reservationId i) \<and> if_key r = qi_idempotencyKey i"
  by (auto simp: own_row_def split: option.splits)

lemma complete_cases:
  assumes "complete_request env i u persisted db = Inr (x, db')"
  obtains (replay) r where "db' = db" "own_row i db = Inr r" "if_status r \<noteq> Processing" "replay r = Inr x"
    | (created) r new c d v n where "own_row i db = Inr r" "if_status r = Processing"
      "settleAiCreditReservation env (request_settlement i u) (ib_credit db) = Inr ((new, c), d)"
      "persisted = Inr v" "x = Some v" "update_processing (qi_requestId i) (succeeded_row v u) (db\<lparr>ib_credit := d\<rparr>) = Inr (db', n)"
proof -
  from assms obtain r where r: "own_row i db = Inr r" by (auto simp: complete_request_def ebind_Inr_iff)
  show ?thesis
  proof (cases "if_status r = Processing")
    case False
    with assms r show ?thesis by (intro replay) (auto simp: complete_request_def ebind_Inr_iff)
  next
    case True
    with assms r obtain y db1 v n where "with_credit (settleAiCreditReservation env (request_settlement i u)) db = Inr (y, db1)"
        "persisted = Inr v" "x = Some v" "update_processing (qi_requestId i) (succeeded_row v u) db1 = Inr (db', n)"
      by (auto simp: complete_request_def ebind_Inr_iff split: if_splits)
    then show ?thesis using r True by (cases y) (auto simp: with_credit_Inr intro!: created)
  qed
qed

lemma complete_ok:
  assumes s: "complete_request env i u persisted db = Inr (x, db')" and ok: "requests_ok db"
  shows "requests_ok db'"
  using s
proof (cases rule: complete_cases)
  case (created r new c d v n)
  note o = created(1) [unfolded own_row_Inr]
  note i = row_with_in [OF o [THEN conjunct1]]
  from ok o [THEN conjunct1] created(2) o [THEN conjunct2, THEN conjunct1]
  obtain q where q: "q \<in> set (db_reservations (ib_credit db))" "matched r q" "rs_id q = qi_reservationId i"
      "rs_status q = Reserved" by (rule processing_reservation)
  have b: "books_ok (ib_credit db)" using ok by (simp add: requests_ok_def)
  have e: "usage_cost (request_settlement i u) = Inr c"
      "db_reservations d = map (closed_row (rs_id q) Settled (Some c)) (db_reservations (ib_credit db))"
    using settle_effect [OF created(3) b q(1)] q(3,4) by (simp_all add: request_settlement_def)
  have cost: "row_cost (succeeded_row v u r) = Inr c"
    using e(1) by (simp add: usage_cost_def row_cost_def request_settlement_def succeeded_row_def)
  have "requests_ok (db\<lparr>ib_credit := d, ib_rows := map (end_row (if_id r) (succeeded_row v u)) (ib_rows db)\<rparr>)"
  proof (rule ending_ok [OF ok _ created(2) q(1,2) settle_books [OF created(3) b] e(2)])
    show "r \<in> set (ib_rows db)" using i by simp
    show "matched (succeeded_row v u r) (closed_row (rs_id q) Settled (Some c) q)"
      using q(2) cost by (simp add: matched_def) (simp add: closed_row_def)
  qed simp
  then show ?thesis using update_processing_Inr [OF created(6)] i by simp
qed (use ok in simp)

lemma fail_ok:
  assumes s: "fail_request env i e db = Inr (x, db')" and ok: "requests_ok db"
  shows "requests_ok db'"
proof -
  from s obtain r where r: "own_row i db = Inr r" by (auto simp: fail_request_def ebind_Inr_iff)
  note o = r [unfolded own_row_Inr]
  show ?thesis
  proof (cases "if_status r")
    case Processing
    with s r obtain y db1 n where "with_credit (releaseAiCreditReservation env
        (request_release (qi_requestId i) (qi_reservationId i) '':release'')) db = Inr (y, db1)"
        "update_processing (qi_requestId i) (failed_row e) db1 = Inr (db', n)"
      by (auto simp: fail_request_def ebind_Inr_iff)
    with release_ends [OF ok] o Processing show ?thesis by blast
  qed (use s r ok in \<open>auto simp: fail_request_def ebind_Inr_iff split: if_splits\<close>)
qed

lemma row_join_Some: "row_join db i = Some (r, q) \<longleftrightarrow>
    row_with db i = Some r \<and> (\<exists>rid. if_reservation r = Some rid \<and> reservation_with (ib_credit db) rid = Some q)"
  by (auto simp: row_join_def split: option.splits)

lemma reservation_with_in: "reservation_with db i = Some q \<Longrightarrow> q \<in> set (db_reservations db) \<and> rs_id q = i"
  unfolding reservation_with_def by (auto dest: find_Some_set)

lemma joined_reserved:
  assumes ok: "requests_ok db" and j: "row_join db i = Some (r, q)"
  shows "matched r q"
proof -
  from j obtain rid where rid: "row_with db i = Some r" "if_reservation r = Some rid"
      "reservation_with (ib_credit db) rid = Some q" by (auto simp: row_join_Some)
  obtain p where p: "p \<in> set (db_reservations (ib_credit db))" "matched r p"
    using ok row_with_in [OF rid(1)] by (auto simp: requests_ok_def)
  have "rs_id p = rs_id q" using p(2) rid(2) reservation_with_in [OF rid(3)] by (simp add: matched_def)
  then have "p = q" using p(1) reservation_with_in [OF rid(3)] ok
    by (auto simp: requests_ok_def dest!: books_okD(2) simp: distinct_map inj_on_def)
  with p(2) show ?thesis by simp
qed

text \<open>In a good state the reservation of a request in progress is open, so that a cleaning and a
cancellation always release it.\<close>

lemma stale_cases:
  assumes s: "reconcile_stale env i now db = Inr ((out, row), db')" and ok: "requests_ok db"
  obtains (unchanged) "db' = db" "out = Unchanged"
    | (released) r q y db1 n where "row_join db i = Some (r, q)" "if_status r = Processing" "rs_expiresAt q \<le> now"
      "with_credit (releaseAiCreditReservation env (request_release i (rs_id q) '':stale-release'')) db = Inr (y, db1)"
      "update_processing i (failed_row stale_error) db1 = Inr (db', n)" "out = StaleReleased" "row = row_with db' i"
proof (cases "row_join db i")
  case None
  with s show ?thesis by (intro unchanged) (auto simp: reconcile_stale_def)
next
  case (Some p)
  obtain r q where p: "p = (r, q)" by (cases p)
  show ?thesis
  proof (cases "if_status r \<noteq> Processing \<or> rs_expiresAt q > now")
    case True
    with s Some p show ?thesis by (intro unchanged) (auto simp: reconcile_stale_def)
  next
    case False
    with joined_reserved [OF ok Some [unfolded p]] have "rs_status q = Reserved" by (simp add: matched_def)
    with s Some p False show ?thesis
      by (auto simp: reconcile_stale_def ebind_Inr_iff Let_def split: if_splits intro!: released)
  qed
qed

lemma stale_ok:
  assumes s: "reconcile_stale env i now db = Inr ((out, row), db')" and ok: "requests_ok db"
  shows "requests_ok db'"
  using assms
proof (cases rule: stale_cases)
  case (released r q y db1 n)
  from released(1) have "row_with db i = Some r" "if_reservation r = Some (rs_id q)"
    by (auto simp: row_join_Some dest: reservation_with_in)
  with release_ends [OF ok _ released(2) _ released(4,5)] show ?thesis by simp
qed (use ok in simp)

lemma cancel_ok:
  assumes s: "cancel_request env user i db = Inr (x, db')" and ok: "requests_ok db"
  shows "requests_ok db'"
proof -
  obtain r q where j: "row_join db i = Some (r, q)" using s by (cases "row_join db i") (auto simp: cancel_request_def)
  note m = joined_reserved [OF ok j]
  from j have r: "row_with db i = Some r" "if_reservation r = Some (rs_id q)"
    by (auto simp: row_join_Some dest: reservation_with_in)
  show ?thesis
  proof (cases "if_status r = Processing \<and> if_user r = user")
    case True
    with m have "rs_status q = Reserved" by (simp add: matched_def)
    with s j True obtain y db1 n where
        "with_credit (releaseAiCreditReservation env (request_release i (rs_id q) '':cancel-release'')) db = Inr (y, db1)"
        "update_processing i (failed_row cancelled_error) db1 = Inr (db', n)"
      by (auto simp: cancel_request_def ebind_Inr_iff split: if_splits)
    with release_ends [OF ok r(1) _ r(2)] True show ?thesis by blast
  next
    case False
    then have "db' = db" using s j by (auto simp: cancel_request_def Let_def split: if_splits inference_status.splits)
    with ok show ?thesis by simp
  qed
qed

subsection \<open>Claims\<close>

lemma claim_cases:
  assumes "claim_request env i hash db = Inr (x, db')"
  obtains (replay) r y where "db' = db" "r \<in> set (ib_rows db)"
      "row_index r = (bi_userId i, bi_operation i, bi_idempotencyKey i)" "if_payload r = hash" "replay r = Inr y"
      "x = AlreadyDone y"
    | (created) rid new c expires where "\<forall>r \<in> set (ib_rows db). row_index r \<noteq> (bi_userId i, bi_operation i, bi_idempotencyKey i)"
      "row_with db (env_requestRow env) = None"
      "reserveAiCredits (credit_env.truncate env) (request_reservation env i expires) (ib_credit db) = Inr ((rid, new), c)"
      "x = Started (env_requestRow env) rid"
      "db' = db\<lparr>ib_credit := c, ib_rows := ib_rows db @ [(new_request env i hash)\<lparr>if_reservation := Some rid\<rparr>]\<rparr>"
proof (cases "find (\<lambda>r. if_user r = bi_userId i \<and> if_operation r = bi_operation i \<and> if_key r = bi_idempotencyKey i) (ib_rows db)")
  case (Some r)
  then have "r \<in> set (ib_rows db)" "row_index r = (bi_userId i, bi_operation i, bi_idempotencyKey i)"
    by (auto simp: row_index_def dest: find_Some_set)
  with assms Some show ?thesis
    by (auto simp: claim_request_def Let_def ebind_Inr_iff split: if_splits intro!: replay)
next
  case None
  have fresh: "row_with db (env_requestRow env) = None" using assms None
    by (auto simp: claim_request_def Let_def split: if_splits)
  have "\<forall>r \<in> set (ib_rows db). row_index r \<noteq> (bi_userId i, bi_operation i, bi_idempotencyKey i)"
    using None by (auto simp: find_None_iff row_index_def)
  moreover have "map (\<lambda>r. if if_id r = env_requestRow env then r\<lparr>if_reservation := Some rid\<rparr> else r)
      (ib_rows db @ [new_request env i hash]) = ib_rows db @ [(new_request env i hash)\<lparr>if_reservation := Some rid\<rparr>]" for rid
    using fresh by (auto simp: row_with_def find_None_iff new_request_def intro!: map_idI)
  ultimately show ?thesis using assms None fresh
    by (auto simp: claim_request_def Let_def ebind_Inr_iff with_credit_Inr split: if_splits intro!: created)
qed

lemma claim_ok:
  assumes s: "claim_request env i hash db = Inr (x, db')" and ok: "requests_ok db"
  shows "requests_ok db'"
  using s
proof (cases rule: claim_cases)
  case (created rid new c expires)
  let ?r = "(new_request env i hash)\<lparr>if_reservation := Some rid\<rparr>" and ?d = "ib_credit db"
  have b: "books_ok ?d" using ok by (simp add: requests_ok_def)
  have fresh: "if_id r \<noteq> env_requestRow env" if "r \<in> set (ib_rows db)" for r
    using created(2) that by (auto simp: row_with_def find_None_iff)
  have nf: "env_requestRow env \<notin> if_id ` set (ib_rows db)" using fresh by force
  have "reserve_key (env_requestRow env) \<notin> set (map rs_key (db_reservations ?d))"
    using ok fresh by (fastforce simp: requests_ok_def)
  then have "ri_idempotencyKey (request_reservation env i expires) \<notin> set (map rs_key (db_reservations ?d))"
    by (simp add: request_reservation_def reserve_key_def)
  with created(3) obtain q where q: "db_reservations c = db_reservations ?d @ [q]" "rs_id q = rid" "rs_status q = Reserved"
      "rs_key q = ri_idempotencyKey (request_reservation env i expires)" by (rule reserve_effect)
  have key: "rs_key q = reserve_key (env_requestRow env)" using q(4) by (simp add: request_reservation_def reserve_key_def)
  have r: "if_id ?r = env_requestRow env" "row_index ?r = (bi_userId i, bi_operation i, bi_idempotencyKey i)"
      "if_status ?r = Processing" "if_reservation ?r = Some rid"
    by (simp_all add: new_request_def row_index_def)
  have m: "matched ?r q" using q(2,3) key r by (simp add: matched_def)
  show ?thesis unfolding created(5) requests_ok_def
  proof (intro conjI ballI)
    show "books_ok (ib_credit (db\<lparr>ib_credit := c, ib_rows := ib_rows db @ [?r]\<rparr>))"
      using reserve_books [OF created(3) b] by simp
    show "distinct (map if_id (ib_rows (db\<lparr>ib_credit := c, ib_rows := ib_rows db @ [?r]\<rparr>)))"
      using ok nf r(1) by (simp add: requests_ok_def)
    show "distinct (map row_index (ib_rows (db\<lparr>ib_credit := c, ib_rows := ib_rows db @ [?r]\<rparr>)))"
      using ok created(1) r(2) by (auto simp: requests_ok_def)
  next
    fix p assume "p \<in> set (ib_rows (db\<lparr>ib_credit := c, ib_rows := ib_rows db @ [?r]\<rparr>))"
    then show "\<exists>q \<in> set (db_reservations (ib_credit (db\<lparr>ib_credit := c, ib_rows := ib_rows db @ [?r]\<rparr>))). matched p q"
      using ok m q(1) by (auto simp: requests_ok_def)
  next
    fix p assume "p \<in> set (db_reservations (ib_credit (db\<lparr>ib_credit := c, ib_rows := ib_rows db @ [?r]\<rparr>)))"
    then show "\<exists>x \<in> set (ib_rows (db\<lparr>ib_credit := c, ib_rows := ib_rows db @ [?r]\<rparr>)). rs_key p = reserve_key (if_id x)"
      using ok key q(1) r(1) by (auto simp: requests_ok_def)
  qed
qed (use ok in simp)

subsection \<open>Any sequence of calls\<close>

datatype inference_op =
    BeginOp begin_input
  | CompleteOp request_input trusted_usage "(string, json) result"
  | FailOp request_input "string \<times> string \<times> jsnum"
  | StaleOp string int
  | CancelOp string string
  | GrantStep string int string string
  | SubmitStep "string \<Rightarrow> (string, unit) result" submit_input
  | DecideStep "string \<Rightarrow> (string, unit) result" decide_input

definition on_credit :: "inference_env \<Rightarrow> credit_op \<Rightarrow> inference_db \<Rightarrow> inference_db" where
  "on_credit env op db = db\<lparr>ib_credit := run_op (credit_env.truncate env) op (ib_credit db)\<rparr>"

fun run_request :: "inference_env \<Rightarrow> inference_op \<Rightarrow> inference_db \<Rightarrow> inference_db" where
  "run_request env (BeginOp i) db = snd (beginClientAiInference env i db)"
| "run_request env (CompleteOp i u persisted) db =
     snd (completeClientAiInference (credit_env.truncate env) i u persisted db)"
| "run_request env (FailOp i e) db = snd (failClientAiInference (credit_env.truncate env) i e db)"
| "run_request env (StaleOp i now) db = snd (reconcileStaleClientAiInference (credit_env.truncate env) i now db)"
| "run_request env (CancelOp user i) db = snd (cancelClientAiInference (credit_env.truncate env) user i db)"
| "run_request env (GrantStep user grant order actor) db = on_credit env (GrantOp user grant order actor) db"
| "run_request env (SubmitStep authorize i) db = on_credit env (SubmitOp authorize i) db"
| "run_request env (DecideStep authorize i) db = on_credit env (DecideOp authorize i) db"

definition no_requests :: "string list \<Rightarrow> inference_db" where
  "no_requests users = \<lparr>ib_credit = empty_db users, ib_rows = []\<rparr>"

inductive served :: "inference_db \<Rightarrow> inference_db \<Rightarrow> bool" where
  served_now: "served db db"
| served_call: "served db db' \<Longrightarrow> served db (run_request env op db')"

lemma grant_reservations: "db_reservations (run_op env (GrantOp user grant order actor) db) = db_reservations db"
  by (auto simp: creditTransaction_def grantMembershipCredits_def split: sum.split prod.split dest: mutate_reservations)

lemma submit_reservations: "db_reservations (run_op env (SubmitOp authorize i) db) = db_reservations db"
proof -
  have "db_reservations db' = db_reservations db" if "submitCreditAdjustment env authorize i db = Inr (r, db')" for r db'
    using that by (auto simp: submitCreditAdjustment_def insert_request_def ebind_Inr_iff Let_def
        split: if_split_asm option.split_asm)
  then show ?thesis by (auto simp: creditTransaction_def split: sum.split prod.split)
qed

lemma decide_reservations: "db_reservations (run_op env (DecideOp authorize i) db) = db_reservations db"
proof -
  have "db_reservations db' = db_reservations db" if "decideCreditAdjustment env authorize i db = Inr ((s, p), db')" for s p db'
    using that
  proof (cases rule: decide_cases)
    case (decided r acc db1 db2)
    then have "db_reservations db1 = db_reservations db" by (auto dest: book_reservations)
    then show ?thesis using insert_decision_Inr [OF decided(6)] close_request_Inr [OF decided(7)] by auto
  qed simp
  then show ?thesis by (auto simp: creditTransaction_def split: sum.split prod.split)
qed

lemma on_credit_ok:
  assumes "requests_ok db" "db_reservations (run_op (credit_env.truncate env) op (ib_credit db)) = db_reservations (ib_credit db)"
  shows "requests_ok (on_credit env op db)"
  using assms run_op_books by (simp add: requests_ok_def on_credit_def)

text \<open>What a call of a service does: nothing, or its transaction.\<close>

lemma in_transaction_cases: "snd (inTransaction f db) = db \<or> (\<exists>x. f db = Inr (x, snd (inTransaction f db)))"
  by (auto simp: inTransaction_def split: sum.split)

lemma renamed_error:
  "snd (case x of Inl e \<Rightarrow> (Inl e, db) | Inr h \<Rightarrow> (case f h of (Inl e, d) \<Rightarrow> (Inl (g e), d) | (Inr y, d) \<Rightarrow> (Inr y, d))) = db
    \<or> (\<exists>h. snd (case x of Inl e \<Rightarrow> (Inl e, db) | Inr h \<Rightarrow> (case f h of (Inl e, d) \<Rightarrow> (Inl (g e), d) | (Inr y, d) \<Rightarrow> (Inr y, d)))
      = snd (f h))"
  by (auto split: sum.split prod.split) (metis snd_conv)+

lemma begin_step: "snd (beginClientAiInference env i db) = db
    \<or> (\<exists>hash x. claim_request env i hash db = Inr (x, snd (beginClientAiInference env i db)))"
proof -
  have "snd (beginClientAiInference env i db) = db
      \<or> (\<exists>hash. snd (beginClientAiInference env i db) = snd (inTransaction (claim_request env i hash) db))"
    unfolding beginClientAiInference_def by (rule renamed_error)
  then show ?thesis
  proof
    assume "\<exists>hash. snd (beginClientAiInference env i db) = snd (inTransaction (claim_request env i hash) db)"
    then obtain hash where h: "snd (beginClientAiInference env i db) = snd (inTransaction (claim_request env i hash) db)" ..
    show ?thesis unfolding h using in_transaction_cases [of "claim_request env i hash" db] by blast
  qed simp
qed

lemma run_request_cases:
  obtains (none) "run_request env op db = db"
    | (claim) i hash x where "op = BeginOp i" "claim_request env i hash db = Inr (x, run_request env op db)"
    | (complete) i u v x where "op = CompleteOp i u v"
        "complete_request (credit_env.truncate env) i u v db = Inr (x, run_request env op db)"
    | (fail) i e e' x where "op = FailOp i e" "fail_request (credit_env.truncate env) i e' db = Inr (x, run_request env op db)"
    | (stale) i now out row where "op = StaleOp i now"
        "reconcile_stale (credit_env.truncate env) i now db = Inr ((out, row), run_request env op db)"
    | (cancel) user i x where "op = CancelOp user i"
        "cancel_request (credit_env.truncate env) user (js_trim i) db = Inr (x, run_request env op db)"
    | (credit) op' where "run_request env op db = on_credit env op' db"
        "db_reservations (run_op (credit_env.truncate env) op' (ib_credit db)) = db_reservations (ib_credit db)"
proof (cases op)
  case (BeginOp i)
  with begin_step [of env i db] that(1,2) show ?thesis by fastforce
next
  case (CompleteOp i u v)
  with in_transaction_cases [of "complete_request (credit_env.truncate env) i u v" db] that(1,3) show ?thesis
    by (fastforce simp: completeClientAiInference_def split: if_splits option.splits)
next
  case (FailOp i e)
  obtain c m s where "e = (c, m, s)" by (cases e)
  with FailOp in_transaction_cases [of "fail_request (credit_env.truncate env) i
      (take 120 (js_trim c), take 500 (js_trim m), big_int s)" db] that(1,4) show ?thesis
    by (fastforce simp: failClientAiInference_def Let_def split: if_splits)
next
  case (StaleOp i now)
  with in_transaction_cases [of "reconcile_stale (credit_env.truncate env) i now" db] that(1,5) show ?thesis
    by (fastforce simp: reconcileStaleClientAiInference_def)
next
  case (CancelOp user i)
  have "snd (cancelClientAiInference (credit_env.truncate env) user i db) \<in> {db, snd (inTransaction
      (cancel_request (credit_env.truncate env) user (js_trim i)) db)}"
    by (auto simp: cancelClientAiInference_def split: sum.splits cancellation.splits prod.splits)
  with CancelOp in_transaction_cases [of "cancel_request (credit_env.truncate env) user (js_trim i)" db] that(1,6)
  show ?thesis by fastforce
qed (use that(7) grant_reservations submit_reservations decide_reservations in \<open>simp; blast\<close>)+

lemma run_request_ok: "requests_ok db \<Longrightarrow> requests_ok (run_request env op db)"
  by (cases rule: run_request_cases [of env op db])
    (auto intro: claim_ok complete_ok fail_ok stale_ok cancel_ok on_credit_ok)

lemma served_ok: "served db db' \<Longrightarrow> requests_ok db \<Longrightarrow> requests_ok db'"
  by (induction rule: served.induct) (auto intro: run_request_ok)

lemma no_requests_ok: "requests_ok (no_requests users)"
  using empty_books [of users] by (simp add: requests_ok_def no_requests_def) (simp add: empty_db_def)

text \<open>C13. After any calls, a request has a reservation of its own, which is open while the request runs,
settled for the price of the tokens the row notes, within what was reserved, when it has succeeded,
and released when it has failed: a customer pays for a result, and only for one.\<close>

theorem request_pays_for_result:
  assumes "served (no_requests users) db" "r \<in> set (ib_rows db)"
  shows "\<exists>q \<in> set (db_reservations (ib_credit db)). if_reservation r = Some (rs_id q)
    \<and> (\<forall>x \<in> set (ib_rows db). if_reservation x = Some (rs_id q) \<longrightarrow> x = r)
    \<and> (case if_status r of
         Processing \<Rightarrow> rs_status q = Reserved
       | Succeeded \<Rightarrow> rs_status q = Settled
           \<and> (\<exists>c. rs_settled q = Some c \<and> row_cost r = Inr c \<and> 0 \<le> c \<and> c \<le> rs_estimated q)
       | Failed \<Rightarrow> rs_status q = Released)"
proof -
  have ok: "requests_ok db" using served_ok [OF assms(1) no_requests_ok] .
  then obtain q where q: "q \<in> set (db_reservations (ib_credit db))" "matched r q" using assms(2) by (auto simp: requests_ok_def)
  have b: "books_ok (ib_credit db)" using ok by (simp add: requests_ok_def)
  have "x = r" if x: "x \<in> set (ib_rows db)" "if_reservation x = Some (rs_id q)" for x
  proof -
    obtain p where p: "p \<in> set (db_reservations (ib_credit db))" "matched x p" using ok x(1) by (auto simp: requests_ok_def)
    then have "p = q" using x(2) q(1) books_okD(2) [OF b] by (auto simp: matched_def distinct_map inj_on_def)
    then have "if_id x = if_id r" using p(2) q(2) by (simp add: matched_def)
    with ok x(1) assms(2) show ?thesis by (auto simp: requests_ok_def distinct_map inj_on_def)
  qed
  moreover have "reservation_ok q" using books_okD(3) [OF b q(1)] by simp
  ultimately show ?thesis using q by (cases "if_status r") (auto simp: matched_def reservation_ok_def)
qed

text \<open>A row stays, with its keys, and is not written again once the request has ended.\<close>

definition kept :: "inference_row \<Rightarrow> inference_row \<Rightarrow> bool" where
  "kept r x \<longleftrightarrow> if_id x = if_id r \<and> row_index x = row_index r \<and> (if_status r \<noteq> Processing \<longrightarrow> x = r)"

definition keeps_rows :: "inference_db \<Rightarrow> inference_db \<Rightarrow> bool" where
  "keeps_rows db db' \<longleftrightarrow> (\<forall>r \<in> set (ib_rows db). \<exists>x \<in> set (ib_rows db'). kept r x)"

lemma kept_trans: "kept a b \<Longrightarrow> kept b c \<Longrightarrow> kept a c"
  by (auto simp: kept_def)

lemma keeps_rows_refl [simp]: "keeps_rows db db"
  by (auto simp: keeps_rows_def kept_def)

lemma keeps_rows_trans: "keeps_rows a b \<Longrightarrow> keeps_rows b c \<Longrightarrow> keeps_rows a c"
  unfolding keeps_rows_def by (meson kept_trans)

lemma update_keeps:
  assumes "update_processing i f db1 = Inr (db', n)" "ib_rows db1 = ib_rows db"
    and "\<And>x. if_id (f x) = if_id x \<and> row_index (f x) = row_index x"
  shows "keeps_rows db db'"
  using update_processing_Inr [OF assms(1)] assms(2,3) by (auto simp: keeps_rows_def kept_def end_row_def)

lemma update_failed_keeps:
  "update_processing i (failed_row e) db1 = Inr (db', n) \<Longrightarrow> ib_rows db1 = ib_rows db \<Longrightarrow> keeps_rows db db'"
  by (erule update_keeps) simp_all

lemma run_request_keeps: "keeps_rows db (run_request env op db)"
proof (cases rule: run_request_cases [of env op db])
  case (claim i hash x)
  from claim(2) show ?thesis by (cases rule: claim_cases) (auto simp: keeps_rows_def kept_def)
next
  case (complete i u v x)
  from complete(2) show ?thesis
    by (cases rule: complete_cases) (auto elim!: update_keeps)
next
  case (fail i e e' x)
  then obtain r where r: "own_row i db = Inr r" by (auto simp: fail_request_def ebind_Inr_iff)
  with fail show ?thesis
    by (cases "if_status r") (auto simp: fail_request_def ebind_Inr_iff with_credit_Inr split: if_split_asm
        elim!: update_failed_keeps)
next
  case (stale i now out row)
  then show ?thesis
    by (auto simp: reconcile_stale_def ebind_Inr_iff with_credit_Inr Let_def split: option.split_asm if_split_asm
        elim!: update_failed_keeps)
next
  case (cancel user i x)
  then show ?thesis
    by (auto simp: cancel_request_def ebind_Inr_iff with_credit_Inr Let_def
        split: option.split_asm inference_status.split_asm if_split_asm elim!: update_failed_keeps)
qed (simp_all add: on_credit_def keeps_rows_def kept_def, blast)

lemma served_keeps: "served db db' \<Longrightarrow> keeps_rows db db'"
  by (induction rule: served.induct) (auto intro: keeps_rows_trans run_request_keeps)

lemma begin_claims:
  assumes "beginClientAiInference env i db = (Inr x, db')"
  obtains hash where "claim_request env i hash db = Inr (x, db')"
  using assms by (auto simp: beginClientAiInference_def inTransaction_def split: sum.split_asm prod.split_asm)

text \<open>C14. A key starts one request: whatever happened since the first call, a later call of the same
customer and operation under it starts nothing, reserves nothing and changes no table.\<close>

theorem key_starts_one_request:
  assumes "beginClientAiInference env i db = (Inr (Started a b), db')" "served db' db''"
    and "bi_userId j = bi_userId i" "bi_operation j = bi_operation i" "bi_idempotencyKey j = bi_idempotencyKey i"
  shows "(\<forall>x y. fst (beginClientAiInference env' j db'') \<noteq> Inr (Started x y)) \<and> snd (beginClientAiInference env' j db'') = db''"
proof -
  obtain hash where "claim_request env i hash db = Inr (Started a b, db')" using assms(1) by (rule begin_claims)
  then have "\<exists>r \<in> set (ib_rows db'). row_index r = (bi_userId i, bi_operation i, bi_idempotencyKey i)"
    by (cases rule: claim_cases) (simp_all add: new_request_def row_index_def)
  then obtain r where "r \<in> set (ib_rows db')" "row_index r = (bi_userId i, bi_operation i, bi_idempotencyKey i)" by blast
  with served_keeps [OF assms(2)] obtain p where p: "p \<in> set (ib_rows db'')" "row_index p = (bi_userId j, bi_operation j, bi_idempotencyKey j)"
    using assms(3-5) unfolding keeps_rows_def kept_def by metis
  have c: "d = db'' \<and> (\<exists>y. x = AlreadyDone y)" if "claim_request env' j h db'' = Inr (x, d)" for h x d
    using that by (cases rule: claim_cases) (use p in auto)
  have "snd (beginClientAiInference env' j db'') = db''"
    using begin_step [of env' j db''] c by blast
  moreover have "fst (beginClientAiInference env' j db'') \<noteq> Inr (Started x y)" for x y
  proof
    assume "fst (beginClientAiInference env' j db'') = Inr (Started x y)"
    then obtain d where "beginClientAiInference env' j db'' = (Inr (Started x y), d)" by (metis prod.collapse)
    then show False by (rule begin_claims) (use c in blast)
  qed
  ultimately show ?thesis by blast
qed

text \<open>A cleaning never finds a request that was charged and has no result.\<close>

theorem stale_never_charged:
  assumes "served (no_requests users) db" "reconcileStaleClientAiInference env i now db = (Inr (out, row), db')"
  shows "out \<noteq> RequiresReview"
proof -
  have "reconcile_stale env i now db = Inr ((out, row), db')"
    using assms(2) by (auto simp: reconcileStaleClientAiInference_def inTransaction_def split: sum.split_asm prod.split_asm)
  moreover have "requests_ok db" using served_ok [OF assms(1) no_requests_ok] .
  ultimately show ?thesis by (cases rule: stale_cases) auto
qed

text \<open>C15. What a claim reserves is enough: usage within the limits that the estimate assumes costs at
most the estimate, so that its settlement is never refused for exceeding the reservation.\<close>

theorem estimate_covers_usage:
  assumes "estimatedClientAiCredits limit = Inr e" "token_count x" "x \<le> MAXIMUM_INPUT_TOKENS" "token_count y" "y \<le> limit"
  shows "\<exists>c. calculateTokenCost \<lparr>tu_modelVersion = ''token-cost-v1'', tu_usageReliable = True, tu_rateReliable = True,
      tu_inputTokens = x, tu_outputTokens = y\<rparr> = Inr c \<and> 0 \<le> c \<and> c \<le> e \<and> 0 < e
    \<and> planReservationSettlement e c = Inr (\<lparr>availableDelta = e - c, reservedDelta = - e\<rparr>, c)"
proof -
  obtain l where l: "limit = N l" using assms(1) by (cases limit) (auto simp: estimatedClientAiCredits_def)
  obtain a where a: "x = N a" using assms(2) by (cases x) (auto simp: token_count_def)
  obtain b where b: "y = N b" using assms(4) by (cases y) (auto simp: token_count_def)
  have e: "e = (1280000 + big_int limit * 30 + 999999) div 1000000" "1 \<le> l"
    using assms(1) l by (auto simp: estimatedClientAiCredits_def calculateTokenCost_def MAXIMUM_INPUT_TOKENS_def split: if_splits)
  have "big_int x \<le> 128000" "0 \<le> big_int x" "big_int y \<le> big_int limit" "0 \<le> big_int y"
    using assms(2-5) a b l by (auto simp: MAXIMUM_INPUT_TOKENS_def token_count_def intro!: floor_mono)
  then show ?thesis using e assms(2,4) unfolding calculateTokenCost_def
    by (auto simp: planReservationSettlement_def intro!: zdiv_mono1)
qed

subsection \<open>A sample request\<close>

definition sample_request_env :: inference_env where
  "sample_request_env = \<lparr>env_hash = \<lparr>ph_collate = \<lambda>a b. True, ph_digest = \<lambda>s. s\<rparr>, env_now = 0, env_accountId = ''a1'',
     env_reservationId = ''r1'', env_entryId = ''e2'', env_rowId = ''w1'', env_requestRow = ''q1'', env_revisions = [''m1'']\<rparr>"

definition sample_begin :: begin_input where
  "sample_begin = \<lparr>bi_userId = ''u1'', bi_operation = ''assistant_message'', bi_idempotencyKey = ''key-0001'',
     bi_payload = JNull, bi_modelRevisionId = ''m1'', bi_estimatedCredits = 2\<rparr>"

definition sample_funded :: inference_db where
  "sample_funded = run_request (sample_request_env\<lparr>env_entryId := ''e1''\<rparr>) (GrantStep ''u1'' 1000 ''o1'' ''u2'')
     (no_requests [''u1'', ''u2''])"

lemma sample_funded_served: "served (no_requests [''u1'', ''u2'']) sample_funded"
  unfolding sample_funded_def by (intro served.intros)

lemma sample_funded_rows: "ib_rows sample_funded = []"
  by (simp add: sample_funded_def on_credit_def no_requests_def)

lemma sample_funded_users: "db_users (ib_credit sample_funded) = [''u1'', ''u2'']"
  by code_simp

lemma sample_held:
  "\<exists>c. reserveAiCredits (credit_env.truncate sample_request_env)
     (request_reservation sample_request_env sample_begin (iso_text 600000)) (ib_credit sample_funded) = Inr ((''r1'', True), c)"
  (is "\<exists>c. ?r = _")
proof -
  have d: "to_date (date_parse (ri_expiresAt (request_reservation sample_request_env sample_begin (iso_text 600000)))) = Some 600000"
    by (simp add: request_reservation_def date_parse_iso max_time_def)
  have "map_sum id fst ?r = Inr (''r1'', True)"
    unfolding reserveAiCredits_def d by code_simp
  then show ?thesis by (cases ?r) auto
qed

lemma sample_claim:
  "\<exists>db'. claim_request sample_request_env sample_begin ''null'' sample_funded = Inr (Started ''q1'' ''r1'', db')"
proof -
  have t: "iso_or_throw (to_date (N (of_int (env_now sample_request_env + 600000)))) = Inr (iso_text 600000)"
    by (simp add: sample_request_env_def iso_or_throw_Inr to_iso_def max_time_def)
  have c: "inference_checks (new_request sample_request_env sample_begin ''null'')" by code_simp
  have e: "bi_userId sample_begin = ''u1''" "bi_modelRevisionId sample_begin = ''m1''"
      "env_revisions sample_request_env = [''m1'']" "env_requestRow sample_request_env = ''q1''"
    by (simp_all add: sample_begin_def sample_request_env_def)
  show ?thesis unfolding claim_request_def t ebind_simps
    using sample_held c by (auto simp: Let_def e sample_funded_rows sample_funded_users row_with_def with_credit_def)
qed

lemma sample_begun:
  "\<exists>db'. beginClientAiInference sample_request_env sample_begin sample_funded = (Inr (Started ''q1'' ''r1''), db')"
proof -
  have "validateIdempotencyKey (bi_idempotencyKey sample_begin) = Inr ()"
      "\<not> (js_trim (bi_modelRevisionId sample_begin) = [] \<or> 160 < length (bi_modelRevisionId sample_begin))"
      "\<not> bi_estimatedCredits sample_begin \<le> 0"
      "canonicalPayloadHash (env_hash sample_request_env) (bi_payload sample_begin) = Inr ''null''"
    by code_simp+
  with sample_claim show ?thesis unfolding beginClientAiInference_def inTransaction_def by auto
qed

theorem key_starts_one_request_witness:
  "\<exists>db'. beginClientAiInference sample_request_env sample_begin sample_funded = (Inr (Started ''q1'' ''r1''), db')
     \<and> snd (beginClientAiInference sample_request_env sample_begin db') = db'"
proof -
  obtain db' where b: "beginClientAiInference sample_request_env sample_begin sample_funded = (Inr (Started ''q1'' ''r1''), db')"
    using sample_begun by blast
  from key_starts_one_request [OF b served_now refl refl refl] b show ?thesis by blast
qed

theorem request_pays_for_result_witness:
  "\<exists>(db :: inference_db) r. r \<in> set (ib_rows db) \<and> if_status r = Processing
     \<and> (\<exists>q \<in> set (db_reservations (ib_credit db)). if_reservation r = Some (rs_id q) \<and> rs_status q = Reserved)"
proof -
  obtain db where b: "beginClientAiInference sample_request_env sample_begin sample_funded = (Inr (Started ''q1'' ''r1''), db)"
    using sample_begun by blast
  then have "db = run_request sample_request_env (BeginOp sample_begin) sample_funded" by simp
  then have s: "served (no_requests [''u1'', ''u2'']) db" by (metis served_call sample_funded_served)
  obtain h where "claim_request sample_request_env sample_begin h sample_funded = Inr (Started ''q1'' ''r1'', db)"
    using b by (rule begin_claims)
  then have "\<exists>r \<in> set (ib_rows db). if_status r = Processing"
    by (cases rule: claim_cases) (simp_all add: new_request_def)
  then obtain r where r: "r \<in> set (ib_rows db)" "if_status r = Processing" by blast
  have "\<exists>q \<in> set (db_reservations (ib_credit db)). if_reservation r = Some (rs_id q) \<and> rs_status q = Reserved"
    using request_pays_for_result [OF s r(1)] by (simp add: r(2)) blast
  with r show ?thesis by blast
qed

theorem estimate_covers_usage_witness:
  "\<exists>c. calculateTokenCost \<lparr>tu_modelVersion = ''token-cost-v1'', tu_usageReliable = True, tu_rateReliable = True,
      tu_inputTokens = N 128000, tu_outputTokens = N 8000\<rparr> = Inr c \<and> c \<le> 2"
proof -
  have "estimatedClientAiCredits (N 8000) = Inr 2"
    by (simp add: estimatedClientAiCredits_def calculateTokenCost_def token_count_def MAXIMUM_INPUT_TOKENS_def)
  from estimate_covers_usage [OF this, of "N 128000" "N 8000"] show ?thesis
    by (auto simp: token_count_def MAXIMUM_INPUT_TOKENS_def)
qed

end
