(* ===== verification/OfficialPortfolio.thy ===== *)
theory OfficialPortfolio
  imports OfficialStrategies JsDate
begin

text \<open>
  The books of a portfolio that follows an official strategy
  (\<open>packages/domain/src/official-paper-portfolio.ts\<close>): opening, marking to prices, and booking a buy
  or a sell, for the paper portfolios and for those with real money. Errors are codes, one for each
  message of the source. Positions are long only, so that the side is not a field.
\<close>

subsection \<open>State\<close>

definition OFFICIAL_PAPER_PRINCIPAL_USDT :: jsnum where
  "OFFICIAL_PAPER_PRINCIPAL_USDT = N 10000"

datatype portfolio_access = AccessActive | CloseOnly | ReadOnly

record portfolio_position =
  pp_symbol :: string
  pp_quantity :: jsnum
  pp_averageEntryPrice :: jsnum
  pp_costBasisUsdt :: jsnum
  pp_entryFeesUsdt :: jsnum
  pp_marketPrice :: jsnum
  pp_marketValueUsdt :: jsnum
  pp_unrealizedPnlUsdt :: jsnum

datatype fill_action = BuyFill | SellFill

record portfolio_fill =
  pf_action :: fill_action
  pf_symbol :: string
  pf_quantity :: jsnum
  pf_fillPrice :: jsnum
  pf_notionalUsdt :: jsnum
  pf_feeUsdt :: jsnum
  pf_allocatedEntryFeeUsdt :: jsnum
  pf_realizedGrossPnlUsdt :: jsnum
  pf_realizedNetPnlUsdt :: jsnum
  pf_filledAt :: string

record portfolio_state =
  po_strategyCode :: platform_code
  po_access :: portfolio_access
  po_principalUsdt :: jsnum
  po_cashUsdt :: jsnum
  po_equityUsdt :: jsnum
  po_realizedGrossPnlUsdt :: jsnum
  po_realizedNetPnlUsdt :: jsnum
  po_realizedPnlUsdt :: jsnum
  po_unrealizedPnlUsdt :: jsnum
  po_feesUsdt :: jsnum
  po_positions :: "portfolio_position list"
  po_fills :: "portfolio_fill list"

definition portfolio_money :: "jsnum \<Rightarrow> (string, jsnum) result" where
  "portfolio_money v = (if \<not> is_finite v then Inl ''AMOUNT_INVALID'' else Inr (js_fixed 8 v))"

definition portfolio_positive :: "jsnum \<Rightarrow> string \<Rightarrow> (string, jsnum) result" where
  "portfolio_positive v label = (if \<not> is_finite v \<or> v \<le> N 0 then Inl label else Inr v)"

text \<open>An optional number read by \<open>Number\<close>.\<close>

definition number_or_nan :: "jsnum option \<Rightarrow> jsnum" where
  "number_or_nan v = (case v of None \<Rightarrow> NaN | Some x \<Rightarrow> x)"

definition createOfficialPaperPortfolioState :: "platform_code \<Rightarrow> portfolio_state" where
  "createOfficialPaperPortfolioState code = \<lparr>po_strategyCode = code, po_access = AccessActive,
     po_principalUsdt = OFFICIAL_PAPER_PRINCIPAL_USDT, po_cashUsdt = OFFICIAL_PAPER_PRINCIPAL_USDT,
     po_equityUsdt = OFFICIAL_PAPER_PRINCIPAL_USDT, po_realizedGrossPnlUsdt = N 0, po_realizedNetPnlUsdt = N 0,
     po_realizedPnlUsdt = N 0, po_unrealizedPnlUsdt = N 0, po_feesUsdt = N 0, po_positions = [], po_fills = []\<rparr>"

record portfolio_seed =
  sd_id :: string
  sd_membershipId :: string
  sd_customerId :: string
  sd_strategyCode :: platform_code
  sd_principalUsdt :: jsnum
  sd_cashUsdt :: jsnum
  sd_risk :: official_risk

definition officialPaperPortfolioSeeds :: "string \<Rightarrow> string \<Rightarrow> (string, portfolio_seed list) result" where
  "officialPaperPortfolioSeeds membership customer =
     (if js_trim membership = [] \<or> js_trim customer = [] then Inl ''OWNER_MISSING''
      else Inr (map (\<lambda>c. \<lparr>sd_id = ''official-paper:'' @ membership @ '':'' @ code_text c,
             sd_membershipId = membership, sd_customerId = customer, sd_strategyCode = c,
             sd_principalUsdt = OFFICIAL_PAPER_PRINCIPAL_USDT, sd_cashUsdt = OFFICIAL_PAPER_PRINCIPAL_USDT,
             sd_risk = df_risk (officialTradingHallStrategies c)\<rparr>) platform_codes))"

subsection \<open>Marking\<close>

definition mark_position :: "(string \<Rightarrow> jsnum option) \<Rightarrow> portfolio_position \<Rightarrow> (string, portfolio_position) result" where
  "mark_position prices p =
     ebind (portfolio_positive (case prices (pp_symbol p) of None \<Rightarrow> pp_marketPrice p | Some x \<Rightarrow> x) ''MARK_PRICE_INVALID'') (\<lambda>price.
     ebind (portfolio_money (pp_quantity p * price)) (\<lambda>v.
     ebind (portfolio_money (v - pp_costBasisUsdt p)) (\<lambda>pnl.
       Inr (p\<lparr>pp_marketPrice := price, pp_marketValueUsdt := v, pp_unrealizedPnlUsdt := pnl\<rparr>))))"

definition markOfficialPaperPortfolio :: "portfolio_state \<Rightarrow> (string \<Rightarrow> jsnum option) \<Rightarrow> (string, portfolio_state) result" where
  "markOfficialPaperPortfolio s prices =
     ebind (emap (mark_position prices) (po_positions s)) (\<lambda>ps.
     ebind (portfolio_money (js_sum (N 0) (map pp_unrealizedPnlUsdt ps))) (\<lambda>pnl.
     ebind (portfolio_money (po_cashUsdt s + js_sum (N 0) (map pp_marketValueUsdt ps))) (\<lambda>equity.
       Inr (s\<lparr>po_positions := ps, po_unrealizedPnlUsdt := pnl, po_equityUsdt := equity\<rparr>))))"

subsection \<open>Booking a fill\<close>

record fill_booking =
  fb_action :: string
  fb_symbol :: string
  fb_fillPrice :: jsnum
  fb_quoteAmountUsdt :: "jsnum option"
  fb_quantity :: "jsnum option"
  fb_feeRate :: "jsnum option"
  fb_feeUsdt :: "jsnum option"
  fb_filledAt :: string

definition position_of :: "portfolio_state \<Rightarrow> string \<Rightarrow> portfolio_position option" where
  "position_of s symbol = find (\<lambda>p. pp_symbol p = symbol) (po_positions s)"

text \<open>The fee: the given amount, or the rate on the given base; exactly one of the two is there.\<close>

definition fee_checked :: "fill_booking \<Rightarrow> (string, unit) result" where
  "fee_checked i = (case (fb_feeRate i, fb_feeUsdt i) of
     (Some r, None) \<Rightarrow> if \<not> is_finite r \<or> r < N 0 \<or> lit (1 / 100) < r then Inl ''FEE_RATE_INVALID'' else Inr ()
   | (None, Some f) \<Rightarrow> if \<not> is_finite f \<or> f < N 0 then Inl ''FEE_AMOUNT_INVALID'' else Inr ()
   | _ \<Rightarrow> Inl ''FEE_AMBIGUOUS'')"

definition fee_of :: "fill_booking \<Rightarrow> jsnum \<Rightarrow> (string, jsnum) result" where
  "fee_of i base = (case fb_feeUsdt i of
     Some f \<Rightarrow> portfolio_money f
   | None \<Rightarrow> portfolio_money (base * (case fb_feeRate i of None \<Rightarrow> N 0 | Some r \<Rightarrow> r)))"

definition entries_on :: "string \<Rightarrow> portfolio_fill list \<Rightarrow> nat" where
  "entries_on day fs = length (filter (\<lambda>f. pf_action f = BuyFill \<and> starts_with (pf_filledAt f) day) fs)"

definition allocation_slack :: jsnum where
  "allocation_slack = lit (1 / 10 ^ 8)"

text \<open>The limits of the contract on a buy: one asset, the portfolio, concurrent assets, entries of a day.\<close>

definition buy_checks :: "official_risk \<Rightarrow> portfolio_state \<Rightarrow> fill_booking \<Rightarrow> jsnum \<Rightarrow> (string, unit) result" where
  "buy_checks risk s i quote =
     (let held = position_of s (fb_symbol i);
          cost = (case held of None \<Rightarrow> N 0 | Some p \<Rightarrow> pp_costBasisUsdt p)
      in if po_principalUsdt s * or_maxAssetAllocationPct risk / N 100 + allocation_slack < cost + quote
         then Inl ''ASSET_LIMIT''
         else if po_principalUsdt s * or_maxTotalAllocationPct risk / N 100 + allocation_slack
                < js_sum (N 0) (map pp_costBasisUsdt (po_positions s)) + quote
         then Inl ''PORTFOLIO_LIMIT''
         else if held = None \<and> or_maxConcurrentAssets risk \<le> N (of_nat (length (po_positions s)))
         then Inl ''CONCURRENT_LIMIT''
         else if or_maxNewEntriesPerDay risk \<le> N (of_nat (entries_on (take 10 (fb_filledAt i)) (po_fills s)))
         then Inl ''DAILY_ENTRY_LIMIT''
         else Inr ())"

definition bought_position :: "fill_booking \<Rightarrow> portfolio_position option \<Rightarrow> jsnum \<Rightarrow> jsnum \<Rightarrow> jsnum \<Rightarrow> (string, portfolio_position) result" where
  "bought_position i held quote fee quantity =
     ebind (portfolio_money ((case held of None \<Rightarrow> N 0 | Some p \<Rightarrow> pp_quantity p) + quantity)) (\<lambda>q.
     ebind (portfolio_money ((case held of None \<Rightarrow> N 0 | Some p \<Rightarrow> pp_costBasisUsdt p) + quote)) (\<lambda>cost.
     ebind (portfolio_money (cost / q)) (\<lambda>average.
     ebind (portfolio_money ((case held of None \<Rightarrow> N 0 | Some p \<Rightarrow> pp_entryFeesUsdt p) + fee)) (\<lambda>fees.
       Inr \<lparr>pp_symbol = fb_symbol i, pp_quantity = q, pp_averageEntryPrice = average, pp_costBasisUsdt = cost,
            pp_entryFeesUsdt = fees, pp_marketPrice = fb_fillPrice i, pp_marketValueUsdt = cost,
            pp_unrealizedPnlUsdt = N 0\<rparr>))))"

definition book_buy :: "official_risk \<Rightarrow> portfolio_state \<Rightarrow> fill_booking \<Rightarrow> (string, portfolio_state) result" where
  "book_buy risk s i =
     (if po_access s \<noteq> AccessActive then Inl ''CLOSE_ONLY''
      else ebind (portfolio_positive (number_or_nan (fb_quoteAmountUsdt i)) ''BUY_AMOUNT_INVALID'') (\<lambda>quote.
        ebind (buy_checks risk s i quote) (\<lambda>_.
        ebind (fee_of i quote) (\<lambda>fee.
          if po_cashUsdt s + allocation_slack < quote + fee then Inl ''CASH_INSUFFICIENT''
          else ebind (portfolio_money (quote / fb_fillPrice i)) (\<lambda>quantity.
            ebind (bought_position i (position_of s (fb_symbol i)) quote fee quantity) (\<lambda>p.
            ebind (portfolio_money (po_cashUsdt s - quote - fee)) (\<lambda>cash.
            ebind (portfolio_money (po_feesUsdt s + fee)) (\<lambda>fees.
              markOfficialPaperPortfolio (s\<lparr>po_cashUsdt := cash, po_feesUsdt := fees,
                po_positions := (if position_of s (fb_symbol i) \<noteq> None
                  then map (\<lambda>x. if pp_symbol x = fb_symbol i then p else x) (po_positions s)
                  else po_positions s @ [p]),
                po_fills := po_fills s @ [\<lparr>pf_action = BuyFill, pf_symbol = fb_symbol i, pf_quantity = quantity,
                  pf_fillPrice = fb_fillPrice i, pf_notionalUsdt = quote, pf_feeUsdt = fee,
                  pf_allocatedEntryFeeUsdt = N 0, pf_realizedGrossPnlUsdt = N 0, pf_realizedNetPnlUsdt = N 0,
                  pf_filledAt = fb_filledAt i\<rparr>]\<rparr>)
                [fb_symbol i \<mapsto> fb_fillPrice i]))))))))"

definition sold_position ::
    "fill_booking \<Rightarrow> jsnum \<Rightarrow> jsnum \<Rightarrow> jsnum \<Rightarrow> portfolio_position \<Rightarrow> (string, portfolio_position) result" where
  "sold_position i remaining releasedCost releasedFee p =
     (if pp_symbol p \<noteq> fb_symbol i then Inr p
      else ebind (portfolio_money (pp_costBasisUsdt p - releasedCost)) (\<lambda>cost.
        ebind (portfolio_money (pp_entryFeesUsdt p - releasedFee)) (\<lambda>fees.
        ebind (portfolio_money (remaining * fb_fillPrice i)) (\<lambda>v.
          Inr (p\<lparr>pp_quantity := remaining, pp_costBasisUsdt := cost, pp_entryFeesUsdt := fees,
                 pp_marketPrice := fb_fillPrice i, pp_marketValueUsdt := v\<rparr>)))))"

definition quantity_slack :: jsnum where
  "quantity_slack = lit (1 / 10 ^ 12)"

definition sold_positions ::
    "fill_booking \<Rightarrow> jsnum \<Rightarrow> jsnum \<Rightarrow> jsnum \<Rightarrow> portfolio_position list \<Rightarrow> (string, portfolio_position list) result" where
  "sold_positions i remaining releasedCost releasedFee ps =
     (if remaining \<le> quantity_slack then Inr (filter (\<lambda>p. pp_symbol p \<noteq> fb_symbol i) ps)
      else emap (sold_position i remaining releasedCost releasedFee) ps)"

definition book_sell :: "portfolio_state \<Rightarrow> fill_booking \<Rightarrow> (string, portfolio_state) result" where
  "book_sell s i =
     (if po_access s = ReadOnly then Inl ''READ_ONLY''
      else (case position_of s (fb_symbol i) of
          None \<Rightarrow> Inl ''NO_POSITION''
        | Some held \<Rightarrow>
            ebind (portfolio_positive (case fb_quantity i of None \<Rightarrow> pp_quantity held | Some q \<Rightarrow> q) ''SELL_QUANTITY_INVALID'') (\<lambda>quantity.
            if pp_quantity held + quantity_slack < quantity then Inl ''SELL_EXCEEDS_POSITION''
            else ebind (portfolio_money (quantity * fb_fillPrice i)) (\<lambda>notional.
              ebind (fee_of i notional) (\<lambda>fee.
              ebind (portfolio_money (pp_costBasisUsdt held * quantity / pp_quantity held)) (\<lambda>releasedCost.
              ebind (portfolio_money (pp_entryFeesUsdt held * quantity / pp_quantity held)) (\<lambda>releasedFee.
              ebind (portfolio_money (notional - releasedCost)) (\<lambda>gross.
              ebind (portfolio_money (gross - releasedFee - fee)) (\<lambda>net.
              ebind (portfolio_money (pp_quantity held - quantity)) (\<lambda>remaining.
              ebind (sold_positions i remaining releasedCost releasedFee (po_positions s)) (\<lambda>positions.
              ebind (portfolio_money (po_realizedGrossPnlUsdt s + gross)) (\<lambda>realizedGross.
              ebind (portfolio_money (po_realizedNetPnlUsdt s + net)) (\<lambda>realizedNet.
              ebind (portfolio_money (po_cashUsdt s + notional - fee)) (\<lambda>cash.
              ebind (portfolio_money (po_feesUsdt s + fee)) (\<lambda>fees.
                markOfficialPaperPortfolio (s\<lparr>po_cashUsdt := cash, po_realizedGrossPnlUsdt := realizedGross,
                  po_realizedNetPnlUsdt := realizedNet, po_realizedPnlUsdt := realizedNet, po_feesUsdt := fees,
                  po_positions := positions,
                  po_fills := po_fills s @ [\<lparr>pf_action = SellFill, pf_symbol = fb_symbol i, pf_quantity = quantity,
                    pf_fillPrice = fb_fillPrice i, pf_notionalUsdt = notional, pf_feeUsdt = fee,
                    pf_allocatedEntryFeeUsdt = releasedFee, pf_realizedGrossPnlUsdt = gross,
                    pf_realizedNetPnlUsdt = net, pf_filledAt = fb_filledAt i\<rparr>]\<rparr>)
                  [fb_symbol i \<mapsto> fb_fillPrice i])))))))))))))))"

definition applyOfficialPaperFill :: "portfolio_state \<Rightarrow> fill_booking \<Rightarrow> (string, portfolio_state) result" where
  "applyOfficialPaperFill s i =
     (let contract = officialTradingHallStrategies (po_strategyCode s) in
      if fb_action i \<noteq> ''buy'' \<and> fb_action i \<noteq> ''sell'' then Inl ''ACTION_UNSUPPORTED''
      else if fb_symbol i \<notin> set (df_symbols contract) then Inl ''SYMBOL_UNSUPPORTED''
      else if \<not> is_finite (date_parse (fb_filledAt i)) then Inl ''FILL_TIME_INVALID''
      else ebind (portfolio_positive (fb_fillPrice i) ''FILL_PRICE_INVALID'') (\<lambda>_.
        ebind (fee_checked i) (\<lambda>_.
          if fb_action i = ''buy'' then book_buy (df_risk contract) s i else book_sell s i)))"

subsection \<open>What a booking did\<close>

lemma portfolio_money_Inr: "portfolio_money v = Inr m \<longleftrightarrow> is_finite v \<and> m = js_fixed 8 v"
  by (auto simp: portfolio_money_def)

lemma portfolio_positive_Inr: "portfolio_positive v l = Inr x \<longleftrightarrow> is_finite v \<and> N 0 < v \<and> x = v"
  by (cases v) (auto simp: portfolio_positive_def)

lemma mark_frame:
  assumes "markOfficialPaperPortfolio s prices = Inr s'"
  shows "po_strategyCode s' = po_strategyCode s \<and> po_access s' = po_access s \<and> po_principalUsdt s' = po_principalUsdt s
    \<and> po_cashUsdt s' = po_cashUsdt s \<and> po_feesUsdt s' = po_feesUsdt s \<and> po_fills s' = po_fills s
    \<and> po_realizedGrossPnlUsdt s' = po_realizedGrossPnlUsdt s \<and> po_realizedNetPnlUsdt s' = po_realizedNetPnlUsdt s
    \<and> po_realizedPnlUsdt s' = po_realizedPnlUsdt s"
    "map (\<lambda>p. (pp_symbol p, pp_quantity p, pp_costBasisUsdt p, pp_entryFeesUsdt p)) (po_positions s')
      = map (\<lambda>p. (pp_symbol p, pp_quantity p, pp_costBasisUsdt p, pp_entryFeesUsdt p)) (po_positions s)"
proof -
  from assms obtain ps where ps: "emap (mark_position prices) (po_positions s) = Inr ps" "po_positions s' = ps"
    by (auto simp: markOfficialPaperPortfolio_def ebind_Inr_iff)
  show "po_strategyCode s' = po_strategyCode s \<and> po_access s' = po_access s \<and> po_principalUsdt s' = po_principalUsdt s
    \<and> po_cashUsdt s' = po_cashUsdt s \<and> po_feesUsdt s' = po_feesUsdt s \<and> po_fills s' = po_fills s
    \<and> po_realizedGrossPnlUsdt s' = po_realizedGrossPnlUsdt s \<and> po_realizedNetPnlUsdt s' = po_realizedNetPnlUsdt s
    \<and> po_realizedPnlUsdt s' = po_realizedPnlUsdt s"
    using assms by (auto simp: markOfficialPaperPortfolio_def ebind_Inr_iff)
  have "list_all2 (\<lambda>x y. mark_position prices x = Inr y) (po_positions s) ps" using ps(1) by (simp add: emap_Inr_iff)
  then have "map (\<lambda>p. (pp_symbol p, pp_quantity p, pp_costBasisUsdt p, pp_entryFeesUsdt p)) ps
      = map (\<lambda>p. (pp_symbol p, pp_quantity p, pp_costBasisUsdt p, pp_entryFeesUsdt p)) (po_positions s)"
    by induction (auto simp: mark_position_def ebind_Inr_iff)
  then show "map (\<lambda>p. (pp_symbol p, pp_quantity p, pp_costBasisUsdt p, pp_entryFeesUsdt p)) (po_positions s')
      = map (\<lambda>p. (pp_symbol p, pp_quantity p, pp_costBasisUsdt p, pp_entryFeesUsdt p)) (po_positions s)"
    by (simp add: ps(2))
qed

lemma buy_cases:
  assumes "book_buy risk s i = Inr s'"
  obtains quote fee quantity p positions cash fees where "po_access s = AccessActive" "fb_quoteAmountUsdt i = Some quote"
    "N 0 < quote" "buy_checks risk s i quote = Inr ()" "fee_of i quote = Inr fee" "\<not> po_cashUsdt s + allocation_slack < quote + fee"
    "portfolio_money (quote / fb_fillPrice i) = Inr quantity"
    "bought_position i (position_of s (fb_symbol i)) quote fee quantity = Inr p"
    "portfolio_money (po_cashUsdt s - quote - fee) = Inr cash" "portfolio_money (po_feesUsdt s + fee) = Inr fees"
    "positions = (if position_of s (fb_symbol i) \<noteq> None
       then map (\<lambda>x. if pp_symbol x = fb_symbol i then p else x) (po_positions s) else po_positions s @ [p])"
    "markOfficialPaperPortfolio (s\<lparr>po_cashUsdt := cash, po_feesUsdt := fees, po_positions := positions,
       po_fills := po_fills s @ [\<lparr>pf_action = BuyFill, pf_symbol = fb_symbol i, pf_quantity = quantity,
         pf_fillPrice = fb_fillPrice i, pf_notionalUsdt = quote, pf_feeUsdt = fee, pf_allocatedEntryFeeUsdt = N 0,
         pf_realizedGrossPnlUsdt = N 0, pf_realizedNetPnlUsdt = N 0, pf_filledAt = fb_filledAt i\<rparr>]\<rparr>)
       [fb_symbol i \<mapsto> fb_fillPrice i] = Inr s'"
  using assms
  by (auto simp: book_buy_def ebind_Inr_iff portfolio_positive_Inr number_or_nan_def split: if_split_asm option.split_asm)

lemma sell_cases:
  assumes "book_sell s i = Inr s'"
  obtains held quantity notional fee cost fee' gross net remaining positions gross' net' cash fees where
    "po_access s \<noteq> ReadOnly" "position_of s (fb_symbol i) = Some held"
    "quantity = (case fb_quantity i of None \<Rightarrow> pp_quantity held | Some q \<Rightarrow> q)" "N 0 < quantity"
    "\<not> pp_quantity held + quantity_slack < quantity"
    "portfolio_money (quantity * fb_fillPrice i) = Inr notional" "fee_of i notional = Inr fee"
    "portfolio_money (pp_costBasisUsdt held * quantity / pp_quantity held) = Inr cost"
    "portfolio_money (pp_entryFeesUsdt held * quantity / pp_quantity held) = Inr fee'"
    "portfolio_money (notional - cost) = Inr gross" "portfolio_money (gross - fee' - fee) = Inr net"
    "portfolio_money (pp_quantity held - quantity) = Inr remaining"
    "sold_positions i remaining cost fee' (po_positions s) = Inr positions"
    "portfolio_money (po_realizedGrossPnlUsdt s + gross) = Inr gross'" "portfolio_money (po_realizedNetPnlUsdt s + net) = Inr net'"
    "portfolio_money (po_cashUsdt s + notional - fee) = Inr cash" "portfolio_money (po_feesUsdt s + fee) = Inr fees"
    "markOfficialPaperPortfolio (s\<lparr>po_cashUsdt := cash, po_realizedGrossPnlUsdt := gross', po_realizedNetPnlUsdt := net',
       po_realizedPnlUsdt := net', po_feesUsdt := fees, po_positions := positions,
       po_fills := po_fills s @ [\<lparr>pf_action = SellFill, pf_symbol = fb_symbol i, pf_quantity = quantity,
         pf_fillPrice = fb_fillPrice i, pf_notionalUsdt = notional, pf_feeUsdt = fee,
         pf_allocatedEntryFeeUsdt = fee', pf_realizedGrossPnlUsdt = gross, pf_realizedNetPnlUsdt = net,
         pf_filledAt = fb_filledAt i\<rparr>]\<rparr>) [fb_symbol i \<mapsto> fb_fillPrice i] = Inr s'"
  using assms
  by (auto simp: book_sell_def ebind_Inr_iff portfolio_positive_Inr split: if_split_asm option.split_asm)

lemma apply_cases:
  assumes "applyOfficialPaperFill s i = Inr s'"
  obtains (bought) "fb_action i = ''buy''" "fb_symbol i \<in> set (df_symbols (officialTradingHallStrategies (po_strategyCode s)))"
      "is_finite (fb_fillPrice i)" "N 0 < fb_fillPrice i" "fee_checked i = Inr ()"
      "book_buy (df_risk (officialTradingHallStrategies (po_strategyCode s))) s i = Inr s'"
    | (sold) "fb_action i = ''sell''" "fb_symbol i \<in> set (df_symbols (officialTradingHallStrategies (po_strategyCode s)))"
      "is_finite (fb_fillPrice i)" "N 0 < fb_fillPrice i" "fee_checked i = Inr ()" "book_sell s i = Inr s'"
proof -
  have c: "(fb_action i = ''buy'' \<or> fb_action i = ''sell'') \<and> fb_symbol i \<in> set (df_symbols (officialTradingHallStrategies (po_strategyCode s)))
      \<and> is_finite (fb_fillPrice i) \<and> N 0 < fb_fillPrice i \<and> fee_checked i = Inr ()
      \<and> (if fb_action i = ''buy'' then book_buy (df_risk (officialTradingHallStrategies (po_strategyCode s))) s i else book_sell s i) = Inr s'"
    using assms unfolding applyOfficialPaperFill_def Let_def
    by (simp only: ebind_Inr_iff portfolio_positive_Inr split: if_split_asm) auto
  show thesis
  proof (cases "fb_action i = ''buy''")
    case True
    then show thesis using c by (intro bought) simp_all
  next
    case False
    then show thesis using c by (intro sold) simp_all
  qed
qed

subsection \<open>The books are the replay of the fills\<close>

text \<open>Four sums that each fill moves by what its own record says, rounded to the eighth decimal place.\<close>

record book_totals =
  bt_cash :: jsnum
  bt_gross :: jsnum
  bt_net :: jsnum
  bt_fees :: jsnum

definition replay_fill :: "book_totals \<Rightarrow> portfolio_fill \<Rightarrow> book_totals" where
  "replay_fill t f = (case pf_action f of
     BuyFill \<Rightarrow> t\<lparr>bt_cash := js_fixed 8 (bt_cash t - pf_notionalUsdt f - pf_feeUsdt f), bt_fees := js_fixed 8 (bt_fees t + pf_feeUsdt f)\<rparr>
   | SellFill \<Rightarrow> \<lparr>bt_cash = js_fixed 8 (bt_cash t + pf_notionalUsdt f - pf_feeUsdt f),
       bt_gross = js_fixed 8 (bt_gross t + pf_realizedGrossPnlUsdt f),
       bt_net = js_fixed 8 (bt_net t + pf_realizedNetPnlUsdt f), bt_fees = js_fixed 8 (bt_fees t + pf_feeUsdt f)\<rparr>)"

definition replayed :: "jsnum \<Rightarrow> portfolio_fill list \<Rightarrow> book_totals" where
  "replayed start fs = foldl replay_fill \<lparr>bt_cash = start, bt_gross = N 0, bt_net = N 0, bt_fees = N 0\<rparr> fs"

definition totals_of :: "portfolio_state \<Rightarrow> book_totals" where
  "totals_of s = \<lparr>bt_cash = po_cashUsdt s, bt_gross = po_realizedGrossPnlUsdt s, bt_net = po_realizedNetPnlUsdt s,
     bt_fees = po_feesUsdt s\<rparr>"

text \<open>A portfolio with a principal of its own, and what may happen to it.\<close>

definition opened_portfolio :: "platform_code \<Rightarrow> jsnum \<Rightarrow> portfolio_state" where
  "opened_portfolio code start = (createOfficialPaperPortfolioState code)\<lparr>po_principalUsdt := start,
     po_cashUsdt := start, po_equityUsdt := start\<rparr>"

inductive kept_books :: "portfolio_state \<Rightarrow> bool" where
  books_open: "kept_books (opened_portfolio code start)"
| books_fill: "kept_books s \<Longrightarrow> applyOfficialPaperFill s i = Inr s' \<Longrightarrow> kept_books s'"
| books_mark: "kept_books s \<Longrightarrow> markOfficialPaperPortfolio s prices = Inr s' \<Longrightarrow> kept_books s'"
| books_access: "kept_books s \<Longrightarrow> kept_books (s\<lparr>po_access := a\<rparr>)"

definition books_replay :: "portfolio_state \<Rightarrow> bool" where
  "books_replay s \<longleftrightarrow> totals_of s = replayed (po_principalUsdt s) (po_fills s) \<and> po_realizedPnlUsdt s = po_realizedNetPnlUsdt s"

lemma replayed_snoc: "replayed p (fs @ [f]) = replay_fill (replayed p fs) f"
  by (simp add: replayed_def)

lemma books_replay_mark: "markOfficialPaperPortfolio s prices = Inr s' \<Longrightarrow> books_replay s' \<longleftrightarrow> books_replay s"
  by (drule mark_frame(1)) (simp add: books_replay_def totals_of_def)

lemma books_replay_apply:
  assumes "applyOfficialPaperFill s i = Inr s'" "books_replay s"
  shows "books_replay s'"
proof -
  have r: "replayed (po_principalUsdt s) (po_fills s) = totals_of s" "po_realizedPnlUsdt s = po_realizedNetPnlUsdt s"
    using assms(2) by (simp_all add: books_replay_def)
  from assms(1) show ?thesis
  proof (cases rule: apply_cases)
    case bought
    from bought(6) show ?thesis
    proof (cases rule: buy_cases)
      case (1 quote fee quantity p positions cash fees)
      then show ?thesis unfolding books_replay_mark [OF 1(12)]
        by (simp add: books_replay_def replayed_snoc replay_fill_def portfolio_money_Inr r) (simp add: totals_of_def)
    qed
  next
    case sold
    from sold(6) show ?thesis
    proof (cases rule: sell_cases)
      case (1 held quantity notional fee cost fee' gross net remaining positions gross' net' cash fees)
      then show ?thesis unfolding books_replay_mark [OF 1(18)]
        by (simp add: books_replay_def replayed_snoc replay_fill_def portfolio_money_Inr r) (simp add: totals_of_def)
    qed
  qed
qed

text \<open>C17. Cash, realised results and fees are never anything but the replay of the recorded fills from the
principal, whatever was bought, sold, marked or switched in between.\<close>

theorem books_are_their_fills:
  assumes "kept_books s"
  shows "totals_of s = replayed (po_principalUsdt s) (po_fills s) \<and> po_realizedPnlUsdt s = po_realizedNetPnlUsdt s"
proof -
  from assms have "books_replay s"
  proof induction
    case (books_open code start)
    then show ?case
      by (simp add: books_replay_def totals_of_def replayed_def opened_portfolio_def createOfficialPaperPortfolioState_def)
  next
    case (books_mark s prices s')
    then show ?case using books_replay_mark by blast
  next
    case (books_access s a)
    then show ?case by (simp add: books_replay_def totals_of_def)
  qed (rule books_replay_apply)
  then show ?thesis by (simp add: books_replay_def)
qed

subsection \<open>The contract\<close>

abbreviation contract_of :: "portfolio_state \<Rightarrow> platform_definition" where
  "contract_of s \<equiv> officialTradingHallStrategies (po_strategyCode s)"

definition entries_of_day :: "string \<Rightarrow> portfolio_fill list \<Rightarrow> nat" where
  "entries_of_day day fs = length (filter (\<lambda>f. pf_action f = BuyFill \<and> take 10 (pf_filledAt f) = day) fs)"

definition within_contract :: "portfolio_state \<Rightarrow> bool" where
  "within_contract s \<longleftrightarrow> distinct (map pp_symbol (po_positions s))
     \<and> set (map pp_symbol (po_positions s)) \<subseteq> set (df_symbols (contract_of s))
     \<and> N (of_nat (length (po_positions s))) \<le> or_maxConcurrentAssets (df_risk (contract_of s))
     \<and> (\<forall>p \<in> set (po_positions s). N 0 < pp_quantity p)
     \<and> (\<forall>day. N (of_nat (entries_of_day day (po_fills s))) \<le> or_maxNewEntriesPerDay (df_risk (contract_of s)))"

lemma filter_length_mono: "(\<And>x. P x \<Longrightarrow> Q x) \<Longrightarrow> length (filter P xs) \<le> length (filter Q xs)"
  by (induction xs) (auto intro: le_SucI)

lemma entries_of_day_le: "entries_of_day (take 10 d) fs \<le> entries_on (take 10 d) fs"
proof -
  have "take (length (take 10 d)) t = take 10 d" if "take 10 t = take 10 d" for t :: string
  proof -
    have "take (length (take 10 d)) (take 10 t) = take 10 d" unfolding that by (simp add: min_def)
    then show ?thesis by (simp add: min_def split: if_splits)
  qed
  then show ?thesis unfolding entries_of_day_def entries_on_def starts_with_def
    by (intro filter_length_mono) blast
qed

lemma mark_contract: "markOfficialPaperPortfolio s prices = Inr s' \<Longrightarrow> within_contract s' \<longleftrightarrow> within_contract s"
proof -
  assume m: "markOfficialPaperPortfolio s prices = Inr s'"
  note f = mark_frame(2) [OF m]
  have s: "map pp_symbol (po_positions s') = map pp_symbol (po_positions s)"
    using arg_cong [OF f, of "map fst"] by (simp add: comp_def)
  have q: "map pp_quantity (po_positions s') = map pp_quantity (po_positions s)"
    using arg_cong [OF f, of "map (fst \<circ> snd)"] by (simp add: comp_def)
  have "(\<forall>p \<in> set (po_positions s'). N 0 < pp_quantity p) \<longleftrightarrow> (\<forall>x \<in> set (map pp_quantity (po_positions s')). N 0 < x)" by simp
  also have "\<dots> \<longleftrightarrow> (\<forall>p \<in> set (po_positions s). N 0 < pp_quantity p)" unfolding q by simp
  finally show ?thesis using mark_frame(1) [OF m] s map_eq_imp_length_eq [OF s] unfolding within_contract_def by simp
qed

lemma bought_quantity:
  assumes "bought_position i held quote fee quantity = Inr p" "N 0 \<le> quantity"
    and "\<And>h. held = Some h \<Longrightarrow> N 0 < pp_quantity h"
  shows "N 0 < pp_quantity p \<and> pp_symbol p = fb_symbol i"
proof -
  define q0 where "q0 = (case held of None \<Rightarrow> N 0 | Some p \<Rightarrow> pp_quantity p)"
  have q0: "N 0 \<le> q0" using assms(3) by (cases held) (auto simp: q0_def intro: js_less_imp_le)
  from assms(1) obtain cost where c: "is_finite (cost / js_fixed 8 (q0 + quantity))" "pp_quantity p = js_fixed 8 (q0 + quantity)"
      "pp_symbol p = fb_symbol i"
    unfolding bought_position_def q0_def [symmetric] by (auto simp: ebind_Inr_iff portfolio_money_Inr)
  have "N 0 \<le> js_fixed 8 (q0 + quantity)" using q0 assms(2) by (intro js_fixed_nonneg js_plus_nonneg)
  moreover have "js_fixed 8 (q0 + quantity) \<noteq> N 0" using c(1) by (cases cost) (auto split: if_split_asm)
  ultimately have "N 0 < js_fixed 8 (q0 + quantity)" by (cases "js_fixed 8 (q0 + quantity)") auto
  with c show ?thesis by simp
qed

lemma position_of_in: "position_of s x = Some p \<Longrightarrow> p \<in> set (po_positions s) \<and> pp_symbol p = x"
  unfolding position_of_def by (auto dest: find_Some_set)

lemma position_of_none: "position_of s x = None \<longleftrightarrow> x \<notin> set (map pp_symbol (po_positions s))"
  by (auto simp: position_of_def find_None_iff)

lemma one_more_within: "N (of_nat n) < r \<Longrightarrow> is_integer r \<Longrightarrow> N (of_nat (Suc n)) \<le> r"
proof (cases r)
  case (N a)
  assume "N (of_nat n) < r" "is_integer r"
  then have a: "of_nat n < a" "of_int \<lfloor>a\<rfloor> = a" using N by simp_all
  then have "(of_int (int n) :: rat) < of_int \<lfloor>a\<rfloor>" by (simp only: a(2) of_int_of_nat_eq)
  then have "int n < \<lfloor>a\<rfloor>" by (simp only: of_int_less_iff)
  then have "(of_int (int n + 1) :: rat) \<le> of_int \<lfloor>a\<rfloor>" by (simp only: of_int_le_iff)
  then show ?thesis using a(2) N by simp
qed auto

lemma contract_risk:
  "is_integer (or_maxConcurrentAssets (df_risk (officialTradingHallStrategies c)))"
  "is_integer (or_maxNewEntriesPerDay (df_risk (officialTradingHallStrategies c)))"
  "N 0 \<le> or_maxConcurrentAssets (df_risk (officialTradingHallStrategies c))"
  "N 0 \<le> or_maxNewEntriesPerDay (df_risk (officialTradingHallStrategies c))"
  by (cases c; simp)+

lemma buy_checks_Inr:
  "buy_checks risk s i quote = Inr () \<longleftrightarrow>
     \<not> po_principalUsdt s * or_maxAssetAllocationPct risk / N 100 + allocation_slack
        < (case position_of s (fb_symbol i) of None \<Rightarrow> N 0 | Some p \<Rightarrow> pp_costBasisUsdt p) + quote
   \<and> \<not> po_principalUsdt s * or_maxTotalAllocationPct risk / N 100 + allocation_slack
        < js_sum (N 0) (map pp_costBasisUsdt (po_positions s)) + quote
   \<and> (position_of s (fb_symbol i) = None \<longrightarrow> \<not> or_maxConcurrentAssets risk \<le> N (of_nat (length (po_positions s))))
   \<and> \<not> or_maxNewEntriesPerDay risk \<le> N (of_nat (entries_on (take 10 (fb_filledAt i)) (po_fills s)))"
  by (auto simp: buy_checks_def Let_def)

lemma buy_contract:
  assumes b: "book_buy (df_risk (contract_of s)) s i = Inr s'" and ok: "within_contract s"
    and i: "fb_symbol i \<in> set (df_symbols (contract_of s))" "N 0 < fb_fillPrice i" "is_finite (fb_fillPrice i)"
  shows "within_contract s'"
  using b
proof (cases rule: buy_cases)
  case (1 quote fee quantity p positions cash fees)
  let ?risk = "df_risk (contract_of s)" and ?x = "fb_symbol i"
  obtain a where a: "fb_fillPrice i = N a" "0 < a" using i(2,3) by (cases "fb_fillPrice i") auto
  have "N 0 \<le> quantity" using 1(7) js_divide_nonneg [of quote a] a 1(3) js_less_imp_le
    by (auto simp: portfolio_money_Inr intro: js_fixed_nonneg)
  then have p: "N 0 < pp_quantity p" "pp_symbol p = ?x"
    using bought_quantity [OF 1(8)] ok position_of_in by (auto simp: within_contract_def)
  note c = 1(4) [unfolded buy_checks_Inr]
  have pos: "distinct (map pp_symbol positions) \<and> set (map pp_symbol positions) \<subseteq> set (df_symbols (contract_of s))
      \<and> N (of_nat (length positions)) \<le> or_maxConcurrentAssets ?risk \<and> (\<forall>x \<in> set positions. N 0 < pp_quantity x)"
  proof (cases "position_of s ?x")
    case None
    then have "N (of_nat (length (po_positions s))) < or_maxConcurrentAssets ?risk"
      using c contract_risk(3) [of "po_strategyCode s"] by (auto simp: js_not_le)
    then have "N (of_nat (Suc (length (po_positions s)))) \<le> or_maxConcurrentAssets ?risk"
      using contract_risk(1) by (intro one_more_within)
    with None ok p i(1) show ?thesis unfolding 1(11) position_of_none by (auto simp: within_contract_def)
  next
    case (Some h)
    have m: "map pp_symbol positions = map pp_symbol (po_positions s)" using Some p(2) by (simp add: 1(11))
    have "\<forall>x \<in> set positions. N 0 < pp_quantity x" using Some ok p(1) by (auto simp: 1(11) within_contract_def)
    with m map_eq_imp_length_eq [OF m] ok show ?thesis by (simp add: within_contract_def)
  qed
  have day: "N (of_nat (entries_of_day d (po_fills s @ [f]))) \<le> or_maxNewEntriesPerDay ?risk"
    if "pf_filledAt f = fb_filledAt i" for d f
  proof (cases "take 10 (fb_filledAt i) = d")
    case True
    have "N (of_nat (entries_of_day d (po_fills s))) \<le> N (of_nat (entries_on (take 10 (fb_filledAt i)) (po_fills s)))"
      using entries_of_day_le [of "fb_filledAt i" "po_fills s"] True by simp
    moreover have "N (of_nat (entries_on (take 10 (fb_filledAt i)) (po_fills s))) < or_maxNewEntriesPerDay ?risk"
      using c contract_risk(4) [of "po_strategyCode s"] by (auto simp: js_not_le)
    ultimately have "N (of_nat (Suc (entries_of_day d (po_fills s)))) \<le> or_maxNewEntriesPerDay ?risk"
      using contract_risk(2) by (intro one_more_within) (rule js_le_less_trans)
    moreover have "N (of_nat (entries_of_day d (po_fills s @ [f]))) \<le> N (of_nat (Suc (entries_of_day d (po_fills s))))"
      by (simp add: entries_of_day_def)
    ultimately show ?thesis using js_le_trans by blast
  next
    case False
    then show ?thesis using ok that by (simp add: within_contract_def entries_of_day_def)
  qed
  show ?thesis unfolding mark_contract [OF 1(12)] using pos day by (simp add: within_contract_def)
qed

lemma sold_positions_frame:
  assumes "sold_positions i remaining cost fee ps = Inr qs" "remaining \<noteq> NaN"
    "\<forall>p \<in> set ps. N 0 < pp_quantity p" "distinct (map pp_symbol ps)"
  shows "distinct (map pp_symbol qs) \<and> set (map pp_symbol qs) \<subseteq> set (map pp_symbol ps) \<and> length qs \<le> length ps
    \<and> (\<forall>p \<in> set qs. N 0 < pp_quantity p)"
proof (cases "remaining \<le> quantity_slack")
  case True
  then have "qs = filter (\<lambda>p. pp_symbol p \<noteq> fb_symbol i) ps" using assms(1) by (simp add: sold_positions_def)
  with assms(3,4) show ?thesis by (auto simp: distinct_map_filter)
next
  case False
  have "N 0 \<le> quantity_slack" unfolding quantity_slack_def by (rule js_of_nonneg) simp
  then have r: "N 0 < remaining" using False assms(2) by (auto simp: js_not_le intro: js_le_less_trans)
  have "list_all2 (\<lambda>x y. sold_position i remaining cost fee x = Inr y) ps qs"
    using assms(1) False by (simp add: sold_positions_def emap_Inr_iff)
  then have "map pp_symbol qs = map pp_symbol ps \<and> ((\<forall>p \<in> set ps. N 0 < pp_quantity p) \<longrightarrow> (\<forall>p \<in> set qs. N 0 < pp_quantity p))"
    by induction (use r in \<open>auto simp: sold_position_def ebind_Inr_iff split: if_split_asm\<close>)
  then show ?thesis using assms(3,4) map_eq_imp_length_eq by (metis order_refl)
qed

lemma sell_contract:
  assumes b: "book_sell s i = Inr s'" and ok: "within_contract s"
  shows "within_contract s'"
  using b
proof (cases rule: sell_cases)
  case (1 held quantity notional fee cost fee' gross net remaining positions gross' net' cash fees)
  have "remaining \<noteq> NaN" using 1(12) by (cases "pp_quantity held - quantity") (auto simp: portfolio_money_Inr)
  then have f: "distinct (map pp_symbol positions)" "set (map pp_symbol positions) \<subseteq> set (map pp_symbol (po_positions s))"
      "length positions \<le> length (po_positions s)" "\<forall>p \<in> set positions. N 0 < pp_quantity p"
    using sold_positions_frame [OF 1(13)] ok by (auto simp: within_contract_def)
  have "N (of_nat (length positions)) \<le> or_maxConcurrentAssets (df_risk (contract_of s))"
    using f(3) ok js_le_trans [of "N (of_nat (length positions))" "N (of_nat (length (po_positions s)))"]
    by (simp add: within_contract_def)
  then show ?thesis unfolding mark_contract [OF 1(18)] using f(1,2,4) ok
    by (auto simp: within_contract_def entries_of_day_def)
qed

text \<open>C18. A portfolio never leaves the contract of its strategy: one position per asset, only in the
contract's assets and never more of them than allowed, nothing short, and no day with more entries
than the contract permits.\<close>

theorem portfolio_within_contract:
  assumes "kept_books s"
  shows "distinct (map pp_symbol (po_positions s))
     \<and> set (map pp_symbol (po_positions s)) \<subseteq> set (df_symbols (contract_of s))
     \<and> N (of_nat (length (po_positions s))) \<le> or_maxConcurrentAssets (df_risk (contract_of s))
     \<and> (\<forall>p \<in> set (po_positions s). N 0 < pp_quantity p)
     \<and> (\<forall>day. N (of_nat (entries_of_day day (po_fills s))) \<le> or_maxNewEntriesPerDay (df_risk (contract_of s)))"
proof -
  from assms have "within_contract s"
  proof induction
    case (books_open code start)
    show ?case using contract_risk(3,4) [of code]
      by (simp add: within_contract_def opened_portfolio_def createOfficialPaperPortfolioState_def entries_of_day_def)
  next
    case (books_fill s i s')
    from books_fill(2) show ?case
    proof (cases rule: apply_cases)
      case bought
      then show ?thesis using buy_contract books_fill(3) by blast
    next
      case sold
      then show ?thesis using sell_contract books_fill(3) by blast
    qed
  next
    case (books_mark s prices s')
    then show ?case using mark_contract by blast
  next
    case (books_access s a)
    then show ?case by (simp add: within_contract_def)
  qed
  then show ?thesis by (simp add: within_contract_def)
qed

subsection \<open>Limits of a buy, and the ways out\<close>

lemma fixed_units_mono: "a \<le> b \<Longrightarrow> fixed_units d a \<le> fixed_units d b"
proof -
  assume ab: "a \<le> b"
  have m: "x * 10 ^ d \<le> y * 10 ^ d" if "x \<le> y" for x y :: rat using that by (rule mult_right_mono) simp
  show ?thesis
  proof (cases "a < 0 \<and> 0 \<le> b")
    case True
    have "a * 10 ^ d \<le> 0" using True by (intro mult_nonpos_nonneg) auto
    then have "fixed_units d a \<le> 0" using True by (simp add: fixed_units_def)
    also have "0 \<le> fixed_units d b" using True by (simp add: fixed_units_nonneg)
    finally show ?thesis .
  next
    case False
    have "\<lfloor>a * 10 ^ d + 1 / 2\<rfloor> \<le> \<lfloor>b * 10 ^ d + 1 / 2\<rfloor>" "\<lfloor>- b * 10 ^ d + 1 / 2\<rfloor> \<le> \<lfloor>- a * 10 ^ d + 1 / 2\<rfloor>"
      using m [OF ab] by (auto intro!: floor_mono)
    then show ?thesis using False ab by (auto simp: fixed_units_def)
  qed
qed

lemma fixed_units_int: "fixed_units d (of_int n) = n * 10 ^ d"
proof -
  have h: "\<lfloor>of_int m + 1 / 2 :: rat\<rfloor> = m" for m by (rule floor_unique) simp_all
  have "\<lfloor>of_int n * 10 ^ d + 1 / 2 :: rat\<rfloor> = n * 10 ^ d" "\<lfloor>- of_int n * 10 ^ d + 1 / 2 :: rat\<rfloor> = - n * 10 ^ d"
    using h [of "n * 10 ^ d"] h [of "- n * 10 ^ d"] by simp_all
  then show ?thesis by (simp add: fixed_units_def)
qed

lemma js_fixed_mono: "x \<le> y \<Longrightarrow> js_fixed 8 x \<le> js_fixed 8 y"
proof (cases x; cases y)
  fix a b
  assume xy: "x \<le> y" "x = N a" "y = N b"
  let ?f = "\<lambda>a. (of_int (fixed_units 8 a) / 10 ^ 8 :: rat)"
  have m: "?f a \<le> ?f b" if "a \<le> b" for a b using fixed_units_mono [OF that, of 8] by (simp add: divide_right_mono)
  have top: "?f (10 ^ 21) = 10 ^ 21" "?f (- (10 ^ 21)) = - (10 ^ 21)"
    using fixed_units_int [of 8 "10 ^ 21"] fixed_units_int [of 8 "- (10 ^ 21)"] by simp_all
  have e: "rnd64 (10 ^ 21) = 10 ^ 21"
    using rnd64_scaled [of "5 ^ 21" 21] by (simp add: power_mult_distrib [symmetric])
  have d: "is_double (N (10 ^ 21))" "is_double (N (- (10 ^ 21)))"
    using e by (simp_all add: max_finite_def binary64.rnd_minus)
  show ?thesis
  proof (cases "\<bar>a\<bar> < 10 ^ 21")
    case a: True
    show ?thesis
    proof (cases "\<bar>b\<bar> < 10 ^ 21")
      case True
      with a xy show ?thesis by (auto intro!: js_of_mono fixed_units_mono)
    next
      case False
      then have b: "10 ^ 21 \<le> b" using a xy by auto
      have "?f a \<le> 10 ^ 21" using m [of a "10 ^ 21"] a unfolding top by linarith
      then have "js_of (?f a) \<le> N (10 ^ 21)" using d(1) by (rule js_of_le_exact)
      moreover have "N (10 ^ 21) \<le> N b" using b by simp
      ultimately have "js_of (?f a) \<le> N b" by (rule js_le_trans)
      with a b xy show ?thesis by auto
    qed
  next
    case a: False
    show ?thesis
    proof (cases "\<bar>b\<bar> < 10 ^ 21")
      case True
      then have a': "a \<le> - (10 ^ 21)" using a xy by auto
      have "- (10 ^ 21) \<le> ?f b" using m [of "- (10 ^ 21)" b] True unfolding top by linarith
      then have "N (- (10 ^ 21)) \<le> js_of (?f b)" using d(2) by (rule js_of_ge_exact)
      moreover have "N a \<le> N (- (10 ^ 21))" using a' by simp
      ultimately have "N a \<le> js_of (?f b)" using js_le_trans by blast
      with True a a' xy show ?thesis by auto
    next
      case False
      with a xy show ?thesis by auto
    qed
  qed
qed auto

lemma find_append_miss: "find P xs = None \<Longrightarrow> find P (xs @ ys) = find P ys"
  by (induction xs) (auto split: if_splits)

lemma find_map: "find P (map f xs) = map_option f (find (\<lambda>x. P (f x)) xs)"
  by (induction xs) auto

definition position_key :: "portfolio_position \<Rightarrow> string \<times> jsnum \<times> jsnum \<times> jsnum" where
  "position_key p = (pp_symbol p, pp_quantity p, pp_costBasisUsdt p, pp_entryFeesUsdt p)"

lemma position_of_key: "map_option position_key (position_of s x) = find (\<lambda>t. fst t = x) (map position_key (po_positions s))"
  by (simp add: position_of_def find_map position_key_def)

lemma mark_position_of:
  assumes "markOfficialPaperPortfolio s prices = Inr s'"
  shows "map_option position_key (position_of s' x) = map_option position_key (position_of s x)"
proof -
  have "map position_key (po_positions s') = map position_key (po_positions s)"
    using mark_frame(2) [OF assms] by (simp add: position_key_def [abs_def])
  then show ?thesis by (simp only: position_of_key)
qed

text \<open>C19. A buy that is booked was within the contract: the portfolio was active, the asset and the portfolio
stayed within their share of the portfolio's own principal, the cash covered the amount and its fee,
and the position's cost is the old one plus the amount, at most the asset's limit.\<close>

theorem buy_within_limits:
  assumes "applyOfficialPaperFill s i = Inr s'" "fb_action i = ''buy''"
  shows "\<exists>quote fee cost p. po_access s = AccessActive \<and> fb_quoteAmountUsdt i = Some quote \<and> N 0 < quote
    \<and> fee_of i quote = Inr fee \<and> \<not> po_cashUsdt s + allocation_slack < quote + fee
    \<and> cost = (case position_of s (fb_symbol i) of None \<Rightarrow> N 0 | Some h \<Rightarrow> pp_costBasisUsdt h)
    \<and> \<not> po_principalUsdt s * or_maxTotalAllocationPct (df_risk (contract_of s)) / N 100 + allocation_slack
        < js_sum (N 0) (map pp_costBasisUsdt (po_positions s)) + quote
    \<and> position_of s' (fb_symbol i) = Some p \<and> pp_costBasisUsdt p = js_fixed 8 (cost + quote)
    \<and> (po_principalUsdt s * or_maxAssetAllocationPct (df_risk (contract_of s)) / N 100 + allocation_slack \<noteq> NaN
        \<longrightarrow> pp_costBasisUsdt p
          \<le> js_fixed 8 (po_principalUsdt s * or_maxAssetAllocationPct (df_risk (contract_of s)) / N 100 + allocation_slack))"
  using assms(1)
proof (cases rule: apply_cases)
  case bought
  from bought(6) show ?thesis
  proof (cases rule: buy_cases)
    case (1 quote fee quantity p positions cash fees)
    define cost where "cost = (case position_of s (fb_symbol i) of None \<Rightarrow> N 0 | Some h \<Rightarrow> pp_costBasisUsdt h)"
    have p: "pp_symbol p = fb_symbol i" "pp_costBasisUsdt p = js_fixed 8 (cost + quote)" "is_finite (cost + quote)"
      using 1(8) unfolding bought_position_def cost_def by (auto simp: ebind_Inr_iff portfolio_money_Inr)
    have f: "position_of (s\<lparr>po_cashUsdt := cash, po_feesUsdt := fees, po_positions := positions, po_fills := fs\<rparr>) (fb_symbol i) = Some p" for fs
    proof (cases "position_of s (fb_symbol i)")
      case None
      then show ?thesis using p(1) by (auto simp: position_of_def 1(11) find_append_miss)
    next
      case (Some h)
      have "find (\<lambda>q. pp_symbol q = fb_symbol i) (map (\<lambda>x. if pp_symbol x = fb_symbol i then p else x) ps)
          = map_option (\<lambda>_. p) (find (\<lambda>q. pp_symbol q = fb_symbol i) ps)" for ps
        by (induction ps) (auto simp: p(1))
      with Some show ?thesis by (simp add: position_of_def 1(11))
    qed
    obtain p' where p': "position_of s' (fb_symbol i) = Some p'" "pp_costBasisUsdt p' = pp_costBasisUsdt p"
      using mark_position_of [OF 1(12), of "fb_symbol i"] unfolding f by (auto simp: position_key_def)
    note c = 1(4) [unfolded buy_checks_Inr, folded cost_def]
    have lim: "pp_costBasisUsdt p' \<le> js_fixed 8 (po_principalUsdt s * or_maxAssetAllocationPct (df_risk (contract_of s)) / N 100 + allocation_slack)"
      if "po_principalUsdt s * or_maxAssetAllocationPct (df_risk (contract_of s)) / N 100 + allocation_slack \<noteq> NaN"
      unfolding p'(2) p(2) using c that p(3) by (intro js_fixed_mono) (auto simp: js_not_less)
    show ?thesis
      by (intro exI [of _ quote] exI [of _ fee] exI [of _ cost] exI [of _ p'] conjI impI)
        (use 1(1-3,5,6) c p' p(2) lim in \<open>simp_all add: cost_def\<close>)
  qed
qed (use assms(2) in simp)

text \<open>Once a membership has run out only the way out is open: a portfolio that may only close books no
buy, one that may only be read books nothing, and a sell that names no quantity sells the whole
position, which is then gone, and leaves every other position as it was.\<close>

theorem only_exits_when_closing:
  assumes "applyOfficialPaperFill s i = Inr s'"
  shows "po_access s \<noteq> ReadOnly \<and> (po_access s = CloseOnly \<longrightarrow> fb_action i = ''sell'') \<and> po_access s' = po_access s
    \<and> (fb_action i = ''sell'' \<and> fb_quantity i = None \<longrightarrow> position_of s' (fb_symbol i) = None
         \<and> pf_quantity (last (po_fills s')) = pp_quantity (the (position_of s (fb_symbol i)))
         \<and> (\<forall>x. x \<noteq> fb_symbol i \<longrightarrow> map_option position_key (position_of s' x) = map_option position_key (position_of s x)))"
  using assms
proof (cases rule: apply_cases)
  case bought
  from bought(6) show ?thesis
    by (cases rule: buy_cases) (use bought(1) mark_frame(1) in fastforce)
next
  case sold
  from sold(6) show ?thesis
  proof (cases rule: sell_cases)
    case (1 held quantity notional fee cost fee' gross net remaining positions gross' net' cash fees)
    note m = mark_frame(1) [OF 1(18)]
    have all: "position_of s' (fb_symbol i) = None \<and> pf_quantity (last (po_fills s')) = pp_quantity held
        \<and> (\<forall>x. x \<noteq> fb_symbol i \<longrightarrow> map_option position_key (position_of s' x) = map_option position_key (position_of s x))"
      if n: "fb_quantity i = None"
    proof -
      have q: "quantity = pp_quantity held" using 1(3) n by simp
      obtain a where a: "pp_quantity held = N a" using 1(12) q by (cases "pp_quantity held") (auto simp: portfolio_money_Inr minus_jsnum_def)
      have "N 0 \<le> quantity_slack" unfolding quantity_slack_def by (rule js_of_nonneg) simp
      then have "remaining \<le> quantity_slack" using 1(12) q a fixed_units_int [of 8 0] by (simp add: portfolio_money_Inr)
      then have pos: "positions = filter (\<lambda>p. pp_symbol p \<noteq> fb_symbol i) (po_positions s)"
        using 1(13) by (simp add: sold_positions_def)
      have g: "find (\<lambda>p. pp_symbol p = x) (filter (\<lambda>p. pp_symbol p \<noteq> fb_symbol i) ps)
          = (if x = fb_symbol i then None else find (\<lambda>p. pp_symbol p = x) ps)" for x ps
        by (induction ps) auto
      have f: "map_option position_key (position_of s' x)
          = (if x = fb_symbol i then None else map_option position_key (position_of s x))" for x
        using mark_position_of [OF 1(18), of x] by (simp add: position_of_def pos g)
      from f [of "fb_symbol i"] have "position_of s' (fb_symbol i) = None" by simp
      with f m q show ?thesis by simp
    qed
    show ?thesis using 1(1,2) m sold(1) all by auto
  qed
qed

subsection \<open>A sample portfolio\<close>

lemma js_fixed_int: "\<bar>n\<bar> \<le> 2 ^ 53 \<Longrightarrow> js_fixed d (N (of_int n)) = N (of_int n)"
  using js_of_int [of n] fixed_units_int [of d n] by simp

lemma js_fixed_numeral:
  "numeral k \<le> (2 ^ 53 :: int) \<Longrightarrow> js_fixed d (N (numeral k)) = N (numeral k)" "js_fixed d (N 0) = N 0" "js_fixed d (N 1) = N 1"
  using js_fixed_int [of "numeral k" d] js_fixed_int [of 0 d] js_fixed_int [of 1 d] by simp_all

definition sample_buy :: fill_booking where
  "sample_buy = \<lparr>fb_action = ''buy'', fb_symbol = ''BTCUSDT'', fb_fillPrice = N 100, fb_quoteAmountUsdt = Some (N 1000),
     fb_quantity = None, fb_feeRate = None, fb_feeUsdt = Some (N 1), fb_filledAt = iso_text 0\<rparr>"

definition sample_bought :: portfolio_state where
  "sample_bought = \<lparr>po_strategyCode = AiBalanced, po_access = AccessActive, po_principalUsdt = N 10000,
     po_cashUsdt = N 8999, po_equityUsdt = N 9999, po_realizedGrossPnlUsdt = N 0, po_realizedNetPnlUsdt = N 0,
     po_realizedPnlUsdt = N 0, po_unrealizedPnlUsdt = N 0, po_feesUsdt = N 1,
     po_positions = [\<lparr>pp_symbol = ''BTCUSDT'', pp_quantity = N 10, pp_averageEntryPrice = N 100,
       pp_costBasisUsdt = N 1000, pp_entryFeesUsdt = N 1, pp_marketPrice = N 100, pp_marketValueUsdt = N 1000,
       pp_unrealizedPnlUsdt = N 0\<rparr>],
     po_fills = [\<lparr>pf_action = BuyFill, pf_symbol = ''BTCUSDT'', pf_quantity = N 10, pf_fillPrice = N 100,
       pf_notionalUsdt = N 1000, pf_feeUsdt = N 1, pf_allocatedEntryFeeUsdt = N 0, pf_realizedGrossPnlUsdt = N 0,
       pf_realizedNetPnlUsdt = N 0, pf_filledAt = iso_text 0\<rparr>]\<rparr>"

lemma slack_nonneg: "N 0 \<le> allocation_slack"
  unfolding allocation_slack_def by (rule js_of_nonneg) simp

lemma no_excess: "x \<le> y \<Longrightarrow> is_double (N y) \<Longrightarrow> \<not> N y + allocation_slack < N x"
proof -
  assume xy: "x \<le> y" and d: "is_double (N y)"
  have "N y \<le> N y + allocation_slack" using d slack_nonneg by (intro js_plus_ge) auto
  then have "N x \<le> N y + allocation_slack" using xy js_le_trans [of "N x" "N y"] by simp
  then show ?thesis by (auto simp: js_not_less)
qed

lemma sample_buy_books: "applyOfficialPaperFill (opened_portfolio AiBalanced (N 10000)) sample_buy = Inr sample_bought"
proof -
  have d: "date_parse (iso_text 0) = N 0" using date_parse_iso [of 0] by (simp add: max_time_def)
  have l: "\<not> N 2500 + allocation_slack < N 1000" "\<not> N 5000 + allocation_slack < N 1000" "\<not> N 10000 + allocation_slack < N 1001"
    using is_double_of_int [of 2500] is_double_of_int [of 5000] is_double_of_int [of 10000] no_excess [of 1000 2500]
      no_excess [of 1000 5000] no_excess [of 1001 10000] by (simp_all del: is_double.simps)
  have c: "buy_checks (df_risk (officialTradingHallStrategies AiBalanced)) (opened_portfolio AiBalanced (N 10000)) sample_buy (N 1000) = Inr ()"
    using l by (simp add: buy_checks_Inr sample_buy_def opened_portfolio_def createOfficialPaperPortfolioState_def position_of_def
        js_sum_def entries_on_def)
  have f: "fb_action sample_buy = ''buy''" "fb_symbol sample_buy = ''BTCUSDT''" "fb_fillPrice sample_buy = N 100"
      "fb_quoteAmountUsdt sample_buy = Some (N 1000)" "fb_feeRate sample_buy = None" "fb_feeUsdt sample_buy = Some (N 1)"
      "fb_filledAt sample_buy = iso_text 0"
    by (simp_all add: sample_buy_def)
  have b: "book_buy (df_risk (officialTradingHallStrategies AiBalanced)) (opened_portfolio AiBalanced (N 10000)) sample_buy = Inr sample_bought"
    unfolding book_buy_def f option.case
    by (simp add: number_or_nan_def portfolio_positive_def c [simplified] fee_of_def f)
      (simp add: opened_portfolio_def createOfficialPaperPortfolioState_def portfolio_money_def js_fixed_numeral l
        position_of_def bought_position_def f markOfficialPaperPortfolio_def mark_position_def portfolio_positive_def js_sum_def
        sample_bought_def del: js_fixed.simps)
  show ?thesis using b unfolding applyOfficialPaperFill_def f
    by (simp add: opened_portfolio_def createOfficialPaperPortfolioState_def fee_checked_def f portfolio_positive_def d)
qed

lemma sample_books: "kept_books sample_bought"
  using books_fill [OF books_open sample_buy_books] .

theorem books_are_their_fills_witness:
  "totals_of sample_bought = replayed (N 10000) (po_fills sample_bought)"
  using books_are_their_fills [OF sample_books] by (simp add: sample_bought_def)

theorem portfolio_within_contract_witness:
  "N (of_nat (length (po_positions sample_bought))) \<le> N 2 \<and> set (map pp_symbol (po_positions sample_bought)) = {''BTCUSDT''}"
  using portfolio_within_contract [OF sample_books] by (simp add: sample_bought_def)

theorem buy_within_limits_witness:
  "\<exists>p. position_of sample_bought ''BTCUSDT'' = Some p \<and> pp_costBasisUsdt p = js_fixed 8 (N 1000)"
proof -
  have "fb_action sample_buy = ''buy''" by (simp add: sample_buy_def)
  from buy_within_limits [OF sample_buy_books this] show ?thesis
    by (auto simp: sample_buy_def opened_portfolio_def createOfficialPaperPortfolioState_def position_of_def
        simp del: js_fixed.simps)
qed

definition sample_sell :: fill_booking where
  "sample_sell = \<lparr>fb_action = ''sell'', fb_symbol = ''BTCUSDT'', fb_fillPrice = N 100, fb_quoteAmountUsdt = None,
     fb_quantity = None, fb_feeRate = None, fb_feeUsdt = Some (N 1), fb_filledAt = iso_text 0\<rparr>"

lemma sample_sell_books:
  "\<exists>s'. applyOfficialPaperFill (sample_bought\<lparr>po_access := CloseOnly\<rparr>) sample_sell = Inr s'"
proof -
  have d: "date_parse (iso_text 0) = N 0" using date_parse_iso [of 0] by (simp add: max_time_def)
  have f: "fb_action sample_sell = ''sell''" "fb_symbol sample_sell = ''BTCUSDT''" "fb_fillPrice sample_sell = N 100"
      "fb_quantity sample_sell = None" "fb_feeRate sample_sell = None" "fb_feeUsdt sample_sell = Some (N 1)"
      "fb_filledAt sample_sell = iso_text 0"
    by (simp_all add: sample_sell_def)
  have q: "N 0 \<le> quantity_slack" unfolding quantity_slack_def by (rule js_of_nonneg) simp
  have l: "\<not> N 10 + quantity_slack < N 10"
    using js_plus_ge [OF _ _ q, of "N 10"] is_double_of_int [of 10] by (auto simp: js_not_less simp del: is_double.simps)
  have m: "js_of (- 1) = N (- 1)" "js_of (- 2) = N (- 2)" "js_fixed 8 (N (- 2)) = N (- 2)"
    using js_of_int [of "- 1"] js_of_int [of "- 2"] js_fixed_int [of "- 2" 8] by (simp_all del: js_fixed.simps)
  have "returns (book_sell (sample_bought\<lparr>po_access := CloseOnly\<rparr>) sample_sell)"
    by (simp add: book_sell_def f sample_bought_def position_of_def portfolio_positive_def l portfolio_money_def fee_of_def
        js_fixed_numeral m sold_positions_def q markOfficialPaperPortfolio_def js_sum_def del: js_fixed.simps)
  then obtain s' where "book_sell (sample_bought\<lparr>po_access := CloseOnly\<rparr>) sample_sell = Inr s'"
    by (auto simp: returns_iff)
  then show ?thesis unfolding applyOfficialPaperFill_def f
    by (simp add: fee_checked_def f portfolio_positive_def d sample_bought_def)
qed

theorem only_exits_when_closing_witness:
  "\<exists>s'. applyOfficialPaperFill (sample_bought\<lparr>po_access := CloseOnly\<rparr>) sample_sell = Inr s' \<and> position_of s' ''BTCUSDT'' = None"
proof -
  obtain s' where s: "applyOfficialPaperFill (sample_bought\<lparr>po_access := CloseOnly\<rparr>) sample_sell = Inr s'"
    using sample_sell_books by blast
  from only_exits_when_closing [OF s] s show ?thesis by (auto simp: sample_sell_def)
qed

end
