(* ===== verification/PortfolioRisk.thy ===== *)
theory PortfolioRisk
  imports RiskState StrategyDsl JsDate
begin

text \<open>
  The risk readings of a deployment, refreshed from its portfolio after a fill or a mark
  (\<open>refreshOfficialPaperRiskState\<close> of \<open>lib/official-paper-repository.ts\<close>): equity, peak, drawdown, the
  loss of the day, and the reasons for which the deployment is halted. The readings are stored as
  JSON and read by \<open>RiskState\<close> in the next cycle.
\<close>

subsection \<open>Values of stored readings\<close>

text \<open>\<open>Number\<close> of a JSON value; an object has no number, an array that of its text.\<close>

fun json_number :: "json \<Rightarrow> jsnum" where
  "json_number JUndef = NaN"
| "json_number JNull = N 0"
| "json_number (JBool b) = (if b then N 1 else N 0)"
| "json_number (JNum x) = x"
| "json_number (JStr s) = js_number s"
| "json_number (JObj _) = NaN"
| "json_number (JArr items) = js_number (json_to_string (JArr items))"

definition number_or :: "json \<Rightarrow> jsnum \<Rightarrow> jsnum" where
  "number_or v d = (if json_truthy v then json_number v else d)"

text \<open>A number as JSON text and back.\<close>

definition number_json :: "jsnum \<Rightarrow> json" where
  "number_json x = (if is_finite x then JNum x else JNull)"

text \<open>\<open>{ ...fields, key: value }\<close>.\<close>

fun put_field :: "string \<Rightarrow> json \<Rightarrow> fields \<Rightarrow> fields" where
  "put_field k v [] = [(k, v)]"
| "put_field k v ((k', v') # fs) = (if k' = k then (k, v) # fs else (k', v') # put_field k v fs)"

definition put_fields :: "fields \<Rightarrow> fields \<Rightarrow> fields" where
  "put_fields fs news = foldl (\<lambda>acc (k, v). put_field k v acc) fs news"

subsection \<open>The reasons of a halt\<close>

definition explicit_reasons :: "fields \<Rightarrow> string list" where
  "explicit_reasons previous = (case field previous ''haltReasons'' of
     JArr vs \<Rightarrow> List.map_filter (\<lambda>v. case v of JStr s \<Rightarrow> Some s | _ \<Rightarrow> None) vs
   | _ \<Rightarrow> [])"

definition previous_reasons :: "fields \<Rightarrow> jsnum \<Rightarrow> jsnum \<Rightarrow> string list" where
  "previous_reasons previous dailyLimit drawdownLimit =
     (if explicit_reasons previous \<noteq> [] \<or> field previous ''halted'' \<noteq> JBool True then explicit_reasons previous
      else if dailyLimit \<le> json_number (field previous ''dailyLossPct'') then [''daily_loss'']
      else if drawdownLimit \<le> json_number (field previous ''maxDrawdownPct'') then [''max_drawdown'']
      else [''legacy_manual''])"

subsection \<open>The refresh\<close>

record risk_refresh =
  rf_principal :: jsnum
  rf_equity :: jsnum
  rf_dailyLimit :: jsnum
  rf_drawdownLimit :: jsnum
  rf_asOf :: int

definition risk_day :: "risk_refresh \<Rightarrow> string" where
  "risk_day i = take 10 (iso_text (rf_asOf i))"

definition day_baseline :: "fields \<Rightarrow> risk_refresh \<Rightarrow> jsnum" where
  "day_baseline previous i =
     (if field previous ''riskDayUtc'' = JStr (risk_day i)
      then number_or (field previous ''dailyBaselineEquityUsdt'') (rf_principal i)
      else let e = json_number (field previous ''equityUsdt'') in if is_finite e then e else rf_principal i)"

definition fallen_pct :: "jsnum \<Rightarrow> jsnum \<Rightarrow> jsnum" where
  "fallen_pct peak x = (if N 0 < peak then js_max (N 0) ((peak - x) / peak * N 100) else N 100)"

definition peak_equity :: "fields \<Rightarrow> risk_refresh \<Rightarrow> jsnum" where
  "peak_equity previous i = js_max (number_or (field previous ''peakEquityUsdt'') (rf_principal i)) (rf_equity i)"

definition max_drawdown :: "fields \<Rightarrow> risk_refresh \<Rightarrow> jsnum" where
  "max_drawdown previous i =
     js_max (number_or (field previous ''maxDrawdownPct'') (N 0)) (fallen_pct (peak_equity previous i) (rf_equity i))"

definition next_reasons :: "fields \<Rightarrow> risk_refresh \<Rightarrow> string list" where
  "next_reasons previous i =
     (let kept = filter (\<lambda>r. field previous ''riskDayUtc'' = JStr (risk_day i) \<or> r \<noteq> ''daily_loss'')
            (previous_reasons previous (rf_dailyLimit i) (rf_drawdownLimit i));
          daily = (if is_finite (rf_dailyLimit i) \<and> rf_dailyLimit i \<le> fallen_pct (day_baseline previous i) (rf_equity i)
                   then [''daily_loss''] else []);
          drawdown = (if is_finite (rf_drawdownLimit i) \<and> rf_drawdownLimit i \<le> max_drawdown previous i
                      then [''max_drawdown''] else [])
      in sort_by code_le (remdups (kept @ daily @ drawdown)))"

definition next_risk_state :: "fields \<Rightarrow> risk_refresh \<Rightarrow> fields" where
  "next_risk_state previous i = put_fields previous
     [(''equityUsdt'', number_json (js_fixed 8 (rf_equity i))),
      (''peakEquityUsdt'', number_json (js_fixed 8 (peak_equity previous i))),
      (''dailyBaselineEquityUsdt'', number_json (js_fixed 8 (day_baseline previous i))),
      (''riskDayUtc'', JStr (risk_day i)),
      (''drawdownPct'', number_json (js_fixed 8 (fallen_pct (peak_equity previous i) (rf_equity i)))),
      (''maxDrawdownPct'', number_json (js_fixed 8 (max_drawdown previous i))),
      (''dailyLossPct'', number_json (js_fixed 8 (fallen_pct (day_baseline previous i) (rf_equity i)))),
      (''haltReasons'', JArr (map JStr (next_reasons previous i))),
      (''halted'', JBool (next_reasons previous i \<noteq> [])),
      (''updatedAt'', JStr (iso_text (rf_asOf i)))]"

text \<open>The checks before it: a portfolio and a deployment, a positive principal and an equity that is a number.\<close>

definition refreshOfficialPaperRiskState :: "fields \<Rightarrow> risk_refresh \<Rightarrow> (string, fields) result" where
  "refreshOfficialPaperRiskState previous i =
     (if \<not> is_finite (rf_principal i) \<or> rf_principal i \<le> N 0 \<or> \<not> is_finite (rf_equity i) then Inl ''RISK_EQUITY_INVALID''
      else Inr (next_risk_state previous i))"

subsection \<open>What a refresh keeps\<close>

lemma field_put_field: "field (put_field k v fs) x = (if x = k then v else field fs x)"
  by (induction fs) (auto simp: field_def)

lemma field_put_fields:
  "field (put_fields fs news) x = (case map_of (rev news) x of Some v \<Rightarrow> v | None \<Rightarrow> field fs x)"
proof (induction news rule: rev_induct)
  case (snoc p news)
  obtain k v where "p = (k, v)" by (cases p)
  with snoc show ?case by (simp add: put_fields_def field_put_field)
qed (simp add: put_fields_def)

lemma next_state_reasons:
  "explicit_reasons (next_risk_state previous i) = next_reasons previous i"
  "field (next_risk_state previous i) ''halted'' = JBool (next_reasons previous i \<noteq> [])"
  "field (next_risk_state previous i) ''riskDayUtc'' = JStr (risk_day i)"
proof -
  have f: "field (next_risk_state previous i) ''haltReasons'' = JArr (map JStr (next_reasons previous i))"
    by (simp add: next_risk_state_def field_put_fields)
  have "List.map_filter (\<lambda>v. case v of JStr s \<Rightarrow> Some s | _ \<Rightarrow> None) (map JStr rs) = rs" for rs
    by (induction rs) (simp_all add: List.map_filter_def)
  then show "explicit_reasons (next_risk_state previous i) = next_reasons previous i"
    by (simp add: explicit_reasons_def f)
qed (simp_all add: next_risk_state_def field_put_fields)

lemma next_reasons_set:
  "r \<in> set (next_reasons previous i) \<longleftrightarrow>
     (r \<in> set (previous_reasons previous (rf_dailyLimit i) (rf_drawdownLimit i))
        \<and> (field previous ''riskDayUtc'' = JStr (risk_day i) \<or> r \<noteq> ''daily_loss''))
     \<or> (r = ''daily_loss'' \<and> is_finite (rf_dailyLimit i) \<and> rf_dailyLimit i \<le> fallen_pct (day_baseline previous i) (rf_equity i))
     \<or> (r = ''max_drawdown'' \<and> is_finite (rf_drawdownLimit i) \<and> rf_drawdownLimit i \<le> max_drawdown previous i)"
  by (auto simp: next_reasons_def Let_def split: if_splits)

lemma explicit_kept: "r \<in> set (explicit_reasons previous) \<Longrightarrow> r \<in> set (previous_reasons previous d m)"
  by (auto simp: previous_reasons_def)

text \<open>A run of refreshes, each on the readings that the one before it stored.\<close>

definition refreshed :: "risk_refresh list \<Rightarrow> fields \<Rightarrow> (string, fields) result" where
  "refreshed is fs = efold (\<lambda>i fs. refreshOfficialPaperRiskState fs i) is fs"

lemma refresh_Inr: "refreshOfficialPaperRiskState fs i = Inr fs' \<Longrightarrow> fs' = next_risk_state fs i"
  by (auto simp: refreshOfficialPaperRiskState_def split: if_splits)

lemma latched:
  assumes "refreshed is fs = Inr fs'" "r \<in> set (explicit_reasons fs)" "r \<noteq> ''daily_loss''"
  shows "r \<in> set (explicit_reasons fs')"
  using assms(1,2)
proof (induction "is" arbitrary: fs)
  case (Cons i "is")
  then obtain fs1 where f: "refreshOfficialPaperRiskState fs i = Inr fs1" "refreshed is fs1 = Inr fs'"
    by (auto simp: refreshed_def ebind_Inr_iff)
  have "r \<in> set (explicit_reasons fs1)" unfolding refresh_Inr [OF f(1)] next_state_reasons next_reasons_set
    using explicit_kept [OF Cons.prems(2)] assms(3) by blast
  with Cons.IH f(2) show ?case by blast
qed (simp add: refreshed_def)

lemma reasons_halt:
  assumes "refreshed is (next_risk_state fs i) = Inr fs'" "explicit_reasons fs' \<noteq> []"
  shows "rr_halted (resolveRuntimeRiskState fs')"
proof (cases "is" rule: rev_cases)
  case Nil
  then have "fs' = next_risk_state fs i" using assms(1) by (simp add: refreshed_def)
  with assms(2) show ?thesis by (simp add: resolveRuntimeRiskState_def next_state_reasons)
next
  case (snoc js j)
  then obtain fs1 where "refreshOfficialPaperRiskState fs1 j = Inr fs'"
    using assms(1) by (auto simp: refreshed_def efold_append ebind_Inr_iff)
  with assms(2) show ?thesis by (auto dest!: refresh_Inr simp: resolveRuntimeRiskState_def next_state_reasons)
qed


text \<open>A halt for the loss of a day stays for that day.\<close>

theorem daily_halt_stays_for_the_day:
  assumes "refreshOfficialPaperRiskState fs i = Inr fs1" "''daily_loss'' \<in> set (explicit_reasons fs1)"
    and "refreshOfficialPaperRiskState fs1 j = Inr fs2" "risk_day j = risk_day i"
  shows "rr_halted (resolveRuntimeRiskState fs2) \<and> ''daily_loss'' \<in> set (explicit_reasons fs2)"
proof -
  have "''daily_loss'' \<in> set (explicit_reasons fs2)"
    unfolding refresh_Inr [OF assms(3)] next_state_reasons next_reasons_set
    using explicit_kept [OF assms(2)] assms(4) refresh_Inr [OF assms(1)] by (simp add: next_state_reasons)
  then show ?thesis using refresh_Inr [OF assms(3)] by (auto simp: resolveRuntimeRiskState_def next_state_reasons)
qed

definition sample_refresh :: risk_refresh where
  "sample_refresh = \<lparr>rf_principal = N 100, rf_equity = N 50, rf_dailyLimit = NaN, rf_drawdownLimit = N 10, rf_asOf = 0\<rparr>"


end
