(* ===== verification/BookTables.thy ===== *)
theory BookTables
  imports OfficialPortfolio PortfolioRisk
begin

text \<open>
  The tables of the portfolios' books (migrations 0007, 0024, 0053, 0060 and 0062, with their checks)
  and the statements that paper settlement (\<open>lib/official-paper-repository.ts\<close>) and live posting
  (\<open>lib/live-book-posting.ts\<close>) share: both write the same rows for a fill. A column of type
  \<open>numeric(30,12)\<close> holds a rational: the decimal that the text of a number stands for and its rounding
  to the column are parameters, as are the random identifiers, the order of texts and the clock of
  the database. A statement that breaks a check or a unique index is an error, after which the
  transaction is rolled back. Times of rows are left out where nothing reads them.
\<close>

subsection \<open>Tables\<close>

datatype deployment_status = Active | Paused | Ended | Failed

record deployment_row =
  ld_id :: string
  ld_owner :: string
  ld_strategy :: string
  ld_version :: string
  ld_subscription :: "string option"
  ld_account :: "string option"
  ld_validationLabel :: string
  ld_positionSizePct :: "jsnum option"
  ld_stopLossPct :: "jsnum option"
  ld_key :: string
  ld_createdAt :: int
  ld_mode :: string
  ld_product :: string
  ld_portfolio :: "string option"
  ld_strategyCode :: "platform_code option"
  ld_membership :: "string option"
  ld_status :: deployment_status
  ld_nextCycleAt :: int
  ld_leaseOwner :: "string option"
  ld_leaseExpiresAt :: "int option"
  ld_fencing :: int
  ld_sequence :: int
  ld_lastCandle :: "int option"
  ld_errorCode :: "string option"
  ld_risk :: fields

record portfolio_row =
  lp_id :: string
  lp_membership :: string
  lp_customer :: string
  lp_strategyCode :: platform_code
  lp_access :: portfolio_access
  lp_book :: string
  lp_principal :: rat
  lp_cash :: rat
  lp_realized :: rat
  lp_gross :: rat
  lp_net :: rat
  lp_fees :: rat
  lp_risk :: fields

record position_row =
  bp_id :: string
  bp_portfolio :: string
  bp_symbol :: string
  bp_open :: bool
  bp_quantity :: rat
  bp_averageEntryPrice :: rat
  bp_costBasis :: rat
  bp_entryFees :: rat
  bp_lastMarkPrice :: rat
  bp_unrealized :: rat
  bp_realized :: rat
  bp_gross :: rat
  bp_net :: rat
  bp_openedAt :: int

record order_row =
  bo_id :: string
  bo_portfolio :: string
  bo_deployment :: string
  bo_cycle :: string
  bo_key :: string
  bo_symbol :: string
  bo_action :: string
  bo_timing :: string
  bo_price :: "rat option"
  bo_status :: string
  bo_rejection :: "string option"
  bo_payload :: fields
  bo_createdAt :: int

record fill_row =
  fr_id :: string
  fr_intent :: string
  fr_portfolio :: string
  fr_position :: "string option"
  fr_symbol :: string
  fr_action :: fill_action
  fr_quantity :: rat
  fr_fillPrice :: rat
  fr_notional :: rat
  fr_fee :: rat
  fr_allocatedEntryFee :: rat
  fr_gross :: rat
  fr_net :: rat
  fr_trace :: string
  fr_filledAt :: int

record book_entry =
  be_id :: string
  be_portfolio :: string
  be_fill :: "string option"
  be_type :: string
  be_amount :: rat
  be_balance :: rat
  be_symbol :: "string option"

record membership_row =
  mm_id :: string
  mm_customer :: string
  mm_status :: string
  mm_expiresAt :: "string option"
  mm_graceEndsAt :: "string option"

record user_row =
  us_id :: string
  us_role :: string
  us_organization :: "string option"

record attribution_row =
  ab_customer :: string
  ab_status :: string
  ab_branch :: "string option"

record stop_row =
  sp_scope :: string
  sp_active :: bool

record book_db =
  lv_memberships :: "membership_row list"
  lv_users :: "user_row list"
  lv_attributions :: "attribution_row list"
  lv_stops :: "stop_row list"
  lv_deployments :: "deployment_row list"
  lv_portfolios :: "portfolio_row list"
  lv_positions :: "position_row list"
  lv_orders :: "order_row list"
  lv_fills :: "fill_row list"
  lv_entries :: "book_entry list"

record book_env =
  nv_decimal :: "jsnum \<Rightarrow> rat option"
  nv_column :: "rat \<Rightarrow> rat option"
  nv_text_le :: "string \<Rightarrow> string \<Rightarrow> bool"
  nv_positionId :: string
  nv_fillId :: string
  nv_entryId :: string
  nv_now :: int

definition decimal :: "'e book_env_scheme \<Rightarrow> jsnum \<Rightarrow> (string, rat) result" where
  "decimal env x = (case nv_decimal env x of None \<Rightarrow> Inl ''CONSTRAINT'' | Some r \<Rightarrow> Inr r)"

definition to_column :: "'e book_env_scheme \<Rightarrow> rat \<Rightarrow> (string, rat) result" where
  "to_column env r = (case nv_column env r of None \<Rightarrow> Inl ''CONSTRAINT'' | Some q \<Rightarrow> Inr q)"

definition numeric :: "'e book_env_scheme \<Rightarrow> jsnum \<Rightarrow> (string, rat) result" where
  "numeric env x = ebind (decimal env x) (to_column env)"

definition checked :: "bool \<Rightarrow> 'a \<Rightarrow> (string, 'a) result" where
  "checked b x = (if b then Inr x else Inl ''CONSTRAINT'')"

subsection \<open>Reading and writing positions\<close>

definition open_positions :: "'e book_env_scheme \<Rightarrow> 'd book_db_scheme \<Rightarrow> string \<Rightarrow> position_row list" where
  "open_positions env db portfolio = sort_by (\<lambda>a b. bp_openedAt a < bp_openedAt b
       \<or> bp_openedAt a = bp_openedAt b \<and> nv_text_le env (bp_id a) (bp_id b))
     (filter (\<lambda>p. bp_portfolio p = portfolio \<and> bp_open p) (lv_positions db))"

definition position_checks :: "position_row \<Rightarrow> bool" where
  "position_checks p \<longleftrightarrow> 0 < bp_quantity p \<and> 0 < bp_averageEntryPrice p \<and> 0 < bp_costBasis p \<and> 0 \<le> bp_entryFees p
     \<and> 0 < bp_lastMarkPrice p"

text \<open>The figures of an open position as columns.\<close>

definition position_columns :: "'e book_env_scheme \<Rightarrow> portfolio_position \<Rightarrow> position_row \<Rightarrow> (string, position_row) result" where
  "position_columns env p row =
     ebind (numeric env (pp_quantity p)) (\<lambda>q.
     ebind (numeric env (pp_averageEntryPrice p)) (\<lambda>average.
     ebind (numeric env (pp_costBasisUsdt p)) (\<lambda>cost.
     ebind (numeric env (pp_entryFeesUsdt p)) (\<lambda>fees.
     ebind (numeric env (pp_marketPrice p)) (\<lambda>mark.
     ebind (numeric env (pp_unrealizedPnlUsdt p)) (\<lambda>pnl.
       let row' = row\<lparr>bp_quantity := q, bp_averageEntryPrice := average, bp_costBasis := cost, bp_entryFees := fees,
             bp_lastMarkPrice := mark, bp_unrealized := pnl\<rparr>
       in checked (position_checks row') row'))))))"

text \<open>\<open>realized + $n\<close> in a column: the sum of exact decimals, rounded to the column.\<close>

definition add_realized :: "'e book_env_scheme \<Rightarrow> jsnum \<Rightarrow> jsnum \<Rightarrow> position_row \<Rightarrow> (string, position_row) result" where
  "add_realized env net gross row =
     ebind (decimal env net) (\<lambda>n.
     ebind (decimal env gross) (\<lambda>g.
     ebind (to_column env (bp_realized row + n)) (\<lambda>r1.
     ebind (to_column env (bp_gross row + g)) (\<lambda>r2.
     ebind (to_column env (bp_net row + n)) (\<lambda>r3.
       Inr (row\<lparr>bp_realized := r1, bp_gross := r2, bp_net := r3\<rparr>))))))"

definition replace_position :: "position_row \<Rightarrow> 'd book_db_scheme \<Rightarrow> 'd book_db_scheme" where
  "replace_position row db = db\<lparr>lv_positions := map (\<lambda>x. if bp_id x = bp_id row then row else x) (lv_positions db)\<rparr>"

text \<open>The three ways a fill leaves the position's row; the result is the row's id.\<close>

definition persist_position ::
    "'e book_env_scheme \<Rightarrow> string \<Rightarrow> string \<Rightarrow> int \<Rightarrow> portfolio_state \<Rightarrow> portfolio_state \<Rightarrow> position_row list \<Rightarrow> 'd book_db_scheme
     \<Rightarrow> (string, string option \<times> 'd book_db_scheme) result" where
  "persist_position env portfolio smb t prior next rows db =
     (let net = po_realizedNetPnlUsdt next - po_realizedNetPnlUsdt prior;
          gross = po_realizedGrossPnlUsdt next - po_realizedGrossPnlUsdt prior
      in case (position_of next smb, find (\<lambda>x. bp_symbol x = smb) rows) of
           (Some p, Some row) \<Rightarrow> ebind (position_columns env p row) (\<lambda>row1. ebind (add_realized env net gross row1) (\<lambda>row2.
             Inr (Some (bp_id row), replace_position row2 db)))
         | (Some p, None) \<Rightarrow> ebind (position_columns env p \<lparr>bp_id = nv_positionId env, bp_portfolio = portfolio,
               bp_symbol = pp_symbol p, bp_open = True, bp_quantity = 0, bp_averageEntryPrice = 0, bp_costBasis = 0,
               bp_entryFees = 0, bp_lastMarkPrice = 0, bp_unrealized = 0, bp_realized = 0, bp_gross = 0, bp_net = 0,
               bp_openedAt = t\<rparr>) (\<lambda>row.
             if list_ex (\<lambda>x. bp_id x = bp_id row \<or> bp_portfolio x = portfolio \<and> bp_symbol x = pp_symbol p \<and> bp_open x) (lv_positions db)
             then Inl ''CONSTRAINT'' else Inr (Some (nv_positionId env), db\<lparr>lv_positions := lv_positions db @ [row]\<rparr>))
         | (None, Some row) \<Rightarrow> ebind (add_realized env net gross (row\<lparr>bp_open := False, bp_entryFees := 0\<rparr>)) (\<lambda>row1.
             Inr (Some (bp_id row), replace_position row1 db))
         | (None, None) \<Rightarrow> Inr (None, db))"

definition update_portfolio :: "'e book_env_scheme \<Rightarrow> string \<Rightarrow> portfolio_state \<Rightarrow> 'd book_db_scheme \<Rightarrow> (string, 'd book_db_scheme) result" where
  "update_portfolio env portfolio next db =
     ebind (numeric env (po_cashUsdt next)) (\<lambda>cash.
     ebind (numeric env (po_realizedNetPnlUsdt next)) (\<lambda>net.
     ebind (numeric env (po_realizedGrossPnlUsdt next)) (\<lambda>gross.
     ebind (numeric env (po_feesUsdt next)) (\<lambda>fees.
       checked (0 \<le> cash \<and> 0 \<le> fees) (db\<lparr>lv_portfolios := map (\<lambda>x. if lp_id x = portfolio
         then x\<lparr>lp_cash := cash, lp_realized := net, lp_gross := gross, lp_net := net, lp_fees := fees\<rparr> else x)
         (lv_portfolios db)\<rparr>)))))"

definition insert_fill ::
    "'e book_env_scheme \<Rightarrow> string \<Rightarrow> string \<Rightarrow> string option \<Rightarrow> portfolio_fill \<Rightarrow> string \<Rightarrow> int \<Rightarrow> 'd book_db_scheme \<Rightarrow> (string, 'd book_db_scheme) result" where
  "insert_fill env portfolio intent position f trace t db =
     ebind (numeric env (pf_quantity f)) (\<lambda>quantity.
     ebind (numeric env (pf_fillPrice f)) (\<lambda>price.
     ebind (numeric env (pf_notionalUsdt f)) (\<lambda>notional.
     ebind (numeric env (pf_feeUsdt f)) (\<lambda>fee.
     ebind (numeric env (pf_allocatedEntryFeeUsdt f)) (\<lambda>allocated.
     ebind (numeric env (pf_realizedGrossPnlUsdt f)) (\<lambda>gross.
     ebind (numeric env (pf_realizedNetPnlUsdt f)) (\<lambda>net.
       checked (0 < quantity \<and> 0 < price \<and> 0 < notional \<and> 0 \<le> fee \<and> 0 \<le> allocated
           \<and> trace \<noteq> [] \<and> length trace \<le> 128
           \<and> \<not> list_ex (\<lambda>x. fr_id x = nv_fillId env \<or> fr_intent x = intent) (lv_fills db))
         (db\<lparr>lv_fills := lv_fills db @ [\<lparr>fr_id = nv_fillId env, fr_intent = intent, fr_portfolio = portfolio,
            fr_position = position, fr_symbol = pf_symbol f, fr_action = pf_action f, fr_quantity = quantity,
            fr_fillPrice = price, fr_notional = notional, fr_fee = fee, fr_allocatedEntryFee = allocated,
            fr_gross = gross, fr_net = net, fr_trace = trace, fr_filledAt = t\<rparr>]\<rparr>))))))))"

definition action_text :: "fill_action \<Rightarrow> string" where
  "action_text a = (case a of BuyFill \<Rightarrow> ''buy'' | SellFill \<Rightarrow> ''sell'')"

definition insert_book_entry ::
    "'e book_env_scheme \<Rightarrow> string \<Rightarrow> portfolio_fill \<Rightarrow> portfolio_state \<Rightarrow> portfolio_state \<Rightarrow> 'd book_db_scheme \<Rightarrow> (string, 'd book_db_scheme) result" where
  "insert_book_entry env portfolio f prior next db =
     ebind (numeric env (po_cashUsdt next - po_cashUsdt prior)) (\<lambda>amount.
     ebind (numeric env (po_cashUsdt next)) (\<lambda>balance.
       checked (0 \<le> balance \<and> \<not> list_ex (\<lambda>x. be_id x = nv_entryId env) (lv_entries db))
         (db\<lparr>lv_entries := lv_entries db @ [\<lparr>be_id = nv_entryId env, be_portfolio = portfolio, be_fill = Some (nv_fillId env),
            be_type = action_text (pf_action f), be_amount = amount, be_balance = balance, be_symbol = Some (pf_symbol f)\<rparr>]\<rparr>)))"

text \<open>A fill in the books: its position, its portfolio, its receipt, its entry in the ledger.\<close>

definition write_fill ::
    "'e book_env_scheme \<Rightarrow> string \<Rightarrow> string \<Rightarrow> string \<Rightarrow> string \<Rightarrow> int \<Rightarrow> portfolio_state \<Rightarrow> portfolio_state
     \<Rightarrow> position_row list \<Rightarrow> 'd book_db_scheme \<Rightarrow> (string, 'd book_db_scheme) result" where
  "write_fill env portfolio intent smb trace t prior next rows db =
     (let f = last (po_fills next) in
      ebind (persist_position env portfolio smb t prior next rows db) (\<lambda>(position, db1).
      ebind (update_portfolio env portfolio next db1) (\<lambda>db2.
      ebind (insert_fill env portfolio intent position f trace t db2) (\<lambda>db3.
      insert_book_entry env portfolio f prior next db3))))"

text \<open>The risk readings after the fill: the value of open positions is a sum of exact decimals.\<close>

definition position_value :: "'d book_db_scheme \<Rightarrow> string \<Rightarrow> rat" where
  "position_value db portfolio = sum_list (map (\<lambda>p. bp_quantity p * bp_lastMarkPrice p)
     (filter (\<lambda>p. bp_portfolio p = portfolio \<and> bp_open p) (lv_positions db)))"

definition refresh_deployment :: "string \<Rightarrow> string \<Rightarrow> int \<Rightarrow> 'd book_db_scheme \<Rightarrow> (string, 'd book_db_scheme) result" where
  "refresh_deployment dep portfolio t db =
     (case (find (\<lambda>p. lp_id p = portfolio) (lv_portfolios db),
            find (\<lambda>d. ld_id d = dep \<and> ld_portfolio d = Some portfolio \<and> ld_product d = ''spot_usdt'') (lv_deployments db)) of
        (Some p, Some d) \<Rightarrow>
          ebind (refreshOfficialPaperRiskState (ld_risk d) \<lparr>rf_principal = js_of (lp_principal p),
              rf_equity = js_of (lp_cash p) + js_of (position_value db portfolio),
              rf_dailyLimit = json_number (field (lp_risk p) ''dailyLossHaltPct''),
              rf_drawdownLimit = json_number (field (lp_risk p) ''maxDrawdownPct''), rf_asOf = t\<rparr>) (\<lambda>risk.
            Inr (db\<lparr>lv_deployments := map (\<lambda>x. if ld_id x = dep then x\<lparr>ld_risk := risk\<rparr> else x) (lv_deployments db)\<rparr>))
      | _ \<Rightarrow> Inl ''RISK_CONTEXT_MISSING'')"

subsection \<open>What the statements change\<close>

lemma checked_Inr: "checked b x = Inr y \<longleftrightarrow> b \<and> y = x"
  by (auto simp: checked_def)

lemma sort_by_first:
  assumes "sort_by le xs = x # ys"
  shows "x \<in> set xs"
proof -
  have "x \<in> set (sort_by le xs)" using assms by simp
  then show ?thesis by simp
qed

lemma find_open:
  "find (\<lambda>x. bp_symbol x = smb) (open_positions env db portfolio) = Some row \<Longrightarrow>
     row \<in> set (lv_positions db) \<and> bp_open row \<and> bp_portfolio row = portfolio \<and> bp_symbol row = smb"
  by (auto dest!: find_Some_set simp: open_positions_def)

lemma position_columns_Inr:
  "position_columns env p row = Inr row' \<Longrightarrow> position_checks row' \<and> bp_id row' = bp_id row
     \<and> bp_portfolio row' = bp_portfolio row \<and> bp_symbol row' = bp_symbol row \<and> bp_open row' = bp_open row"
  by (auto simp: position_columns_def ebind_Inr_iff checked_Inr Let_def)

lemma add_realized_Inr:
  "add_realized env net gross row = Inr row' \<Longrightarrow> (position_checks row' \<longleftrightarrow> position_checks row) \<and> bp_id row' = bp_id row
     \<and> bp_portfolio row' = bp_portfolio row \<and> bp_symbol row' = bp_symbol row \<and> bp_open row' = bp_open row"
  by (auto simp: add_realized_def ebind_Inr_iff position_checks_def)

text \<open>An update of a position keeps its identity, and opens nothing.\<close>

definition same_position :: "position_row \<Rightarrow> position_row \<Rightarrow> bool" where
  "same_position row row' \<longleftrightarrow> bp_id row' = bp_id row \<and> bp_portfolio row' = bp_portfolio row
     \<and> bp_symbol row' = bp_symbol row \<and> (bp_open row' \<longrightarrow> bp_open row) \<and> (position_checks row \<longrightarrow> position_checks row')"

lemma persist_position_cases:
  assumes "persist_position env portfolio smb t prior next rows db = Inr (i, db')"
  obtains (updated) row row' where "find (\<lambda>x. bp_symbol x = smb) rows = Some row" "same_position row row'"
      "db' = replace_position row' db"
    | (opened) row where "db' = db\<lparr>lv_positions := lv_positions db @ [row]\<rparr>" "position_checks row" "bp_open row"
      "\<forall>x \<in> set (lv_positions db). bp_id x \<noteq> bp_id row
         \<and> \<not> (bp_portfolio x = bp_portfolio row \<and> bp_symbol x = bp_symbol row \<and> bp_open x)"
    | (none) "db' = db"
proof (cases "position_of next smb"; cases "find (\<lambda>x. bp_symbol x = smb) rows")
  fix row assume r: "position_of next smb = None" "find (\<lambda>x. bp_symbol x = smb) rows = Some row"
  with assms obtain row' where "add_realized env (po_realizedNetPnlUsdt next - po_realizedNetPnlUsdt prior)
      (po_realizedGrossPnlUsdt next - po_realizedGrossPnlUsdt prior) (row\<lparr>bp_open := False, bp_entryFees := 0\<rparr>) = Inr row'"
    "db' = replace_position row' db" by (auto simp: persist_position_def ebind_Inr_iff)
  with add_realized_Inr [OF this(1)] r show thesis
    by (intro updated) (auto simp: same_position_def position_checks_def)
next
  fix p row assume r: "position_of next smb = Some p" "find (\<lambda>x. bp_symbol x = smb) rows = Some row"
  with assms obtain row1 row' where s: "position_columns env p row = Inr row1" "add_realized env (po_realizedNetPnlUsdt next - po_realizedNetPnlUsdt prior)
      (po_realizedGrossPnlUsdt next - po_realizedGrossPnlUsdt prior) row1 = Inr row'" "db' = replace_position row' db"
    by (auto simp: persist_position_def ebind_Inr_iff)
  with position_columns_Inr [OF s(1)] add_realized_Inr [OF s(2)] r show thesis
    by (intro updated) (auto simp: same_position_def)
next
  fix p assume r: "position_of next smb = Some p" "find (\<lambda>x. bp_symbol x = smb) rows = None"
  with assms obtain row where s: "position_columns env p \<lparr>bp_id = nv_positionId env, bp_portfolio = portfolio,
               bp_symbol = pp_symbol p, bp_open = True, bp_quantity = 0, bp_averageEntryPrice = 0, bp_costBasis = 0,
               bp_entryFees = 0, bp_lastMarkPrice = 0, bp_unrealized = 0, bp_realized = 0, bp_gross = 0, bp_net = 0,
               bp_openedAt = t\<rparr> = Inr row" "db' = db\<lparr>lv_positions := lv_positions db @ [row]\<rparr>"
      "\<not> list_ex (\<lambda>x. bp_id x = bp_id row \<or> bp_portfolio x = portfolio \<and> bp_symbol x = pp_symbol p \<and> bp_open x) (lv_positions db)"
    by (auto simp: persist_position_def ebind_Inr_iff split: if_split_asm)
  with position_columns_Inr [OF s(1)] show thesis by (intro opened) (auto simp: list_ex_iff)
next
  assume "position_of next smb = None" "find (\<lambda>x. bp_symbol x = smb) rows = None"
  with assms show thesis by (intro none) (auto simp: persist_position_def)
qed

lemma persist_position_frame:
  assumes "persist_position env p x t prior next rows db = Inr (i, db')"
  shows "\<exists>ps. db' = db\<lparr>lv_positions := ps\<rparr>"
proof -
  have n: "db = db\<lparr>lv_positions := lv_positions db\<rparr>" by simp
  show ?thesis using assms
  proof (cases rule: persist_position_cases)
    case none
    with n show ?thesis by metis
  qed (auto simp: replace_position_def)
qed

lemma update_portfolio_Inr:
  "update_portfolio env portfolio next db = Inr db' \<Longrightarrow> \<exists>c n g f. numeric env (po_cashUsdt next) = Inr c \<and> 0 \<le> c \<and> 0 \<le> f
     \<and> db' = db\<lparr>lv_portfolios := map (\<lambda>x. if lp_id x = portfolio
         then x\<lparr>lp_cash := c, lp_realized := n, lp_gross := g, lp_net := n, lp_fees := f\<rparr> else x) (lv_portfolios db)\<rparr>"
  by (auto simp: update_portfolio_def ebind_Inr_iff checked_Inr)

lemma insert_fill_Inr:
  "insert_fill env p intent q f trace t db = Inr db' \<Longrightarrow> \<exists>x. db' = db\<lparr>lv_fills := lv_fills db @ [x]\<rparr>
     \<and> fr_id x = nv_fillId env \<and> fr_intent x = intent \<and> fr_portfolio x = p \<and> fr_action x = pf_action f \<and> fr_filledAt x = t
     \<and> intent \<notin> set (map fr_intent (lv_fills db)) \<and> nv_fillId env \<notin> set (map fr_id (lv_fills db))"
  by (clarsimp simp: insert_fill_def ebind_Inr_iff checked_Inr list_ex_iff) (intro exI conjI, rule refl, auto)

lemma insert_book_entry_Inr:
  "insert_book_entry env p f prior next db = Inr db' \<Longrightarrow> \<exists>e. db' = db\<lparr>lv_entries := lv_entries db @ [e]\<rparr>
     \<and> be_portfolio e = p \<and> be_fill e = Some (nv_fillId env) \<and> numeric env (po_cashUsdt next) = Inr (be_balance e)"
  by (auto simp: insert_book_entry_def ebind_Inr_iff checked_Inr)

lemma write_fill_steps:
  assumes "write_fill env portfolio intent smb trace t prior next rows db = Inr db'"
  obtains i db1 db2 db3 where "persist_position env portfolio smb t prior next rows db = Inr (i, db1)"
    "update_portfolio env portfolio next db1 = Inr db2"
    "insert_fill env portfolio intent i (last (po_fills next)) trace t db2 = Inr db3"
    "insert_book_entry env portfolio (last (po_fills next)) prior next db3 = Inr db'"
  using assms by (auto simp: write_fill_def Let_def ebind_Inr_iff)

lemma write_fill_frame:
  assumes "write_fill env portfolio intent smb trace t prior next rows db = Inr db'"
  obtains ps qs x e where "db' = db\<lparr>lv_positions := ps, lv_portfolios := qs, lv_fills := lv_fills db @ [x], lv_entries := lv_entries db @ [e]\<rparr>"
    "map lp_id qs = map lp_id (lv_portfolios db)" "map lp_customer qs = map lp_customer (lv_portfolios db)"
    "fr_id x = nv_fillId env" "fr_intent x = intent" "fr_action x = pf_action (last (po_fills next))" "fr_portfolio x = portfolio"
    "intent \<notin> set (map fr_intent (lv_fills db))" "nv_fillId env \<notin> set (map fr_id (lv_fills db))"
    "be_fill e = Some (nv_fillId env)" "be_portfolio e = portfolio"
proof -
  from write_fill_steps [OF assms] obtain i db1 db2 db3 where s:
    "persist_position env portfolio smb t prior next rows db = Inr (i, db1)" "update_portfolio env portfolio next db1 = Inr db2"
    "insert_fill env portfolio intent i (last (po_fills next)) trace t db2 = Inr db3"
    "insert_book_entry env portfolio (last (po_fills next)) prior next db3 = Inr db'" .
  from persist_position_frame [OF s(1)] obtain ps where 1: "db1 = db\<lparr>lv_positions := ps\<rparr>" ..
  from update_portfolio_Inr [OF s(2)] obtain qs where 2: "db2 = db1\<lparr>lv_portfolios := qs\<rparr>"
      "map lp_id qs = map lp_id (lv_portfolios db1)" "map lp_customer qs = map lp_customer (lv_portfolios db1)"
    by (auto simp: comp_def if_distrib [of lp_id] if_distrib [of lp_customer] cong: if_cong)
  from insert_fill_Inr [OF s(3)] obtain x where 3: "db3 = db2\<lparr>lv_fills := lv_fills db2 @ [x]\<rparr>" "fr_id x = nv_fillId env"
      "fr_intent x = intent" "fr_action x = pf_action (last (po_fills next))" "fr_portfolio x = portfolio"
      "intent \<notin> set (map fr_intent (lv_fills db2))" "nv_fillId env \<notin> set (map fr_id (lv_fills db2))" by auto
  from insert_book_entry_Inr [OF s(4)] obtain e where 4: "db' = db3\<lparr>lv_entries := lv_entries db3 @ [e]\<rparr>"
      "be_fill e = Some (nv_fillId env)" "be_portfolio e = portfolio" by auto
  show thesis by (rule that [where ps = ps and qs = qs and x = x and e = e]) (use 1 2 3 4 in auto)
qed

subsection \<open>The books are in order\<close>

text \<open>An open position is the only one of its asset in its portfolio, its figures are positive, no cash is
negative, an order has one fill and a fill one entry, and the cash of a portfolio is the balance of
its last entry.\<close>

definition positions_ok :: "position_row list \<Rightarrow> bool" where
  "positions_ok ps \<longleftrightarrow> distinct (map bp_id ps) \<and> distinct (map (\<lambda>p. (bp_portfolio p, bp_symbol p)) (filter bp_open ps))
     \<and> (\<forall>p \<in> set ps. position_checks p)"

definition last_balance :: "book_entry list \<Rightarrow> string \<Rightarrow> rat option" where
  "last_balance es i = (let xs = filter (\<lambda>e. be_portfolio e = i) es in if xs = [] then None else Some (be_balance (last xs)))"

definition books_ok :: "'d book_db_scheme \<Rightarrow> bool" where
  "books_ok db \<longleftrightarrow> positions_ok (lv_positions db)
     \<and> (\<forall>p \<in> set (lv_portfolios db). 0 \<le> lp_cash p \<and> 0 \<le> lp_fees p)
     \<and> distinct (map fr_intent (lv_fills db)) \<and> distinct (map fr_id (lv_fills db))
     \<and> List.map_filter be_fill (lv_entries db) = map fr_id (lv_fills db)
     \<and> (\<forall>p \<in> set (lv_portfolios db). last_balance (lv_entries db) (lp_id p) = Some (lp_cash p))"

lemma last_balance_append:
  "last_balance (es @ [e]) i = (if be_portfolio e = i then Some (be_balance e) else last_balance es i)"
  by (simp add: last_balance_def Let_def)

lemma positions_ok_append:
  "positions_ok ps \<Longrightarrow> position_checks row \<Longrightarrow> \<forall>x \<in> set ps. bp_id x \<noteq> bp_id row
     \<and> \<not> (bp_portfolio x = bp_portfolio row \<and> bp_symbol x = bp_symbol row \<and> bp_open x) \<Longrightarrow> positions_ok (ps @ [row])"
  by (auto simp: positions_ok_def)

lemma positions_ok_replace:
  assumes "positions_ok ps" "row \<in> set ps" "same_position row row'"
  shows "positions_ok (map (\<lambda>x. if bp_id x = bp_id row' then row' else x) ps)"
proof -
  let ?f = "\<lambda>x. if bp_id x = bp_id row' then row' else x"
  note ok = assms(1) [unfolded positions_ok_def]
  have x: "\<forall>x \<in> set ps. bp_id x = bp_id row' \<longrightarrow> x = row"
    using ok assms(2,3) by (auto simp: same_position_def distinct_map inj_on_def)
  then have same: "\<forall>x \<in> set ps. same_position x (?f x)" using assms(3) by (auto simp: same_position_def)
  have e: "map bp_id (map ?f ps) = map bp_id ps" using same by (auto simp: same_position_def)
  have ids: "distinct (map bp_id (map ?f ps))" unfolding e using ok by blast
  have checks: "\<forall>p \<in> set (map ?f ps). position_checks p" using ok same by (auto simp: same_position_def)
  have "distinct (map (\<lambda>p. (bp_portfolio p, bp_symbol p)) (filter bp_open (map ?f qs)))"
    if "distinct (map (\<lambda>p. (bp_portfolio p, bp_symbol p)) (filter bp_open qs))" "\<forall>x \<in> set qs. same_position x (?f x)" for qs
    using that
  proof (induction qs)
    case (Cons q qs)
    then have IH: "distinct (map (\<lambda>p. (bp_portfolio p, bp_symbol p)) (filter bp_open (map ?f qs)))" by (auto split: if_splits)
    have s: "bp_portfolio (?f x) = bp_portfolio x \<and> bp_symbol (?f x) = bp_symbol x \<and> (bp_open (?f x) \<longrightarrow> bp_open x)" if "x \<in> set (q # qs)" for x
      using bspec [OF Cons.prems(2) that] unfolding same_position_def by blast
    have "(bp_portfolio (?f q), bp_symbol (?f q)) \<notin> set (map (\<lambda>p. (bp_portfolio p, bp_symbol p)) (filter bp_open (map ?f qs)))"
      if "bp_open (?f q)"
    proof
      assume "(bp_portfolio (?f q), bp_symbol (?f q)) \<in> set (map (\<lambda>p. (bp_portfolio p, bp_symbol p)) (filter bp_open (map ?f qs)))"
      then obtain y where "y \<in> set qs" "bp_open (?f y)" "bp_portfolio (?f y) = bp_portfolio (?f q)" "bp_symbol (?f y) = bp_symbol (?f q)"
        by auto
      with s [of y] s [of q] that Cons.prems(1) show False by auto
    qed
    with IH show ?case by (simp del: map_map)
  qed simp
  from this [of ps] ok same ids checks show ?thesis unfolding positions_ok_def by blast
qed

text \<open>A fill that is written keeps the books in order.\<close>

lemma write_fill_ok:
  assumes "write_fill env portfolio intent smb trace t prior next (open_positions env0 db0 portfolio) db = Inr db'"
    and "books_ok db" "lv_positions db0 = lv_positions db"
  shows "books_ok db'"
proof -
  from write_fill_steps [OF assms(1)] obtain i db1 db2 db3 where s:
    "persist_position env portfolio smb t prior next (open_positions env0 db0 portfolio) db = Inr (i, db1)"
    "update_portfolio env portfolio next db1 = Inr db2" "insert_fill env portfolio intent i (last (po_fills next)) trace t db2 = Inr db3"
    "insert_book_entry env portfolio (last (po_fills next)) prior next db3 = Inr db'" .
  note ok = assms(2) [unfolded books_ok_def]
  have p: "positions_ok (lv_positions db1)" using s(1)
  proof (cases rule: persist_position_cases)
    case (updated row row')
    from find_open [OF updated(1)] assms(3) have "row \<in> set (lv_positions db)" by simp
    from positions_ok_replace [OF _ this updated(2)] ok updated(3) show ?thesis by (simp add: replace_position_def)
  next
    case (opened row)
    with positions_ok_append [of "lv_positions db" row] ok show ?thesis by simp
  qed (use ok in simp)
  from persist_position_frame [OF s(1)] obtain ps where 1: "db1 = db\<lparr>lv_positions := ps\<rparr>" ..
  from update_portfolio_Inr [OF s(2)] obtain c n g f where 2: "numeric env (po_cashUsdt next) = Inr c" "0 \<le> c" "0 \<le> f"
      "db2 = db1\<lparr>lv_portfolios := map (\<lambda>x. if lp_id x = portfolio
         then x\<lparr>lp_cash := c, lp_realized := n, lp_gross := g, lp_net := n, lp_fees := f\<rparr> else x) (lv_portfolios db1)\<rparr>" by blast
  from insert_fill_Inr [OF s(3)] obtain x where 3: "db3 = db2\<lparr>lv_fills := lv_fills db2 @ [x]\<rparr>" "fr_id x = nv_fillId env"
      "fr_intent x = intent" "intent \<notin> set (map fr_intent (lv_fills db2))" "nv_fillId env \<notin> set (map fr_id (lv_fills db2))" by auto
  from insert_book_entry_Inr [OF s(4)] obtain e where 4: "db' = db3\<lparr>lv_entries := lv_entries db3 @ [e]\<rparr>"
      "be_fill e = Some (nv_fillId env)" "be_portfolio e = portfolio" "be_balance e = c" using 2(1) by auto
  have "List.map_filter be_fill (lv_entries db @ [e]) = map fr_id (lv_fills db @ [x])"
    using ok 3(2) 4(2) by (simp add: List.map_filter_def)
  moreover have "\<forall>q \<in> set (lv_portfolios db'). 0 \<le> lp_cash q \<and> 0 \<le> lp_fees q \<and> last_balance (lv_entries db') (lp_id q) = Some (lp_cash q)"
  proof
    fix q assume "q \<in> set (lv_portfolios db')"
    then obtain q0 where q: "q0 \<in> set (lv_portfolios db)" "q = (if lp_id q0 = portfolio
         then q0\<lparr>lp_cash := c, lp_realized := n, lp_gross := g, lp_net := n, lp_fees := f\<rparr> else q0)"
      using 1 2(4) 3(1) 4(1) by auto
    have "lv_entries db' = lv_entries db @ [e]" using 1 2(4) 3(1) 4(1) by simp
    moreover have "0 \<le> lp_cash q0 \<and> 0 \<le> lp_fees q0 \<and> last_balance (lv_entries db) (lp_id q0) = Some (lp_cash q0)"
      using ok q(1) by blast
    ultimately show "0 \<le> lp_cash q \<and> 0 \<le> lp_fees q \<and> last_balance (lv_entries db') (lp_id q) = Some (lp_cash q)"
      using 2(2,3) 4(3,4) q(2) by (simp add: last_balance_append)
  qed
  moreover have "lv_positions db' = lv_positions db1" "lv_fills db' = lv_fills db @ [x]" "lv_entries db' = lv_entries db @ [e]"
      "lv_fills db2 = lv_fills db"
    using 1 2(4) 3(1) 4(1) by simp_all
  ultimately show ?thesis using ok p 3(2-5) unfolding books_ok_def by auto
qed

text \<open>Statements on other columns do not touch them.\<close>

lemma books_ok_cong:
  assumes "lv_positions db' = lv_positions db" "lv_fills db' = lv_fills db" "lv_entries db' = lv_entries db"
    and "map (\<lambda>p. (lp_id p, lp_cash p, lp_fees p)) (lv_portfolios db') = map (\<lambda>p. (lp_id p, lp_cash p, lp_fees p)) (lv_portfolios db)"
  shows "books_ok db' \<longleftrightarrow> books_ok db"
proof -
  have e: "(\<forall>p \<in> set (lv_portfolios d). 0 \<le> lp_cash p \<and> 0 \<le> lp_fees p) \<longleftrightarrow>
      (\<forall>(i, c, f) \<in> set (map (\<lambda>p. (lp_id p, lp_cash p, lp_fees p)) (lv_portfolios d)). 0 \<le> c \<and> 0 \<le> f)"
    "(\<forall>p \<in> set (lv_portfolios d). last_balance es (lp_id p) = Some (lp_cash p)) \<longleftrightarrow>
      (\<forall>(i, c, f) \<in> set (map (\<lambda>p. (lp_id p, lp_cash p, lp_fees p)) (lv_portfolios d)). last_balance es i = Some c)"
    for d :: "'z book_db_scheme" and es by auto
  show ?thesis unfolding books_ok_def assms(1-3) e assms(4) ..
qed

lemma refresh_frame: "refresh_deployment dep p t db = Inr db' \<Longrightarrow> \<exists>ds. db' = db\<lparr>lv_deployments := ds\<rparr>"
  by (auto simp: refresh_deployment_def ebind_Inr_iff split: option.split_asm)

end
