(* ===== verification/LiveBook.thy ===== *)
theory LiveBook
  imports ReconciliationStore BookTables
begin

text \<open>
  The posting of live fills (\<open>lib/live-book-posting.ts\<close>): the receipts of a live deployment are taken in
  the order of their execution; what the receipt or its reconciliation settles is booked into the
  portfolio, and the posting is noted, so that no fill is booked twice. One posting is one
  transaction on the tables of \<open>BookTables\<close>, the receipts, the reconciliations and the postings
  (migrations 0053, 0050 and 0062).
\<close>

subsection \<open>Tables\<close>

record posting_row =
  lg_id :: string
  lg_intent :: string
  lg_deployment :: string
  lg_portfolio :: string
  lg_fill :: "string option"
  lg_source :: fill_source
  lg_outcome :: execution_outcome
  lg_contradicts :: bool
  lg_settledAt :: string

record live_receipt =
  lr_id :: string
  lr_deployment :: string
  lr_intent :: string
  lr_symbol :: string
  lr_side :: string
  lr_outcome :: execution_outcome
  lr_filledQuantity :: jsnum
  lr_averagePrice :: jsnum
  lr_feeAmount :: jsnum
  lr_rejectionReason :: "string option"
  lr_executedAt :: int
  lr_trace :: "string option"
  lr_cycle :: string
  lr_round :: string

record live_db = book_db +
  lv_postings :: "posting_row list"
  lv_receipts :: "live_receipt list"
  lv_reconciliations :: table

record live_env = book_env +
  nv_postingId :: string

subsection \<open>The next receipt and what it settles\<close>

definition live_portfolio :: "live_db \<Rightarrow> string \<Rightarrow> portfolio_row option" where
  "live_portfolio db dep = find (\<lambda>p. lp_book p = ''live''
     \<and> list_ex (\<lambda>d. ld_id d = dep \<and> ld_mode d = ''live'' \<and> ld_portfolio d = Some (lp_id p)) (lv_deployments db)) (lv_portfolios db)"

definition is_posted :: "live_db \<Rightarrow> string \<Rightarrow> bool" where
  "is_posted db i \<longleftrightarrow> list_ex (\<lambda>p. lg_intent p = i) (lv_postings db)"

definition receipt_le :: "live_env \<Rightarrow> live_receipt \<Rightarrow> live_receipt \<Rightarrow> bool" where
  "receipt_le env a b \<longleftrightarrow> lr_executedAt a < lr_executedAt b
     \<or> lr_executedAt a = lr_executedAt b \<and> nv_text_le env (lr_id a) (lr_id b)"

definition next_receipt :: "live_env \<Rightarrow> live_db \<Rightarrow> string \<Rightarrow> live_receipt option" where
  "next_receipt env db dep = (case sort_by (receipt_le env)
       (filter (\<lambda>r. lr_deployment r = dep \<and> \<not> is_posted db (lr_intent r)) (lv_receipts db)) of
     [] \<Rightarrow> None | r # _ \<Rightarrow> Some r)"

definition receipt_facts :: "live_receipt \<Rightarrow> receipt_snapshot" where
  "receipt_facts r = \<lparr>rs_outcome = lr_outcome r, rs_filledQuantity = lr_filledQuantity r,
     rs_averagePrice = lr_averagePrice r, rs_feeAmount = lr_feeAmount r,
     rs_rejectionReason = lr_rejectionReason r, rs_executedAt = iso_text (lr_executedAt r)\<rparr>"

definition reconciliation_facts :: "reconciliation_row \<Rightarrow> reconciliation_snapshot" where
  "reconciliation_facts q = \<lparr>sn_status = rr_status q, sn_resolvedOutcome = rr_resolvedOutcome q,
     sn_filledQuantity = rr_filledQuantity q, sn_averagePrice = rr_averagePrice q,
     sn_feeAmount = rr_feeAmount q, sn_rejectionReason = rr_rejectionReason q,
     sn_resolvedAt = map_option iso_text (rr_resolvedAt q), sn_acknowledgedAt = map_option iso_text (rr_acknowledgedAt q)\<rparr>"

text \<open>The join takes the reconciliation of the receipt's intent, of which there is at most one.\<close>

definition toEffective :: "live_db \<Rightarrow> live_receipt \<Rightarrow> effective_fill" where
  "toEffective db r = resolveEffectiveFill (receipt_facts r)
     (map_option reconciliation_facts (find (\<lambda>q. rr_intentId q = Some (lr_intent r)) (lv_reconciliations db)))"

subsection \<open>The portfolio from its rows\<close>

definition book_state :: "portfolio_row \<Rightarrow> position_row list \<Rightarrow> portfolio_state" where
  "book_state p rows = \<lparr>po_strategyCode = lp_strategyCode p, po_access = lp_access p,
     po_principalUsdt = js_of (lp_principal p), po_cashUsdt = js_of (lp_cash p),
     po_equityUsdt = js_of (lp_cash p) + js_sum (N 0) (map (\<lambda>x. js_of (bp_costBasis x)) rows),
     po_realizedGrossPnlUsdt = js_of (lp_gross p), po_realizedNetPnlUsdt = js_of (lp_net p),
     po_realizedPnlUsdt = js_of (lp_net p), po_unrealizedPnlUsdt = N 0, po_feesUsdt = js_of (lp_fees p),
     po_positions = map (\<lambda>x. \<lparr>pp_symbol = bp_symbol x, pp_quantity = js_of (bp_quantity x),
       pp_averageEntryPrice = js_of (bp_averageEntryPrice x), pp_costBasisUsdt = js_of (bp_costBasis x),
       pp_entryFeesUsdt = js_of (bp_entryFees x), pp_marketPrice = js_of (bp_lastMarkPrice x),
       pp_marketValueUsdt = js_of (bp_costBasis x), pp_unrealizedPnlUsdt = N 0\<rparr>) rows,
     po_fills = []\<rparr>"

definition live_booking :: "live_receipt \<Rightarrow> settled_fill \<Rightarrow> fill_booking" where
  "live_booking r f = \<lparr>fb_action = lr_side r, fb_symbol = lr_symbol r, fb_fillPrice = sf_averagePrice f,
     fb_quoteAmountUsdt = (if lr_side r = ''buy'' then Some (sf_filledQuantity f * sf_averagePrice f) else None),
     fb_quantity = (if lr_side r = ''sell'' then Some (sf_filledQuantity f) else None),
     fb_feeRate = None, fb_feeUsdt = Some (sf_feeAmount f), fb_filledAt = sf_settledAt f\<rparr>"

subsection \<open>Writing\<close>

definition source_text :: "fill_source \<Rightarrow> string" where
  "source_text x = (case x of FromReceipt \<Rightarrow> ''receipt'' | FromReconciliation \<Rightarrow> ''reconciliation'')"

definition insert_order :: "live_env \<Rightarrow> live_receipt \<Rightarrow> string \<Rightarrow> settled_fill \<Rightarrow> live_db \<Rightarrow> (string, live_db) result" where
  "insert_order env r portfolio f db =
     ebind (numeric env (sf_averagePrice f)) (\<lambda>price.
        if list_ex (\<lambda>o'. bo_id o' = lr_intent r) (lv_orders db) then Inr db
        else if list_ex (\<lambda>o'. bo_key o' = ''live:'' @ lr_intent r) (lv_orders db) then Inl ''CONSTRAINT''
        else Inr (db\<lparr>lv_orders := lv_orders db @ [\<lparr>bo_id = lr_intent r, bo_portfolio = portfolio,
               bo_deployment = lr_deployment r, bo_cycle = lr_cycle r, bo_key = ''live:'' @ lr_intent r, bo_symbol = lr_symbol r,
               bo_action = lr_side r, bo_timing = ''live_market'', bo_price = Some price, bo_status = ''filled'',
               bo_rejection = None, bo_payload = [(''source'', JStr (source_text (sf_source f))), (''decisionRoundId'', JStr (lr_round r)),
                 (''filledQuantity'', number_json (sf_filledQuantity f)), (''feeUsdt'', number_json (sf_feeAmount f))],
               bo_createdAt = nv_now env\<rparr>]\<rparr>))"

definition persistFill ::
    "live_env \<Rightarrow> string \<Rightarrow> live_receipt \<Rightarrow> int \<Rightarrow> portfolio_state \<Rightarrow> portfolio_state \<Rightarrow> position_row list \<Rightarrow> live_db
     \<Rightarrow> (string, live_db) result" where
  "persistFill env portfolio r t prior next rows db =
     write_fill env portfolio (lr_intent r) (lr_symbol r)
       (case lr_trace r of None \<Rightarrow> ''live-post:'' @ lr_intent r | Some x \<Rightarrow> x) t prior next rows db"

definition recordPosting ::
    "live_env \<Rightarrow> string \<Rightarrow> string \<Rightarrow> string option \<Rightarrow> settled_fill \<Rightarrow> string \<Rightarrow> live_db \<Rightarrow> (string, live_db) result" where
  "recordPosting env intent portfolio receipt f dep db =
     checked (((sf_outcome f = OutFilled \<or> sf_outcome f = OutPartial) \<longleftrightarrow> receipt \<noteq> None)
         \<and> \<not> list_ex (\<lambda>p. lg_id p = nv_postingId env \<or> lg_intent p = intent) (lv_postings db))
       (db\<lparr>lv_postings := lv_postings db @ [\<lparr>lg_id = nv_postingId env, lg_intent = intent, lg_deployment = dep,
          lg_portfolio = portfolio, lg_fill = receipt, lg_source = sf_source f, lg_outcome = sf_outcome f,
          lg_contradicts = contradictsReceipt f, lg_settledAt = sf_settledAt f\<rparr>]\<rparr>)"

subsection \<open>Posting\<close>

datatype live_posting = Posted string string string | Skipped string execution_outcome

definition post_settled ::
    "live_env \<Rightarrow> string \<Rightarrow> portfolio_row \<Rightarrow> live_receipt \<Rightarrow> settled_fill \<Rightarrow> live_db \<Rightarrow> (string, live_posting \<times> live_db) result" where
  "post_settled env dep p r f db =
     (if \<not> isBookableFill (Settled f)
      then ebind (recordPosting env (lr_intent r) (lp_id p) None f dep db) (\<lambda>db1. Inr (Skipped (lr_intent r) (sf_outcome f), db1))
      else let rows = open_positions env db (lp_id p); prior = book_state p rows in
        ebind (applyOfficialPaperFill prior (live_booking r f)) (\<lambda>next.
        ebind (insert_order env r (lp_id p) f db) (\<lambda>db1.
        case to_date (date_parse (sf_settledAt f)) of
          None \<Rightarrow> Inl ''CONSTRAINT''
        | Some t \<Rightarrow>
            ebind (persistFill env (lp_id p) r t prior next rows db1) (\<lambda>db2.
            ebind (recordPosting env (lr_intent r) (lp_id p) (Some (nv_fillId env)) f dep db2) (\<lambda>db3.
            ebind (refresh_deployment dep (lp_id p) t db3) (\<lambda>db4.
              Inr (Posted (lr_intent r) (nv_fillId env) (lp_id p), db4)))))))"

definition postNextLiveFill :: "live_env \<Rightarrow> string \<Rightarrow> live_db \<Rightarrow> (string, live_posting option \<times> live_db) result" where
  "postNextLiveFill env dep db = (case (live_portfolio db dep, next_receipt env db dep) of
     (Some p, Some r) \<Rightarrow> (case toEffective db r of
         Unsettled _ \<Rightarrow> Inr (None, db)
       | Settled f \<Rightarrow> ebind (post_settled env dep p r f db) (\<lambda>(x, db'). Inr (Some x, db')))
   | _ \<Rightarrow> Inr (None, db))"

text \<open>The loop: one transaction each, to the first that posts nothing or throws.\<close>

fun post_each :: "live_env list \<Rightarrow> string \<Rightarrow> live_db \<Rightarrow> (string, live_posting list) result \<times> live_db" where
  "post_each [] dep db = (Inr [], db)"
| "post_each (env # rest) dep db = (case postNextLiveFill env dep db of
     Inl e \<Rightarrow> (Inl e, db)
   | Inr (None, db') \<Rightarrow> (Inr [], db')
   | Inr (Some x, db') \<Rightarrow> (case post_each rest dep db' of
         (Inl e, db'') \<Rightarrow> (Inl e, db'') | (Inr xs, db'') \<Rightarrow> (Inr (x # xs), db'')))"

definition postLiveFillsToBook ::
    "(nat \<Rightarrow> live_env) \<Rightarrow> string \<Rightarrow> nat option \<Rightarrow> live_db \<Rightarrow> (string, live_posting list) result \<times> live_db" where
  "postLiveFillsToBook envs dep limit db =
     post_each (map envs [0..<(case limit of None \<Rightarrow> 50 | Some n \<Rightarrow> n)]) dep db"

subsection \<open>What a posting changes\<close>

lemma insert_order_frame: "insert_order env r p f db = Inr db' \<Longrightarrow> \<exists>os. db' = db\<lparr>lv_orders := os\<rparr>"
proof (cases "list_ex (\<lambda>o'. bo_id o' = lr_intent r) (lv_orders db)")
  case True
  assume "insert_order env r p f db = Inr db'"
  with True have "db' = db\<lparr>lv_orders := lv_orders db\<rparr>" by (auto simp: insert_order_def ebind_Inr_iff)
  then show ?thesis ..
qed (auto simp: insert_order_def ebind_Inr_iff split: if_split_asm)

lemma recordPosting_frame:
  "recordPosting env intent p receipt f dep db = Inr db' \<Longrightarrow> \<exists>g. db' = db\<lparr>lv_postings := lv_postings db @ [g]\<rparr>
     \<and> lg_intent g = intent \<and> lg_fill g = receipt \<and> lg_outcome g = sf_outcome f \<and> intent \<notin> set (map lg_intent (lv_postings db))
     \<and> ((sf_outcome f = OutFilled \<or> sf_outcome f = OutPartial) \<longleftrightarrow> receipt \<noteq> None)"
  by (auto simp: recordPosting_def checked_Inr list_ex_iff)

lemma persistFill_frame:
  assumes "persistFill env p r t prior next rows db = Inr db'"
  shows "lv_receipts db' = lv_receipts db \<and> lv_reconciliations db' = lv_reconciliations db \<and> lv_postings db' = lv_postings db
    \<and> (\<exists>x. lv_fills db' = lv_fills db @ [x] \<and> fr_id x = nv_fillId env \<and> fr_intent x = lr_intent r
         \<and> lr_intent r \<notin> set (map fr_intent (lv_fills db)))"
  using assms unfolding persistFill_def by (rule write_fill_frame) simp

lemma post_settled_cases:
  assumes "post_settled env dep p r f db = Inr (x, db')"
  obtains (skipped) g where "lv_receipts db' = lv_receipts db" "lv_reconciliations db' = lv_reconciliations db"
      "lv_postings db' = lv_postings db @ [g]" "lg_intent g = lr_intent r" "lg_fill g = None" "lv_fills db' = lv_fills db"
      "lr_intent r \<notin> set (map lg_intent (lv_postings db))" "\<not> (lg_outcome g = OutFilled \<or> lg_outcome g = OutPartial)"
      "x = Skipped (lr_intent r) (sf_outcome f)" "\<not> isBookableFill (Settled f)"
    | (posted) g y where "lv_receipts db' = lv_receipts db" "lv_reconciliations db' = lv_reconciliations db"
      "lv_postings db' = lv_postings db @ [g]" "lg_intent g = lr_intent r" "lg_fill g = Some (fr_id y)"
      "lv_fills db' = lv_fills db @ [y]" "fr_intent y = lr_intent r" "lr_intent r \<notin> set (map lg_intent (lv_postings db))"
      "lr_intent r \<notin> set (map fr_intent (lv_fills db))" "lg_outcome g = OutFilled \<or> lg_outcome g = OutPartial"
      "x = Posted (lr_intent r) (fr_id y) (lp_id p)"
proof (cases "isBookableFill (Settled f)")
  case False
  then have "recordPosting env (lr_intent r) (lp_id p) None f dep db = Inr db'" "x = Skipped (lr_intent r) (sf_outcome f)"
    using assms by (auto simp: post_settled_def ebind_Inr_iff)
  with False recordPosting_frame [OF this(1)] show ?thesis by (auto intro!: skipped)
next
  case True
  let ?rows = "open_positions env db (lp_id p)"
  obtain nxt db1 t db2 db3 where s: "insert_order env r (lp_id p) f db = Inr db1"
      "persistFill env (lp_id p) r t (book_state p ?rows) nxt ?rows db1 = Inr db2"
      "recordPosting env (lr_intent r) (lp_id p) (Some (nv_fillId env)) f dep db2 = Inr db3"
      "refresh_deployment dep (lp_id p) t db3 = Inr db'" "x = Posted (lr_intent r) (nv_fillId env) (lp_id p)"
    using assms True by (auto simp: post_settled_def Let_def ebind_Inr_iff split: option.split_asm)
  obtain g where g: "db3 = db2\<lparr>lv_postings := lv_postings db2 @ [g]\<rparr>" "lg_intent g = lr_intent r"
      "lg_fill g = Some (nv_fillId env)" "lg_outcome g = sf_outcome f" "lr_intent r \<notin> set (map lg_intent (lv_postings db2))"
      "sf_outcome f = OutFilled \<or> sf_outcome f = OutPartial"
    using recordPosting_frame [OF s(3)] by auto
  obtain y where y: "lv_fills db2 = lv_fills db1 @ [y]" "fr_id y = nv_fillId env" "fr_intent y = lr_intent r"
      "lr_intent r \<notin> set (map fr_intent (lv_fills db1))" "lv_receipts db2 = lv_receipts db1"
      "lv_reconciliations db2 = lv_reconciliations db1" "lv_postings db2 = lv_postings db1"
    using persistFill_frame [OF s(2)] by auto
  from insert_order_frame [OF s(1)] refresh_frame [OF s(4)] g y s(5) show ?thesis
    by (auto intro!: posted)
qed

text \<open>A posting keeps the books in order.\<close>

lemma post_settled_ok:
  assumes "post_settled env dep p r f db = Inr (x, db')" "books_ok db"
  shows "books_ok db'"
proof (cases "isBookableFill (Settled f)")
  case False
  then have "recordPosting env (lr_intent r) (lp_id p) None f dep db = Inr db'"
    using assms by (auto simp: post_settled_def ebind_Inr_iff)
  from recordPosting_frame [OF this] obtain gs where "db' = db\<lparr>lv_postings := gs\<rparr>" by blast
  then show ?thesis by (intro books_ok_cong [THEN iffD2, OF _ _ _ _ assms(2)]) simp_all
next
  case True
  let ?rows = "open_positions env db (lp_id p)"
  obtain nxt db1 t db2 db3 where s: "insert_order env r (lp_id p) f db = Inr db1"
      "persistFill env (lp_id p) r t (book_state p ?rows) nxt ?rows db1 = Inr db2"
      "recordPosting env (lr_intent r) (lp_id p) (Some (nv_fillId env)) f dep db2 = Inr db3"
      "refresh_deployment dep (lp_id p) t db3 = Inr db'"
    using assms True by (auto simp: post_settled_def Let_def ebind_Inr_iff split: option.split_asm)
  obtain os where o: "db1 = db\<lparr>lv_orders := os\<rparr>" using insert_order_frame [OF s(1)] by blast
  then have "books_ok db1" by (intro books_ok_cong [THEN iffD2, OF _ _ _ _ assms(2)]) simp_all
  from write_fill_ok [OF s(2) [unfolded persistFill_def] this] o have ok: "books_ok db2" by simp
  obtain gs ds where "db3 = db2\<lparr>lv_postings := gs\<rparr>" "db' = db3\<lparr>lv_deployments := ds\<rparr>"
    using recordPosting_frame [OF s(3)] refresh_frame [OF s(4)] by blast
  then show ?thesis by (intro books_ok_cong [THEN iffD2, OF _ _ _ _ ok]) simp_all
qed

subsection \<open>Order\<close>

definition text_order :: "(string \<Rightarrow> string \<Rightarrow> bool) \<Rightarrow> bool" where
  "text_order le \<longleftrightarrow> (\<forall>a b. le a b \<or> le b a) \<and> (\<forall>a b c. le a b \<longrightarrow> le b c \<longrightarrow> le a c)"

lemma sort_by_head:
  assumes "\<And>a b. le a b \<or> le b a" "\<And>a b c. le a b \<Longrightarrow> le b c \<Longrightarrow> le a c"
  shows "sort_by le xs = x # ys \<Longrightarrow> \<forall>y \<in> set xs. le x y"
proof (induction xs arbitrary: x ys)
  case (Cons a xs)
  have s: "sort_by le (a # xs) = insert_by le a (sort_by le xs)" by (simp add: sort_by_def)
  show ?case
  proof (cases "sort_by le xs")
    case Nil
    then have "xs = []" using sort_by_set [of le xs] by auto
    with Cons.prems Nil s assms(1) [of a a] show ?thesis by auto
  next
    case (Cons b bs)
    with Cons.IH [OF Cons] have b: "\<forall>y \<in> set xs. le b y" by simp
    show ?thesis
    proof (cases "le a b")
      case True
      with Cons.prems s Cons have "x = a" by simp
      with b True assms show ?thesis by auto
    next
      case False
      with Cons.prems s Cons have "x = b" by simp
      with b False assms(1) [of a b] show ?thesis by auto
    qed
  qed
qed (simp add: sort_by_def)

lemma receipt_order:
  assumes "text_order (nv_text_le env)"
  shows "receipt_le env a b \<or> receipt_le env b a" "receipt_le env a b \<Longrightarrow> receipt_le env b c \<Longrightarrow> receipt_le env a c"
proof -
  note t = assms [unfolded text_order_def]
  show "receipt_le env a b \<or> receipt_le env b a"
    using t [THEN conjunct1, rule_format, of "lr_id a" "lr_id b"] by (auto simp: receipt_le_def)
  show "receipt_le env a b \<Longrightarrow> receipt_le env b c \<Longrightarrow> receipt_le env a c"
    using t [THEN conjunct2, rule_format, of "lr_id a" "lr_id b" "lr_id c"] by (auto simp: receipt_le_def)
qed

lemma next_receipt_first:
  assumes "next_receipt env db dep = Some r" "text_order (nv_text_le env)"
  shows "r \<in> set (lv_receipts db)" "lr_deployment r = dep" "\<not> is_posted db (lr_intent r)"
    and "q \<in> set (lv_receipts db) \<Longrightarrow> lr_deployment q = dep \<Longrightarrow> \<not> is_posted db (lr_intent q) \<Longrightarrow> receipt_le env r q"
proof -
  let ?l = "filter (\<lambda>r. lr_deployment r = dep \<and> \<not> is_posted db (lr_intent r)) (lv_receipts db)"
  obtain ys where ys: "sort_by (receipt_le env) ?l = r # ys" using assms(1) by (auto simp: next_receipt_def split: list.split_asm)
  then have "r \<in> set ?l" using sort_by_set [of "receipt_le env" ?l] by auto
  then show "r \<in> set (lv_receipts db)" "lr_deployment r = dep" "\<not> is_posted db (lr_intent r)" by auto
  show "receipt_le env r q" if "q \<in> set (lv_receipts db)" "lr_deployment q = dep" "\<not> is_posted db (lr_intent q)"
    using sort_by_head [OF receipt_order [OF assms(2)] ys] that by auto
qed

lemma is_posted_append: "lv_postings db' = lv_postings db @ [g] \<Longrightarrow> is_posted db' i \<longleftrightarrow> is_posted db i \<or> lg_intent g = i"
  by (auto simp: is_posted_def)

lemma post_next_step:
  assumes "postNextLiveFill env dep db = Inr (Some x, db')"
  obtains p r f where "next_receipt env db dep = Some r" "toEffective db r = Settled f" "live_portfolio db dep = Some p"
    "post_settled env dep p r f db = Inr (x, db')"
  using assms by (auto simp: postNextLiveFill_def ebind_Inr_iff split: option.split_asm effective_fill.split_asm)

lemma post_next_none: "postNextLiveFill env dep db = Inr (None, db') \<Longrightarrow> db' = db"
  by (auto simp: postNextLiveFill_def ebind_Inr_iff split: option.split_asm effective_fill.split_asm)

lemma post_settled_frame:
  assumes "post_settled env dep p r f db = Inr (x, db')"
  shows "lv_receipts db' = lv_receipts db" "lv_reconciliations db' = lv_reconciliations db"
    "is_posted db' i \<longleftrightarrow> is_posted db i \<or> lr_intent r = i"
  using assms by (cases rule: post_settled_cases; use is_posted_append in fastforce)+

text \<open>One run of the loop by its steps.\<close>

inductive posts_to :: "string \<Rightarrow> (string \<Rightarrow> string \<Rightarrow> bool) \<Rightarrow> live_db \<Rightarrow> live_db \<Rightarrow> bool" for dep le where
  posts_none: "posts_to dep le db db"
| posts_step: "nv_text_le env = le \<Longrightarrow> postNextLiveFill env dep db = Inr (Some x, db1) \<Longrightarrow> posts_to dep le db1 db'
    \<Longrightarrow> posts_to dep le db db'"

lemma post_each_posts: "\<forall>env \<in> set envs. nv_text_le env = le \<Longrightarrow> posts_to dep le db (snd (post_each envs dep db))"
proof (induction envs arbitrary: db)
  case (Cons env rest)
  show ?case
  proof (cases "postNextLiveFill env dep db")
    case (Inr y)
    then obtain o' db1 where o: "postNextLiveFill env dep db = Inr (o', db1)" by (cases y) auto
    show ?thesis
    proof (cases o')
      case None
      with o have "db1 = db" using post_next_none by blast
      with o None show ?thesis by (auto intro: posts_none)
    next
      case (Some x)
      have "posts_to dep le db (snd (post_each rest dep db1))"
        using posts_step [OF _ o [unfolded Some]] Cons by simp
      with o Some show ?thesis by (auto split: sum.split prod.split)
    qed
  qed (auto intro: posts_none)
qed (auto intro: posts_none)

lemma posts_to_frame:
  "posts_to dep le db db' \<Longrightarrow> lv_receipts db' = lv_receipts db \<and> lv_reconciliations db' = lv_reconciliations db
     \<and> (is_posted db i \<longrightarrow> is_posted db' i)"
proof (induction rule: posts_to.induct)
  case (posts_step env db x db1 db')
  from posts_step(2) obtain p r f where "post_settled env dep p r f db = Inr (x, db1)" by (rule post_next_step)
  from post_settled_frame [OF this] posts_step(4) show ?case by simp
qed simp

lemma toEffective_frame:
  "lv_reconciliations db' = lv_reconciliations db \<Longrightarrow> toEffective db' r = toEffective db r"
  by (simp add: toEffective_def)

lemma posts_in_order:
  assumes "posts_to dep le db db'" "text_order le" "distinct (map lr_intent (lv_receipts db))"
    and "r \<in> set (lv_receipts db)" "lr_deployment r = dep" "is_posted db' (lr_intent r)" "\<not> is_posted db (lr_intent r)"
    and "q \<in> set (lv_receipts db)" "lr_deployment q = dep" "nv_text_le env = le" "\<not> receipt_le env r q"
  shows "is_posted db' (lr_intent q) \<and> (\<exists>f. toEffective db r = Settled f)"
  using assms
proof (induction rule: posts_to.induct)
  case (posts_step env' db x db1 db')
  from posts_step(2) obtain p s f where s: "next_receipt env' db dep = Some s" "toEffective db s = Settled f"
      "live_portfolio db dep = Some p" "post_settled env' dep p s f db = Inr (x, db1)" by (rule post_next_step)
  note fr = post_settled_frame [OF s(4)]
  have to: "text_order (nv_text_le env')" using posts_step(1,5) by simp
  note first = next_receipt_first [OF s(1) to]
  show ?case
  proof (cases "s = r")
    case True
    have le: "receipt_le env' = receipt_le env" using posts_step(1,13) by (simp add: receipt_le_def [abs_def])
    have "is_posted db (lr_intent q)"
      using first(4) [of q] posts_step(11,12,14) True le by auto
    moreover have "is_posted db1 (lr_intent q)" using calculation fr(3) by simp
    ultimately show ?thesis using posts_to_frame [OF posts_step(3)] s(2) True by blast
  next
    case False
    then have "lr_intent s \<noteq> lr_intent r" using first(1) posts_step(6,7) by (auto simp: distinct_map inj_on_def)
    then have "\<not> is_posted db1 (lr_intent r)" using posts_step(10) fr(3) by simp
    then show ?thesis using posts_step fr toEffective_frame [OF fr(2)] by simp
  qed
qed simp


lemma post_each_ok: "books_ok db \<Longrightarrow> books_ok (snd (post_each envs dep db))"
proof (induction envs arbitrary: db)
  case (Cons env rest)
  show ?case
  proof (cases "postNextLiveFill env dep db")
    case (Inr y)
    then obtain o' db1 where o: "postNextLiveFill env dep db = Inr (o', db1)" by (cases y) auto
    show ?thesis
    proof (cases o')
      case None
      with o have "db1 = db" using post_next_none by blast
      with o None Cons.prems show ?thesis by simp
    next
      case (Some x)
      with o have "postNextLiveFill env dep db = Inr (Some x, db1)" by simp
      then obtain p r f where "post_settled env dep p r f db = Inr (x, db1)" by (rule post_next_step)
      from Cons.IH [OF post_settled_ok [OF this Cons.prems]] o Some show ?thesis by (auto split: sum.split prod.split)
    qed
  qed (use Cons.prems in simp)
qed simp

lemma live_posting_ok: "books_ok db \<Longrightarrow> books_ok (snd (postLiveFillsToBook envs dep limit db))"
  unfolding postLiveFillsToBook_def by (rule post_each_ok)

subsection \<open>Once\<close>

definition postings_ok :: "live_db \<Rightarrow> bool" where
  "postings_ok db \<longleftrightarrow> distinct (map lg_intent (lv_postings db)) \<and> distinct (map fr_intent (lv_fills db))
     \<and> (\<forall>g \<in> set (lv_postings db).
          ((lg_outcome g = OutFilled \<or> lg_outcome g = OutPartial) \<longleftrightarrow> lg_fill g \<noteq> None)
          \<and> (\<forall>i. lg_fill g = Some i \<longrightarrow> (\<exists>y \<in> set (lv_fills db). fr_id y = i \<and> fr_intent y = lg_intent g)))"

definition posted_fills :: "posting_row list \<Rightarrow> string list" where
  "posted_fills gs = map lg_intent (filter (\<lambda>g. lg_fill g \<noteq> None) gs)"

lemma posts_once:
  "posts_to dep le db db' \<Longrightarrow> postings_ok db \<Longrightarrow> postings_ok db'
     \<and> (\<exists>gs ys. lv_postings db' = lv_postings db @ gs \<and> lv_fills db' = lv_fills db @ ys \<and> map fr_intent ys = posted_fills gs)"
proof (induction rule: posts_to.induct)
  case (posts_none db)
  then show ?case by (simp add: posted_fills_def)
next
  case (posts_step env db x db1 db')
  from posts_step(2) obtain p r f where "post_settled env dep p r f db = Inr (x, db1)" by (rule post_next_step)
  then have "postings_ok db1 \<and> (\<exists>gs ys. lv_postings db1 = lv_postings db @ gs \<and> lv_fills db1 = lv_fills db @ ys
      \<and> map fr_intent ys = posted_fills gs)"
  proof (cases rule: post_settled_cases)
    case (skipped g)
    then show ?thesis using posts_step(5) by (auto simp: postings_ok_def posted_fills_def)
  next
    case (posted g y)
    then have "postings_ok db1" using posts_step(5) by (auto simp: postings_ok_def)
    then show ?thesis using posted by (auto simp: posted_fills_def)
  qed
  then obtain gs ys where 1: "postings_ok db1" "lv_postings db1 = lv_postings db @ gs" "lv_fills db1 = lv_fills db @ ys"
      "map fr_intent ys = posted_fills gs" by blast
  with posts_step.IH obtain gs' ys' where 2: "postings_ok db'" "lv_postings db' = lv_postings db1 @ gs'"
      "lv_fills db' = lv_fills db1 @ ys'" "map fr_intent ys' = posted_fills gs'" by blast
  have "lv_postings db' = lv_postings db @ (gs @ gs')" "lv_fills db' = lv_fills db @ (ys @ ys')"
      "map fr_intent (ys @ ys') = posted_fills (gs @ gs')"
    using 1 2 by (simp_all add: posted_fills_def)
  with 2(1) show ?case by blast
qed

text \<open>C20. No fill is booked twice: however often the worker runs, an intent has one posting and at most one
fill in the books, a posting has a fill exactly when it says that something was filled, and a run
adds exactly the fills that its new postings name.\<close>

theorem each_fill_booked_once:
  assumes "postings_ok db" "\<forall>k. nv_text_le (envs k) = le"
  shows "postings_ok (snd (postLiveFillsToBook envs dep limit db))
    \<and> (\<exists>gs ys. lv_postings (snd (postLiveFillsToBook envs dep limit db)) = lv_postings db @ gs
         \<and> lv_fills (snd (postLiveFillsToBook envs dep limit db)) = lv_fills db @ ys \<and> map fr_intent ys = posted_fills gs)"
proof -
  have "posts_to dep le db (snd (postLiveFillsToBook envs dep limit db))"
    unfolding postLiveFillsToBook_def using assms(2) by (intro post_each_posts) simp
  from posts_once [OF this assms(1)] show ?thesis .
qed

subsection \<open>A fill that the books refuse\<close>

lemma refused_blocks:
  assumes "live_portfolio db dep = Some p" "next_receipt (envs 0) db dep = Some r" "toEffective db r = Settled f"
    and "isBookableFill (Settled f)"
    and "applyOfficialPaperFill (book_state p (open_positions (envs 0) db (lp_id p))) (live_booking r f) = Inl e" "limit \<noteq> Some 0"
  shows "postLiveFillsToBook envs dep limit db = (Inl e, db)"
proof -
  have "postNextLiveFill (envs 0) dep db = Inl e"
    using assms(1-5) by (simp add: postNextLiveFill_def post_settled_def Let_def)
  moreover have "\<exists>rest. map envs [0..<(case limit of None \<Rightarrow> 50 | Some n \<Rightarrow> n)] = envs 0 # rest"
    using assms(6) by (cases limit) (auto simp: upt_rec)
  ultimately show ?thesis by (auto simp: postLiveFillsToBook_def)
qed

text \<open>C22. A buy that the exchange has executed is not booked once the portfolio may only be closed: the
posting throws, changes nothing, and so does every later run, with every fill behind it.\<close>

theorem closed_access_blocks_book:
  assumes "live_portfolio db dep = Some p" "next_receipt (envs 0) db dep = Some r" "toEffective db r = Settled f"
    and "isBookableFill (Settled f)" "lr_side r = ''buy''" "lp_access p \<noteq> AccessActive"
    and "lr_symbol r \<in> set (df_symbols (officialTradingHallStrategies (lp_strategyCode p)))" "is_finite (sf_averagePrice f)"
    and "is_finite (sf_feeAmount f)" "N 0 \<le> sf_feeAmount f" "is_finite (date_parse (sf_settledAt f))" "limit \<noteq> Some 0"
  shows "postLiveFillsToBook envs dep limit db = (Inl ''CLOSE_ONLY'', db)"
proof (rule refused_blocks [where envs = envs, OF assms(1-4) _ assms(12)])
  have "N 0 < sf_averagePrice f" using assms(4) by (simp add: isBookableFill_def)
  moreover have "\<not> sf_feeAmount f < N 0" using assms(10) by (auto simp: js_not_less)
  moreover have "\<not> sf_averagePrice f \<le> N 0" using calculation(1) assms(8) by (auto simp: is_finite_iff)
  ultimately show "applyOfficialPaperFill (book_state p (open_positions (envs 0) db (lp_id p))) (live_booking r f) = Inl ''CLOSE_ONLY''"
    using assms(5-9,11) by (simp add: applyOfficialPaperFill_def book_state_def live_booking_def fee_checked_def
        portfolio_positive_def book_buy_def)
qed

subsection \<open>A sample deployment\<close>

definition sample_live_env :: "nat \<Rightarrow> live_env" where
  "sample_live_env k = \<lparr>nv_decimal = (\<lambda>x. case x of N a \<Rightarrow> Some a | _ \<Rightarrow> None), nv_column = Some, nv_text_le = (\<lambda>a b. True),
     nv_positionId = ''n'' @ replicate k (CHR ''x''), nv_fillId = ''f'' @ replicate k (CHR ''x''),
     nv_entryId = ''e'' @ replicate k (CHR ''x''), nv_now = 0,
     nv_postingId = ''g'' @ replicate k (CHR ''x'')\<rparr>"

definition sample_receipt :: "string \<Rightarrow> execution_outcome \<Rightarrow> int \<Rightarrow> live_receipt" where
  "sample_receipt i out t = \<lparr>lr_id = i, lr_deployment = ''d1'', lr_intent = i, lr_symbol = ''BTCUSDT'', lr_side = ''buy'',
     lr_outcome = out, lr_filledQuantity = N 10, lr_averagePrice = N 100, lr_feeAmount = N 1,
     lr_rejectionReason = Some ''x'', lr_executedAt = t, lr_trace = None,
     lr_cycle = ''c1'', lr_round = ''o1''\<rparr>"

definition sample_deployment :: deployment_row where
  "sample_deployment = \<lparr>ld_id = ''d1'', ld_owner = ''u1'', ld_strategy = ''s1'', ld_version = ''v1'', ld_subscription = None,
       ld_account = None, ld_validationLabel = ''UNVERIFIED'', ld_positionSizePct = None, ld_stopLossPct = None, ld_key = ''k1'', ld_createdAt = 0, ld_mode = ''live'', ld_product = ''spot_usdt'', ld_portfolio = Some ''p1'',
     ld_strategyCode = Some AiBalanced, ld_membership = Some ''m1'', ld_status = Active, ld_nextCycleAt = 0, ld_leaseOwner = None,
     ld_leaseExpiresAt = None, ld_fencing = 0, ld_sequence = 0, ld_lastCandle = None, ld_errorCode = None, ld_risk = []\<rparr>"

definition sample_live_db :: "portfolio_access \<Rightarrow> live_receipt list \<Rightarrow> live_db" where
  "sample_live_db a rs = \<lparr>lv_memberships = [], lv_users = [], lv_attributions = [], lv_stops = [], lv_deployments = [sample_deployment],
     lv_portfolios = [\<lparr>lp_id = ''p1'', lp_membership = ''m1'', lp_customer = ''u1'', lp_strategyCode = AiBalanced, lp_access = a,
       lp_book = ''live'', lp_principal = 10000, lp_cash = 10000, lp_realized = 0, lp_gross = 0, lp_net = 0, lp_fees = 0, lp_risk = []\<rparr>],
     lv_positions = [], lv_orders = [], lv_fills = [], lv_entries = [], lv_postings = [], lv_receipts = rs,
     lv_reconciliations = []\<rparr>"

theorem closed_access_blocks_book_witness:
  "postLiveFillsToBook sample_live_env ''d1'' None (sample_live_db CloseOnly [sample_receipt ''i1'' OutFilled 0])
    = (Inl ''CLOSE_ONLY'', sample_live_db CloseOnly [sample_receipt ''i1'' OutFilled 0])"
proof -
  let ?db = "sample_live_db CloseOnly [sample_receipt ''i1'' OutFilled 0]"
  obtain p where p: "live_portfolio ?db ''d1'' = Some p" "lp_access p = CloseOnly" "lp_strategyCode p = AiBalanced"
    by (auto simp: live_portfolio_def sample_live_db_def sample_deployment_def)
  have r: "next_receipt (sample_live_env 0) ?db ''d1'' = Some (sample_receipt ''i1'' OutFilled 0)"
    by (simp add: next_receipt_def sample_live_db_def sample_deployment_def is_posted_def sort_by_def) (simp add: sample_receipt_def)
  obtain f where f: "toEffective ?db (sample_receipt ''i1'' OutFilled 0) = Settled f" "sf_outcome f = OutFilled"
      "sf_filledQuantity f = N 10" "sf_averagePrice f = N 100" "sf_feeAmount f = N 1" "sf_settledAt f = iso_text 0"
    by (auto simp: toEffective_def sample_live_db_def sample_deployment_def resolveEffectiveFill_def receipt_facts_def sample_receipt_def)
  have d: "date_parse (iso_text 0) = N 0" using date_parse_iso [of 0] by (simp add: max_time_def)
  show ?thesis
    by (rule closed_access_blocks_book [where envs = sample_live_env, OF p(1) r f(1)])
      (simp_all add: isBookableFill_def f p d, simp_all add: sample_receipt_def)
qed

abbreviation two_rejected :: live_db where
  "two_rejected \<equiv> sample_live_db AccessActive [sample_receipt ''i2'' OutRejected 1, sample_receipt ''i1'' OutRejected 0]"

lemma two_rejected_run:
  "is_posted (snd (postLiveFillsToBook sample_live_env ''d1'' (Some 2) two_rejected)) ''i2''"
  by (simp add: postLiveFillsToBook_def upt_rec postNextLiveFill_def live_portfolio_def next_receipt_def sort_by_def
      sample_live_db_def sample_deployment_def sample_receipt_def is_posted_def receipt_le_def toEffective_def resolveEffectiveFill_def
      receipt_facts_def post_settled_def isBookableFill_def recordPosting_def checked_def sample_live_env_def)


abbreviation one_filled :: live_db where
  "one_filled \<equiv> sample_live_db AccessActive [sample_receipt ''i1'' OutFilled 0]"

lemma one_filled_run:
  "map fr_intent (lv_fills (snd (postLiveFillsToBook sample_live_env ''d1'' (Some 1) one_filled))) = [''i1'']"
proof -
  let ?r = "sample_receipt ''i1'' OutFilled 0"
  let ?f = "\<lparr>sf_source = FromReceipt, sf_outcome = OutFilled, sf_filledQuantity = N 10, sf_averagePrice = N 100, sf_feeAmount = N 1,
    sf_rejectionReason = Some ''x'', sf_settledAt = iso_text 0, contradictsReceipt = False\<rparr>"
  have d: "date_parse (iso_text 0) = N 0" using date_parse_iso [of 0] by (simp add: max_time_def)
  obtain p where p: "live_portfolio one_filled ''d1'' = Some p" "lp_id p = ''p1''" "book_state p [] = opened_portfolio AiBalanced (N 10000)"
    by (auto simp: live_portfolio_def sample_live_db_def sample_deployment_def book_state_def opened_portfolio_def
        createOfficialPaperPortfolioState_def js_sum_def)
  have n: "next_receipt (sample_live_env 0) one_filled ''d1'' = Some ?r"
    by (simp add: next_receipt_def sample_live_db_def sample_deployment_def is_posted_def sort_by_def) (simp add: sample_receipt_def)
  have e: "toEffective one_filled ?r = Settled ?f"
    by (simp add: toEffective_def sample_live_db_def sample_deployment_def resolveEffectiveFill_def receipt_facts_def sample_receipt_def)
  have o: "open_positions (sample_live_env 0) one_filled ''p1'' = []" by (simp add: open_positions_def sample_live_db_def sample_deployment_def sort_by_def)
  have b: "live_booking ?r ?f = sample_buy" by (simp add: live_booking_def sample_receipt_def sample_buy_def)
  have m: "js_of (- 1001) = N (- 1001)" using js_of_int [of "- 1001"] by simp
  have "\<exists>x db'. post_settled (sample_live_env 0) ''d1'' p ?r ?f one_filled = Inr (x, db')"
    unfolding post_settled_def Let_def p(2) o p(3) b sample_buy_books
    by (simp add: isBookableFill_def d m insert_order_def sample_live_db_def sample_deployment_def numeric_def decimal_def to_column_def sample_live_env_def max_time_def
      persistFill_def write_fill_def persist_position_def position_of_def sample_bought_def position_columns_def checked_def position_checks_def
      update_portfolio_def insert_fill_def insert_book_entry_def recordPosting_def sample_receipt_def refresh_deployment_def
      refreshOfficialPaperRiskState_def position_value_def opened_portfolio_def createOfficialPaperPortfolioState_def
      OFFICIAL_PAPER_PRINCIPAL_USDT_def)
  then obtain x db' where s: "post_settled (sample_live_env 0) ''d1'' p ?r ?f one_filled = Inr (x, db')" by blast
  then have "postNextLiveFill (sample_live_env 0) ''d1'' one_filled = Inr (Some x, db')"
    by (simp add: postNextLiveFill_def p n e)
  then have "snd (postLiveFillsToBook sample_live_env ''d1'' (Some 1) one_filled) = db'"
    by (simp add: postLiveFillsToBook_def)
  moreover have "map fr_intent (lv_fills db') = [''i1'']"
    using s by (cases rule: post_settled_cases) (auto simp: sample_live_db_def sample_deployment_def sample_receipt_def isBookableFill_def)
  ultimately show ?thesis by simp
qed

theorem each_fill_booked_once_witness:
  "postings_ok (snd (postLiveFillsToBook sample_live_env ''d1'' (Some 1) one_filled))
    \<and> map fr_intent (lv_fills (snd (postLiveFillsToBook sample_live_env ''d1'' (Some 1) one_filled))) = [''i1'']"
proof -
  have "postings_ok one_filled" by (simp add: postings_ok_def sample_live_db_def sample_deployment_def)
  moreover have "\<forall>k. nv_text_le (sample_live_env k) = (\<lambda>a b. True)" by (simp add: sample_live_env_def)
  ultimately show ?thesis using each_fill_booked_once [of one_filled sample_live_env] one_filled_run by blast
qed

end
