(* ===== verification/PaperBook.thy ===== *)
theory PaperBook
  imports BookTables
begin

text \<open>
  Paper trading on the portfolios' tables (\<open>lib/official-paper-repository.ts\<close>,
  \<open>lib/membership-rules.ts\<close> and \<open>lib/trading-emergency-scope.ts\<close>): who may open positions (the
  membership, the emergency stops of the platform and of an organisation, the stored access), the
  settlement of pending orders at a price, the marking of positions, and the switches of access.
  Every exported function is one transaction. Errors of a booking are the codes of
  \<open>OfficialPortfolio\<close>, one for each message.
\<close>

subsection \<open>Access\<close>

text \<open>The language's order of texts.\<close>

definition text_before :: "string \<Rightarrow> string \<Rightarrow> bool" where
  "text_before a b \<longleftrightarrow> code_le a b \<and> a \<noteq> b"

datatype membership_state = MemberActive | MemberGrace | MemberReadOnly

record membership_access =
  ma_status :: membership_state
  ma_newEntriesAllowed :: bool
  ma_closeOnly :: bool

definition given_text :: "string option \<Rightarrow> bool" where
  "given_text t \<longleftrightarrow> (case t of None \<Rightarrow> False | Some s \<Rightarrow> s \<noteq> [])"

definition before_limit :: "string \<Rightarrow> string option \<Rightarrow> bool" where
  "before_limit now t \<longleftrightarrow> (case t of None \<Rightarrow> False | Some s \<Rightarrow> s \<noteq> [] \<and> text_before now s)"

definition membershipAccess :: "string \<Rightarrow> string \<Rightarrow> string option \<Rightarrow> string option \<Rightarrow> membership_access" where
  "membershipAccess now status expiresAt graceEndsAt =
     (let none = \<lparr>ma_status = MemberReadOnly, ma_newEntriesAllowed = False, ma_closeOnly = True\<rparr>;
          full = \<lparr>ma_status = MemberActive, ma_newEntriesAllowed = True, ma_closeOnly = False\<rparr>
      in if status \<noteq> ''active'' \<and> status \<noteq> ''grace'' \<and> status \<noteq> ''trial'' then none
         else if status = ''active'' \<and> \<not> given_text expiresAt then full
         else if (status = ''active'' \<or> status = ''trial'') \<and> before_limit now expiresAt then full
         else if before_limit now graceEndsAt
         then \<lparr>ma_status = MemberGrace, ma_newEntriesAllowed = True, ma_closeOnly = False\<rparr>
         else none)"

definition organizationEmergencyScopeKey :: "string \<Rightarrow> string" where
  "organizationEmergencyScopeKey i = ''organization:'' @ i"

definition isOfficialPaperCustomerEmergencyStopped :: "'d book_db_scheme \<Rightarrow> string \<Rightarrow> bool" where
  "isOfficialPaperCustomerEmergencyStopped db customer \<longleftrightarrow> list_ex (\<lambda>s. sp_active s \<and>
     (sp_scope s = ''platform''
      \<or> list_ex (\<lambda>u. us_id u = customer \<and> us_organization u \<noteq> None
           \<and> sp_scope s = organizationEmergencyScopeKey (the (us_organization u))) (lv_users db)
      \<or> list_ex (\<lambda>a. ab_customer a = customer \<and> ab_status a = ''active'' \<and> ab_branch a \<noteq> None
           \<and> sp_scope s = organizationEmergencyScopeKey (the (ab_branch a))) (lv_attributions db))) (lv_stops db)"

definition constrainedOfficialPaperAccess :: "portfolio_access \<Rightarrow> bool \<Rightarrow> bool \<Rightarrow> bool \<Rightarrow> portfolio_access" where
  "constrainedOfficialPaperAccess storedAccess membershipAllowsNewEntries emergencyStopped hasOpenPositions =
     (if membershipAllowsNewEntries \<and> \<not> emergencyStopped \<and> storedAccess = AccessActive then AccessActive
      else if hasOpenPositions then CloseOnly else ReadOnly)"

definition portfolio_membership :: "'d book_db_scheme \<Rightarrow> portfolio_row \<Rightarrow> membership_row option" where
  "portfolio_membership db p = find (\<lambda>m. mm_id m = lp_membership p \<and> mm_customer m = lp_customer p) (lv_memberships db)"

definition member_allows :: "membership_row \<Rightarrow> int \<Rightarrow> bool" where
  "member_allows m t = ma_newEntriesAllowed (membershipAccess (iso_text t) (mm_status m) (mm_expiresAt m) (mm_graceEndsAt m))"

definition officialPaperHasOpenPositions :: "'d book_db_scheme \<Rightarrow> string \<Rightarrow> bool" where
  "officialPaperHasOpenPositions db portfolio = list_ex (\<lambda>p. bp_portfolio p = portfolio \<and> bp_open p) (lv_positions db)"

record paper_access =
  pa_access :: portfolio_access
  pa_emergencyStopped :: bool
  pa_membershipAllowsNewEntries :: bool
  pa_hasOpenPositions :: bool

definition resolveOfficialPaperAccess :: "'d book_db_scheme \<Rightarrow> string \<Rightarrow> int \<Rightarrow> (string, paper_access) result" where
  "resolveOfficialPaperAccess db portfolio t =
     (case find (\<lambda>p. lp_id p = portfolio \<and> portfolio_membership db p \<noteq> None) (lv_portfolios db) of
        None \<Rightarrow> Inl ''PORTFOLIO_MISSING''
      | Some p \<Rightarrow>
          let allows = member_allows (the (portfolio_membership db p)) t;
              stopped = isOfficialPaperCustomerEmergencyStopped db (lp_customer p);
              open' = officialPaperHasOpenPositions db portfolio
          in Inr \<lparr>pa_access = constrainedOfficialPaperAccess (lp_access p) allows stopped open',
                  pa_emergencyStopped = stopped, pa_membershipAllowsNewEntries = allows, pa_hasOpenPositions = open'\<rparr>)"

subsection \<open>Emergency and activation\<close>

definition restricted_access :: "'d book_db_scheme \<Rightarrow> string \<Rightarrow> portfolio_access" where
  "restricted_access db portfolio =
     (if list_ex (\<lambda>x. bp_portfolio x = portfolio \<and> bp_open x \<and> 0 < bp_quantity x) (lv_positions db) then CloseOnly else ReadOnly)"

definition OFFICIAL_PAPER_EMERGENCY_REJECTION_CODE :: string where
  "OFFICIAL_PAPER_EMERGENCY_REJECTION_CODE = ''TRADING_EMERGENCY_STOPPED''"

definition reject_order :: "string \<Rightarrow> order_row \<Rightarrow> order_row" where
  "reject_order code o' = o'\<lparr>bo_status := ''rejected'', bo_rejection := Some code\<rparr>"

definition stopped_buy :: "'d book_db_scheme \<Rightarrow> string list \<Rightarrow> order_row \<Rightarrow> bool" where
  "stopped_buy db customers o' \<longleftrightarrow> bo_action o' = ''buy'' \<and> bo_status o' = ''pending''
     \<and> list_ex (\<lambda>p. lp_id p = bo_portfolio o' \<and> lp_customer p \<in> set customers) (lv_portfolios db)"

definition restrictOfficialPaperPortfoliosForEmergency ::
    "string list \<Rightarrow> 'd book_db_scheme \<Rightarrow> (portfolio_access list \<times> nat) \<times> 'd book_db_scheme" where
  "restrictOfficialPaperPortfoliosForEmergency customers db =
     (if customers = [] then (([], 0), db)
      else let changes = (\<lambda>p. lp_customer p \<in> set customers \<and> lp_access p \<noteq> restricted_access db (lp_id p));
               db1 = db\<lparr>lv_portfolios := map (\<lambda>p. if changes p then p\<lparr>lp_access := restricted_access db (lp_id p)\<rparr> else p) (lv_portfolios db)\<rparr>
           in ((map (\<lambda>p. restricted_access db (lp_id p)) (filter changes (lv_portfolios db)),
                length (filter (stopped_buy db1 customers) (lv_orders db1))),
               db1\<lparr>lv_orders := map (\<lambda>o'. if stopped_buy db1 customers o'
                 then reject_order OFFICIAL_PAPER_EMERGENCY_REJECTION_CODE o' else o') (lv_orders db1)\<rparr>))"

definition activateOfficialPaperPortfoliosAfterDisclosure :: "string \<Rightarrow> string \<Rightarrow> 'd book_db_scheme \<Rightarrow> bool \<times> 'd book_db_scheme" where
  "activateOfficialPaperPortfoliosAfterDisclosure membership customer db =
     (if isOfficialPaperCustomerEmergencyStopped db customer
      then (False, snd (restrictOfficialPaperPortfoliosForEmergency [customer] db))
      else (True, db\<lparr>lv_portfolios := map (\<lambda>p. if lp_membership p = membership \<and> lp_customer p = customer
              then p\<lparr>lp_access := AccessActive\<rparr> else p) (lv_portfolios db)\<rparr>))"

text \<open>The switch of an emergency stop by the maintenance route, for the platform or an organisation.\<close>

definition scopedCustomerIds :: "'d book_db_scheme \<Rightarrow> string option \<Rightarrow> string list" where
  "scopedCustomerIds db organization = map us_id (filter (\<lambda>u. us_role u = ''customer''
     \<and> (case organization of None \<Rightarrow> True
        | Some g \<Rightarrow> us_organization u = Some g
            \<or> list_ex (\<lambda>a. ab_customer a = us_id u \<and> ab_branch a = Some g \<and> ab_status a = ''active'') (lv_attributions db)))
     (lv_users db))"

definition emergency_scope :: "string option \<Rightarrow> string" where
  "emergency_scope organization = (case organization of None \<Rightarrow> ''platform'' | Some g \<Rightarrow> organizationEmergencyScopeKey g)"

definition put_stop :: "string \<Rightarrow> bool \<Rightarrow> stop_row list \<Rightarrow> stop_row list" where
  "put_stop scope active stops =
     (if list_ex (\<lambda>s. sp_scope s = scope) stops
      then map (\<lambda>s. if sp_scope s = scope then s\<lparr>sp_active := active\<rparr> else s) stops
      else stops @ [\<lparr>sp_scope = scope, sp_active = active\<rparr>])"

definition switch_emergency :: "string option \<Rightarrow> bool \<Rightarrow> 'd book_db_scheme \<Rightarrow> 'd book_db_scheme" where
  "switch_emergency organization active db =
     (let db1 = db\<lparr>lv_stops := put_stop (emergency_scope organization) active (lv_stops db)\<rparr>
      in if active then snd (restrictOfficialPaperPortfoliosForEmergency (scopedCustomerIds db organization) db1) else db1)"

subsection \<open>Positions\<close>

definition loadOfficialPaperOpenPosition :: "'e book_env_scheme \<Rightarrow> 'd book_db_scheme \<Rightarrow> string \<Rightarrow> string option \<Rightarrow> (string \<times> string \<times> jsnum \<times> jsnum) option" where
  "loadOfficialPaperOpenPosition env db portfolio smb =
     (case filter (\<lambda>x. case smb of None \<Rightarrow> True | Some k \<Rightarrow> bp_symbol x = k) (open_positions env db portfolio) of
        [] \<Rightarrow> None
      | x # _ \<Rightarrow> Some (bp_id x, bp_symbol x, js_of (bp_quantity x), js_of (bp_averageEntryPrice x)))"

text \<open>The update of a mark: every row it meets must be writable, or nothing is written.\<close>

definition marked_row :: "'e book_env_scheme \<Rightarrow> jsnum \<Rightarrow> position_row \<Rightarrow> (string, position_row) result" where
  "marked_row env price x =
     ebind (decimal env price) (\<lambda>d.
     ebind (to_column env d) (\<lambda>mark.
     ebind (to_column env (bp_quantity x * d - bp_costBasis x)) (\<lambda>pnl.
       let x' = x\<lparr>bp_lastMarkPrice := mark, bp_unrealized := pnl\<rparr> in checked (position_checks x') x')))"

definition markOfficialPaperPosition :: "'e book_env_scheme \<Rightarrow> string \<Rightarrow> string \<Rightarrow> jsnum \<Rightarrow> 'd book_db_scheme \<Rightarrow> (string, 'd book_db_scheme) result" where
  "markOfficialPaperPosition env portfolio smb price db =
     (if \<not> is_finite price \<or> price \<le> N 0 then Inl ''MARK_PRICE_INVALID''
      else ebind (emap (\<lambda>x. if bp_portfolio x = portfolio \<and> bp_symbol x = smb \<and> bp_open x then marked_row env price x else Inr x)
             (lv_positions db)) (\<lambda>ps. Inr (db\<lparr>lv_positions := ps\<rparr>)))"

subsection \<open>Settlement of a pending order\<close>

record settle_input =
  sl_deploymentId :: string
  sl_fillPrice :: "jsnum option"
  sl_fillTime :: int
  sl_timing :: string
  sl_traceId :: string

definition pending_order :: "'e book_env_scheme \<Rightarrow> 'd book_db_scheme \<Rightarrow> settle_input \<Rightarrow> string \<Rightarrow> order_row option" where
  "pending_order env db i portfolio = (case sort_by (\<lambda>a b. bo_createdAt a < bo_createdAt b
         \<or> bo_createdAt a = bo_createdAt b \<and> nv_text_le env (bo_id a) (bo_id b))
       (filter (\<lambda>o'. bo_deployment o' = sl_deploymentId i \<and> bo_portfolio o' = portfolio \<and> bo_status o' = ''pending''
          \<and> bo_timing o' = sl_timing i) (lv_orders db)) of [] \<Rightarrow> None | o' # _ \<Rightarrow> Some o')"

definition portfolio_fills :: "'e book_env_scheme \<Rightarrow> 'd book_db_scheme \<Rightarrow> string \<Rightarrow> fill_row list" where
  "portfolio_fills env db portfolio = sort_by (\<lambda>a b. fr_filledAt a < fr_filledAt b
         \<or> fr_filledAt a = fr_filledAt b \<and> nv_text_le env (fr_id a) (fr_id b))
       (filter (\<lambda>f. fr_portfolio f = portfolio) (lv_fills db))"

definition recorded_fill :: "fill_row \<Rightarrow> portfolio_fill" where
  "recorded_fill f = \<lparr>pf_action = fr_action f, pf_symbol = fr_symbol f, pf_quantity = js_of (fr_quantity f),
     pf_fillPrice = js_of (fr_fillPrice f), pf_notionalUsdt = js_of (fr_notional f), pf_feeUsdt = js_of (fr_fee f),
     pf_allocatedEntryFeeUsdt = js_of (fr_allocatedEntryFee f), pf_realizedGrossPnlUsdt = js_of (fr_gross f),
     pf_realizedNetPnlUsdt = js_of (fr_net f), pf_filledAt = iso_text (fr_filledAt f)\<rparr>"

definition paper_state :: "portfolio_access \<Rightarrow> portfolio_row \<Rightarrow> position_row list \<Rightarrow> fill_row list \<Rightarrow> portfolio_state" where
  "paper_state access p rows fills = \<lparr>po_strategyCode = lp_strategyCode p, po_access = access,
     po_principalUsdt = js_of (lp_principal p), po_cashUsdt = js_of (lp_cash p),
     po_equityUsdt = js_of (lp_cash p) + js_sum (N 0) (map (\<lambda>x. js_of (bp_costBasis x)) rows),
     po_realizedGrossPnlUsdt = js_of (lp_gross p), po_realizedNetPnlUsdt = js_of (lp_net p),
     po_realizedPnlUsdt = js_of (lp_net p), po_unrealizedPnlUsdt = N 0, po_feesUsdt = js_of (lp_fees p),
     po_positions = map (\<lambda>x. \<lparr>pp_symbol = bp_symbol x, pp_quantity = js_of (bp_quantity x),
       pp_averageEntryPrice = js_of (bp_averageEntryPrice x), pp_costBasisUsdt = js_of (bp_costBasis x),
       pp_entryFeesUsdt = js_of (bp_entryFees x), pp_marketPrice = js_of (bp_averageEntryPrice x),
       pp_marketValueUsdt = js_of (bp_costBasis x), pp_unrealizedPnlUsdt = N 0\<rparr>) rows,
     po_fills = map recorded_fill fills\<rparr>"

text \<open>\<open>payload.key ?? default\<close>, read by \<open>Number\<close>.\<close>

definition payload_number :: "fields \<Rightarrow> string \<Rightarrow> jsnum \<Rightarrow> jsnum" where
  "payload_number payload k d = (case field payload k of JUndef \<Rightarrow> d | JNull \<Rightarrow> d | v \<Rightarrow> json_number v)"

definition paper_booking :: "order_row \<Rightarrow> settle_input \<Rightarrow> portfolio_state \<Rightarrow> fill_booking" where
  "paper_booking o' i s = \<lparr>fb_action = bo_action o', fb_symbol = bo_symbol o',
     fb_fillPrice = (case sl_fillPrice i of Some x \<Rightarrow> x | None \<Rightarrow> (case bo_price o' of Some r \<Rightarrow> js_of r | None \<Rightarrow> N 0)),
     fb_quoteAmountUsdt = Some (json_number (field (bo_payload o') ''quoteAmountUsdt'')),
     fb_quantity = (if bo_action o' = ''sell'' then Some (payload_number (bo_payload o') ''quantity''
         (case position_of s (bo_symbol o') of None \<Rightarrow> NaN | Some p \<Rightarrow> pp_quantity p)) else None),
     fb_feeRate = Some (payload_number (bo_payload o') ''takerFeeRate'' (lit (1 / 1000))), fb_feeUsdt = None,
     fb_filledAt = iso_text (sl_fillTime i)\<rparr>"

datatype settlement = Rejected string | Filled string string

definition set_access :: "string \<Rightarrow> portfolio_access \<Rightarrow> 'd book_db_scheme \<Rightarrow> 'd book_db_scheme" where
  "set_access portfolio a db = db\<lparr>lv_portfolios := map (\<lambda>p. if lp_id p = portfolio then p\<lparr>lp_access := a\<rparr> else p) (lv_portfolios db)\<rparr>"

definition set_order :: "string \<Rightarrow> (order_row \<Rightarrow> order_row) \<Rightarrow> 'd book_db_scheme \<Rightarrow> 'd book_db_scheme" where
  "set_order i f db = db\<lparr>lv_orders := map (\<lambda>o'. if bo_id o' = i then f o' else o') (lv_orders db)\<rparr>"

definition paper_portfolio :: "'d book_db_scheme \<Rightarrow> string \<Rightarrow> portfolio_row option" where
  "paper_portfolio db dep = find (\<lambda>p. portfolio_membership db p \<noteq> None
     \<and> list_ex (\<lambda>d. ld_id d = dep \<and> ld_portfolio d = Some (lp_id p)) (lv_deployments db)) (lv_portfolios db)"

text \<open>What follows the reading of the rows: the booking is refused and the order rejected, or it is written.\<close>

definition settle_order ::
    "'e book_env_scheme \<Rightarrow> settle_input \<Rightarrow> portfolio_row \<Rightarrow> order_row \<Rightarrow> bool \<Rightarrow> bool \<Rightarrow> 'd book_db_scheme
     \<Rightarrow> (string, settlement \<times> 'd book_db_scheme) result" where
  "settle_order env i p o' allows stopped db =
     (let rows = open_positions env db (lp_id p);
          access = constrainedOfficialPaperAccess (lp_access p) allows stopped (rows \<noteq> []);
          db0 = (if access \<noteq> lp_access p then set_access (lp_id p) access db else db);
          prior = paper_state access p rows (portfolio_fills env db (lp_id p))
      in case applyOfficialPaperFill prior (paper_booking o' i prior) of
           Inl e \<Rightarrow>
             let code = (if stopped \<and> bo_action o' = ''buy'' then OFFICIAL_PAPER_EMERGENCY_REJECTION_CODE else e)
             in Inr (Rejected code, set_order (bo_id o') (reject_order (take 120 code)) db0)
         | Inr next \<Rightarrow>
             ebind (write_fill env (lp_id p) (bo_id o') (bo_symbol o') (sl_traceId i) (sl_fillTime i) prior next rows db0) (\<lambda>db1.
             let db2 = set_order (bo_id o') (\<lambda>x. x\<lparr>bo_status := ''filled''\<rparr>)
                   (set_access (lp_id p) (constrainedOfficialPaperAccess (lp_access p) allows stopped (po_positions next \<noteq> [])) db1)
             in ebind (refresh_deployment (sl_deploymentId i) (lp_id p) (sl_fillTime i) db2) (\<lambda>db3.
                  Inr (Filled (nv_fillId env) (lp_id p), db3))))"

definition settlePendingOfficialPaperOrder ::
    "'e book_env_scheme \<Rightarrow> settle_input \<Rightarrow> 'd book_db_scheme \<Rightarrow> (string, settlement option) result \<times> 'd book_db_scheme" where
  "settlePendingOfficialPaperOrder env i db =
     (if (case sl_fillPrice i of None \<Rightarrow> False | Some x \<Rightarrow> \<not> is_finite x \<or> x \<le> N 0) then (Inl ''FILL_PRICE_INVALID'', db)
      else case paper_portfolio db (sl_deploymentId i) of None \<Rightarrow> (Inr None, db)
      | Some p \<Rightarrow> (case pending_order env db i (lp_id p) of None \<Rightarrow> (Inr None, db)
        | Some o' \<Rightarrow> (case settle_order env i p o' (member_allows (the (portfolio_membership db p)) (sl_fillTime i))
              (isOfficialPaperCustomerEmergencyStopped db (lp_customer p)) db of
            Inl e \<Rightarrow> (Inl e, db) | Inr (x, db') \<Rightarrow> (Inr (Some x), db'))))"

subsection \<open>Opening the three portfolios\<close>

definition risk_fields_of :: "official_risk \<Rightarrow> fields" where
  "risk_fields_of r = (case risk_json r of JObj fs \<Rightarrow> fs | _ \<Rightarrow> [])"

definition seed_row :: "portfolio_seed \<Rightarrow> portfolio_row" where
  "seed_row s = \<lparr>lp_id = sd_id s, lp_membership = sd_membershipId s, lp_customer = sd_customerId s,
     lp_strategyCode = sd_strategyCode s, lp_access = AccessActive, lp_book = ''paper'', lp_principal = 10000, lp_cash = 10000,
     lp_realized = 0, lp_gross = 0, lp_net = 0, lp_fees = 0, lp_risk = risk_fields_of (sd_risk s)\<rparr>"

definition initial_entry :: "string \<Rightarrow> string \<Rightarrow> book_entry" where
  "initial_entry i portfolio = \<lparr>be_id = i, be_portfolio = portfolio, be_fill = None, be_type = ''initial_cash'',
     be_amount = 10000, be_balance = 10000, be_symbol = None\<rparr>"

text \<open>The insertion and the reading in one statement: the reading does not see the new row, and looks at
the rows of either book. Which of several rows the database returns first is the argument \<open>pick\<close>.\<close>

definition insert_seed :: "string \<Rightarrow> portfolio_seed \<Rightarrow> 'd book_db_scheme \<Rightarrow> (string, portfolio_row list \<times> 'd book_db_scheme) result" where
  "insert_seed entry s db =
     (if list_ex (\<lambda>p. lp_membership p = sd_membershipId s \<and> lp_strategyCode p = sd_strategyCode s \<and> lp_book p = ''paper'') (lv_portfolios db)
      then Inr ([], db)
      else if list_ex (\<lambda>p. lp_id p = sd_id s) (lv_portfolios db) \<or> list_ex (\<lambda>e. be_id e = entry) (lv_entries db)
      then Inl ''CONSTRAINT''
      else Inr ([seed_row s], db\<lparr>lv_portfolios := lv_portfolios db @ [seed_row s],
             lv_entries := lv_entries db @ [initial_entry entry (sd_id s)]\<rparr>))"

definition ensure_seed ::
    "(portfolio_row list \<Rightarrow> portfolio_row) \<Rightarrow> (platform_code \<Rightarrow> string) \<Rightarrow> string \<Rightarrow> portfolio_seed
     \<Rightarrow> portfolio_row list \<times> 'd book_db_scheme \<Rightarrow> (string, portfolio_row list \<times> 'd book_db_scheme) result" where
  "ensure_seed pick entries customer s acc = (case acc of (found, db) \<Rightarrow>
     ebind (insert_seed (entries (sd_strategyCode s)) s db) (\<lambda>(new, db').
       let rows = new @ filter (\<lambda>p. lp_membership p = sd_membershipId s \<and> lp_customer p = sd_customerId s
             \<and> lp_strategyCode p = sd_strategyCode s) (lv_portfolios db)
       in if rows = [] \<or> lp_customer (pick rows) \<noteq> customer \<or> lp_id (pick rows) \<noteq> sd_id s then Inl ''PORTFOLIO_CONFLICT''
          else Inr (found @ [pick rows], db')))"

definition ensureOfficialPaperPortfolios ::
    "(portfolio_row list \<Rightarrow> portfolio_row) \<Rightarrow> (platform_code \<Rightarrow> string) \<Rightarrow> string \<Rightarrow> string \<Rightarrow> 'd book_db_scheme
     \<Rightarrow> (string, portfolio_row list \<times> 'd book_db_scheme) result" where
  "ensureOfficialPaperPortfolios pick entries membership customer db =
     (if \<not> list_ex (\<lambda>m. mm_id m = membership \<and> mm_customer m = customer) (lv_memberships db) then Inl ''OWNER_MISMATCH''
      else ebind (officialPaperPortfolioSeeds membership customer) (\<lambda>seeds.
        efold (ensure_seed pick entries customer) seeds ([], db)))"

subsection \<open>What a settlement changes\<close>

abbreviation book_key :: "portfolio_row \<Rightarrow> string \<times> rat \<times> rat" where
  "book_key p \<equiv> (lp_id p, lp_cash p, lp_fees p)"

lemma set_access_frame: "\<exists>qs. set_access portfolio a db = db\<lparr>lv_portfolios := qs\<rparr> \<and> map book_key qs = map book_key (lv_portfolios db)"
  by (auto simp: set_access_def)

lemma applied_fill_action:
  assumes "applyOfficialPaperFill s i = Inr s'"
  shows "pf_action (last (po_fills s')) = (if fb_action i = ''buy'' then BuyFill else SellFill)"
    and "fb_action i = ''buy'' \<Longrightarrow> po_access s = AccessActive"
  using assms by (cases rule: apply_cases; auto elim!: buy_cases sell_cases dest!: mark_frame(1))+

lemma settle_order_cases:
  assumes "settle_order env i p o' allows stopped db = Inr (x, db')"
  obtains (rejected) e qs os where "x = Rejected (if stopped \<and> bo_action o' = ''buy'' then OFFICIAL_PAPER_EMERGENCY_REJECTION_CODE else e)"
      "db' = db\<lparr>lv_portfolios := qs, lv_orders := os\<rparr>" "map book_key qs = map book_key (lv_portfolios db)"
      "os = map (\<lambda>y. if bo_id y = bo_id o' then reject_order (take 120
         (if stopped \<and> bo_action o' = ''buy'' then OFFICIAL_PAPER_EMERGENCY_REJECTION_CODE else e)) y else y) (lv_orders db)"
    | (filled) prior nxt db0 db1 qs ds os f en where "x = Filled (nv_fillId env) (lp_id p)"
      "prior = paper_state (constrainedOfficialPaperAccess (lp_access p) allows stopped (open_positions env db (lp_id p) \<noteq> []))
         p (open_positions env db (lp_id p)) (portfolio_fills env db (lp_id p))"
      "applyOfficialPaperFill prior (paper_booking o' i prior) = Inr nxt"
      "books_ok db \<Longrightarrow> books_ok db0" "lv_positions db0 = lv_positions db"
      "write_fill env (lp_id p) (bo_id o') (bo_symbol o') (sl_traceId i) (sl_fillTime i) prior nxt (open_positions env db (lp_id p)) db0 = Inr db1"
      "db' = db1\<lparr>lv_portfolios := qs, lv_orders := os, lv_deployments := ds\<rparr>" "map book_key qs = map book_key (lv_portfolios db1)"
      "os = map (\<lambda>y. if bo_id y = bo_id o' then y\<lparr>bo_status := ''filled''\<rparr> else y) (lv_orders db)"
      "lv_fills db' = lv_fills db @ [f]" "fr_intent f = bo_id o'" "fr_portfolio f = lp_id p"
      "fr_action f = (if bo_action o' = ''buy'' then BuyFill else SellFill)" "bo_id o' \<notin> set (map fr_intent (lv_fills db))"
      "lv_entries db' = lv_entries db @ [en]"
proof -
  let ?rows = "open_positions env db (lp_id p)"
  let ?a = "constrainedOfficialPaperAccess (lp_access p) allows stopped (?rows \<noteq> [])"
  let ?db0 = "if ?a \<noteq> lp_access p then set_access (lp_id p) ?a db else db"
  let ?prior = "paper_state ?a p ?rows (portfolio_fills env db (lp_id p))"
  have k: "map book_key (lv_portfolios ?db0) = map book_key (lv_portfolios db)" by (simp add: set_access_def)
  have e: "?db0 = db\<lparr>lv_portfolios := lv_portfolios ?db0\<rparr>" by (simp add: set_access_def)
  obtain qs0 where 0: "?db0 = db\<lparr>lv_portfolios := qs0\<rparr>" "map book_key qs0 = map book_key (lv_portfolios db)"
    by (rule that [OF e k])
  show thesis
  proof (cases "applyOfficialPaperFill ?prior (paper_booking o' i ?prior)")
    case (Inl e)
    with assms 0 show thesis
      by (intro rejected [where e = e and qs = qs0]) (auto simp: settle_order_def Let_def set_order_def)
  next
    case (Inr nxt)
    with assms obtain db1 db3 where s: "write_fill env (lp_id p) (bo_id o') (bo_symbol o') (sl_traceId i) (sl_fillTime i) ?prior nxt ?rows ?db0 = Inr db1"
      "refresh_deployment (sl_deploymentId i) (lp_id p) (sl_fillTime i) (set_order (bo_id o') (\<lambda>x. x\<lparr>bo_status := ''filled''\<rparr>)
         (set_access (lp_id p) (constrainedOfficialPaperAccess (lp_access p) allows stopped (po_positions nxt \<noteq> [])) db1)) = Inr db3"
      "x = Filled (nv_fillId env) (lp_id p)" "db' = db3"
      by (auto simp: settle_order_def Let_def ebind_Inr_iff)
    from write_fill_frame [OF s(1)] obtain ps qs1 f e where w: "db1 = ?db0\<lparr>lv_positions := ps, lv_portfolios := qs1,
        lv_fills := lv_fills ?db0 @ [f], lv_entries := lv_entries ?db0 @ [e]\<rparr>" "fr_intent f = bo_id o'" "fr_portfolio f = lp_id p"
        "fr_action f = pf_action (last (po_fills nxt))" "bo_id o' \<notin> set (map fr_intent (lv_fills ?db0))" by metis
    from set_access_frame [of "lp_id p" _ db1] obtain qs2 where a: "set_access (lp_id p) (constrainedOfficialPaperAccess (lp_access p)
        allows stopped (po_positions nxt \<noteq> [])) db1 = db1\<lparr>lv_portfolios := qs2\<rparr>" "map book_key qs2 = map book_key (lv_portfolios db1)" by blast
    from refresh_frame [OF s(2)] a obtain ds where d: "db3 = db1\<lparr>lv_portfolios := qs2, lv_orders := map (\<lambda>y. if bo_id y = bo_id o'
        then y\<lparr>bo_status := ''filled''\<rparr> else y) (lv_orders db1), lv_deployments := ds\<rparr>" by (auto simp: set_order_def)
    have ok: "books_ok ?db0" if "books_ok db"
      using 0 by (intro books_ok_cong [THEN iffD2, OF _ _ _ _ that]) simp_all
    have act: "pf_action (last (po_fills nxt)) = (if bo_action o' = ''buy'' then BuyFill else SellFill)"
      using applied_fill_action(1) [OF Inr] by (simp add: paper_booking_def)
    show thesis
      by (rule filled [OF s(3) refl Inr ok _ s(1) d [folded s(4)] a(2)]) (use 0 w act d s(4) in auto)
  qed
qed

lemma paper_settle_cases:
  assumes "settlePendingOfficialPaperOrder env i db = (r, db')"
  obtains (unchanged) "db' = db" "\<forall>x. r \<noteq> Inr (Some x)"
    | (settled) p o' x where "paper_portfolio db (sl_deploymentId i) = Some p" "pending_order env db i (lp_id p) = Some o'"
      "r = Inr (Some x)" "settle_order env i p o' (member_allows (the (portfolio_membership db p)) (sl_fillTime i))
         (isOfficialPaperCustomerEmergencyStopped db (lp_customer p)) db = Inr (x, db')"
proof (cases "case sl_fillPrice i of None \<Rightarrow> False | Some x \<Rightarrow> \<not> is_finite x \<or> x \<le> N 0")
  case True
  with assms show thesis by (intro unchanged) (auto simp: settlePendingOfficialPaperOrder_def)
next
  case False
  show thesis
  proof (cases "paper_portfolio db (sl_deploymentId i)")
    case None
    with assms False show thesis by (intro unchanged) (auto simp: settlePendingOfficialPaperOrder_def)
  next
    case p: (Some p)
    show thesis
    proof (cases "pending_order env db i (lp_id p)")
      case None
      with assms False p show thesis by (intro unchanged) (auto simp: settlePendingOfficialPaperOrder_def)
    next
      case o': (Some o')
      let ?m = "settle_order env i p o' (member_allows (the (portfolio_membership db p)) (sl_fillTime i))
         (isOfficialPaperCustomerEmergencyStopped db (lp_customer p)) db"
      show thesis
      proof (cases ?m)
        case (Inl e)
        with assms False p o' show thesis by (intro unchanged) (auto simp: settlePendingOfficialPaperOrder_def)
      next
        case (Inr y)
        with assms False p o' have "r = Inr (Some (fst y))" "?m = Inr (fst y, db')"
          by (auto simp: settlePendingOfficialPaperOrder_def split: prod.split_asm)
        with p o' show thesis by (intro settled)
      qed
    qed
  qed
qed

lemma pending_order_in:
  "pending_order env db i p = Some o' \<Longrightarrow> o' \<in> set (lv_orders db) \<and> bo_status o' = ''pending'' \<and> bo_portfolio o' = p
     \<and> bo_deployment o' = sl_deploymentId i"
  by (auto simp: pending_order_def split: list.split_asm dest!: sort_by_first)

lemma paper_portfolio_in:
  "paper_portfolio db dep = Some p \<Longrightarrow> p \<in> set (lv_portfolios db) \<and> portfolio_membership db p \<noteq> None"
  by (auto simp: paper_portfolio_def dest: find_Some_set)

text \<open>The settlement, the marks, the switches and the opening keep the books in order.\<close>

lemma paper_settle_ok:
  assumes "settlePendingOfficialPaperOrder env i db = (r, db')" "books_ok db"
  shows "books_ok db'"
  using assms(1)
proof (cases rule: paper_settle_cases)
  case (settled p o' x)
  from settled(4) show ?thesis
  proof (cases rule: settle_order_cases)
    case (rejected e qs os)
    then show ?thesis by (intro books_ok_cong [THEN iffD2, OF _ _ _ _ assms(2)]) simp_all
  next
    case (filled prior nxt db0 db1 qs ds os f en)
    from write_fill_ok [OF filled(6) filled(4) [OF assms(2)]] filled(5) have ok: "books_ok db1" by simp
    show ?thesis by (rule books_ok_cong [THEN iffD2, OF _ _ _ _ ok]) (simp_all add: filled(7,8))
  qed
qed (use assms(2) in simp)

lemma marked_row_same: "marked_row env price x = Inr y \<Longrightarrow> bp_id y = bp_id x \<and> bp_portfolio y = bp_portfolio x
    \<and> bp_symbol y = bp_symbol x \<and> bp_open y = bp_open x \<and> position_checks y"
  by (auto simp: marked_row_def Let_def checked_Inr ebind_Inr_iff)

lemma mark_ok:
  assumes "markOfficialPaperPosition env portfolio smb price db = Inr db'" "books_ok db"
  shows "books_ok db'"
proof -
  let ?f = "\<lambda>x. if bp_portfolio x = portfolio \<and> bp_symbol x = smb \<and> bp_open x then marked_row env price x else Inr x"
  obtain ps where ps: "emap ?f (lv_positions db) = Inr ps" "db' = db\<lparr>lv_positions := ps\<rparr>"
    using assms(1) by (auto simp: markOfficialPaperPosition_def ebind_Inr_iff split: if_split_asm)
  have ok: "positions_ok (lv_positions db)" using assms(2) by (simp add: books_ok_def)
  have "list_all2 (\<lambda>x y. ?f x = Inr y) (lv_positions db) ps" using ps(1) by (simp add: emap_Inr_iff)
  then have "map (\<lambda>x. (bp_id x, bp_portfolio x, bp_symbol x, bp_open x)) ps = map (\<lambda>x. (bp_id x, bp_portfolio x, bp_symbol x, bp_open x)) (lv_positions db)
      \<and> ((\<forall>x \<in> set (lv_positions db). position_checks x) \<longrightarrow> (\<forall>x \<in> set ps. position_checks x))"
    by induction (auto dest: marked_row_same split: if_split_asm)
  then have k: "map (\<lambda>x. (bp_id x, bp_portfolio x, bp_symbol x, bp_open x)) ps = map (\<lambda>x. (bp_id x, bp_portfolio x, bp_symbol x, bp_open x)) (lv_positions db)"
      "\<forall>x \<in> set ps. position_checks x" using ok by (auto simp: positions_ok_def)
  have "map bp_id ps = map bp_id (lv_positions db)" using arg_cong [OF k(1), of "map fst"] by (simp add: comp_def)
  moreover have "map (\<lambda>p. (bp_portfolio p, bp_symbol p)) (filter bp_open ps)
      = map (\<lambda>p. (bp_portfolio p, bp_symbol p)) (filter bp_open (lv_positions db))"
    using arg_cong [OF k(1), of "\<lambda>ts. map (\<lambda>(i, p, s, o'). (p, s)) (filter (\<lambda>(i, p, s, o'). o') ts)"]
    by (simp add: filter_map comp_def case_prod_beta)
  ultimately have "positions_ok ps" using ok k(2) by (simp add: positions_ok_def)
  then show ?thesis using assms(2) ps(2) by (simp add: books_ok_def)
qed

text \<open>A restriction moves access and pending orders only.\<close>

lemma restrict_frame:
  obtains qs g where "snd (restrictOfficialPaperPortfoliosForEmergency customers db) = db\<lparr>lv_portfolios := qs, lv_orders := map g (lv_orders db)\<rparr>"
    "map book_key qs = map book_key (lv_portfolios db)" "map lp_customer qs = map lp_customer (lv_portfolios db)"
    "\<forall>x. bo_id (g x) = bo_id x \<and> (g x = x \<or> bo_status x = ''pending'' \<and> bo_status (g x) = ''rejected'')"
proof (cases "customers = []")
  case True
  show thesis by (rule that [where qs = "lv_portfolios db" and g = "\<lambda>x. x"])
    (simp_all add: True restrictOfficialPaperPortfoliosForEmergency_def)
next
  case False
  let ?qs = "map (\<lambda>p. if lp_customer p \<in> set customers \<and> lp_access p \<noteq> restricted_access db (lp_id p)
      then p\<lparr>lp_access := restricted_access db (lp_id p)\<rparr> else p) (lv_portfolios db)"
  show thesis
    by (rule that [where qs = ?qs and g = "\<lambda>o'. if stopped_buy (db\<lparr>lv_portfolios := ?qs\<rparr>) customers o'
          then reject_order OFFICIAL_PAPER_EMERGENCY_REJECTION_CODE o' else o'"])
      (simp_all add: False restrictOfficialPaperPortfoliosForEmergency_def Let_def reject_order_def stopped_buy_def)
qed

lemma restrict_ok: "books_ok db \<Longrightarrow> books_ok (snd (restrictOfficialPaperPortfoliosForEmergency customers db))"
proof -
  assume ok: "books_ok db"
  obtain qs g where "snd (restrictOfficialPaperPortfoliosForEmergency customers db) = db\<lparr>lv_portfolios := qs, lv_orders := map g (lv_orders db)\<rparr>"
    "map book_key qs = map book_key (lv_portfolios db)" by (rule restrict_frame)
  then show ?thesis by (intro books_ok_cong [THEN iffD2, OF _ _ _ _ ok]) simp_all
qed

lemma switch_ok: "books_ok db \<Longrightarrow> books_ok (switch_emergency organization active db)"
proof -
  assume ok: "books_ok db"
  have "books_ok (db\<lparr>lv_stops := x\<rparr>)" for x
    by (rule books_ok_cong [THEN iffD2, OF _ _ _ _ ok]) simp_all
  then show ?thesis by (simp add: switch_emergency_def Let_def restrict_ok)
qed

lemma activate_ok: "books_ok db \<Longrightarrow> books_ok (snd (activateOfficialPaperPortfoliosAfterDisclosure membership customer db))"
proof -
  assume ok: "books_ok db"
  have "books_ok (db\<lparr>lv_portfolios := map (\<lambda>p. if lp_membership p = membership \<and> lp_customer p = customer
              then p\<lparr>lp_access := AccessActive\<rparr> else p) (lv_portfolios db)\<rparr>)"
    by (rule books_ok_cong [THEN iffD2, OF _ _ _ _ ok]) simp_all
  with restrict_ok [OF ok] show ?thesis by (simp add: activateOfficialPaperPortfoliosAfterDisclosure_def)
qed

text \<open>A new portfolio has no other entry: its cash is its first balance.\<close>

lemma insert_seed_cases:
  assumes "insert_seed entry s db = Inr (new, db')"
  obtains (there) "new = []" "db' = db"
    | (new) "new = [seed_row s]" "sd_id s \<notin> set (map lp_id (lv_portfolios db))"
      "db' = db\<lparr>lv_portfolios := lv_portfolios db @ [seed_row s], lv_entries := lv_entries db @ [initial_entry entry (sd_id s)]\<rparr>"
proof (cases "list_ex (\<lambda>p. lp_membership p = sd_membershipId s \<and> lp_strategyCode p = sd_strategyCode s \<and> lp_book p = ''paper'') (lv_portfolios db)")
  case True
  with assms show thesis by (intro there) (simp_all add: insert_seed_def)
next
  case False
  then have n: "sd_id s \<notin> set (map lp_id (lv_portfolios db))" using assms by (auto simp: insert_seed_def list_ex_iff split: if_split_asm)
  have "new = [seed_row s] \<and> db' = db\<lparr>lv_portfolios := lv_portfolios db @ [seed_row s],
      lv_entries := lv_entries db @ [initial_entry entry (sd_id s)]\<rparr>"
    using assms False unfolding insert_seed_def by (simp split: if_split_asm) (elim conjE, hypsubst, simp)
  with n show thesis by (intro new) simp_all
qed

lemma insert_seed_ok:
  assumes "insert_seed entry s db = Inr (new, db')" "books_ok db"
  shows "books_ok db'"
  using assms(1)
proof (cases rule: insert_seed_cases)
  case new
  note ok = assms(2) [unfolded books_ok_def]
  have "\<forall>p \<in> set (lv_portfolios db @ [seed_row s]). 0 \<le> lp_cash p \<and> 0 \<le> lp_fees p
      \<and> last_balance (lv_entries db @ [initial_entry entry (sd_id s)]) (lp_id p) = Some (lp_cash p)"
    using ok new(2) by (auto simp: last_balance_append initial_entry_def seed_row_def)
  moreover have "List.map_filter be_fill (lv_entries db @ [initial_entry entry (sd_id s)]) = List.map_filter be_fill (lv_entries db)"
    by (simp add: List.map_filter_def initial_entry_def)
  ultimately show ?thesis using ok new(3) by (simp add: books_ok_def)
qed (use assms(2) in simp)

lemma ensure_ok:
  assumes "ensureOfficialPaperPortfolios pick entries membership customer db = Inr (ps, db')" "books_ok db"
  shows "books_ok db'"
proof -
  obtain seeds where f: "efold (ensure_seed pick entries customer) seeds ([], db) = Inr (ps, db')"
    using assms(1) by (auto simp: ensureOfficialPaperPortfolios_def ebind_Inr_iff split: if_split_asm)
  have "books_ok (snd (ps, db'))"
    by (rule efold_invariant [OF f, of "\<lambda>acc. books_ok (snd acc)"])
      (use assms(2) in \<open>auto simp: ensure_seed_def Let_def ebind_Inr_iff dest: insert_seed_ok split: if_split_asm\<close>)
  then show ?thesis by simp
qed

subsection \<open>Entries and exits\<close>

lemma access_in_force:
  "po_access (paper_state a p rows fills) = a" "po_positions (paper_state a p rows fills) = [] \<longleftrightarrow> rows = []"
  by (simp_all add: paper_state_def)

text \<open>C23. A buy that comes to be settled while the customer is stopped, or the membership has lapsed, or the
portfolio is not active, is rejected for good: no fill, no position, and under a stop it carries the
code of the stop.\<close>

theorem closed_entry_rejected:
  assumes "settlePendingOfficialPaperOrder env i db = (Inr y, db')"
    and "paper_portfolio db (sl_deploymentId i) = Some p" "pending_order env db i (lp_id p) = Some o'" "bo_action o' = ''buy''"
    and "isOfficialPaperCustomerEmergencyStopped db (lp_customer p)
      \<or> \<not> member_allows (the (portfolio_membership db p)) (sl_fillTime i) \<or> lp_access p \<noteq> AccessActive"
  shows "\<exists>e. y = Some (Rejected e) \<and> lv_fills db' = lv_fills db \<and> lv_positions db' = lv_positions db
    \<and> (\<forall>x \<in> set (lv_orders db'). bo_id x = bo_id o' \<longrightarrow> bo_status x = ''rejected'')
    \<and> (isOfficialPaperCustomerEmergencyStopped db (lp_customer p) \<longrightarrow> e = OFFICIAL_PAPER_EMERGENCY_REJECTION_CODE)"
  using assms(1)
proof (cases rule: paper_settle_cases)
  case unchanged
  then have "settlePendingOfficialPaperOrder env i db = (Inr None, db)" using assms(1) by (cases y) auto
  then show ?thesis using assms(2,3)
    by (auto simp: settlePendingOfficialPaperOrder_def split: if_split_asm sum.split_asm prod.split_asm)
next
  case (settled p' q x)
  then have pq: "p' = p" "q = o'" "y = Some x" using assms(2,3) by simp_all
  from settled(4) [unfolded pq] show ?thesis
  proof (cases rule: settle_order_cases)
    case (rejected e qs os)
    then show ?thesis using assms(4) pq(3) by (auto simp: reject_order_def)
  next
    case (filled prior nxt db0 db1 qs ds os f en)
    from applied_fill_action(2) [OF filled(3)] have "po_access prior = AccessActive"
      using assms(4) by (simp add: paper_booking_def)
    then have False using assms(5) filled(2) by (auto simp: access_in_force constrainedOfficialPaperAccess_def split: if_split_asm)
    then show ?thesis ..
  qed
qed

lemma emap_Inl: "emap f xs = Inl e \<Longrightarrow> \<exists>x \<in> set xs. f x = Inl e"
  by (induction xs) (auto split: sum.split_asm)

lemma money_Inl: "portfolio_money v = Inl e \<Longrightarrow> e = ''AMOUNT_INVALID''"
  by (auto simp: portfolio_money_def split: if_split_asm)

lemma positive_Inl: "portfolio_positive v l = Inl e \<Longrightarrow> e = l"
  by (auto simp: portfolio_positive_def split: if_split_asm)

lemma mark_Inl: "markOfficialPaperPortfolio s prices = Inl e \<Longrightarrow> e \<in> {''AMOUNT_INVALID'', ''MARK_PRICE_INVALID''}"
  by (auto simp: markOfficialPaperPortfolio_def mark_position_def ebind_Inl_iff dest!: emap_Inl money_Inl positive_Inl)

lemma sold_Inl: "sold_positions i remaining cost fee ps = Inl e \<Longrightarrow> e = ''AMOUNT_INVALID''"
  by (auto simp: sold_positions_def sold_position_def ebind_Inl_iff dest!: emap_Inl money_Inl split: if_split_asm)

lemma sell_Inl:
  assumes "book_sell s i = Inl e" "po_access s \<noteq> ReadOnly" "position_of s (fb_symbol i) \<noteq> None"
  shows "e \<in> {''SELL_QUANTITY_INVALID'', ''SELL_EXCEEDS_POSITION'', ''AMOUNT_INVALID'', ''MARK_PRICE_INVALID''}"
proof -
  have fee: "fee_of i x = Inl e \<Longrightarrow> e = ''AMOUNT_INVALID''" for x e
    by (auto simp: fee_of_def dest: money_Inl split: option.split_asm)
  obtain held where "position_of s (fb_symbol i) = Some held" using assms(3) by blast
  with assms(1,2) show ?thesis unfolding book_sell_def
    by (auto simp: ebind_Inl_iff dest!: fee sold_Inl money_Inl positive_Inl mark_Inl split: if_split_asm)
qed

lemma sell_apply_Inl:
  assumes "applyOfficialPaperFill s i = Inl e" "fb_action i = ''sell''" "fb_feeUsdt i = None" "fb_feeRate i = Some r"
    and "po_access s \<noteq> ReadOnly" "position_of s (fb_symbol i) \<noteq> None"
  shows "e \<in> {''SYMBOL_UNSUPPORTED'', ''FILL_TIME_INVALID'', ''FILL_PRICE_INVALID'', ''FEE_RATE_INVALID'', ''SELL_QUANTITY_INVALID'',
    ''SELL_EXCEEDS_POSITION'', ''AMOUNT_INVALID'', ''MARK_PRICE_INVALID''}"
proof (cases "fb_symbol i \<in> set (df_symbols (officialTradingHallStrategies (po_strategyCode s))) \<and> is_finite (date_parse (fb_filledAt i))")
  case False
  then show ?thesis using assms(1,2) by (auto simp: applyOfficialPaperFill_def Let_def split: if_split_asm)
next
  case True
  have f: "fee_checked i = Inl x \<Longrightarrow> x = ''FEE_RATE_INVALID''" for x
    using assms(3,4) by (auto simp: fee_checked_def split: if_split_asm)
  have "portfolio_positive (fb_fillPrice i) ''FILL_PRICE_INVALID'' = Inl e \<or> fee_checked i = Inl e \<or> book_sell s i = Inl e"
    using assms(1,2) True by (auto simp: applyOfficialPaperFill_def Let_def ebind_Inl_iff)
  then show ?thesis using positive_Inl f sell_Inl [OF _ assms(5,6)] by (elim disjE) (fastforce+)
qed

text \<open>C24. An exit is never closed to a customer: the settlement of a sell of an asset that the portfolio holds
is refused for a figure of the order or of the price, and for no lapsed membership, no emergency stop
and no closed access.\<close>

theorem exits_stay_open:
  assumes "settlePendingOfficialPaperOrder env i db = (Inr (Some (Rejected e)), db')"
    and "paper_portfolio db (sl_deploymentId i) = Some p" "pending_order env db i (lp_id p) = Some o'" "bo_action o' = ''sell''"
    and "x \<in> set (lv_positions db)" "bp_open x" "bp_portfolio x = lp_id p" "bp_symbol x = bo_symbol o'"
  shows "e \<in> {''SYMBOL_UNSUPPORTED'', ''FILL_TIME_INVALID'', ''FILL_PRICE_INVALID'', ''FEE_RATE_INVALID'', ''SELL_QUANTITY_INVALID'',
    ''SELL_EXCEEDS_POSITION'', ''AMOUNT_INVALID'', ''MARK_PRICE_INVALID''}"
  using assms(1)
proof (cases rule: paper_settle_cases)
  case (settled p' q y)
  then have pq: "p' = p" "q = o'" "y = Rejected e" using assms(2,3) by simp_all
  let ?rows = "open_positions env db (lp_id p)"
  have x: "x \<in> set ?rows" using assms(5-7) by (simp add: open_positions_def)
  define a where "a = constrainedOfficialPaperAccess (lp_access p) (member_allows (the (portfolio_membership db p)) (sl_fillTime i))
    (isOfficialPaperCustomerEmergencyStopped db (lp_customer p)) (?rows \<noteq> [])"
  have a: "a \<noteq> ReadOnly" using x by (auto simp: a_def constrainedOfficialPaperAccess_def)
  define prior where "prior = paper_state a p ?rows (portfolio_fills env db (lp_id p))"
  have "position_of prior (bo_symbol o') \<noteq> None" "po_access prior \<noteq> ReadOnly"
    using x a assms(8) by (auto simp: prior_def paper_state_def position_of_def find_None_all)
  moreover have e: "applyOfficialPaperFill prior (paper_booking o' i prior) = Inl e"
    using settled(4) assms(4) unfolding pq settle_order_def Let_def
    by (auto simp: prior_def a_def ebind_Inr_iff split: sum.split_asm)
  ultimately show ?thesis
    by (intro sell_apply_Inl [OF e]) (simp_all add: paper_booking_def assms(4))
qed simp

subsection \<open>A sample portfolio\<close>

definition sample_book_env :: book_env where
  "sample_book_env = \<lparr>nv_decimal = (\<lambda>x. case x of N a \<Rightarrow> Some a | _ \<Rightarrow> None), nv_column = Some, nv_text_le = (\<lambda>a b. True),
     nv_positionId = ''n'', nv_fillId = ''f'', nv_entryId = ''e'', nv_now = 0\<rparr>"

definition sample_order :: "string \<Rightarrow> string \<Rightarrow> fields \<Rightarrow> order_row" where
  "sample_order i action payload = \<lparr>bo_id = i, bo_portfolio = ''p1'', bo_deployment = ''d1'', bo_cycle = ''c1'', bo_key = i,
     bo_symbol = ''BTCUSDT'', bo_action = action, bo_timing = ''next_candle_open'', bo_price = None, bo_status = ''pending'',
     bo_rejection = None, bo_payload = payload, bo_createdAt = 0\<rparr>"

definition sample_book :: "bool \<Rightarrow> position_row list \<Rightarrow> order_row list \<Rightarrow> book_db" where
  "sample_book stopped ps os = \<lparr>
     lv_memberships = [\<lparr>mm_id = ''m1'', mm_customer = ''u1'', mm_status = ''active'', mm_expiresAt = None, mm_graceEndsAt = None\<rparr>],
     lv_users = [\<lparr>us_id = ''u1'', us_role = ''customer'', us_organization = None\<rparr>], lv_attributions = [],
     lv_stops = [\<lparr>sp_scope = ''platform'', sp_active = stopped\<rparr>],
     lv_deployments = [\<lparr>ld_id = ''d1'', ld_owner = ''u1'', ld_strategy = ''s1'', ld_version = ''v1'', ld_subscription = None,
       ld_account = None, ld_validationLabel = ''UNVERIFIED'', ld_positionSizePct = None, ld_stopLossPct = None, ld_key = ''k1'', ld_createdAt = 0, ld_mode = ''paper'', ld_product = ''spot_usdt'', ld_portfolio = Some ''p1'',
       ld_strategyCode = Some AiBalanced, ld_membership = Some ''m1'', ld_status = Active, ld_nextCycleAt = 0, ld_leaseOwner = None,
       ld_leaseExpiresAt = None, ld_fencing = 0, ld_sequence = 0, ld_lastCandle = None, ld_errorCode = None, ld_risk = []\<rparr>],
     lv_portfolios = [\<lparr>lp_id = ''p1'', lp_membership = ''m1'', lp_customer = ''u1'', lp_strategyCode = AiBalanced,
       lp_access = AccessActive, lp_book = ''paper'', lp_principal = 10000, lp_cash = 10000, lp_realized = 0, lp_gross = 0,
       lp_net = 0, lp_fees = 0, lp_risk = []\<rparr>],
     lv_positions = ps, lv_orders = os, lv_fills = [],
     lv_entries = [initial_entry ''e0'' ''p1'']\<rparr>"

definition sample_settle :: settle_input where
  "sample_settle = \<lparr>sl_deploymentId = ''d1'', sl_fillPrice = Some (N 100), sl_fillTime = 0, sl_timing = ''next_candle_open'',
     sl_traceId = ''t''\<rparr>"

definition sample_held :: position_row where
  "sample_held = \<lparr>bp_id = ''h1'', bp_portfolio = ''p1'', bp_symbol = ''BTCUSDT'', bp_open = True, bp_quantity = 1,
     bp_averageEntryPrice = 100, bp_costBasis = 100, bp_entryFees = 0, bp_lastMarkPrice = 100, bp_unrealized = 0,
     bp_realized = 0, bp_gross = 0, bp_net = 0, bp_openedAt = 0\<rparr>"

lemma sample_settle_fields [simp]:
  "sl_deploymentId sample_settle = ''d1''" "sl_fillPrice sample_settle = Some (N 100)" "sl_fillTime sample_settle = 0"
  "sl_timing sample_settle = ''next_candle_open''" "sl_traceId sample_settle = ''t''"
  by (simp_all add: sample_settle_def)

lemma sample_order_fields [simp]:
  "bo_id (sample_order i action f) = i" "bo_action (sample_order i action f) = action"
  "bo_symbol (sample_order i action f) = ''BTCUSDT''" "bo_payload (sample_order i action f) = f"
  by (simp_all add: sample_order_def)

lemma iso_zero: "date_parse (iso_text 0) = N 0"
  using date_parse_iso [of 0] by (simp add: max_time_def)

lemma sample_reads:
  "paper_portfolio (sample_book b ps os) ''d1'' = Some (hd (lv_portfolios (sample_book b ps os)))"
  "portfolio_membership (sample_book b ps os) (hd (lv_portfolios (sample_book b ps os))) = Some (hd (lv_memberships (sample_book b ps os)))"
  "isOfficialPaperCustomerEmergencyStopped (sample_book b ps os) ''u1'' = b"
  "pending_order sample_book_env (sample_book b ps [sample_order i action f]) sample_settle ''p1'' = Some (sample_order i action f)"
  by (simp_all add: paper_portfolio_def portfolio_membership_def isOfficialPaperCustomerEmergencyStopped_def sample_book_def
      pending_order_def sample_order_def sample_settle_def sort_by_def)

lemma sample_portfolio_fields:
  "lp_id (hd (lv_portfolios (sample_book b ps os))) = ''p1''" "lp_customer (hd (lv_portfolios (sample_book b ps os))) = ''u1''"
  "lp_strategyCode (hd (lv_portfolios (sample_book b ps os))) = AiBalanced"
  "lp_access (hd (lv_portfolios (sample_book b ps os))) = AccessActive"
  by (simp_all add: sample_book_def)

text \<open>A settlement in the sample that the booking refuses.\<close>

lemma sample_refused:
  fixes ps action f
  defines "db \<equiv> sample_book True ps [sample_order ''o1'' action f]"
  assumes "\<And>prior. po_access prior \<noteq> AccessActive \<Longrightarrow> po_strategyCode prior = AiBalanced
     \<Longrightarrow> applyOfficialPaperFill prior (paper_booking (sample_order ''o1'' action f) sample_settle prior) = Inl e"
  shows "fst (settlePendingOfficialPaperOrder sample_book_env sample_settle db)
     = Inr (Some (Rejected (if action = ''buy'' then OFFICIAL_PAPER_EMERGENCY_REJECTION_CODE else e)))"
proof -
  have "po_access (paper_state (constrainedOfficialPaperAccess a b True c) p rows fills) \<noteq> AccessActive" for a b c p rows fills
    by (simp add: access_in_force constrainedOfficialPaperAccess_def)
  moreover have "po_strategyCode (paper_state a (hd (lv_portfolios db)) rows fills) = AiBalanced" for a rows fills
    by (simp add: paper_state_def db_def sample_portfolio_fields)
  ultimately show ?thesis unfolding settlePendingOfficialPaperOrder_def db_def
    by (simp add: sample_reads sample_portfolio_fields settle_order_def Let_def assms(2))
qed

lemma stopped_buy_run:
  "fst (settlePendingOfficialPaperOrder sample_book_env sample_settle (sample_book True [] [sample_order ''o1'' ''buy'' [(''takerFeeRate'', JNum (N 0))]]))
     = Inr (Some (Rejected OFFICIAL_PAPER_EMERGENCY_REJECTION_CODE))"
proof -
  have "\<not> lit (1 / 100) < N 0" using js_of_nonneg [of "1 / 100"] by (auto simp: js_not_less)
  then have "applyOfficialPaperFill prior (paper_booking (sample_order ''o1'' ''buy'' [(''takerFeeRate'', JNum (N 0))]) sample_settle prior) = Inl ''CLOSE_ONLY''"
    if "po_access prior \<noteq> AccessActive" "po_strategyCode prior = AiBalanced" for prior
    using that by (simp add: applyOfficialPaperFill_def paper_booking_def iso_zero portfolio_positive_def fee_checked_def
        payload_number_def field_def book_buy_def)
  from sample_refused [OF this] show ?thesis by simp
qed

theorem closed_entry_rejected_witness:
  "\<exists>db'. settlePendingOfficialPaperOrder sample_book_env sample_settle (sample_book True [] [sample_order ''o1'' ''buy'' [(''takerFeeRate'', JNum (N 0))]])
      = (Inr (Some (Rejected OFFICIAL_PAPER_EMERGENCY_REJECTION_CODE)), db')
    \<and> (\<forall>x \<in> set (lv_orders db'). bo_id x = ''o1'' \<longrightarrow> bo_status x = ''rejected'')"
proof -
  let ?db = "sample_book True [] [sample_order ''o1'' ''buy'' [(''takerFeeRate'', JNum (N 0))]]"
  obtain db' where r: "settlePendingOfficialPaperOrder sample_book_env sample_settle ?db
      = (Inr (Some (Rejected OFFICIAL_PAPER_EMERGENCY_REJECTION_CODE)), db')"
    using stopped_buy_run by (metis prod.collapse)
  have c: "lp_customer (hd (lv_portfolios ?db)) = ''u1''" "lp_id (hd (lv_portfolios ?db)) = ''p1''" by (simp_all add: sample_book_def)
  from closed_entry_rejected [OF r, of "hd (lv_portfolios ?db)" "sample_order ''o1'' ''buy'' [(''takerFeeRate'', JNum (N 0))]"] r show ?thesis
    by (simp add: sample_reads c)
qed

theorem exits_stay_open_witness:
  "fst (settlePendingOfficialPaperOrder sample_book_env sample_settle
     (sample_book True [sample_held] [sample_order ''o1'' ''sell'' [(''takerFeeRate'', JObj [])]])) = Inr (Some (Rejected ''FEE_RATE_INVALID''))
   \<and> ''FEE_RATE_INVALID'' \<in> {''SYMBOL_UNSUPPORTED'', ''FILL_TIME_INVALID'', ''FILL_PRICE_INVALID'', ''FEE_RATE_INVALID'', ''SELL_QUANTITY_INVALID'',
    ''SELL_EXCEEDS_POSITION'', ''AMOUNT_INVALID'', ''MARK_PRICE_INVALID''}"
proof -
  let ?o = "sample_order ''o1'' ''sell'' [(''takerFeeRate'', JObj [])]"
  let ?db = "sample_book True [sample_held] [?o]"
  have "applyOfficialPaperFill prior (paper_booking ?o sample_settle prior) = Inl ''FEE_RATE_INVALID''"
    if "po_access prior \<noteq> AccessActive" "po_strategyCode prior = AiBalanced" for prior
    using that by (simp add: applyOfficialPaperFill_def paper_booking_def iso_zero portfolio_positive_def fee_checked_def
        payload_number_def field_def)
  from sample_refused [OF this, of "[sample_held]"]
  have f: "fst (settlePendingOfficialPaperOrder sample_book_env sample_settle ?db) = Inr (Some (Rejected ''FEE_RATE_INVALID''))"
    by simp
  then obtain db' where r: "settlePendingOfficialPaperOrder sample_book_env sample_settle ?db = (Inr (Some (Rejected ''FEE_RATE_INVALID'')), db')"
    by (metis prod.collapse)
  from exits_stay_open [OF r, of "hd (lv_portfolios ?db)" ?o sample_held] f show ?thesis
    by (simp add: sample_reads sample_portfolio_fields)
qed

end
