(* ===== verification/RuntimeStore.thy ===== *)
theory RuntimeStore
  imports PaperBook RuntimeAdmission
begin

text \<open>
  The store of the strategy runtime (\<open>lib/strategy-runtime-repository.ts\<close>): deployments, the lease of
  a deployment by a worker, the completion of a cycle with its decision round, its events, its order
  and its explanation jobs, and the leases of those jobs. The tables are those of the migrations
  0007, 0013, 0024, 0046, 0047 and 0048 with their unique indexes, checks and the foreign keys that
  the writes can break. Every exported function is one transaction; a worker that skips rows locked
  by another sees, in this model, the state after the other's transaction. Random identifiers, the
  clock of the database and the order of texts are arguments; the snapshot, durations and model
  names of a row are left out where nothing reads them.
\<close>

subsection \<open>Tables\<close>

record cycle_row =
  cy_id :: string
  cy_deployment :: string
  cy_sequence :: int
  cy_fencing :: int
  cy_closeTime :: int
  cy_decision :: fields
  cy_orderIntent :: "fields option"
  cy_trace :: string
  cy_round :: "string option"

record round_row =
  dr_id :: string
  dr_strategyCode :: string
  dr_symbol :: string
  dr_timeframe :: string
  dr_closeTime :: int
  dr_decision :: fields
  dr_orderIntent :: "fields option"

datatype explanation_status = NotRequested | Pending | Running | RetryWait | Completed | Failed

record event_row =
  ev_cycle :: "string option"
  ev_round :: "string option"
  ev_sequence :: int
  ev_role :: string
  ev_conclusion :: string
  ev_evidence :: fields
  ev_status :: explanation_status
  ev_explanation :: "json option"
  ev_errorCode :: "string option"

datatype explanation_role = MarketSummary | AdversarialExplanation | RiskExplanation

record job_row =
  jb_id :: string
  jb_cycle :: "string option"
  jb_round :: "string option"
  jb_eventRole :: string
  jb_role :: explanation_role
  jb_revision :: string
  jb_status :: explanation_status
  jb_leaseOwner :: "string option"
  jb_leaseExpiresAt :: "int option"
  jb_fencing :: int
  jb_attempts :: int
  jb_maxAttempts :: int
  jb_nextAttemptAt :: int
  jb_errorCode :: "string option"
  jb_createdAt :: int

record perpetual_order =
  qo_id :: string
  qo_deployment :: string
  qo_cycle :: string
  qo_key :: string
  qo_action :: string
  qo_timing :: string
  qo_price :: "rat option"
  qo_status :: string
  qo_payload :: fields
  qo_createdAt :: int

record paper_position =
  qp_id :: string
  qp_deployment :: string
  qp_side :: string
  qp_open :: bool
  qp_quantity :: rat
  qp_entryPrice :: rat
  qp_exitPrice :: "rat option"
  qp_openedCycle :: string
  qp_closedCycle :: "string option"
  qp_fees :: rat
  qp_funding :: rat
  qp_realized :: rat
  qp_openedAt :: int
  qp_closedAt :: "int option"

record funding_accrual =
  fa_id :: string
  fa_deployment :: string
  fa_position :: string
  fa_time :: int
  fa_rate :: jsnum
  fa_notional :: rat
  fa_cost :: rat

record runtime_db = book_db +
  rt_versions :: "string list"
  rt_cycles :: "cycle_row list"
  rt_rounds :: "round_row list"
  rt_events :: "event_row list"
  rt_jobs :: "job_row list"
  rt_bindings :: "(explanation_role \<times> string) list"
  rt_perpetualOrders :: "perpetual_order list"
  rt_paperPositions :: "paper_position list"
  rt_accruals :: "funding_accrual list"

record runtime_env = book_env +
  nv_orderId :: string
  nv_jobId :: "explanation_role \<Rightarrow> string"

subsection \<open>Leases\<close>

definition update_deployment :: "string \<Rightarrow> (deployment_row \<Rightarrow> deployment_row) \<Rightarrow> 'd book_db_scheme \<Rightarrow> 'd book_db_scheme" where
  "update_deployment i f db = db\<lparr>lv_deployments := map (\<lambda>d. if ld_id d = i then f d else d) (lv_deployments db)\<rparr>"

definition worker_invalid :: "string \<Rightarrow> bool" where
  "worker_invalid w \<longleftrightarrow> js_trim w = [] \<or> 120 < length w"

definition lease_invalid :: "jsnum \<Rightarrow> bool" where
  "lease_invalid s \<longleftrightarrow> \<not> is_integer s \<or> s < N 5 \<or> N 300 < s"

definition deployment_due :: "int \<Rightarrow> deployment_row \<Rightarrow> bool" where
  "deployment_due now d \<longleftrightarrow> ld_status d = Active \<and> ld_product d = ''spot_usdt'' \<and> ld_nextCycleAt d \<le> now
     \<and> (case ld_leaseExpiresAt d of None \<Rightarrow> True | Some t \<Rightarrow> t \<le> now)"

definition deployment_before :: "'e book_env_scheme \<Rightarrow> deployment_row \<Rightarrow> deployment_row \<Rightarrow> bool" where
  "deployment_before env a b \<longleftrightarrow> ld_nextCycleAt a < ld_nextCycleAt b
     \<or> ld_nextCycleAt a = ld_nextCycleAt b \<and> nv_text_le env (ld_id a) (ld_id b)"

definition leased :: "string \<Rightarrow> int \<Rightarrow> deployment_row \<Rightarrow> deployment_row" where
  "leased worker expires d = d\<lparr>ld_leaseOwner := Some worker, ld_leaseExpiresAt := Some expires, ld_fencing := ld_fencing d + 1\<rparr>"

definition milliseconds :: "jsnum \<Rightarrow> int" where
  "milliseconds s = (case s of N a \<Rightarrow> \<lfloor>a\<rfloor> * 1000 | _ \<Rightarrow> 0)"

text \<open>The first due deployment, if its version and its official binding are there.\<close>

definition leaseNextStrategyDeployment ::
    "'e book_env_scheme \<Rightarrow> string \<Rightarrow> int \<Rightarrow> jsnum \<Rightarrow> runtime_db \<Rightarrow> (string, deployment_row option \<times> runtime_db) result" where
  "leaseNextStrategyDeployment env worker now leaseSeconds db =
     (if worker_invalid worker then Inl ''WORKER_INVALID''
      else if lease_invalid leaseSeconds then Inl ''LEASE_INVALID''
      else case sort_by (deployment_before env) (filter (deployment_due now) (lv_deployments db)) of
          [] \<Rightarrow> Inr (None, db)
        | d # _ \<Rightarrow>
            (if ld_version d \<in> set (rt_versions db) \<and> ld_strategyCode d \<noteq> None \<and> ld_membership d \<noteq> None \<and> ld_portfolio d \<noteq> None
             then let d' = leased worker (now + milliseconds leaseSeconds) d
                  in Inr (Some d', update_deployment (ld_id d) (leased worker (now + milliseconds leaseSeconds)) db)
             else Inr (None, db)))"

definition holds_lease :: "string \<Rightarrow> string \<Rightarrow> int \<Rightarrow> deployment_row \<Rightarrow> bool" where
  "holds_lease i worker token d \<longleftrightarrow> ld_id d = i \<and> ld_leaseOwner d = Some worker \<and> ld_fencing d = token"

definition renewStrategyRuntimeLease ::
    "string \<Rightarrow> string \<Rightarrow> int \<Rightarrow> int \<Rightarrow> jsnum \<Rightarrow> 'd book_db_scheme \<Rightarrow> (string, int \<times> 'd book_db_scheme) result" where
  "renewStrategyRuntimeLease i worker token now leaseSeconds db =
     (if lease_invalid leaseSeconds then Inl ''LEASE_INVALID''
      else if length (filter (\<lambda>d. holds_lease i worker token d \<and> ld_status d = Active \<and> ld_product d = ''spot_usdt''
             \<and> (case ld_leaseExpiresAt d of None \<Rightarrow> False | Some t \<Rightarrow> now < t)) (lv_deployments db)) \<noteq> 1 then Inl ''LEASE_LOST''
      else Inr (now + milliseconds leaseSeconds,
             update_deployment i (\<lambda>d. d\<lparr>ld_leaseExpiresAt := Some (now + milliseconds leaseSeconds)\<rparr>) db))"

definition released :: "int \<Rightarrow> deployment_row \<Rightarrow> deployment_row" where
  "released nextCycleAt d = d\<lparr>ld_leaseOwner := None, ld_leaseExpiresAt := None, ld_nextCycleAt := nextCycleAt\<rparr>"

definition deferStrategyRuntimeLease :: "string \<Rightarrow> string \<Rightarrow> int \<Rightarrow> int \<Rightarrow> 'd book_db_scheme \<Rightarrow> (string, 'd book_db_scheme) result" where
  "deferStrategyRuntimeLease i worker token nextCycleAt db =
     (if length (filter (holds_lease i worker token) (lv_deployments db)) \<noteq> 1 then Inl ''LEASE_LOST''
      else Inr (update_deployment i (released nextCycleAt) db))"

definition failStrategyRuntimeLease :: "string \<Rightarrow> string \<Rightarrow> int \<Rightarrow> string \<Rightarrow> int \<Rightarrow> 'd book_db_scheme \<Rightarrow> 'd book_db_scheme" where
  "failStrategyRuntimeLease i worker token code retryAt db =
     update_deployment i (\<lambda>d. if holds_lease i worker token d
       then (released retryAt d)\<lparr>ld_errorCode := Some code\<rparr> else d) db"

subsection \<open>A cycle\<close>

record cycle_event =
  ce_sequence :: int
  ce_role :: string
  ce_conclusion :: string
  ce_evidence :: fields

record round_input =
  ri_strategyCode :: string
  ri_timeframe :: string
  ri_decision :: fields
  ri_orderIntent :: "fields option"
  ri_events :: "cycle_event list"

record cycle_input =
  ci_cycleId :: string
  ci_deploymentId :: string
  ci_workerId :: string
  ci_fencingToken :: int
  ci_candleCloseTime :: int
  ci_decision :: fields
  ci_orderIntent :: "fields option"
  ci_events :: "cycle_event list"
  ci_traceId :: string
  ci_startedAt :: int
  ci_nextCycleAt :: int
  ci_positionSizePct :: jsnum
  ci_takerFeeRate :: "jsnum option"
  ci_symbol :: "string option"
  ci_riskPerTradePct :: "jsnum option"
  ci_round :: "round_input option"

text \<open>The shared round of a card, a symbol, a timeframe and a candle: whoever inserts it has created it.\<close>

definition official_symbols :: "string list" where
  "official_symbols = [''BTCUSDT'', ''ETHUSDT'', ''SOLUSDT'']"

definition round_checks :: "string \<Rightarrow> round_input \<Rightarrow> bool" where
  "round_checks smb r \<longleftrightarrow> ri_strategyCode r \<in> {''ai_conservative'', ''ai_balanced'', ''ai_aggressive''} \<and> smb \<in> set official_symbols
     \<and> ri_timeframe r \<in> {''5m'', ''15m'', ''1h'', ''4h'', ''1d''}"

definition insert_round :: "cycle_input \<Rightarrow> string \<Rightarrow> round_input \<Rightarrow> runtime_db \<Rightarrow> (string, bool \<times> runtime_db) result" where
  "insert_round i smb r db =
     (let rid = deterministicDecisionRoundId (ri_strategyCode r) smb (ri_timeframe r) (N (of_int (ci_candleCloseTime i)))
      in if \<not> round_checks smb r then Inl ''CONSTRAINT''
         else if list_ex (\<lambda>x. dr_strategyCode x = ri_strategyCode r \<and> dr_symbol x = smb \<and> dr_timeframe x = ri_timeframe r
             \<and> dr_closeTime x = ci_candleCloseTime i) (rt_rounds db) then Inr (False, db)
         else if list_ex (\<lambda>x. dr_id x = rid) (rt_rounds db) then Inl ''CONSTRAINT''
         else Inr (True, db\<lparr>rt_rounds := rt_rounds db @ [\<lparr>dr_id = rid, dr_strategyCode = ri_strategyCode r, dr_symbol = smb,
                dr_timeframe = ri_timeframe r, dr_closeTime = ci_candleCloseTime i, dr_decision = ri_decision r,
                dr_orderIntent = ri_orderIntent r\<rparr>]\<rparr>))"

definition round_id :: "cycle_input \<Rightarrow> string option" where
  "round_id i = (case (ci_round i, ci_symbol i) of
     (Some r, Some smb) \<Rightarrow> Some (deterministicDecisionRoundId (ri_strategyCode r) smb (ri_timeframe r) (N (of_int (ci_candleCloseTime i))))
   | _ \<Rightarrow> None)"

definition join_round :: "cycle_input \<Rightarrow> runtime_db \<Rightarrow> (string, bool \<times> runtime_db) result" where
  "join_round i db = (case (ci_round i, ci_symbol i) of
     (Some r, Some smb) \<Rightarrow> insert_round i smb r db | _ \<Rightarrow> Inr (False, db))"

definition decision_action :: "fields \<Rightarrow> string" where
  "decision_action d = (case field d ''action'' of JUndef \<Rightarrow> ''hold'' | JNull \<Rightarrow> ''hold'' | v \<Rightarrow> json_to_string v)"

definition text_items :: "json \<Rightarrow> string list" where
  "text_items v = (case v of JArr vs \<Rightarrow> List.map_filter (\<lambda>x. case x of JStr s \<Rightarrow> Some s | _ \<Rightarrow> None) vs | _ \<Rightarrow> [])"

definition persist_admission :: "cycle_input \<Rightarrow> bool" where
  "persist_admission i \<longleftrightarrow> round_id i = None \<or> shouldPersistAdmission
     \<lparr>ao_action = decision_action (ci_decision i), ao_riskApproved = (field (ci_decision i) ''riskApproved'' \<noteq> JBool False),
      ao_hasOrderIntent = (ci_orderIntent i \<noteq> None), ao_rejectionReasons = Some (text_items (field (ci_decision i) ''rejectionReasons''))\<rparr>"

definition insert_cycle :: "cycle_input \<Rightarrow> int \<Rightarrow> runtime_db \<Rightarrow> (string, runtime_db) result" where
  "insert_cycle i sequence db =
     checked (\<not> list_ex (\<lambda>c. cy_id c = ci_cycleId i \<or> cy_deployment c = ci_deploymentId i
         \<and> (cy_sequence c = sequence \<or> cy_closeTime c = ci_candleCloseTime i)) (rt_cycles db))
       (db\<lparr>rt_cycles := rt_cycles db @ [\<lparr>cy_id = ci_cycleId i, cy_deployment = ci_deploymentId i, cy_sequence = sequence,
          cy_fencing = ci_fencingToken i, cy_closeTime = ci_candleCloseTime i, cy_decision = ci_decision i,
          cy_orderIntent = ci_orderIntent i, cy_trace = ci_traceId i, cy_round = round_id i\<rparr>]\<rparr>)"

definition event_roles :: "string list" where
  "event_roles = [''market_data'', ''technical_analysis'', ''strategy_decision'', ''adversarial_review'', ''risk'', ''execution'', ''audit'']"

definition insert_event :: "string option \<Rightarrow> string option \<Rightarrow> cycle_event \<Rightarrow> runtime_db \<Rightarrow> (string, runtime_db) result" where
  "insert_event cycle rid e db =
     checked (1 \<le> ce_sequence e \<and> ce_sequence e \<le> 7 \<and> ce_role e \<in> set event_roles \<and> (cycle \<noteq> None \<or> rid \<noteq> None)
         \<and> \<not> list_ex (\<lambda>x. (ev_sequence x = ce_sequence e \<or> ev_role x = ce_role e)
              \<and> (cycle \<noteq> None \<and> ev_cycle x = cycle \<or> rid \<noteq> None \<and> ev_round x = rid)) (rt_events db))
       (db\<lparr>rt_events := rt_events db @ [\<lparr>ev_cycle = cycle, ev_round = rid, ev_sequence = ce_sequence e, ev_role = ce_role e,
          ev_conclusion = ce_conclusion e, ev_evidence = ce_evidence e, ev_status = NotRequested, ev_explanation = None,
          ev_errorCode = None\<rparr>]\<rparr>)"

subsection \<open>Explanation jobs\<close>

definition runtimeExplanationEventRole :: "explanation_role \<Rightarrow> string" where
  "runtimeExplanationEventRole r = (case r of MarketSummary \<Rightarrow> ''market_data'' | AdversarialExplanation \<Rightarrow> ''adversarial_review''
     | RiskExplanation \<Rightarrow> ''risk'')"

text \<open>\<open>column ->> key\<close>.\<close>

definition stored_text :: "json \<Rightarrow> string option" where
  "stored_text v = (case v of JUndef \<Rightarrow> None | JNull \<Rightarrow> None | _ \<Rightarrow> Some (json_to_string v))"

definition current_market_state :: "cycle_event list \<Rightarrow> string" where
  "current_market_state es = (case find (\<lambda>e. ce_role e = ''market_data'') es of None \<Rightarrow> ''unknown''
     | Some e \<Rightarrow> (case field (ce_evidence e) ''marketState'' of JUndef \<Rightarrow> ''unknown'' | JNull \<Rightarrow> ''unknown'' | v \<Rightarrow> json_to_string v))"

text \<open>The last market summary of the deployment: its candle and the state it described.\<close>

definition previous_summary :: "string \<Rightarrow> string \<Rightarrow> runtime_db \<Rightarrow> (int \<times> string option) option" where
  "previous_summary dep cycle db =
     (let found = concat (map (\<lambda>j. concat (map (\<lambda>c. map (\<lambda>e. (cy_closeTime c, stored_text (field (ev_evidence e) ''marketState'')))
             (filter (\<lambda>e. ev_cycle e = Some (cy_id c) \<and> ev_role e = ''market_data'') (rt_events db)))
             (filter (\<lambda>c. jb_cycle j = Some (cy_id c) \<and> cy_deployment c = dep \<and> cy_id c \<noteq> cycle) (rt_cycles db))))
             (filter (\<lambda>j. jb_role j = MarketSummary) (rt_jobs db)))
      in case sort_by (\<lambda>a b. fst b \<le> fst a) found of [] \<Rightarrow> None | x # _ \<Rightarrow> Some x)"

definition summary_due :: "cycle_input \<Rightarrow> runtime_db \<Rightarrow> bool" where
  "summary_due i db = (case previous_summary (ci_deploymentId i) (ci_cycleId i) db of None \<Rightarrow> True
     | Some (t, s) \<Rightarrow> s \<noteq> Some (current_market_state (ci_events i)) \<or> 4 * 3600000 \<le> ci_candleCloseTime i - t)"

definition explanation_requested :: "cycle_input \<Rightarrow> bool \<Rightarrow> explanation_role \<Rightarrow> bool" where
  "explanation_requested i due r = (case r of MarketSummary \<Rightarrow> due
     | _ \<Rightarrow> decision_action (ci_decision i) \<noteq> ''hold'' \<or> field (ci_decision i) ''riskApproved'' = JBool False)"

text \<open>A conflict with an index leaves the table; a job whose cycle is not there breaks its foreign key.\<close>

definition insert_job :: "runtime_env \<Rightarrow> cycle_input \<Rightarrow> explanation_role \<Rightarrow> string \<Rightarrow> runtime_db \<Rightarrow> (string, bool \<times> runtime_db) result" where
  "insert_job env i r revision db =
     (let eventRole = runtimeExplanationEventRole r in
      if list_ex (\<lambda>j. jb_id j = nv_jobId env r \<or> jb_eventRole j = eventRole
           \<and> (jb_cycle j = Some (ci_cycleId i) \<or> round_id i \<noteq> None \<and> jb_round j = round_id i)) (rt_jobs db)
      then Inr (False, db)
      else if \<not> list_ex (\<lambda>c. cy_id c = ci_cycleId i) (rt_cycles db) then Inl ''FOREIGN_KEY''
      else Inr (True, db\<lparr>rt_jobs := rt_jobs db @ [\<lparr>jb_id = nv_jobId env r, jb_cycle = Some (ci_cycleId i), jb_round = round_id i,
             jb_eventRole = eventRole, jb_role = r, jb_revision = revision, jb_status = Pending, jb_leaseOwner = None,
             jb_leaseExpiresAt = None, jb_fencing = 0, jb_attempts = 0, jb_maxAttempts = 3, jb_nextAttemptAt = nv_now env,
             jb_errorCode = None, jb_createdAt = nv_now env\<rparr>]\<rparr>))"

definition update_events :: "(event_row \<Rightarrow> bool) \<Rightarrow> (event_row \<Rightarrow> event_row) \<Rightarrow> runtime_db \<Rightarrow> runtime_db" where
  "update_events P f db = db\<lparr>rt_events := map (\<lambda>e. if P e then f e else e) (rt_events db)\<rparr>"

definition event_of :: "string option \<Rightarrow> string option \<Rightarrow> string \<Rightarrow> event_row \<Rightarrow> bool" where
  "event_of rid cycle role e \<longleftrightarrow> ev_role e = role \<and> (if rid \<noteq> None then ev_round e = rid else cycle \<noteq> None \<and> ev_cycle e = cycle)"

definition enqueue_role :: "runtime_env \<Rightarrow> cycle_input \<Rightarrow> bool \<Rightarrow> explanation_role \<times> string \<Rightarrow> runtime_db \<Rightarrow> (string, runtime_db) result" where
  "enqueue_role env i due b db = (case b of (r, revision) \<Rightarrow>
     if \<not> explanation_requested i due r then Inr db
     else ebind (insert_job env i r revision db) (\<lambda>(new, db1).
       Inr (if new then update_events (event_of (round_id i) (Some (ci_cycleId i)) (runtimeExplanationEventRole r))
              (\<lambda>e. e\<lparr>ev_status := Pending\<rparr>) db1 else db1)))"

definition enqueueRuntimeExplanationJobs :: "runtime_env \<Rightarrow> cycle_input \<Rightarrow> runtime_db \<Rightarrow> (string, runtime_db) result" where
  "enqueueRuntimeExplanationJobs env i db = efold (enqueue_role env i (summary_due i db)) (rt_bindings db) db"

subsection \<open>The order of a cycle\<close>

definition requested_price :: "'e book_env_scheme \<Rightarrow> fields \<Rightarrow> (string, rat option) result" where
  "requested_price env o' = (case field o' ''requestedPrice'' of JUndef \<Rightarrow> Inr None | JNull \<Rightarrow> Inr None
     | JNum x \<Rightarrow> ebind (numeric env x) (\<lambda>r. Inr (Some r)) | _ \<Rightarrow> Inl ''CONSTRAINT'')"

text \<open>\<open>JSON.stringify\<close> leaves out what is undefined.\<close>

definition stored_fields :: "fields \<Rightarrow> fields" where
  "stored_fields fs = filter (\<lambda>(k, v). v \<noteq> JUndef) fs"

definition spot_payload :: "cycle_input \<Rightarrow> fields \<Rightarrow> jsnum \<Rightarrow> fields" where
  "spot_payload i o' risk = stored_fields [(''mode'', field o' ''mode''),
     (''quoteAmountUsdt'', number_json (N 10000 * risk / N 100)),
     (''takerFeeRate'', number_json (case ci_takerFeeRate i of None \<Rightarrow> lit (1 / 1000) | Some x \<Rightarrow> x)),
     (''traceId'', JStr (ci_traceId i)), (''customerExchangeAccountUsed'', JBool False)]"

definition rejection_code :: "deployment_row \<Rightarrow> string \<Rightarrow> paper_access \<Rightarrow> string option" where
  "rejection_code d action a =
     (if ld_mode d = ''paper'' \<and> action = ''enter_long'' \<and> pa_access a \<noteq> AccessActive
      then Some (if pa_emergencyStopped a then OFFICIAL_PAPER_EMERGENCY_REJECTION_CODE else ''OFFICIAL_PAPER_ACCESS_RESTRICTED'')
      else None)"

text \<open>The insert: the checks of the columns, the index of the idempotency keys, the keys.\<close>

definition store_spot_order :: "order_row \<Rightarrow> runtime_db \<Rightarrow> (string, runtime_db) result" where
  "store_spot_order x db =
     (if bo_timing x \<notin> {''next_candle_open'', ''intrabar_threshold'', ''live_market''} \<or> bo_symbol x \<notin> set official_symbols
      then Inl ''CONSTRAINT''
      else if list_ex (\<lambda>y. bo_key y = bo_key x) (lv_orders db) then Inr db
      else checked (\<not> list_ex (\<lambda>y. bo_id y = bo_id x) (lv_orders db) \<and> list_ex (\<lambda>c. cy_id c = bo_cycle x) (rt_cycles db))
             (db\<lparr>lv_orders := lv_orders db @ [x]\<rparr>))"

definition spot_order ::
    "runtime_env \<Rightarrow> cycle_input \<Rightarrow> deployment_row \<Rightarrow> fields \<Rightarrow> string \<Rightarrow> string \<Rightarrow> jsnum \<Rightarrow> rat option \<Rightarrow> string option \<Rightarrow> order_row" where
  "spot_order env i d o' portfolio smb risk price code =
     \<lparr>bo_id = nv_orderId env, bo_portfolio = portfolio, bo_deployment = ci_deploymentId i, bo_cycle = ci_cycleId i,
      bo_key = json_to_string (field o' ''idempotencyKey''), bo_symbol = smb,
      bo_action = (if json_to_string (field o' ''action'') = ''enter_long'' then ''buy'' else ''sell''),
      bo_timing = json_to_string (field o' ''executionTiming''), bo_price = price,
      bo_status = (if code \<noteq> None then ''rejected'' else if ld_mode d = ''shadow'' then ''shadowed'' else ''pending''),
      bo_rejection = code, bo_payload = spot_payload i o' risk, bo_createdAt = nv_now env\<rparr>"

definition insert_spot_order :: "runtime_env \<Rightarrow> cycle_input \<Rightarrow> deployment_row \<Rightarrow> fields \<Rightarrow> runtime_db \<Rightarrow> (string, runtime_db) result" where
  "insert_spot_order env i d o' db =
     (let action = json_to_string (field o' ''action'') in
      if action = ''enter_short'' then Inl ''SHORT_FORBIDDEN''
      else if action \<noteq> ''enter_long'' \<and> action \<noteq> ''exit'' then Inl ''ACTION_INVALID''
      else case (ld_portfolio d, ci_symbol i) of
          (Some portfolio, Some smb) \<Rightarrow>
            (case ci_riskPerTradePct i of None \<Rightarrow> Inl ''RISK_MISSING''
             | Some risk \<Rightarrow>
                if \<not> is_finite risk \<or> risk \<le> N 0 then Inl ''RISK_MISSING''
                else ebind (resolveOfficialPaperAccess db portfolio (ci_startedAt i)) (\<lambda>access.
                  ebind (requested_price env o') (\<lambda>price.
                  store_spot_order (spot_order env i d o' portfolio smb risk price (rejection_code d action access)) db)))
        | _ \<Rightarrow> Inl ''PORTFOLIO_MISSING'')"

definition store_perpetual_order :: "perpetual_order \<Rightarrow> runtime_db \<Rightarrow> (string, runtime_db) result" where
  "store_perpetual_order x db =
     (if qo_action x \<notin> {''enter_long'', ''enter_short'', ''exit''} \<or> qo_timing x \<notin> {''next_candle_open'', ''intrabar_threshold''}
      then Inl ''CONSTRAINT''
      else if list_ex (\<lambda>y. qo_key y = qo_key x) (rt_perpetualOrders db) then Inr db
      else checked (\<not> list_ex (\<lambda>y. qo_id y = qo_id x) (rt_perpetualOrders db) \<and> list_ex (\<lambda>c. cy_id c = qo_cycle x) (rt_cycles db))
             (db\<lparr>rt_perpetualOrders := rt_perpetualOrders db @ [x]\<rparr>))"

definition insert_perpetual_order :: "runtime_env \<Rightarrow> cycle_input \<Rightarrow> deployment_row \<Rightarrow> fields \<Rightarrow> runtime_db \<Rightarrow> (string, runtime_db) result" where
  "insert_perpetual_order env i d o' db =
     ebind (requested_price env o') (\<lambda>price.
     store_perpetual_order \<lparr>qo_id = nv_orderId env, qo_deployment = ci_deploymentId i, qo_cycle = ci_cycleId i,
       qo_key = json_to_string (field o' ''idempotencyKey''), qo_action = json_to_string (field o' ''action''),
       qo_timing = json_to_string (field o' ''executionTiming''), qo_price = price,
       qo_status = (if ld_mode d = ''shadow'' then ''shadowed'' else ''pending''),
       qo_payload = put_fields (stored_fields o') [(''positionSizePct'', number_json (ci_positionSizePct i)),
         (''initialEquityUsdt'', JNum (N 10000)),
         (''takerFeeRate'', number_json (case ci_takerFeeRate i of None \<Rightarrow> lit (7 / 10000) | Some x \<Rightarrow> x))], qo_createdAt = nv_now env\<rparr> db)"

definition insert_cycle_order :: "runtime_env \<Rightarrow> cycle_input \<Rightarrow> deployment_row \<Rightarrow> runtime_db \<Rightarrow> (string, runtime_db) result" where
  "insert_cycle_order env i d db = (case ci_orderIntent i of None \<Rightarrow> Inr db
     | Some o' \<Rightarrow> if ld_product d = ''spot_usdt'' then insert_spot_order env i d o' db else insert_perpetual_order env i d o' db)"

subsection \<open>Completion\<close>

record cycle_completion =
  cc_id :: string
  cc_sequence :: int
  cc_duplicate :: bool

definition completed :: "cycle_input \<Rightarrow> deployment_row \<Rightarrow> deployment_row" where
  "completed i d = (released (ci_nextCycleAt i) d)\<lparr>ld_sequence := ld_sequence d + 1, ld_lastCandle := Some (ci_candleCloseTime i),
     ld_errorCode := None\<rparr>"

definition write_cycle :: "runtime_env \<Rightarrow> cycle_input \<Rightarrow> deployment_row \<Rightarrow> runtime_db \<Rightarrow> (string, runtime_db) result" where
  "write_cycle env i d db =
     ebind (join_round i db) (\<lambda>(created, db1).
     ebind (if persist_admission i then insert_cycle i (ld_sequence d) db1 else Inr db1) (\<lambda>db2.
     ebind (efold (insert_event (if persist_admission i then Some (ci_cycleId i) else None) (round_id i))
         (if (if round_id i \<noteq> None then created else persist_admission i)
          then (case (round_id i, ci_round i) of (Some _, Some r) \<Rightarrow> ri_events r | _ \<Rightarrow> ci_events i) else []) db2) (\<lambda>db3.
     ebind (enqueueRuntimeExplanationJobs env i db3) (\<lambda>db4.
     insert_cycle_order env i d db4))))"

definition completeStrategyRuntimeCycle ::
    "runtime_env \<Rightarrow> cycle_input \<Rightarrow> runtime_db \<Rightarrow> (string, cycle_completion) result \<times> runtime_db" where
  "completeStrategyRuntimeCycle env i db =
     (if length (ci_events i) \<noteq> 7 then (Inl ''SEVEN_EVENTS'', db)
      else case find (\<lambda>c. cy_deployment c = ci_deploymentId i \<and> cy_closeTime c = ci_candleCloseTime i) (rt_cycles db) of
        Some c \<Rightarrow> (Inr \<lparr>cc_id = cy_id c, cc_sequence = cy_sequence c, cc_duplicate = True\<rparr>,
          update_deployment (ci_deploymentId i) (\<lambda>d. if ld_fencing d = ci_fencingToken i then released (ci_nextCycleAt i) d else d) db)
      | None \<Rightarrow>
        (case find (\<lambda>d. holds_lease (ci_deploymentId i) (ci_workerId i) (ci_fencingToken i) d \<and> ld_status d = Active) (lv_deployments db) of
           None \<Rightarrow> (Inl ''LEASE_LOST'', db)
         | Some d \<Rightarrow>
             (case write_cycle env i (completed i d) (update_deployment (ci_deploymentId i) (completed i) db) of
                Inl e \<Rightarrow> (Inl e, db)
              | Inr db' \<Rightarrow> (Inr \<lparr>cc_id = ci_cycleId i, cc_sequence = ld_sequence d + 1, cc_duplicate = False\<rparr>, db'))))"

subsection \<open>What the statements of a cycle change\<close>

lemma insert_round_frame: "insert_round i smb r db = Inr (b, db') \<Longrightarrow> \<exists>rs. db' = db\<lparr>rt_rounds := rs\<rparr>"
proof (cases "list_ex (\<lambda>x. dr_strategyCode x = ri_strategyCode r \<and> dr_symbol x = smb \<and> dr_timeframe x = ri_timeframe r
             \<and> dr_closeTime x = ci_candleCloseTime i) (rt_rounds db)")
  case True
  assume "insert_round i smb r db = Inr (b, db')"
  with True have "db' = db\<lparr>rt_rounds := rt_rounds db\<rparr>" by (simp add: insert_round_def Let_def split: if_split_asm)
  then show ?thesis ..
qed (auto simp: insert_round_def Let_def split: if_split_asm)

lemma join_round_frame: "join_round i db = Inr (b, db') \<Longrightarrow> \<exists>rs. db' = db\<lparr>rt_rounds := rs\<rparr>"
proof (cases "ci_round i = None \<or> ci_symbol i = None")
  case True
  assume "join_round i db = Inr (b, db')"
  with True have "db' = db\<lparr>rt_rounds := rt_rounds db\<rparr>" by (auto simp: join_round_def split: option.split_asm)
  then show ?thesis ..
qed (auto simp: join_round_def dest: insert_round_frame)

lemma insert_cycle_Inr:
  assumes "insert_cycle i n db = Inr db'"
  obtains c where "db' = db\<lparr>rt_cycles := rt_cycles db @ [c]\<rparr>" "cy_id c = ci_cycleId i"
    "cy_deployment c = ci_deploymentId i" "cy_sequence c = n" "cy_closeTime c = ci_candleCloseTime i" "cy_fencing c = ci_fencingToken i"
    "\<forall>x \<in> set (rt_cycles db). cy_id x \<noteq> ci_cycleId i
      \<and> \<not> (cy_deployment x = ci_deploymentId i \<and> (cy_sequence x = n \<or> cy_closeTime x = ci_candleCloseTime i))"
proof -
  let ?c = "\<lparr>cy_id = ci_cycleId i, cy_deployment = ci_deploymentId i, cy_sequence = n,
          cy_fencing = ci_fencingToken i, cy_closeTime = ci_candleCloseTime i, cy_decision = ci_decision i,
          cy_orderIntent = ci_orderIntent i, cy_trace = ci_traceId i, cy_round = round_id i\<rparr>"
  have e: "db' = db\<lparr>rt_cycles := rt_cycles db @ [?c]\<rparr>"
    using assms by (simp only: insert_cycle_def checked_Inr)
  have "\<not> list_ex (\<lambda>c. cy_id c = ci_cycleId i \<or> cy_deployment c = ci_deploymentId i
         \<and> (cy_sequence c = n \<or> cy_closeTime c = ci_candleCloseTime i)) (rt_cycles db)"
    using assms by (simp only: insert_cycle_def checked_Inr not_False_eq_True simp_thms)
  then have u: "\<forall>x \<in> set (rt_cycles db). cy_id x \<noteq> ci_cycleId i
      \<and> \<not> (cy_deployment x = ci_deploymentId i \<and> (cy_sequence x = n \<or> cy_closeTime x = ci_candleCloseTime i))"
    by (auto simp: list_ex_iff)
  show ?thesis by (rule that [OF e _ _ _ _ _ u]) simp_all
qed

lemma insert_events_frame:
  "efold (insert_event cycle rid) es db = Inr db' \<Longrightarrow> \<exists>xs. db' = db\<lparr>rt_events := rt_events db @ xs\<rparr> \<and> (\<forall>x \<in> set xs. ev_cycle x = cycle \<and> ev_round x = rid)"
proof (induction es arbitrary: db)
  case Nil
  then have "db' = db\<lparr>rt_events := rt_events db @ []\<rparr>" by simp
  then show ?case by fastforce
next
  case (Cons e es)
  then obtain db1 where d: "insert_event cycle rid e db = Inr db1" "efold (insert_event cycle rid) es db1 = Inr db'"
    by (auto simp: ebind_Inr_iff)
  then obtain x where x: "db1 = db\<lparr>rt_events := rt_events db @ [x]\<rparr>" "ev_cycle x = cycle" "ev_round x = rid"
    by (auto simp: insert_event_def checked_Inr)
  from Cons.IH [OF d(2)] obtain xs where "db' = db1\<lparr>rt_events := rt_events db1 @ xs\<rparr>" "\<forall>x \<in> set xs. ev_cycle x = cycle \<and> ev_round x = rid" by blast
  with x have "db' = db\<lparr>rt_events := rt_events db @ (x # xs)\<rparr> \<and> (\<forall>y \<in> set (x # xs). ev_cycle y = cycle \<and> ev_round y = rid)" by simp
  then show ?case by blast
qed

lemma insert_job_Inr:
  assumes "insert_job env i r revision db = Inr (new, db')"
  obtains (kept) "\<not> new" "db' = db"
    | (added) j where new "db' = db\<lparr>rt_jobs := rt_jobs db @ [j]\<rparr>" "jb_cycle j = Some (ci_cycleId i)" "jb_attempts j = 0" "jb_fencing j = 0"
      "jb_status j = Pending" "jb_leaseOwner j = None" "jb_leaseExpiresAt j = None" "jb_maxAttempts j = 3" "list_ex (\<lambda>c. cy_id c = ci_cycleId i) (rt_cycles db)"
  using assms by (auto simp: insert_job_def Let_def split: if_split_asm)

lemma enqueue_frame:
  "efold (enqueue_role env i due) bs db = Inr db' \<Longrightarrow> \<exists>js es. db' = db\<lparr>rt_jobs := rt_jobs db @ js, rt_events := es\<rparr>
     \<and> (\<forall>j \<in> set js. jb_attempts j = 0 \<and> jb_fencing j = 0 \<and> jb_status j = Pending \<and> jb_leaseOwner j = None \<and> jb_maxAttempts j = 3)"
proof (induction bs arbitrary: db)
  case Nil
  then have "db' = db\<lparr>rt_jobs := rt_jobs db @ [], rt_events := rt_events db\<rparr>" by simp
  then show ?case by fastforce
next
  case (Cons b bs)
  then obtain db1 where d: "enqueue_role env i due b db = Inr db1" "efold (enqueue_role env i due) bs db1 = Inr db'"
    by (auto simp: ebind_Inr_iff)
  have n: "db = db\<lparr>rt_jobs := rt_jobs db @ [], rt_events := rt_events db\<rparr>" by simp
  obtain r rev where b: "b = (r, rev)" by (cases b)
  have "\<exists>js es. db1 = db\<lparr>rt_jobs := rt_jobs db @ js, rt_events := es\<rparr>
     \<and> (\<forall>j \<in> set js. jb_attempts j = 0 \<and> jb_fencing j = 0 \<and> jb_status j = Pending \<and> jb_leaseOwner j = None \<and> jb_maxAttempts j = 3)"
  proof (cases "explanation_requested i due r")
    case False
    with d(1) b have "db1 = db\<lparr>rt_jobs := rt_jobs db @ [], rt_events := rt_events db\<rparr>" by (simp add: enqueue_role_def)
    then show ?thesis by (intro exI [of _ "[]"] exI [of _ "rt_events db"]) simp
  next
    case True
    with d(1) b obtain new db0 where j: "insert_job env i r rev db = Inr (new, db0)" and e: "db1 = (if new then update_events
        (event_of (round_id i) (Some (ci_cycleId i)) (runtimeExplanationEventRole r)) (\<lambda>e. e\<lparr>ev_status := Pending\<rparr>) db0 else db0)"
      by (auto simp: enqueue_role_def ebind_Inr_iff)
    from j show ?thesis
    proof (cases rule: insert_job_Inr)
      case kept
      with e have "db1 = db\<lparr>rt_jobs := rt_jobs db @ [], rt_events := rt_events db\<rparr>" by simp
      then show ?thesis by (rule_tac exI [of _ "[]"], rule_tac exI [of _ "rt_events db"]) simp
    next
      case (added j)
      with e have "db1 = db\<lparr>rt_jobs := rt_jobs db @ [j], rt_events := rt_events db1\<rparr>" by (simp add: update_events_def)
      with added show ?thesis by (rule_tac exI [of _ "[j]"], rule_tac exI [of _ "rt_events db1"]) simp
    qed
  qed
  then obtain js es where 1: "db1 = db\<lparr>rt_jobs := rt_jobs db @ js, rt_events := es\<rparr>"
      "\<forall>j \<in> set js. jb_attempts j = 0 \<and> jb_fencing j = 0 \<and> jb_status j = Pending \<and> jb_leaseOwner j = None \<and> jb_maxAttempts j = 3" by blast
  from Cons.IH [OF d(2)] obtain js' es' where 2: "db' = db1\<lparr>rt_jobs := rt_jobs db1 @ js', rt_events := es'\<rparr>"
      "\<forall>j \<in> set js'. jb_attempts j = 0 \<and> jb_fencing j = 0 \<and> jb_status j = Pending \<and> jb_leaseOwner j = None \<and> jb_maxAttempts j = 3" by blast
  from 1 2 have "db' = db\<lparr>rt_jobs := rt_jobs db @ (js @ js'), rt_events := es'\<rparr>" by simp
  with 1(2) 2(2) show ?case by (intro exI conjI) (assumption, auto)
qed

lemma list_ex_column: "list_ex (\<lambda>y. g y = v) zs \<longleftrightarrow> v \<in> set (map g zs)"
  by (auto simp: list_ex_iff)

lemma store_spot_order_Inr:
  assumes "store_spot_order x db = Inr db'"
  obtains (kept) "db' = db" | (added) "db' = db\<lparr>lv_orders := lv_orders db @ [x]\<rparr>" "bo_id x \<notin> set (map bo_id (lv_orders db))"
    "bo_key x \<notin> set (map bo_key (lv_orders db))" "list_ex (\<lambda>c. cy_id c = bo_cycle x) (rt_cycles db)"
  using assms that by (simp only: store_spot_order_def list_ex_column checked_Inr split: if_split_asm) blast+

lemma insert_spot_order_Inr:
  assumes "insert_spot_order env i d o' db = Inr db'"
  obtains portfolio smb risk price access where "resolveOfficialPaperAccess db portfolio (ci_startedAt i) = Inr access"
    "ld_portfolio d = Some portfolio" "json_to_string (field o' ''action'') \<in> {''enter_long'', ''exit''}"
    "store_spot_order (spot_order env i d o' portfolio smb risk price (rejection_code d (json_to_string (field o' ''action'')) access)) db = Inr db'"
proof -
  from assms obtain portfolio smb risk where a: "ld_portfolio d = Some portfolio" "ci_symbol i = Some smb" "ci_riskPerTradePct i = Some risk"
    by (simp add: insert_spot_order_def Let_def split: if_split_asm option.split_asm)
  let ?a = "json_to_string (field o' ''action'')"
  from assms a have "?a \<in> {''enter_long'', ''exit''}" "ebind (resolveOfficialPaperAccess db portfolio (ci_startedAt i)) (\<lambda>access.
      ebind (requested_price env o') (\<lambda>price.
      store_spot_order (spot_order env i d o' portfolio smb risk price (rejection_code d ?a access)) db)) = Inr db'"
    by (simp_all add: insert_spot_order_def Let_def split: if_split_asm)
  with a that show ?thesis by (simp only: ebind_Inr_iff) blast
qed

lemma insert_perpetual_order_frame:
  assumes "insert_perpetual_order env i d o' db = Inr db'"
  shows "\<exists>ps. db' = db\<lparr>rt_perpetualOrders := ps\<rparr>"
proof -
  have n: "db = db\<lparr>rt_perpetualOrders := rt_perpetualOrders db\<rparr>" by simp
  from assms obtain x where "store_perpetual_order x db = Inr db'" by (simp add: insert_perpetual_order_def ebind_Inr_iff) blast
  then have "db' = db \<or> db' = db\<lparr>rt_perpetualOrders := rt_perpetualOrders db @ [x]\<rparr>"
    by (simp only: store_perpetual_order_def checked_Inr split: if_split_asm) simp_all
  with n show ?thesis by metis
qed

lemma insert_order_frame':
  assumes "insert_cycle_order env i d db = Inr db'"
  shows "\<exists>os ps. db' = db\<lparr>lv_orders := lv_orders db @ os, rt_perpetualOrders := ps\<rparr>
    \<and> (\<forall>x \<in> set os. bo_id x = nv_orderId env \<and> bo_id x \<notin> set (map bo_id (lv_orders db)) \<and> bo_status x \<noteq> ''filled'')"
    (is "\<exists>os ps. ?P os ps")
proof -
  have n: "db' = db \<Longrightarrow> ?P [] (rt_perpetualOrders db)" by simp
  show ?thesis
  proof (cases "ci_orderIntent i")
    case None
    with assms n have "?P [] (rt_perpetualOrders db)" by (simp add: insert_cycle_order_def)
    then show ?thesis by (intro exI)
  next
    case (Some o')
    show ?thesis
    proof (cases "ld_product d = ''spot_usdt''")
      case True
      with assms Some have "insert_spot_order env i d o' db = Inr db'" by (simp add: insert_cycle_order_def)
      then obtain x where x: "store_spot_order x db = Inr db'" "bo_id x = nv_orderId env" "bo_status x \<noteq> ''filled''"
        by (rule insert_spot_order_Inr) (auto simp: spot_order_def)
      from x(1) have "?P [] (rt_perpetualOrders db) \<or> ?P [x] (rt_perpetualOrders db)"
      proof (cases rule: store_spot_order_Inr)
        case kept
        then show ?thesis using n by blast
      next
        case added
        with x(2,3) have "?P [x] (rt_perpetualOrders db)" by simp
        then show ?thesis ..
      qed
      then show ?thesis by (elim disjE) (intro exI, assumption)+
    next
      case False
      with assms Some obtain ps where "db' = db\<lparr>rt_perpetualOrders := ps\<rparr>"
        using insert_perpetual_order_frame by (fastforce simp: insert_cycle_order_def)
      then have "?P [] ps" by simp
      then show ?thesis by (intro exI)
    qed
  qed
qed

subsection \<open>A completed cycle\<close>

definition cycle_row_of :: "cycle_input \<Rightarrow> int \<Rightarrow> cycle_row \<Rightarrow> bool" where
  "cycle_row_of i n c \<longleftrightarrow> cy_id c = ci_cycleId i \<and> cy_deployment c = ci_deploymentId i \<and> cy_sequence c = n
     \<and> cy_closeTime c = ci_candleCloseTime i \<and> cy_fencing c = ci_fencingToken i"

lemma write_cycle_steps:
  assumes "write_cycle env i d db = Inr db'"
  obtains created db1 db2 db3 db4 es where "join_round i db = Inr (created, db1)"
    "(if persist_admission i then insert_cycle i (ld_sequence d) db1 else Inr db1) = Inr db2"
    "efold (insert_event (if persist_admission i then Some (ci_cycleId i) else None) (round_id i)) es db2 = Inr db3"
    "enqueueRuntimeExplanationJobs env i db3 = Inr db4" "insert_cycle_order env i d db4 = Inr db'"
proof -
  from assms obtain created db1 db2 db3 db4 where s: "join_round i db = Inr (created, db1)"
    "(if persist_admission i then insert_cycle i (ld_sequence d) db1 else Inr db1) = Inr db2"
    "efold (insert_event (if persist_admission i then Some (ci_cycleId i) else None) (round_id i))
         (if (if round_id i \<noteq> None then created else persist_admission i)
          then (case (round_id i, ci_round i) of (Some _, Some r) \<Rightarrow> ri_events r | _ \<Rightarrow> ci_events i) else []) db2 = Inr db3"
    "enqueueRuntimeExplanationJobs env i db3 = Inr db4" "insert_cycle_order env i d db4 = Inr db'"
    unfolding write_cycle_def ebind_Inr_iff by (auto simp only: prod.case split_paired_all ebind_Inr_iff)
  then show ?thesis by (rule that)
qed

lemma write_cycle_frame:
  assumes "write_cycle env i d db = Inr db'"
  obtains cs js os where "lv_deployments db' = lv_deployments db" "lv_portfolios db' = lv_portfolios db"
    "lv_positions db' = lv_positions db" "lv_fills db' = lv_fills db" "lv_entries db' = lv_entries db"
    "rt_cycles db' = rt_cycles db @ cs" "rt_jobs db' = rt_jobs db @ js" "lv_orders db' = lv_orders db @ os"
    "if persist_admission i then \<exists>c. cs = [c] \<and> cycle_row_of i (ld_sequence d) c
       \<and> (\<forall>x \<in> set (rt_cycles db). cy_id x \<noteq> ci_cycleId i
            \<and> \<not> (cy_deployment x = ci_deploymentId i \<and> (cy_sequence x = ld_sequence d \<or> cy_closeTime x = ci_candleCloseTime i)))
     else cs = []"
    "\<forall>j \<in> set js. jb_attempts j = 0 \<and> jb_fencing j = 0 \<and> jb_status j = Pending \<and> jb_leaseOwner j = None \<and> jb_maxAttempts j = 3"
    "\<forall>x \<in> set os. bo_id x = nv_orderId env \<and> bo_id x \<notin> set (map bo_id (lv_orders db)) \<and> bo_status x \<noteq> ''filled''"
    "lv_memberships db' = lv_memberships db" "lv_users db' = lv_users db" "lv_attributions db' = lv_attributions db" "lv_stops db' = lv_stops db"
proof -
  from assms obtain created db1 db2 db3 db4 es where s: "join_round i db = Inr (created, db1)"
    "(if persist_admission i then insert_cycle i (ld_sequence d) db1 else Inr db1) = Inr db2"
    "efold (insert_event (if persist_admission i then Some (ci_cycleId i) else None) (round_id i)) es db2 = Inr db3"
    "enqueueRuntimeExplanationJobs env i db3 = Inr db4" "insert_cycle_order env i d db4 = Inr db'"
    by (rule write_cycle_steps)
  from join_round_frame [OF s(1)] obtain rs where 1: "db1 = db\<lparr>rt_rounds := rs\<rparr>" ..
  have "\<exists>cs. db2 = db1\<lparr>rt_cycles := rt_cycles db1 @ cs\<rparr> \<and> (if persist_admission i then \<exists>c. cs = [c] \<and> cycle_row_of i (ld_sequence d) c
       \<and> (\<forall>x \<in> set (rt_cycles db). cy_id x \<noteq> ci_cycleId i
            \<and> \<not> (cy_deployment x = ci_deploymentId i \<and> (cy_sequence x = ld_sequence d \<or> cy_closeTime x = ci_candleCloseTime i)))
     else cs = [])" (is "\<exists>cs. ?R cs")
  proof (cases "persist_admission i")
    case True
    with s(2) have "insert_cycle i (ld_sequence d) db1 = Inr db2" by (simp only: if_True)
    then obtain c where c: "db2 = db1\<lparr>rt_cycles := rt_cycles db1 @ [c]\<rparr>" "cy_id c = ci_cycleId i"
      "cy_deployment c = ci_deploymentId i" "cy_sequence c = ld_sequence d" "cy_closeTime c = ci_candleCloseTime i" "cy_fencing c = ci_fencingToken i"
      "\<forall>x \<in> set (rt_cycles db1). cy_id x \<noteq> ci_cycleId i
        \<and> \<not> (cy_deployment x = ci_deploymentId i \<and> (cy_sequence x = ld_sequence d \<or> cy_closeTime x = ci_candleCloseTime i))"
      by (rule insert_cycle_Inr)
    have r: "cycle_row_of i (ld_sequence d) c" unfolding cycle_row_of_def using c(2-6) by blast
    have "rt_cycles db1 = rt_cycles db" unfolding 1 by simp
    with True c(1,7) r have "?R [c]" by (simp only: if_True) blast
    then show ?thesis ..
  next
    case False
    with s(2) have "db2 = db1" by (simp only: if_False sum.inject)
    with False have "?R []" by (simp only: if_False append_Nil2) simp
    then show ?thesis ..
  qed
  then obtain cs where 2: "?R cs" ..
  from insert_events_frame [OF s(3)] obtain xs where 3: "db3 = db2\<lparr>rt_events := rt_events db2 @ xs\<rparr>" by blast
  from enqueue_frame [OF s(4) [unfolded enqueueRuntimeExplanationJobs_def]] obtain js es' where 4: "db4 = db3\<lparr>rt_jobs := rt_jobs db3 @ js, rt_events := es'\<rparr>"
    "\<forall>j \<in> set js. jb_attempts j = 0 \<and> jb_fencing j = 0 \<and> jb_status j = Pending \<and> jb_leaseOwner j = None \<and> jb_maxAttempts j = 3" by blast
  from insert_order_frame' [OF s(5)] obtain os ps where 5: "db' = db4\<lparr>lv_orders := lv_orders db4 @ os, rt_perpetualOrders := ps\<rparr>"
    "\<forall>x \<in> set os. bo_id x = nv_orderId env \<and> bo_id x \<notin> set (map bo_id (lv_orders db4)) \<and> bo_status x \<noteq> ''filled''" by blast
  have b: "db2 = db\<lparr>rt_rounds := rs, rt_cycles := rt_cycles db @ cs\<rparr>" using 1 2 by simp
  then obtain E where "db3 = db\<lparr>rt_rounds := rs, rt_cycles := rt_cycles db @ cs, rt_events := E\<rparr>" using 3 by blast
  with 4(1) have d: "db4 = db\<lparr>rt_rounds := rs, rt_cycles := rt_cycles db @ cs, rt_jobs := rt_jobs db @ js, rt_events := es'\<rparr>" by simp
  with 5(1) have e: "db' = db\<lparr>lv_orders := lv_orders db @ os, rt_rounds := rs, rt_cycles := rt_cycles db @ cs, rt_jobs := rt_jobs db @ js,
      rt_events := es', rt_perpetualOrders := ps\<rparr>" by simp
  from d have o: "lv_orders db4 = lv_orders db" by simp
  show thesis
    by (rule that [OF _ _ _ _ _ _ _ _ 2 [THEN conjunct2] 4(2) 5(2) [unfolded o]]) (simp_all add: e)
qed

lemma complete_Inr:
  assumes "completeStrategyRuntimeCycle env i db = (Inr cc, db')"
  obtains (duplicate) c where "c \<in> set (rt_cycles db)" "cy_deployment c = ci_deploymentId i" "cy_closeTime c = ci_candleCloseTime i"
      "cc = \<lparr>cc_id = cy_id c, cc_sequence = cy_sequence c, cc_duplicate = True\<rparr>"
      "db' = update_deployment (ci_deploymentId i) (\<lambda>d. if ld_fencing d = ci_fencingToken i then released (ci_nextCycleAt i) d else d) db"
    | (fresh) d where "d \<in> set (lv_deployments db)" "holds_lease (ci_deploymentId i) (ci_workerId i) (ci_fencingToken i) d" "ld_status d = Active"
      "\<forall>c \<in> set (rt_cycles db). \<not> (cy_deployment c = ci_deploymentId i \<and> cy_closeTime c = ci_candleCloseTime i)"
      "cc = \<lparr>cc_id = ci_cycleId i, cc_sequence = ld_sequence d + 1, cc_duplicate = False\<rparr>"
      "write_cycle env i (completed i d) (update_deployment (ci_deploymentId i) (completed i) db) = Inr db'"
proof (cases "find (\<lambda>c. cy_deployment c = ci_deploymentId i \<and> cy_closeTime c = ci_candleCloseTime i) (rt_cycles db)")
  case (Some c)
  then have "c \<in> set (rt_cycles db)" "cy_deployment c = ci_deploymentId i" "cy_closeTime c = ci_candleCloseTime i"
    by (auto simp: find_Some_iff)
  with assms Some duplicate show thesis by (auto simp: completeStrategyRuntimeCycle_def split: if_split_asm)
next
  case None
  then have n: "\<forall>c \<in> set (rt_cycles db). \<not> (cy_deployment c = ci_deploymentId i \<and> cy_closeTime c = ci_candleCloseTime i)"
    by (auto simp: find_None_iff)
  from assms None obtain d where f: "find (\<lambda>d. holds_lease (ci_deploymentId i) (ci_workerId i) (ci_fencingToken i) d \<and> ld_status d = Active) (lv_deployments db) = Some d"
    by (auto simp: completeStrategyRuntimeCycle_def split: if_split_asm option.split_asm)
  then have "d \<in> set (lv_deployments db)" "holds_lease (ci_deploymentId i) (ci_workerId i) (ci_fencingToken i) d" "ld_status d = Active"
    by (auto simp: find_Some_iff)
  with assms None f n fresh show thesis
    by (auto simp: completeStrategyRuntimeCycle_def split: if_split_asm sum.split_asm)
qed

lemma complete_Inl: "completeStrategyRuntimeCycle env i db = (Inl e, db') \<Longrightarrow> db' = db"
  by (auto simp: completeStrategyRuntimeCycle_def split: if_split_asm sum.split_asm option.split_asm)

lemma update_deployment_frame [simp]:
  "lv_portfolios (update_deployment i f db) = lv_portfolios db" "lv_positions (update_deployment i f db) = lv_positions db"
  "lv_fills (update_deployment i f db) = lv_fills db" "lv_entries (update_deployment i f db) = lv_entries db"
  "lv_orders (update_deployment i f db) = lv_orders db" "rt_cycles (update_deployment i f rdb) = rt_cycles rdb"
  "rt_jobs (update_deployment i f rdb) = rt_jobs rdb" "rt_events (update_deployment i f rdb) = rt_events rdb"
  "rt_rounds (update_deployment i f rdb) = rt_rounds rdb" "rt_bindings (update_deployment i f rdb) = rt_bindings rdb"
  "lv_deployments (update_deployment i f db) = map (\<lambda>d. if ld_id d = i then f d else d) (lv_deployments db)"
  by (simp_all add: update_deployment_def)

lemma complete_books_ok:
  assumes "books_ok db"
  shows "books_ok (snd (completeStrategyRuntimeCycle env i db))"
proof (cases "completeStrategyRuntimeCycle env i db")
  case (Pair r db')
  show ?thesis
  proof (cases r)
    case (Inl e)
    with Pair complete_Inl [of env i db e db'] assms show ?thesis by simp
  next
    case (Inr cc)
    with Pair have c: "completeStrategyRuntimeCycle env i db = (Inr cc, db')" by simp
    then have "books_ok db'"
    proof (cases rule: complete_Inr)
      case (duplicate c)
      show ?thesis unfolding duplicate(5) by (rule books_ok_cong [THEN iffD2, OF _ _ _ _ assms]) simp_all
    next
      case (fresh d)
      from fresh(6) show ?thesis
        by (rule write_cycle_frame) (intro books_ok_cong [THEN iffD2, OF _ _ _ _ assms], simp_all)
    qed
    with Pair show ?thesis by simp
  qed
qed

subsection \<open>A sample deployment\<close>

definition sample_leased :: deployment_row where
  "sample_leased = \<lparr>ld_id = ''d1'', ld_owner = ''u1'', ld_strategy = ''s1'', ld_version = ''v1'', ld_subscription = None,
     ld_account = None, ld_validationLabel = ''UNVERIFIED'', ld_positionSizePct = None, ld_stopLossPct = None, ld_key = ''k1'',
     ld_createdAt = 0, ld_mode = ''paper'', ld_product = ''spot_usdt'', ld_portfolio = Some ''p1'',
     ld_strategyCode = Some AiBalanced, ld_membership = Some ''m1'', ld_status = Active, ld_nextCycleAt = 0,
     ld_leaseOwner = Some ''w1'', ld_leaseExpiresAt = Some 60000, ld_fencing = 4, ld_sequence = 7, ld_lastCandle = None,
     ld_errorCode = None, ld_risk = []\<rparr>"

definition sample_runtime :: "round_row list \<Rightarrow> event_row list \<Rightarrow> (explanation_role \<times> string) list \<Rightarrow> runtime_db" where
  "sample_runtime rounds events bindings = \<lparr>
     lv_memberships = [\<lparr>mm_id = ''m1'', mm_customer = ''u1'', mm_status = ''active'', mm_expiresAt = None, mm_graceEndsAt = None\<rparr>],
     lv_users = [\<lparr>us_id = ''u1'', us_role = ''customer'', us_organization = None\<rparr>], lv_attributions = [], lv_stops = [],
     lv_deployments = [sample_leased],
     lv_portfolios = [\<lparr>lp_id = ''p1'', lp_membership = ''m1'', lp_customer = ''u1'', lp_strategyCode = AiBalanced,
       lp_access = AccessActive, lp_book = ''paper'', lp_principal = 10000, lp_cash = 10000, lp_realized = 0, lp_gross = 0,
       lp_net = 0, lp_fees = 0, lp_risk = []\<rparr>],
     lv_positions = [], lv_orders = [], lv_fills = [], lv_entries = [initial_entry ''e0'' ''p1''],
     rt_versions = [''v1''], rt_cycles = [], rt_rounds = rounds, rt_events = events, rt_jobs = [], rt_bindings = bindings,
     rt_perpetualOrders = [], rt_paperPositions = [], rt_accruals = []\<rparr>"

definition sample_runtime_env :: runtime_env where
  "sample_runtime_env = \<lparr>nv_decimal = (\<lambda>x. case x of N a \<Rightarrow> Some a | _ \<Rightarrow> None), nv_column = Some, nv_text_le = (\<lambda>a b. True),
     nv_positionId = ''q1'', nv_fillId = ''f1'', nv_entryId = ''e1'', nv_now = 0, nv_orderId = ''o1'',
     nv_jobId = (\<lambda>r. case r of MarketSummary \<Rightarrow> ''j1'' | AdversarialExplanation \<Rightarrow> ''j2'' | RiskExplanation \<Rightarrow> ''j3'')\<rparr>"

definition sample_events :: "cycle_event list" where
  "sample_events = map (\<lambda>(n, r). \<lparr>ce_sequence = n, ce_role = r, ce_conclusion = ''ok'', ce_evidence = []\<rparr>) (zip [1 .. 7] event_roles)"

definition sample_cycle :: "bool \<Rightarrow> fields option \<Rightarrow> cycle_input" where
  "sample_cycle approved intent = \<lparr>ci_cycleId = ''c1'', ci_deploymentId = ''d1'', ci_workerId = ''w1'', ci_fencingToken = 4,
     ci_candleCloseTime = 3600000, ci_decision = [(''action'', JStr ''hold''), (''riskApproved'', JBool approved)],
     ci_orderIntent = intent, ci_events = sample_events, ci_traceId = ''t1'', ci_startedAt = 3600001, ci_nextCycleAt = 7200000,
     ci_positionSizePct = N 1, ci_takerFeeRate = None, ci_symbol = Some ''BTCUSDT'', ci_riskPerTradePct = Some (N 1),
     ci_round = Some \<lparr>ri_strategyCode = ''ai_balanced'', ri_timeframe = ''1h'', ri_decision = [], ri_orderIntent = None,
       ri_events = sample_events\<rparr>\<rparr>"

lemma sample_cycle_fields [simp]:
  "ci_cycleId (sample_cycle a o') = ''c1''" "ci_deploymentId (sample_cycle a o') = ''d1''" "ci_workerId (sample_cycle a o') = ''w1''"
  "ci_fencingToken (sample_cycle a o') = 4" "ci_candleCloseTime (sample_cycle a o') = 3600000" "ci_orderIntent (sample_cycle a o') = o'"
  "ci_decision (sample_cycle a o') = [(''action'', JStr ''hold''), (''riskApproved'', JBool a)]" "ci_symbol (sample_cycle a o') = Some ''BTCUSDT''"
  "ci_events (sample_cycle a o') = sample_events" "ci_startedAt (sample_cycle a o') = 3600001" "ci_nextCycleAt (sample_cycle a o') = 7200000"
  by (simp_all add: sample_cycle_def)

lemma sample_events_length [simp]: "length sample_events = 7"
  by (simp add: sample_events_def event_roles_def)

lemma sample_round: "round_id (sample_cycle a o') \<noteq> None"
  by (simp add: round_id_def) (simp add: sample_cycle_def)

lemma sample_persist: "persist_admission (sample_cycle True None) = False" "persist_admission (sample_cycle False None) = True"
  using sample_round by (simp_all add: persist_admission_def shouldPersistAdmission_def decision_action_def text_items_def field_def)

end
