(* ===== verification/RuntimeJobs.thy ===== *)
theory RuntimeJobs
  imports RuntimeStore
begin

text \<open>
  The queue of explanation jobs of \<open>lib/strategy-runtime-repository.ts\<close>: a worker leases the first job
  that is due, with the cycle and the event it explains, and completes it or reports its failure. The
  explanation itself, its model and its duration are written by others and are arguments here.
\<close>

record leased_job =
  lj_id :: string
  lj_cycle :: string
  lj_eventRole :: string
  lj_role :: explanation_role
  lj_fencing :: int
  lj_attempts :: int
  lj_conclusion :: string
  lj_evidence :: fields
  lj_decision :: fields
  lj_deployment :: string

definition job_due :: "int \<Rightarrow> job_row \<Rightarrow> bool" where
  "job_due now j \<longleftrightarrow> jb_nextAttemptAt j \<le> now \<and> (jb_status j = Pending \<or> jb_status j = RetryWait
     \<or> jb_status j = Running \<and> (case jb_leaseExpiresAt j of None \<Rightarrow> False | Some t \<Rightarrow> t \<le> now))"

definition job_before :: "'e book_env_scheme \<Rightarrow> job_row \<Rightarrow> job_row \<Rightarrow> bool" where
  "job_before env a b \<longleftrightarrow> jb_nextAttemptAt a < jb_nextAttemptAt b
     \<or> jb_nextAttemptAt a = jb_nextAttemptAt b \<and> (jb_createdAt a < jb_createdAt b
     \<or> jb_createdAt a = jb_createdAt b \<and> nv_text_le env (jb_id a) (jb_id b))"

definition update_job :: "string \<Rightarrow> (job_row \<Rightarrow> job_row) \<Rightarrow> runtime_db \<Rightarrow> runtime_db" where
  "update_job i f db = db\<lparr>rt_jobs := map (\<lambda>j. if jb_id j = i then f j else j) (rt_jobs db)\<rparr>"

definition running_job :: "string \<Rightarrow> int \<Rightarrow> job_row \<Rightarrow> job_row" where
  "running_job worker expires j = j\<lparr>jb_status := Running, jb_leaseOwner := Some worker, jb_leaseExpiresAt := Some expires,
     jb_fencing := jb_fencing j + 1, jb_attempts := jb_attempts j + 1\<rparr>"

text \<open>The cycle, the event and the deployment of a job: the update joins all three.\<close>

definition job_sources :: "runtime_db \<Rightarrow> job_row \<Rightarrow> (cycle_row \<times> event_row \<times> deployment_row) option" where
  "job_sources db j = Option.bind (find (\<lambda>c. jb_cycle j = Some (cy_id c)) (rt_cycles db)) (\<lambda>c.
     Option.bind (find (\<lambda>e. ev_cycle e = Some (cy_id c) \<and> ev_role e = jb_eventRole j) (rt_events db)) (\<lambda>e.
     Option.bind (find (\<lambda>d. ld_id d = cy_deployment c) (lv_deployments db)) (\<lambda>d. Some (c, e, d))))"

definition leaseNextRuntimeExplanationJob ::
    "'e book_env_scheme \<Rightarrow> string \<Rightarrow> int \<Rightarrow> jsnum \<Rightarrow> runtime_db \<Rightarrow> (string, leased_job option \<times> runtime_db) result" where
  "leaseNextRuntimeExplanationJob env worker now leaseSeconds db =
     (if worker_invalid worker then Inl ''WORKER_INVALID''
      else if lease_invalid leaseSeconds then Inl ''LEASE_INVALID''
      else case sort_by (job_before env) (filter (job_due now) (rt_jobs db)) of
          [] \<Rightarrow> Inr (None, db)
        | j # _ \<Rightarrow>
            (case job_sources db j of
               None \<Rightarrow> Inr (None, db)
             | Some (c, e, d) \<Rightarrow>
                 Inr (Some \<lparr>lj_id = jb_id j, lj_cycle = cy_id c, lj_eventRole = jb_eventRole j, lj_role = jb_role j,
                        lj_fencing = jb_fencing j + 1, lj_attempts = jb_attempts j + 1, lj_conclusion = ev_conclusion e,
                        lj_evidence = ev_evidence e, lj_decision = cy_decision c, lj_deployment = ld_id d\<rparr>,
                      update_events (event_of None (Some (cy_id c)) (jb_eventRole j)) (\<lambda>e. e\<lparr>ev_status := Running\<rparr>)
                        (update_job (jb_id j) (running_job worker (now + milliseconds leaseSeconds)) db))))"

definition holds_job :: "string \<Rightarrow> string \<Rightarrow> int \<Rightarrow> job_row \<Rightarrow> bool" where
  "holds_job i worker token j \<longleftrightarrow> jb_id j = i \<and> jb_leaseOwner j = Some worker \<and> jb_fencing j = token \<and> jb_status j = Running"

definition completeRuntimeExplanationJob ::
    "string \<Rightarrow> string \<Rightarrow> int \<Rightarrow> json \<Rightarrow> runtime_db \<Rightarrow> (string, runtime_db) result" where
  "completeRuntimeExplanationJob i worker token output db =
     (case find (holds_job i worker token) (rt_jobs db) of
        None \<Rightarrow> Inl ''LEASE_LOST''
      | Some j \<Rightarrow> Inr (update_events (event_of (jb_round j) (jb_cycle j) (jb_eventRole j))
            (\<lambda>e. e\<lparr>ev_status := Completed, ev_explanation := Some output, ev_errorCode := None\<rparr>)
            (update_job i (\<lambda>j. j\<lparr>jb_status := Completed, jb_leaseOwner := None, jb_leaseExpiresAt := None, jb_errorCode := None\<rparr>) db)))"

definition failed_status :: "job_row \<Rightarrow> explanation_status" where
  "failed_status j = (if jb_maxAttempts j \<le> jb_attempts j then Failed else RetryWait)"

definition failRuntimeExplanationJob ::
    "string \<Rightarrow> string \<Rightarrow> int \<Rightarrow> string \<Rightarrow> int \<Rightarrow> runtime_db \<Rightarrow> (string, explanation_status \<times> runtime_db) result" where
  "failRuntimeExplanationJob i worker token code retryAt db =
     (case find (holds_job i worker token) (rt_jobs db) of
        None \<Rightarrow> Inl ''LEASE_LOST''
      | Some j \<Rightarrow> Inr (failed_status j, update_events (event_of None (jb_cycle j) (jb_eventRole j))
            (\<lambda>e. e\<lparr>ev_status := failed_status j, ev_errorCode := Some (take 80 code)\<rparr>)
            (update_job i (\<lambda>j. j\<lparr>jb_status := failed_status j, jb_leaseOwner := None, jb_leaseExpiresAt := None,
               jb_nextAttemptAt := retryAt, jb_errorCode := Some (take 80 code)\<rparr>) db)))"

subsection \<open>Cycles without a row\<close>

lemma previous_summary_cong:
  assumes "rt_jobs db' = rt_jobs db" "rt_cycles db' = rt_cycles db" "rt_events db' = rt_events db @ xs" "\<forall>x \<in> set xs. ev_cycle x = None"
  shows "previous_summary dep cycle db' = previous_summary dep cycle db"
proof -
  have "filter (\<lambda>e. ev_cycle e = Some (cy_id c) \<and> ev_role e = ''market_data'') (rt_events db')
      = filter (\<lambda>e. ev_cycle e = Some (cy_id c) \<and> ev_role e = ''market_data'') (rt_events db)" for c :: cycle_row
    using assms(3,4) by (auto simp: filter_empty_conv)
  then show ?thesis by (simp only: previous_summary_def assms(1,2))
qed

lemma hold_requests:
  assumes "\<not> persist_admission i" "explanation_requested i due r"
  shows "r = MarketSummary"
  using assms by (auto simp: persist_admission_def shouldPersistAdmission_def explanation_requested_def split: if_splits explanation_role.splits)

lemma hold_enqueue_fails:
  assumes "\<not> persist_admission i" "MarketSummary \<in> fst ` set bs" "\<not> list_ex (\<lambda>c. cy_id c = ci_cycleId i) (rt_cycles db)"
    and "\<not> list_ex (\<lambda>j. jb_id j = nv_jobId env MarketSummary \<or> jb_eventRole j = ''market_data''
           \<and> (jb_cycle j = Some (ci_cycleId i) \<or> jb_round j = round_id i)) (rt_jobs db)"
  shows "efold (enqueue_role env i True) bs db = Inl ''FOREIGN_KEY''"
  using assms(2)
proof (induction bs)
  case (Cons b bs)
  obtain r rev where b: "b = (r, rev)" by (cases b)
  show ?case
  proof (cases "r = MarketSummary")
    case True
    have "insert_job env i MarketSummary rev db = Inl ''FOREIGN_KEY''"
      using assms(3,4) by (auto simp: insert_job_def Let_def runtimeExplanationEventRole_def list_ex_iff)
    with True b show ?thesis by (simp add: enqueue_role_def explanation_requested_def)
  next
    case False
    with hold_requests [OF assms(1)] have "\<not> explanation_requested i True r" by blast
    with b Cons False show ?thesis by (simp add: enqueue_role_def)
  qed
qed simp



subsection \<open>Jobs of a shared round\<close>

lemma job_sources_None:
  "\<forall>e \<in> set (rt_events db). \<forall>cycle. jb_cycle j = Some cycle \<longrightarrow> ev_cycle e \<noteq> Some cycle \<Longrightarrow> job_sources db j = None"
proof -
  assume a: "\<forall>e \<in> set (rt_events db). \<forall>cycle. jb_cycle j = Some cycle \<longrightarrow> ev_cycle e \<noteq> Some cycle"
  show ?thesis
  proof (cases "find (\<lambda>c. jb_cycle j = Some (cy_id c)) (rt_cycles db)")
    case (Some c)
    then have "jb_cycle j = Some (cy_id c)" using find_Some_set by fastforce
    with a have "find (\<lambda>e. ev_cycle e = Some (cy_id c) \<and> ev_role e = jb_eventRole j) (rt_events db) = None" by (auto simp: find_None_iff)
    with Some show ?thesis by (simp add: job_sources_def)
  qed (simp add: job_sources_def)
qed

lemma enqueue_events:
  "efold (enqueue_role env i due) bs db = Inr db' \<Longrightarrow> map ev_cycle (rt_events db') = map ev_cycle (rt_events db)
     \<and> (\<forall>j \<in> set (rt_jobs db') - set (rt_jobs db). jb_cycle j = Some (ci_cycleId i))"
proof (induction bs arbitrary: db)
  case (Cons b bs)
  then obtain db1 where d: "enqueue_role env i due b db = Inr db1" "efold (enqueue_role env i due) bs db1 = Inr db'"
    by (auto simp: ebind_Inr_iff)
  obtain r rev where b: "b = (r, rev)" by (cases b)
  have "map ev_cycle (rt_events db1) = map ev_cycle (rt_events db)
     \<and> (\<forall>j \<in> set (rt_jobs db1) - set (rt_jobs db). jb_cycle j = Some (ci_cycleId i))"
  proof (cases "explanation_requested i due r")
    case False
    with d(1) b show ?thesis by (simp add: enqueue_role_def)
  next
    case True
    with d(1) b obtain new db0 where j: "insert_job env i r rev db = Inr (new, db0)" and e: "db1 = (if new then update_events
        (event_of (round_id i) (Some (ci_cycleId i)) (runtimeExplanationEventRole r)) (\<lambda>e. e\<lparr>ev_status := Pending\<rparr>) db0 else db0)"
      by (auto simp: enqueue_role_def ebind_Inr_iff)
    from j show ?thesis
    proof (cases rule: insert_job_Inr)
      case kept
      with e show ?thesis by simp
    next
      case (added j)
      have "map ev_cycle (rt_events db1) = map ev_cycle (rt_events db)" using e added(1,2) by (simp add: update_events_def)
      moreover have "rt_jobs db1 = rt_jobs db @ [j]" using e added(1,2) by (simp add: update_events_def)
      ultimately show ?thesis using added(3) by auto
    qed
  qed
  with Cons.IH [OF d(2)] show ?case by (metis Diff_iff)
qed simp


definition sample_round_row :: round_row where
  "sample_round_row = \<lparr>dr_id = ''r'', dr_strategyCode = ''ai_balanced'', dr_symbol = ''BTCUSDT'', dr_timeframe = ''1h'', dr_closeTime = 3600000,
     dr_decision = [], dr_orderIntent = None\<rparr>"

definition sample_joined :: runtime_db where
  "sample_joined = sample_runtime [sample_round_row] [] [(RiskExplanation, ''r1'')]"

definition sample_job :: job_row where
  "sample_job = \<lparr>jb_id = ''j3'', jb_cycle = Some ''c1'', jb_round = round_id (sample_cycle False None), jb_eventRole = ''risk'',
     jb_role = RiskExplanation, jb_revision = ''r1'', jb_status = Pending, jb_leaseOwner = None, jb_leaseExpiresAt = None, jb_fencing = 0,
     jb_attempts = 0, jb_maxAttempts = 3, jb_nextAttemptAt = 0, jb_errorCode = None, jb_createdAt = 0\<rparr>"

definition sample_joined_after :: runtime_db where
  "sample_joined_after = (update_deployment ''d1'' (completed (sample_cycle False None)) sample_joined)\<lparr>
     rt_cycles := [\<lparr>cy_id = ''c1'', cy_deployment = ''d1'', cy_sequence = 8, cy_fencing = 4, cy_closeTime = 3600000,
       cy_decision = [(''action'', JStr ''hold''), (''riskApproved'', JBool False)], cy_orderIntent = None, cy_trace = ''t1'',
       cy_round = round_id (sample_cycle False None)\<rparr>], rt_jobs := [sample_job]\<rparr>"

lemma sample_join: "rt_rounds db = [sample_round_row] \<Longrightarrow> join_round (sample_cycle False None) db = Inr (False, db)"
  by (simp add: join_round_def sample_cycle_def) (simp add: insert_round_def Let_def sample_round_row_def round_checks_def official_symbols_def)

lemma sample_joined_complete:
  "completeStrategyRuntimeCycle sample_runtime_env (sample_cycle False None) sample_joined
     = (Inr \<lparr>cc_id = ''c1'', cc_sequence = 8, cc_duplicate = False\<rparr>, sample_joined_after)"
proof -
  let ?i = "sample_cycle False None"
  let ?u = "update_deployment ''d1'' (completed ?i) sample_joined"
  have "rt_rounds ?u = [sample_round_row]" by (simp add: sample_joined_def sample_runtime_def)
  note j = sample_join [OF this]
  have c: "insert_cycle ?i 8 ?u = Inr (sample_joined_after\<lparr>rt_jobs := []\<rparr>)"
    by (simp add: insert_cycle_def checked_def sample_joined_after_def) (simp add: sample_joined_def sample_runtime_def sample_cycle_def)
  have q: "enqueueRuntimeExplanationJobs sample_runtime_env ?i (sample_joined_after\<lparr>rt_jobs := []\<rparr>) = Inr sample_joined_after"
    by (simp add: enqueueRuntimeExplanationJobs_def enqueue_role_def explanation_requested_def insert_job_def sample_joined_after_def
        decision_action_def field_def update_events_def Let_def runtimeExplanationEventRole_def sample_joined_def sample_runtime_def
        sample_job_def sample_runtime_env_def)
  have "write_cycle sample_runtime_env ?i (completed ?i sample_leased) ?u = Inr sample_joined_after"
    using sample_round [of False None] by (simp add: write_cycle_def j sample_persist)
      (simp add: completed_def released_def sample_leased_def c q insert_cycle_order_def)
  then show ?thesis
    by (simp add: completeStrategyRuntimeCycle_def sample_joined_def sample_runtime_def)
      (simp add: holds_lease_def sample_leased_def)
qed


subsection \<open>Jobs and their leases\<close>

text \<open>A leased job answers to its worker and its token only.\<close>

lemma leased_job_fenced:
  assumes "leaseNextRuntimeExplanationJob env worker now s db = Inr (Some l, db')" "distinct (map jb_id (rt_jobs db))"
    and "w \<noteq> worker \<or> token \<noteq> lj_fencing l"
  shows "completeRuntimeExplanationJob (lj_id l) w token out db' = Inl ''LEASE_LOST''
    \<and> failRuntimeExplanationJob (lj_id l) w token code t db' = Inl ''LEASE_LOST''"
proof -
  from assms(1) obtain j js src where *: "sort_by (job_before env) (filter (job_due now) (rt_jobs db)) = j # js" "job_sources db j = Some src"
    by (auto simp: leaseNextRuntimeExplanationJob_def split: if_split_asm list.split_asm option.split_asm)
  obtain c e d where "src = (c, e, d)" by (cases src)
  with assms(1) * have l: "lj_id l = jb_id j" "lj_fencing l = jb_fencing j + 1"
    and r: "rt_jobs db' = map (\<lambda>x. if jb_id x = jb_id j then running_job worker (now + milliseconds s) x else x) (rt_jobs db)"
    by (auto simp: leaseNextRuntimeExplanationJob_def update_events_def update_job_def split: if_split_asm)
  have "j \<in> set (rt_jobs db)" using sort_by_first [OF *(1)] by simp
  with assms(2) have u: "jb_fencing x = jb_fencing j" if "x \<in> set (rt_jobs db)" "jb_id x = jb_id j" for x
    using that by (auto simp: distinct_map inj_on_def)
  have "\<not> holds_job (lj_id l) w token x" if "x \<in> set (rt_jobs db')" for x
    using that assms(3) by (auto simp: r l holds_job_def running_job_def split: if_split_asm dest: u)
  then have "find (holds_job (lj_id l) w token) (rt_jobs db') = None" by (auto simp: find_None_iff)
  then show ?thesis by (simp add: completeRuntimeExplanationJob_def failRuntimeExplanationJob_def)
qed

end
