(* ===== verification/DeploymentStore.thy ===== *)
theory DeploymentStore
  imports RuntimeStore
begin

text \<open>
  The life of a deployment in \<open>lib/strategy-runtime-repository.ts\<close>: it is created under an idempotency
  key, paused and resumed by its owner, and ended when its card is switched to another mode, version
  or portfolio. The checks and unique indexes of the table are those of the migrations 0007, 0009, 0024,
  0053 and 0060.
\<close>

subsection \<open>Creation\<close>

record deployment_input =
  di_owner :: string
  di_strategy :: string
  di_version :: string
  di_account :: "string option"
  di_mode :: string
  di_validationLabel :: string
  di_key :: string
  di_subscription :: "string option"
  di_positionSizePct :: "jsnum option"
  di_stopLossPct :: "jsnum option"
  di_product :: "string option"
  di_strategyCode :: "platform_code option"
  di_membership :: "string option"
  di_portfolio :: "string option"

definition text_given :: "string option \<Rightarrow> bool" where
  "text_given v \<longleftrightarrow> (case v of None \<Rightarrow> False | Some s \<Rightarrow> s \<noteq> [])"

definition input_product :: "deployment_input \<Rightarrow> string" where
  "input_product i = (case di_product i of None \<Rightarrow> ''usdt_perpetual'' | Some p \<Rightarrow> p)"

definition input_book :: "deployment_input \<Rightarrow> string" where
  "input_book i = (if di_mode i = ''live'' then ''live'' else ''paper'')"

definition input_portfolio :: "deployment_input \<Rightarrow> 'd book_db_scheme \<Rightarrow> portfolio_row option" where
  "input_portfolio i db = find (\<lambda>p. di_portfolio i = Some (lp_id p) \<and> di_membership i = Some (lp_membership p)
     \<and> lp_customer p = di_owner i \<and> di_strategyCode i = Some (lp_strategyCode p)) (lv_portfolios db)"

definition check_input :: "deployment_input \<Rightarrow> 'd book_db_scheme \<Rightarrow> (string, unit) result" where
  "check_input i db =
     (if length (di_key i) < 8 \<or> 128 < length (di_key i) then Inl ''KEY_INVALID''
      else if input_product i = ''spot_usdt'' then
        (if di_strategyCode i = None \<or> \<not> text_given (di_membership i) \<or> \<not> text_given (di_portfolio i)
            \<or> text_given (di_account i) \<noteq> (di_mode i = ''live'') then Inl ''BINDING_INVALID''
         else case input_portfolio i db of
             None \<Rightarrow> Inl ''PORTFOLIO_MISMATCH''
           | Some p \<Rightarrow> if lp_book p = [] then Inl ''PORTFOLIO_MISMATCH''
               else if lp_book p \<noteq> input_book i then Inl ''BOOK_MISMATCH'' else Inr ())
      else if (case di_account i of None \<Rightarrow> True | Some a \<Rightarrow> js_trim a = []) \<or> di_strategyCode i \<noteq> None
          \<or> di_membership i \<noteq> None \<or> di_portfolio i \<noteq> None then Inl ''BINDING_INVALID''
      else Inr ())"

definition default_risk :: fields where
  "default_risk = [(''drawdownPct'', JNum (N 0)), (''dailyLossPct'', JNum (N 0)), (''consecutiveLosses'', JNum (N 0)),
     (''halted'', JBool False)]"

definition deployment_of :: "runtime_env \<Rightarrow> deployment_input \<Rightarrow> deployment_row" where
  "deployment_of env i = \<lparr>ld_id = nv_orderId env, ld_owner = di_owner i, ld_strategy = di_strategy i, ld_version = di_version i,
     ld_subscription = di_subscription i, ld_account = di_account i, ld_validationLabel = di_validationLabel i,
     ld_positionSizePct = di_positionSizePct i, ld_stopLossPct = di_stopLossPct i, ld_key = di_key i, ld_createdAt = nv_now env,
     ld_mode = di_mode i, ld_product = input_product i, ld_portfolio = di_portfolio i, ld_strategyCode = di_strategyCode i,
     ld_membership = di_membership i, ld_status = Active, ld_nextCycleAt = nv_now env, ld_leaseOwner = None,
     ld_leaseExpiresAt = None, ld_fencing = 0, ld_sequence = 0, ld_lastCandle = None, ld_errorCode = None, ld_risk = default_risk\<rparr>"

definition pct_in_range :: "jsnum \<Rightarrow> jsnum option \<Rightarrow> bool" where
  "pct_in_range upper v \<longleftrightarrow> (case v of None \<Rightarrow> True | Some x \<Rightarrow> lit (1 / 10) \<le> x \<and> x \<le> upper)"

text \<open>The checks of a row, with the keys to the portfolio, its owner and its book.\<close>

definition deployment_checks :: "deployment_row \<Rightarrow> 'd book_db_scheme \<Rightarrow> bool" where
  "deployment_checks d db \<longleftrightarrow> ld_mode d \<in> {''shadow'', ''paper'', ''live''}
     \<and> ld_validationLabel d \<in> {''UNVERIFIED'', ''EXPLORATION_ONLY'', ''STANDARD_FAILED'', ''STANDARD_VERIFIED''}
     \<and> pct_in_range (N 30) (ld_positionSizePct d) \<and> pct_in_range (N 50) (ld_stopLossPct d)
     \<and> (if ld_product d = ''spot_usdt'' then ld_strategyCode d \<noteq> None \<and> (ld_mode d = ''live'') = (ld_account d \<noteq> None)
          \<and> list_ex (\<lambda>p. ld_portfolio d = Some (lp_id p) \<and> ld_membership d = Some (lp_membership p) \<and> lp_customer p = ld_owner d
              \<and> lp_book p = (if ld_mode d = ''live'' then ''live'' else ''paper'')) (lv_portfolios db)
        else ld_product d = ''usdt_perpetual'' \<and> ld_account d \<noteq> None \<and> ld_portfolio d = None \<and> ld_membership d = None
          \<and> ld_strategyCode d = None)"

text \<open>The unique indexes: the identifier, one active deployment of a card, one active live deployment of an account and card.\<close>

definition official_active :: "deployment_row \<Rightarrow> bool" where
  "official_active d \<longleftrightarrow> ld_product d = ''spot_usdt'' \<and> ld_status d = Active"

definition live_active :: "deployment_row \<Rightarrow> bool" where
  "live_active d \<longleftrightarrow> ld_mode d = ''live'' \<and> ld_status d = Active"

definition deployments_clash :: "deployment_row \<Rightarrow> deployment_row \<Rightarrow> bool" where
  "deployments_clash a b \<longleftrightarrow> ld_id a = ld_id b
     \<or> official_active a \<and> official_active b \<and> ld_owner a = ld_owner b \<and> ld_strategyCode a \<noteq> None \<and> ld_strategyCode a = ld_strategyCode b
     \<or> live_active a \<and> live_active b \<and> ld_account a \<noteq> None \<and> ld_account a = ld_account b \<and> ld_strategyCode a \<noteq> None
         \<and> ld_strategyCode a = ld_strategyCode b"

definition same_request :: "deployment_row \<Rightarrow> deployment_row \<Rightarrow> bool" where
  "same_request a b \<longleftrightarrow> ld_strategy a = ld_strategy b \<and> ld_version a = ld_version b \<and> ld_account a = ld_account b
     \<and> ld_mode a = ld_mode b \<and> ld_validationLabel a = ld_validationLabel b \<and> ld_subscription a = ld_subscription b
     \<and> ld_positionSizePct a = ld_positionSizePct b \<and> ld_stopLossPct a = ld_stopLossPct b \<and> ld_product a = ld_product b
     \<and> ld_strategyCode a = ld_strategyCode b \<and> ld_membership a = ld_membership b \<and> ld_portfolio a = ld_portfolio b"

definition createStrategyDeployment :: "runtime_env \<Rightarrow> deployment_input \<Rightarrow> 'd book_db_scheme \<Rightarrow> (string, deployment_row \<times> 'd book_db_scheme) result" where
  "createStrategyDeployment env i db =
     ebind (check_input i db) (\<lambda>_.
     let d = deployment_of env i in
     if \<not> deployment_checks d db then Inl ''CONSTRAINT''
     else case find (\<lambda>x. ld_owner x = di_owner i \<and> ld_key x = di_key i) (lv_deployments db) of
         Some x \<Rightarrow> if same_request x d then Inr (x, db) else Inl ''IDEMPOTENCY_CONFLICT''
       | None \<Rightarrow> if list_ex (deployments_clash d) (lv_deployments db) then Inl ''CONSTRAINT''
                 else Inr (d, db\<lparr>lv_deployments := lv_deployments db @ [d]\<rparr>))"

definition getOwnedStrategyDeployment :: "string \<Rightarrow> string \<Rightarrow> 'd book_db_scheme \<Rightarrow> deployment_row option" where
  "getOwnedStrategyDeployment i owner db = find (\<lambda>d. ld_id d = i \<and> ld_owner d = owner) (lv_deployments db)"

text \<open>The cycles of an owner's deployment after a sequence number, each with its own events in order.\<close>

definition page_limit :: "int option \<Rightarrow> nat" where
  "page_limit l = nat (min (max (case l of None \<Rightarrow> 100 | Some n \<Rightarrow> n) 1) 200)"

definition listOwnedRuntimeCycles :: "string \<Rightarrow> string \<Rightarrow> int option \<Rightarrow> int option \<Rightarrow> runtime_db \<Rightarrow> (cycle_row \<times> event_row list) list" where
  "listOwnedRuntimeCycles i owner after l db =
     map (\<lambda>c. (c, sort_by (\<lambda>a b. ev_sequence a \<le> ev_sequence b) (filter (\<lambda>e. ev_cycle e = Some (cy_id c)) (rt_events db))))
       (take (page_limit l) (sort_by (\<lambda>a b. cy_sequence a \<le> cy_sequence b)
         (filter (\<lambda>c. cy_deployment c = i \<and> getOwnedStrategyDeployment i owner db \<noteq> None
            \<and> (case after of None \<Rightarrow> 0 | Some n \<Rightarrow> n) < cy_sequence c) (rt_cycles db))))"

subsection \<open>Pause, resume, switch\<close>

datatype status_action = Pause | Resume

definition with_status :: "status_action \<Rightarrow> int \<Rightarrow> deployment_row \<Rightarrow> deployment_row" where
  "with_status a now d = d\<lparr>ld_status := (case a of Pause \<Rightarrow> Paused | Resume \<Rightarrow> Active),
     ld_nextCycleAt := (case a of Pause \<Rightarrow> ld_nextCycleAt d | Resume \<Rightarrow> now), ld_leaseOwner := None, ld_leaseExpiresAt := None\<rparr>"

text \<open>A resumed deployment enters the index of the live accounts again.\<close>

definition changeStrategyDeploymentStatus ::
    "int \<Rightarrow> string \<Rightarrow> string \<Rightarrow> status_action \<Rightarrow> 'd book_db_scheme \<Rightarrow> (string, deployment_row \<times> 'd book_db_scheme) result" where
  "changeStrategyDeploymentStatus now i owner a db =
     (case find (\<lambda>d. ld_id d = i \<and> ld_owner d = owner \<and> ld_status d = (case a of Pause \<Rightarrow> Active | Resume \<Rightarrow> Paused)
             \<and> (a = Pause \<or> ld_product d \<noteq> ''spot_usdt'')) (lv_deployments db) of
        Some d \<Rightarrow>
          if list_ex (\<lambda>x. ld_id x \<noteq> i \<and> deployments_clash (with_status a now d) x) (lv_deployments db) then Inl ''CONSTRAINT''
          else Inr (with_status a now d, update_deployment i (with_status a now) db)
      | None \<Rightarrow>
          if a = Resume \<and> list_ex (\<lambda>d. ld_id d = i \<and> ld_owner d = owner \<and> ld_product d = ''spot_usdt'') (lv_deployments db)
          then Inl ''RESUME_BLOCKED'' else Inl (case a of Pause \<Rightarrow> ''CANNOT_PAUSE'' | Resume \<Rightarrow> ''CANNOT_RESUME''))"

record switch_input =
  wi_owner :: string
  wi_strategyCode :: platform_code
  wi_strategy :: string
  wi_version :: string
  wi_mode :: string
  wi_portfolio :: string

definition switch_target :: "switch_input \<Rightarrow> deployment_row \<Rightarrow> bool" where
  "switch_target w d \<longleftrightarrow> ld_strategy d = wi_strategy w \<and> ld_version d = wi_version w \<and> ld_mode d = wi_mode w
     \<and> ld_portfolio d = Some (wi_portfolio w)"

definition running_of_card :: "switch_input \<Rightarrow> deployment_row \<Rightarrow> bool" where
  "running_of_card w d \<longleftrightarrow> ld_owner d = wi_owner w \<and> ld_strategyCode d = Some (wi_strategyCode w) \<and> ld_product d = ''spot_usdt''
     \<and> (ld_status d = Active \<or> ld_status d = Paused)"

definition conflicts :: "'e book_env_scheme \<Rightarrow> switch_input \<Rightarrow> 'd book_db_scheme \<Rightarrow> deployment_row list" where
  "conflicts env w db = filter (\<lambda>d. \<not> switch_target w d)
     (sort_by (\<lambda>a b. ld_createdAt a < ld_createdAt b \<or> ld_createdAt a = ld_createdAt b \<and> nv_text_le env (ld_id a) (ld_id b))
        (filter (running_of_card w) (lv_deployments db)))"

definition ended :: "deployment_row \<Rightarrow> deployment_row" where
  "ended d = d\<lparr>ld_status := Ended, ld_leaseOwner := None, ld_leaseExpiresAt := None\<rparr>"

record switch_result =
  wr_deployments :: "string list"
  wr_subscriptions :: "string list"

definition endConflictingOfficialStrategyDeployments ::
    "'e book_env_scheme \<Rightarrow> switch_input \<Rightarrow> 'd book_db_scheme \<Rightarrow> (string, switch_result \<times> 'd book_db_scheme) result" where
  "endConflictingOfficialStrategyDeployments env w db =
     (let cs = conflicts env w db; portfolios = wi_portfolio w # List.map_filter ld_portfolio cs; ids = map ld_id cs in
      if cs = [] then Inr (\<lparr>wr_deployments = [], wr_subscriptions = []\<rparr>, db)
      else if list_ex (\<lambda>p. bp_portfolio p \<in> set portfolios \<and> bp_open p) (lv_positions db) then Inl ''SWITCH_OPEN_POSITION''
      else Inr (\<lparr>wr_deployments = ids,
                 wr_subscriptions = rev (remdups (rev (filter (\<lambda>s. s \<noteq> []) (List.map_filter ld_subscription cs))))\<rparr>,
             db\<lparr>lv_deployments := map (\<lambda>d. if ld_id d \<in> set ids \<and> ld_owner d = wi_owner w \<and> (ld_status d = Active \<or> ld_status d = Paused)
                  then ended d else d) (lv_deployments db)\<rparr>))"

subsection \<open>Requests and rows\<close>

lemma create_Inr:
  assumes "createStrategyDeployment env i db = Inr (d, db')"
  obtains (kept) "check_input i db = Inr ()" "deployment_checks (deployment_of env i) db"
      "find (\<lambda>x. ld_owner x = di_owner i \<and> ld_key x = di_key i) (lv_deployments db) = Some d" "same_request d (deployment_of env i)" "db' = db"
    | (created) "check_input i db = Inr ()" "deployment_checks (deployment_of env i) db"
      "find (\<lambda>x. ld_owner x = di_owner i \<and> ld_key x = di_key i) (lv_deployments db) = None" "d = deployment_of env i"
      "\<not> list_ex (deployments_clash d) (lv_deployments db)" "db' = db\<lparr>lv_deployments := lv_deployments db @ [d]\<rparr>"
  using assms that
  by (auto simp: createStrategyDeployment_def ebind_Inr_iff Let_def split: if_split_asm option.split_asm)

lemma find_past: "find P xs = None \<Longrightarrow> find P (xs @ ys) = find P ys"
  by (induction xs) (auto split: if_splits)

lemma same_request_of: "same_request (deployment_of env i) (deployment_of env' i)"
  by (simp add: same_request_def deployment_of_def)

text \<open>C31. A deployment request can be repeated: with the same key and the same contents, under any new
  identifier and at any later time, it returns the row of the first request and writes nothing.\<close>

theorem repeated_request_returns_first:
  assumes "createStrategyDeployment env i db = Inr (d, db')"
  shows "createStrategyDeployment env' i db' = Inr (d, db')"
proof -
  have e: "check_input i db' = check_input i db" "deployment_checks (deployment_of env' i) db' = deployment_checks (deployment_of env i) db"
    if "lv_portfolios db' = lv_portfolios db"
    by (simp_all add: check_input_def input_portfolio_def deployment_checks_def deployment_of_def that)
  from assms show ?thesis
  proof (cases rule: create_Inr)
    case kept
    have "same_request d (deployment_of env' i)" using kept(4) by (simp add: same_request_def deployment_of_def)
    with kept e show ?thesis by (simp add: createStrategyDeployment_def)
  next
    case created
    have p: "lv_portfolios db' = lv_portfolios db" by (simp add: created(6))
    have "find (\<lambda>x. ld_owner x = di_owner i \<and> ld_key x = di_key i) (lv_deployments db') = Some d"
      using find_past [OF created(3), of "[d]"] by (simp add: created(4,6) deployment_of_def)
    moreover have "same_request d (deployment_of env' i)" unfolding created(4) by (rule same_request_of)
    ultimately show ?thesis using created(1,2) e [OF p] by (simp add: createStrategyDeployment_def)
  qed
qed

definition official_bound :: "'d book_db_scheme \<Rightarrow> deployment_row \<Rightarrow> bool" where
  "official_bound db d \<longleftrightarrow> (ld_product d = ''spot_usdt'' \<longrightarrow>
     (\<exists>p \<in> set (lv_portfolios db). ld_portfolio d = Some (lp_id p) \<and> ld_membership d = Some (lp_membership p)
        \<and> lp_customer p = ld_owner d \<and> lp_book p = (if ld_mode d = ''live'' then ''live'' else ''paper''))
     \<and> (ld_account d \<noteq> None \<longleftrightarrow> ld_mode d = ''live''))"

text \<open>No two rows of the table clash.\<close>

definition deployments_ok :: "'d book_db_scheme \<Rightarrow> bool" where
  "deployments_ok db \<longleftrightarrow> (\<forall>d \<in> set (lv_deployments db). official_bound db d)
     \<and> distinct (map ld_id (lv_deployments db))
     \<and> (\<forall>a \<in> set (lv_deployments db). \<forall>b \<in> set (lv_deployments db). ld_id a \<noteq> ld_id b \<longrightarrow> \<not> deployments_clash a b)"

lemma clash_sym: "deployments_clash a b \<longleftrightarrow> deployments_clash b a"
  unfolding deployments_clash_def by metis

lemma checked_bound: "deployment_checks d db \<Longrightarrow> official_bound db d"
  by (auto simp: deployment_checks_def official_bound_def list_ex_iff split: if_split_asm)

lemma create_ok:
  assumes "deployments_ok db" "createStrategyDeployment env i db = Inr (d, db')"
  shows "deployments_ok db'"
  using assms(2)
proof (cases rule: create_Inr)
  case created
  from created(5) have n: "\<forall>x \<in> set (lv_deployments db). \<not> deployments_clash d x" by (auto simp: list_ex_iff)
  then have "\<forall>x \<in> set (lv_deployments db). ld_id x \<noteq> ld_id d" by (auto simp: deployments_clash_def)
  moreover have "\<forall>x \<in> set (lv_deployments db). \<not> deployments_clash x d" using n clash_sym by blast
  moreover have "official_bound db d" using checked_bound created(2,4) by blast
  moreover have "official_bound db' x \<longleftrightarrow> official_bound db x" for x by (simp add: official_bound_def created(6))
  moreover have "lv_deployments db' = lv_deployments db @ [d]" by (simp add: created(6))
  ultimately show ?thesis using assms(1) n unfolding deployments_ok_def by (auto simp: image_iff)
qed (use assms(1) in simp)

text \<open>Changes of rows in place: the binding stays, and an inactive row clashes with nothing.\<close>

definition same_binding :: "deployment_row \<Rightarrow> deployment_row \<Rightarrow> bool" where
  "same_binding a b \<longleftrightarrow> ld_id a = ld_id b \<and> ld_owner a = ld_owner b \<and> ld_product a = ld_product b \<and> ld_mode a = ld_mode b
     \<and> ld_account a = ld_account b \<and> ld_portfolio a = ld_portfolio b \<and> ld_membership a = ld_membership b
     \<and> ld_strategyCode a = ld_strategyCode b \<and> (ld_status a = Active \<longrightarrow> ld_status b = Active)"

lemma same_binding_clash: "same_binding a' a \<Longrightarrow> same_binding b' b \<Longrightarrow> deployments_clash a' b' \<Longrightarrow> deployments_clash a b"
  by (auto simp: same_binding_def deployments_clash_def official_active_def live_active_def)

lemma rows_kept:
  assumes "deployments_ok db" "lv_portfolios db' = lv_portfolios db" "lv_deployments db' = map f (lv_deployments db)"
    and "\<And>d. d \<in> set (lv_deployments db) \<Longrightarrow> same_binding (f d) d"
  shows "deployments_ok db'"
proof -
  have i: "map ld_id (lv_deployments db') = map ld_id (lv_deployments db)"
    using assms(4) by (simp add: assms(3) same_binding_def)
  have "official_bound db' (f d)" if "d \<in> set (lv_deployments db)" for d
  proof -
    have "official_bound db d" using assms(1) that by (simp add: deployments_ok_def)
    with assms(4) [OF that] show ?thesis by (simp add: official_bound_def same_binding_def assms(2))
  qed
  moreover have "\<not> deployments_clash (f a) (f b)" if "a \<in> set (lv_deployments db)" "b \<in> set (lv_deployments db)" "ld_id (f a) \<noteq> ld_id (f b)" for a b
  proof -
    have "\<not> deployments_clash a b" using assms(1) that assms(4) by (auto simp: deployments_ok_def same_binding_def)
    with same_binding_clash [OF assms(4) [OF that(1)] assms(4) [OF that(2)]] show ?thesis by blast
  qed
  moreover have "distinct (map ld_id (lv_deployments db'))" unfolding i using assms(1) by (simp add: deployments_ok_def)
  moreover have "set (lv_deployments db') = f ` set (lv_deployments db)" by (simp add: assms(3))
  moreover have "ld_id (f d) = ld_id d" if "d \<in> set (lv_deployments db)" for d using assms(4) [OF that] by (simp add: same_binding_def)
  ultimately show ?thesis by (simp add: deployments_ok_def)
qed

lemma end_conflicting_ok:
  assumes "deployments_ok db" "endConflictingOfficialStrategyDeployments env w db = Inr (r, db')"
  shows "deployments_ok db'"
proof (cases "conflicts env w db = []")
  case True
  with assms show ?thesis by (simp add: endConflictingOfficialStrategyDeployments_def)
next
  case False
  let ?f = "\<lambda>d. if ld_id d \<in> set (map ld_id (conflicts env w db)) \<and> ld_owner d = wi_owner w
      \<and> (ld_status d = Active \<or> ld_status d = Paused) then ended d else d"
  from False assms(2) have e: "db' = db\<lparr>lv_deployments := map ?f (lv_deployments db)\<rparr>"
    by (simp add: endConflictingOfficialStrategyDeployments_def Let_def split: if_split_asm)
  show ?thesis by (rule rows_kept [OF assms(1), of _ ?f]) (simp_all add: e same_binding_def ended_def)
qed

lemma status_Inr:
  assumes "changeStrategyDeploymentStatus now i owner a db = Inr (d', db')"
  obtains d where "d \<in> set (lv_deployments db)" "ld_id d = i" "ld_owner d = owner" "d' = with_status a now d"
    "a = Pause \<or> ld_product d \<noteq> ''spot_usdt''" "\<forall>x \<in> set (lv_deployments db). ld_id x \<noteq> i \<longrightarrow> \<not> deployments_clash d' x"
    "db' = update_deployment i (with_status a now) db"
proof -
  let ?P = "\<lambda>d. ld_id d = i \<and> ld_owner d = owner \<and> ld_status d = (case a of Pause \<Rightarrow> Active | Resume \<Rightarrow> Paused)
             \<and> (a = Pause \<or> ld_product d \<noteq> ''spot_usdt'')"
  from assms obtain d where f: "find ?P (lv_deployments db) = Some d"
    by (auto simp: changeStrategyDeploymentStatus_def split: option.split_asm if_split_asm)
  with find_Some_set [OF f] assms that show ?thesis
    by (auto simp: changeStrategyDeploymentStatus_def list_ex_iff split: if_split_asm)
qed

lemma status_ok:
  assumes "deployments_ok db" "changeStrategyDeploymentStatus now i owner a db = Inr (d', db')"
  shows "deployments_ok db'"
  using assms(2)
proof (rule status_Inr)
  fix d assume d: "d \<in> set (lv_deployments db)" "ld_id d = i" "ld_owner d = owner" "d' = with_status a now d"
    "a = Pause \<or> ld_product d \<noteq> ''spot_usdt''" "\<forall>x \<in> set (lv_deployments db). ld_id x \<noteq> i \<longrightarrow> \<not> deployments_clash d' x"
    "db' = update_deployment i (with_status a now) db"
  show ?thesis
  proof (cases a)
    case Pause
    show ?thesis
      by (rule rows_kept [OF assms(1), of _ "\<lambda>x. if ld_id x = i then with_status a now x else x"])
        (simp_all add: d(7) Pause same_binding_def with_status_def)
  next
    case Resume
    have u: "x = d" if "x \<in> set (lv_deployments db)" "ld_id x = i" for x
      using assms(1) d(1,2) that by (auto simp: deployments_ok_def distinct_map inj_on_def)
    let ?f = "\<lambda>x. if ld_id x = i then with_status a now x else x"
    have f: "?f x = (if x = d then d' else x)" if "x \<in> set (lv_deployments db)" for x
    proof (cases "ld_id x = i")
      case True
      with u [OF that] d(4) show ?thesis by simp
    next
      case False
      with d(2) have "x \<noteq> d" by blast
      with False show ?thesis by simp
    qed
    have "official_bound db' (?f x)" if "x \<in> set (lv_deployments db)" for x
      using assms(1) that by (simp add: deployments_ok_def official_bound_def d(7) with_status_def)
    moreover have "\<not> deployments_clash (?f x) (?f y)" if "x \<in> set (lv_deployments db)" "y \<in> set (lv_deployments db)" "ld_id x \<noteq> ld_id y" for x y
    proof (cases "x = d \<or> y = d")
      case True
      moreover have "\<not> deployments_clash d' z" if "z \<in> set (lv_deployments db)" "ld_id z \<noteq> ld_id d" for z using d(2,6) that by blast
      ultimately have "x = d \<and> \<not> deployments_clash d' y \<or> y = d \<and> \<not> deployments_clash x d'" using that clash_sym by metis
      with that(3) show ?thesis unfolding f [OF that(1)] f [OF that(2)] by auto
    next
      case False
      have "\<not> deployments_clash x y" using assms(1) that by (simp add: deployments_ok_def)
      with False show ?thesis unfolding f [OF that(1)] f [OF that(2)] by (simp only: if_False de_Morgan_disj) simp
    qed
    moreover have "map ld_id (lv_deployments db') = map ld_id (lv_deployments db)" by (simp add: d(7) with_status_def)
    then have "distinct (map ld_id (lv_deployments db'))" using assms(1) by (simp add: deployments_ok_def)
    moreover have "set (lv_deployments db') = ?f ` set (lv_deployments db)" unfolding d(7) by (simp only: update_deployment_frame list.set_map)
    moreover have "ld_id (?f x) = ld_id x" for x by (simp add: with_status_def)
    ultimately show ?thesis unfolding deployments_ok_def by (simp only: ball_simps(9)) blast
  qed
qed


definition sample_deployment_request :: deployment_input where
  "sample_deployment_request = \<lparr>di_owner = ''u1'', di_strategy = ''s1'', di_version = ''v1'', di_account = None, di_mode = ''shadow'',
     di_validationLabel = ''UNVERIFIED'', di_key = ''key-0001'', di_subscription = None, di_positionSizePct = None,
     di_stopLossPct = None, di_product = Some ''spot_usdt'', di_strategyCode = Some AiBalanced, di_membership = Some ''m1'',
     di_portfolio = Some ''p1''\<rparr>"

definition sample_fresh :: runtime_db where
  "sample_fresh = (sample_runtime [] [] [])\<lparr>lv_deployments := []\<rparr>"

theorem repeated_request_returns_first_witness:
  "\<exists>d db. createStrategyDeployment sample_runtime_env sample_deployment_request sample_fresh = Inr (d, db) \<and> lv_deployments db = [d]
     \<and> createStrategyDeployment (sample_runtime_env\<lparr>nv_orderId := ''o2'', nv_now := 5\<rparr>) sample_deployment_request db = Inr (d, db)"
proof -
  let ?d = "deployment_of sample_runtime_env sample_deployment_request"
  have "createStrategyDeployment sample_runtime_env sample_deployment_request sample_fresh = Inr (?d, sample_fresh\<lparr>lv_deployments := [?d]\<rparr>)"
    by (simp add: createStrategyDeployment_def check_input_def sample_deployment_request_def input_product_def text_given_def input_portfolio_def
        sample_fresh_def sample_runtime_def input_book_def Let_def deployment_of_def deployment_checks_def pct_in_range_def)
  from this repeated_request_returns_first [OF this, of "sample_runtime_env\<lparr>nv_orderId := ''o2'', nv_now := 5\<rparr>"] show ?thesis
    by (intro exI [of _ ?d] exI [of _ "sample_fresh\<lparr>lv_deployments := [?d]\<rparr>"] conjI) simp_all
qed

definition sample_switch :: switch_input where
  "sample_switch = \<lparr>wi_owner = ''u1'', wi_strategyCode = AiBalanced, wi_strategy = ''s1'', wi_version = ''v2'', wi_mode = ''paper'', wi_portfolio = ''p1''\<rparr>"


end
