(* ===== verification/PerpetualPaper.thy ===== *)
theory PerpetualPaper
  imports RuntimeStore
begin

text \<open>
  The paper positions of perpetual deployments in \<open>lib/strategy-runtime-repository.ts\<close>: one net position
  per deployment, opened and closed by the first pending order of a timing, charged with the funding
  rates of the market, and the risk readings that a close refreshes. A day of the database begins at
  midnight UTC.
\<close>

subsection \<open>Reading\<close>

definition open_paper_position :: "string \<Rightarrow> runtime_db \<Rightarrow> paper_position option" where
  "open_paper_position dep db = find (\<lambda>p. qp_deployment p = dep \<and> qp_open p) (rt_paperPositions db)"

record open_position_view =
  ov_id :: string
  ov_side :: string
  ov_quantity :: jsnum
  ov_entryPrice :: jsnum
  ov_feesUsdt :: jsnum
  ov_fundingUsdt :: jsnum

definition loadOpenPaperPosition :: "string \<Rightarrow> runtime_db \<Rightarrow> open_position_view option" where
  "loadOpenPaperPosition dep db = map_option (\<lambda>p. \<lparr>ov_id = qp_id p, ov_side = qp_side p, ov_quantity = js_of (qp_quantity p),
     ov_entryPrice = js_of (qp_entryPrice p), ov_feesUsdt = js_of (qp_fees p), ov_fundingUsdt = js_of (qp_funding p)\<rparr>)
     (open_paper_position dep db)"

definition replace_paper_position :: "paper_position \<Rightarrow> runtime_db \<Rightarrow> runtime_db" where
  "replace_paper_position p db = db\<lparr>rt_paperPositions := map (\<lambda>x. if qp_id x = qp_id p then p else x) (rt_paperPositions db)\<rparr>"

subsection \<open>Funding\<close>

record funding_run =
  fn_applied :: nat
  fn_cost :: jsnum

definition funding_rate_invalid :: "jsnum \<times> jsnum \<Rightarrow> bool" where
  "funding_rate_invalid r \<longleftrightarrow> \<not> is_finite (fst r) \<or> \<not> is_finite (snd r) \<or> lit (1 / 10) < \<bar>snd r\<bar>"

text \<open>A timestamp parameter; an invalid date is refused.\<close>

definition timestamp :: "jsnum \<Rightarrow> (string, int) result" where
  "timestamp t = (case to_date t of Some a \<Rightarrow> Inr a | None \<Rightarrow> Inl ''DATE_INVALID'')"

definition accrue ::
    "runtime_env \<Rightarrow> (nat \<Rightarrow> string) \<Rightarrow> paper_position \<Rightarrow> jsnum \<times> jsnum \<Rightarrow> funding_run \<times> runtime_db
     \<Rightarrow> (string, funding_run \<times> runtime_db) result" where
  "accrue env ids p r s = (case (r, s) of ((time, rate), (n, db)) \<Rightarrow>
     if time < N (of_int (qp_openedAt p)) then Inr (n, db)
     else let notional = js_of (qp_quantity p) * js_of (qp_entryPrice p);
              cost = notional * rate * (if qp_side p = ''long'' then N 1 else N (- 1)) in
       ebind (timestamp time) (\<lambda>t.
       ebind (numeric env notional) (\<lambda>notional'.
       ebind (numeric env cost) (\<lambda>cost'.
         if list_ex (\<lambda>a. fa_position a = qp_id p \<and> fa_time a = t) (rt_accruals db) then Inr (n, db)
         else if list_ex (\<lambda>a. fa_id a = ids (length (rt_accruals db))) (rt_accruals db) then Inl ''CONSTRAINT''
         else Inr (\<lparr>fn_applied = fn_applied n + 1, fn_cost = fn_cost n + cost\<rparr>,
                db\<lparr>rt_accruals := rt_accruals db @ [\<lparr>fa_id = ids (length (rt_accruals db)), fa_deployment = qp_deployment p,
                  fa_position = qp_id p, fa_time = t, fa_rate = rate, fa_notional = notional', fa_cost = cost'\<rparr>]\<rparr>)))))"

definition applyPaperFundingRates ::
    "runtime_env \<Rightarrow> (nat \<Rightarrow> string) \<Rightarrow> string \<Rightarrow> (jsnum \<times> jsnum) list \<Rightarrow> runtime_db \<Rightarrow> (string, funding_run \<times> runtime_db) result" where
  "applyPaperFundingRates env ids dep rates db =
     (if list_ex funding_rate_invalid rates then Inl ''RATES_INVALID''
      else case open_paper_position dep db of
          None \<Rightarrow> Inr (\<lparr>fn_applied = 0, fn_cost = N 0\<rparr>, db)
        | Some p \<Rightarrow>
            ebind (efold (accrue env ids p) (sort_by (\<lambda>a b. fst a \<le> fst b) rates) (\<lparr>fn_applied = 0, fn_cost = N 0\<rparr>, db)) (\<lambda>(n, db1).
            if fn_applied n = 0 then Inr (n, db1)
            else ebind (decimal env (fn_cost n)) (\<lambda>c. ebind (to_column env (qp_funding p + c)) (\<lambda>f.
              Inr (n, replace_paper_position (p\<lparr>qp_funding := f\<rparr>) db1)))))"

subsection \<open>Settlement\<close>

record perpetual_settle =
  px_deploymentId :: string
  px_fillPrice :: "jsnum option"
  px_fillTime :: int
  px_timing :: string
  px_positionId :: string

definition price_invalid :: "jsnum \<Rightarrow> bool" where
  "price_invalid x \<longleftrightarrow> \<not> is_finite x \<or> x \<le> N 0"

definition pending_perpetual :: "'e book_env_scheme \<Rightarrow> perpetual_settle \<Rightarrow> runtime_db \<Rightarrow> perpetual_order option" where
  "pending_perpetual env i db =
     (case sort_by (\<lambda>a b. qo_createdAt a < qo_createdAt b \<or> qo_createdAt a = qo_createdAt b \<and> nv_text_le env (qo_id a) (qo_id b))
        (filter (\<lambda>x. qo_deployment x = px_deploymentId i \<and> qo_status x = ''pending'' \<and> qo_timing x = px_timing i) (rt_perpetualOrders db))
      of [] \<Rightarrow> None | x # _ \<Rightarrow> Some x)"

definition taker_fee_rate :: "fields \<Rightarrow> jsnum" where
  "taker_fee_rate payload = (let configured = json_number (field payload ''takerFeeRate'') in
     if is_finite configured \<and> N 0 \<le> configured \<and> configured \<le> lit (1 / 100) then configured else lit (7 / 10000))"

definition close_paper_position ::
    "runtime_env \<Rightarrow> perpetual_settle \<Rightarrow> perpetual_order \<Rightarrow> jsnum \<Rightarrow> paper_position \<Rightarrow> runtime_db \<Rightarrow> (string, runtime_db) result" where
  "close_paper_position env i o' price p db =
     (let quantity = js_of (qp_quantity p); entry = js_of (qp_entryPrice p);
          gross = (if qp_side p = ''long'' then (price - entry) * quantity else (entry - price) * quantity);
          exitFee = price * quantity * taker_fee_rate (qo_payload o');
          net = gross - js_of (qp_fees p) - js_of (qp_funding p) - exitFee in
      ebind (numeric env price) (\<lambda>price'.
      ebind (decimal env exitFee) (\<lambda>fee.
      ebind (to_column env (qp_fees p + fee)) (\<lambda>fees.
      ebind (numeric env net) (\<lambda>net'.
        Inr (replace_paper_position (p\<lparr>qp_open := False, qp_exitPrice := Some price', qp_closedCycle := Some (qo_cycle o'),
          qp_fees := fees, qp_realized := net', qp_closedAt := Some (px_fillTime i)\<rparr>) db))))))"

definition open_new_position ::
    "runtime_env \<Rightarrow> perpetual_settle \<Rightarrow> perpetual_order \<Rightarrow> jsnum \<Rightarrow> runtime_db \<Rightarrow> (string, runtime_db) result" where
  "open_new_position env i o' price db =
     (let initial = number_or (field (qo_payload o') ''initialEquityUsdt'') (N 10000);
          notional = initial * json_number (field (qo_payload o') ''positionSizePct'') / N 100;
          fee = notional * taker_fee_rate (qo_payload o') in
      ebind (numeric env (notional / price)) (\<lambda>quantity.
      ebind (numeric env price) (\<lambda>price'.
      ebind (numeric env fee) (\<lambda>fee'.
        checked (0 < quantity \<and> 0 < price' \<and> px_positionId i \<notin> set (map qp_id (rt_paperPositions db))
            \<and> \<not> list_ex (\<lambda>p. qp_deployment p = px_deploymentId i \<and> qp_open p) (rt_paperPositions db))
          (db\<lparr>rt_paperPositions := rt_paperPositions db @ [\<lparr>qp_id = px_positionId i, qp_deployment = px_deploymentId i,
             qp_side = (if qo_action o' = ''enter_long'' then ''long'' else ''short''), qp_open = True, qp_quantity = quantity,
             qp_entryPrice = price', qp_exitPrice = None, qp_openedCycle = qo_cycle o', qp_closedCycle = None, qp_fees = fee',
             qp_funding = 0, qp_realized = 0, qp_openedAt = px_fillTime i, qp_closedAt = None\<rparr>]\<rparr>)))))"

text \<open>The risk readings after a close: results of closed positions, newest first.\<close>

definition closed_positions :: "'e book_env_scheme \<Rightarrow> string \<Rightarrow> runtime_db \<Rightarrow> paper_position list" where
  "closed_positions env dep db = sort_by (\<lambda>a b. the (qp_closedAt b) < the (qp_closedAt a)
       \<or> qp_closedAt a = qp_closedAt b \<and> nv_text_le env (qp_id b) (qp_id a))
     (filter (\<lambda>p. qp_deployment p = dep \<and> \<not> qp_open p) (rt_paperPositions db))"

definition day_begin :: "int \<Rightarrow> int" where
  "day_begin t = t div 86400000 * 86400000"

definition losing_streak :: "jsnum list \<Rightarrow> nat" where
  "losing_streak rs = length (takeWhile (\<lambda>r. \<not> N 0 \<le> r) rs)"

definition paper_risk_state :: "'e book_env_scheme \<Rightarrow> string \<Rightarrow> int \<Rightarrow> runtime_db \<Rightarrow> fields \<Rightarrow> fields" where
  "paper_risk_state env dep t db risk =
     (let closed_rows = closed_positions env dep db;
          total = sum_list (map qp_realized closed_rows);
          today = sum_list (map qp_realized (filter (\<lambda>p. day_begin t \<le> the (qp_closedAt p)) closed_rows));
          equity = N 10000 + js_of total;
          peak = js_max (number_or (field risk ''peakEquityUsdt'') (N 10000)) equity
      in put_fields risk [(''equityUsdt'', number_json equity), (''peakEquityUsdt'', number_json peak),
           (''drawdownPct'', number_json (if N 0 < peak then js_max (N 0) ((peak - equity) / peak * N 100) else N 100)),
           (''dailyLossPct'', number_json (js_max (N 0) (- js_of today / N 10000 * N 100))),
           (''consecutiveLosses'', JNum (N (of_nat (losing_streak (map (\<lambda>p. js_of (qp_realized p)) (take 20 closed_rows))))))])"

definition book_perpetual ::
    "runtime_env \<Rightarrow> perpetual_settle \<Rightarrow> perpetual_order \<Rightarrow> jsnum \<Rightarrow> runtime_db \<Rightarrow> (string, runtime_db) result" where
  "book_perpetual env i o' price db = (case open_paper_position (px_deploymentId i) db of
       None \<Rightarrow> if qo_action o' = ''exit'' then Inl ''NO_POSITION'' else open_new_position env i o' price db
     | Some p \<Rightarrow> if qo_action o' = ''exit'' then close_paper_position env i o' price p db else Inl ''ONE_POSITION'')"

text \<open>The order is filled; after an exit the deployment's risk readings follow.\<close>

definition settled_perpetual :: "runtime_env \<Rightarrow> perpetual_settle \<Rightarrow> perpetual_order \<Rightarrow> runtime_db \<Rightarrow> runtime_db" where
  "settled_perpetual env i o' db =
     (let db' = db\<lparr>rt_perpetualOrders := map (\<lambda>x. if qo_id x = qo_id o' then x\<lparr>qo_status := ''filled''\<rparr> else x) (rt_perpetualOrders db)\<rparr>
      in if qo_action o' = ''exit''
         then update_deployment (px_deploymentId i)
           (\<lambda>d. d\<lparr>ld_risk := paper_risk_state env (px_deploymentId i) (px_fillTime i) db' (ld_risk d)\<rparr>) db'
         else db')"

definition settlement_price :: "perpetual_settle \<Rightarrow> perpetual_order \<Rightarrow> jsnum" where
  "settlement_price i o' = (case px_fillPrice i of Some x \<Rightarrow> x
     | None \<Rightarrow> (case qo_price o' of None \<Rightarrow> N 0 | Some r \<Rightarrow> js_of r))"

definition settlePendingPaperOrder ::
    "runtime_env \<Rightarrow> perpetual_settle \<Rightarrow> runtime_db \<Rightarrow> (string, (string \<times> string) option \<times> runtime_db) result" where
  "settlePendingPaperOrder env i db =
     (if px_fillPrice i \<noteq> None \<and> price_invalid (the (px_fillPrice i)) then Inl ''PRICE_INVALID''
      else case pending_perpetual env i db of
          None \<Rightarrow> Inr (None, db)
        | Some o' \<Rightarrow>
            if price_invalid (settlement_price i o') then Inl ''PRICE_INVALID''
            else ebind (book_perpetual env i o' (settlement_price i o') db) (\<lambda>db1.
              Inr (Some (qo_id o', qo_action o'), settled_perpetual env i o' db1)))"

subsection \<open>Funding is charged once\<close>

definition accrual_keys :: "runtime_db \<Rightarrow> (string \<times> int) set" where
  "accrual_keys db = set (map (\<lambda>a. (fa_position a, fa_time a)) (rt_accruals db))"

text \<open>What a rate is charged on does not change while the position is open.\<close>

definition charged_alike :: "paper_position \<Rightarrow> paper_position \<Rightarrow> bool" where
  "charged_alike p q \<longleftrightarrow> qp_id p = qp_id q \<and> qp_quantity p = qp_quantity q \<and> qp_entryPrice p = qp_entryPrice q \<and> qp_side p = qp_side q
     \<and> qp_openedAt p = qp_openedAt q"

lemma accrued: "list_ex (\<lambda>a. fa_position a = i \<and> fa_time a = t) (rt_accruals db) \<longleftrightarrow> (i, t) \<in> accrual_keys db"
  by (auto simp: accrual_keys_def list_ex_iff)

lemma accrue_frame:
  assumes "accrue env ids p r (n, db) = Inr (n', db')"
  shows "\<exists>as. db' = db\<lparr>rt_accruals := rt_accruals db @ as\<rparr>"
proof -
  have n: "db = db\<lparr>rt_accruals := rt_accruals db @ []\<rparr>" by simp
  obtain time rate where r: "r = (time, rate)" by (cases r)
  show ?thesis
  proof (cases "db' = db")
    case True
    with n show ?thesis by metis
  next
    case False
    with assms r show ?thesis by (auto simp: accrue_def ebind_Inr_iff Let_def split: if_split_asm)
  qed
qed

lemma accrue_again:
  assumes "accrue env ids p r (n, db) = Inr (n', db')" "charged_alike q p" "accrual_keys db' \<subseteq> accrual_keys db2"
  shows "accrue env ids2 q r (m, db2) = Inr (m, db2)"
proof -
  obtain time rate where r: "r = (time, rate)" by (cases r)
  note q = assms(2) [unfolded charged_alike_def]
  show ?thesis
  proof (cases "time < N (of_int (qp_openedAt p))")
    case True
    with q show ?thesis by (simp add: accrue_def r)
  next
    case False
    let ?notional = "js_of (qp_quantity p) * js_of (qp_entryPrice p)"
    let ?cost = "?notional * rate * (if qp_side p = ''long'' then N 1 else N (- 1))"
    from assms(1) False r obtain t v c where t: "timestamp time = Inr t" "numeric env ?notional = Inr v" "numeric env ?cost = Inr c"
      by (auto simp: accrue_def ebind_Inr_iff Let_def)
    have "(qp_id p, t) \<in> accrual_keys db'"
      using assms(1) False t by (simp add: accrue_def r Let_def accrued split: if_split_asm) (auto simp: accrual_keys_def)
    with assms(3) have "(qp_id p, t) \<in> accrual_keys db2" by blast
    with False t q show ?thesis by (simp add: accrue_def r Let_def accrued)
  qed
qed

lemma accruals_again:
  assumes "efold (accrue env ids p) rs (n, db) = Inr (n', db')" "charged_alike q p"
  shows "accrual_keys db \<subseteq> accrual_keys db' \<and> (\<forall>db2 m. accrual_keys db' \<subseteq> accrual_keys db2 \<longrightarrow> efold (accrue env ids2 q) rs (m, db2) = Inr (m, db2))"
  using assms(1)
proof (induction rs arbitrary: n db)
  case (Cons r rs)
  then obtain n1 db1 where d: "accrue env ids p r (n, db) = Inr (n1, db1)" "efold (accrue env ids p) rs (n1, db1) = Inr (n', db')"
    by (auto simp: ebind_Inr_iff)
  note ih = Cons.IH [OF d(2)]
  from accrue_frame [OF d(1)] have "accrual_keys db \<subseteq> accrual_keys db1" by (auto simp: accrual_keys_def)
  moreover have "efold (accrue env ids2 q) (r # rs) (m, db2) = Inr (m, db2)" if "accrual_keys db' \<subseteq> accrual_keys db2" for db2 m
  proof -
    have "accrual_keys db1 \<subseteq> accrual_keys db2" using ih that by blast
    then show ?thesis using accrue_again [OF d(1) assms(2)] ih that by simp
  qed
  ultimately show ?case using ih by blast
qed simp

lemma accruals_frame:
  "efold (accrue env ids p) rs (n, db) = Inr (n', db') \<Longrightarrow> rt_paperPositions db' = rt_paperPositions db"
proof (induction rs arbitrary: n db)
  case (Cons r rs)
  then obtain n1 db1 where d: "accrue env ids p r (n, db) = Inr (n1, db1)" "efold (accrue env ids p) rs (n1, db1) = Inr (n', db')"
    by (auto simp: ebind_Inr_iff)
  from accrue_frame [OF d(1)] Cons.IH [OF d(2)] show ?case by auto
qed simp

lemma find_replaced:
  assumes "find P xs = Some p" "P q" "g p = g q"
  shows "find P (map (\<lambda>x. if g x = g q then q else x) xs) = Some q"
  using assms(1)
proof (induction xs)
  case (Cons x xs)
  then show ?case using assms(2,3) by (cases "P x") auto
qed simp

text \<open>C32. Funding is charged once: when the same rates are applied again, with any new identifiers, nothing is
  charged and nothing is written, since each rate of the open position has its row already.\<close>

theorem funding_applied_once:
  assumes "applyPaperFundingRates env ids dep rates db = Inr (n, db')"
  shows "applyPaperFundingRates env ids2 dep rates db' = Inr (\<lparr>fn_applied = 0, fn_cost = N 0\<rparr>, db')"
proof (cases "open_paper_position dep db")
  case None
  with assms show ?thesis by (simp add: applyPaperFundingRates_def split: if_split_asm)
next
  case (Some p)
  let ?rs = "sort_by (\<lambda>a b. fst a \<le> fst b) rates"
  let ?z = "\<lparr>fn_applied = 0, fn_cost = N 0\<rparr>"
  from assms Some obtain m db1 where f: "efold (accrue env ids p) ?rs (?z, db) = Inr (m, db1)" "\<not> list_ex funding_rate_invalid rates"
    and d: "db' = db1 \<or> (\<exists>x. db' = replace_paper_position (p\<lparr>qp_funding := x\<rparr>) db1)"
    by (auto simp: applyPaperFundingRates_def ebind_Inr_iff split: if_split_asm)
  have o: "open_paper_position dep db1 = Some p" using Some accruals_frame [OF f(1)] by (simp add: open_paper_position_def)
  have p: "qp_deployment p = dep \<and> qp_open p" using o find_Some_set by (fastforce simp: open_paper_position_def)
  have "\<exists>q. open_paper_position dep db' = Some q \<and> charged_alike q p \<and> accrual_keys db1 \<subseteq> accrual_keys db'"
    using d
  proof (elim disjE exE)
    assume "db' = db1"
    with o show ?thesis by (simp add: charged_alike_def)
  next
    fix x assume x: "db' = replace_paper_position (p\<lparr>qp_funding := x\<rparr>) db1"
    have "open_paper_position dep db' = Some (p\<lparr>qp_funding := x\<rparr>)"
      using find_replaced [of "\<lambda>p. qp_deployment p = dep \<and> qp_open p" "rt_paperPositions db1" p "p\<lparr>qp_funding := x\<rparr>" qp_id] o p
      by (simp add: open_paper_position_def x replace_paper_position_def)
    then show ?thesis by (simp add: charged_alike_def accrual_keys_def x replace_paper_position_def)
  qed
  then obtain q where q: "open_paper_position dep db' = Some q" "charged_alike q p" "accrual_keys db1 \<subseteq> accrual_keys db'" by blast
  have "efold (accrue env ids2 q) ?rs (?z, db') = Inr (?z, db')" using accruals_again [OF f(1) q(2)] q(3) by blast
  with q(1) f(2) show ?thesis by (simp add: applyPaperFundingRates_def)
qed

lemma accruals_rows:
  "efold (accrue env ids p) rs (n, db) = Inr (n', db') \<Longrightarrow> lv_deployments db' = lv_deployments db \<and> rt_cycles db' = rt_cycles db"
proof (induction rs arbitrary: n db)
  case (Cons r rs)
  then obtain n1 db1 where d: "accrue env ids p r (n, db) = Inr (n1, db1)" "efold (accrue env ids p) rs (n1, db1) = Inr (n', db')"
    by (auto simp: ebind_Inr_iff)
  from accrue_frame [OF d(1)] Cons.IH [OF d(2)] show ?case by auto
qed simp

lemma funding_frame:
  assumes "applyPaperFundingRates env ids dep rates db = Inr (n, db')"
  shows "lv_deployments db' = lv_deployments db \<and> rt_cycles db' = rt_cycles db"
proof (cases "open_paper_position dep db")
  case (Some p)
  with assms obtain m db1 where f: "efold (accrue env ids p) (sort_by (\<lambda>a b. fst a \<le> fst b) rates) (\<lparr>fn_applied = 0, fn_cost = N 0\<rparr>, db) = Inr (m, db1)"
    and d: "db' = db1 \<or> (\<exists>x. db' = replace_paper_position x db1)"
    by (auto simp: applyPaperFundingRates_def ebind_Inr_iff split: if_split_asm)
  from accruals_rows [OF f] d show ?thesis by (auto simp: replace_paper_position_def)
qed (use assms in \<open>simp add: applyPaperFundingRates_def split: if_split_asm\<close>)

lemma position_write_frame:
  "close_paper_position env i o' price p db = Inr db' \<Longrightarrow> lv_deployments db' = lv_deployments db \<and> rt_cycles db' = rt_cycles db"
  "open_new_position env i o' price db = Inr db' \<Longrightarrow> lv_deployments db' = lv_deployments db \<and> rt_cycles db' = rt_cycles db"
  by (auto simp: close_paper_position_def open_new_position_def replace_paper_position_def Let_def ebind_Inr_iff checked_Inr)

text \<open>A settlement changes the risk readings of deployments and nothing else of them.\<close>

lemma paper_settlement_frame:
  assumes "settlePendingPaperOrder env i db = Inr (x, db')"
  obtains f where "lv_deployments db' = map f (lv_deployments db)" "\<And>d. \<exists>r. f d = d\<lparr>ld_risk := r\<rparr>" "rt_cycles db' = rt_cycles db"
proof (cases "pending_perpetual env i db")
  case None
  with assms have "db' = db" by (simp add: settlePendingPaperOrder_def split: if_split_asm)
  moreover have "\<exists>r. id d = d\<lparr>ld_risk := r\<rparr>" for d :: deployment_row by (rule exI [of _ "ld_risk d"]) simp
  ultimately show ?thesis by (intro that [of id]) simp_all
next
  case (Some o')
  with assms obtain db1 where s: "book_perpetual env i o' (settlement_price i o') db = Inr db1" "db' = settled_perpetual env i o' db1"
    by (auto simp: settlePendingPaperOrder_def ebind_Inr_iff split: if_split_asm)
  from s(1) have f: "lv_deployments db1 = lv_deployments db \<and> rt_cycles db1 = rt_cycles db"
    by (auto simp: book_perpetual_def position_write_frame split: option.split_asm if_split_asm)
  obtain risk where e: "lv_deployments db' = map (\<lambda>d. d\<lparr>ld_risk := risk d\<rparr>) (lv_deployments db1)" "rt_cycles db' = rt_cycles db1"
  proof (cases "qo_action o' = ''exit''")
    case True
    let ?db = "db1\<lparr>rt_perpetualOrders := map (\<lambda>x. if qo_id x = qo_id o' then x\<lparr>qo_status := ''filled''\<rparr> else x) (rt_perpetualOrders db1)\<rparr>"
    show ?thesis
      by (rule that [of "\<lambda>d. if ld_id d = px_deploymentId i then paper_risk_state env (px_deploymentId i) (px_fillTime i) ?db (ld_risk d) else ld_risk d"])
        (simp_all add: s(2) settled_perpetual_def True Let_def)
  next
    case False
    then show ?thesis by (intro that [of ld_risk]) (simp_all add: s(2) settled_perpetual_def)
  qed
  show ?thesis by (rule that [of "\<lambda>d. d\<lparr>ld_risk := risk d\<rparr>"]) (use e f in auto)
qed

definition sample_paper_position :: paper_position where
  "sample_paper_position = \<lparr>qp_id = ''q1'', qp_deployment = ''d1'', qp_side = ''long'', qp_open = True, qp_quantity = 2, qp_entryPrice = 100,
     qp_exitPrice = None, qp_openedCycle = ''c1'', qp_closedCycle = None, qp_fees = 0, qp_funding = 0, qp_realized = 0, qp_openedAt = 0,
     qp_closedAt = None\<rparr>"

theorem funding_applied_once_witness:
  "\<exists>n db. applyPaperFundingRates sample_runtime_env (\<lambda>_. ''a1'') ''d1'' [(N 5, N 0)]
       ((sample_runtime [] [] [])\<lparr>rt_paperPositions := [sample_paper_position]\<rparr>) = Inr (n, db) \<and> fn_applied n = 1
     \<and> applyPaperFundingRates sample_runtime_env (\<lambda>_. ''a2'') ''d1'' [(N 5, N 0)] db = Inr (\<lparr>fn_applied = 0, fn_cost = N 0\<rparr>, db)"
proof -
  obtain n db where r: "applyPaperFundingRates sample_runtime_env (\<lambda>_. ''a1'') ''d1'' [(N 5, N 0)]
       ((sample_runtime [] [] [])\<lparr>rt_paperPositions := [sample_paper_position]\<rparr>) = Inr (n, db)" "fn_applied n = 1"
  proof -
    let ?db = "(sample_runtime [] [] [])\<lparr>rt_paperPositions := [sample_paper_position]\<rparr>"
    let ?a = "\<lparr>fa_id = ''a1'', fa_deployment = ''d1'', fa_position = ''q1'', fa_time = 5, fa_rate = N 0, fa_notional = 200, fa_cost = 0\<rparr>"
    have v: "\<not> list_ex funding_rate_invalid [(N 5, N 0)]"
      using js_of_nonneg [of "1 / 10"] by (auto simp: funding_rate_invalid_def js_not_less)
    have "rt_accruals ?db = []" by (simp add: sample_runtime_def)
    then have "accrue sample_runtime_env (\<lambda>_. ''a1'') sample_paper_position (N 5, N 0) (\<lparr>fn_applied = 0, fn_cost = N 0\<rparr>, ?db)
        = Inr (\<lparr>fn_applied = 1, fn_cost = N 0\<rparr>, ?db\<lparr>rt_accruals := [?a]\<rparr>)"
      by (simp add: accrue_def sample_paper_position_def Let_def timestamp_def max_time_def numeric_def decimal_def to_column_def sample_runtime_env_def)
    moreover have "open_paper_position ''d1'' ?db = Some sample_paper_position"
      by (simp add: open_paper_position_def sample_paper_position_def)
    ultimately have "applyPaperFundingRates sample_runtime_env (\<lambda>_. ''a1'') ''d1'' [(N 5, N 0)] ?db = Inr (\<lparr>fn_applied = 1, fn_cost = N 0\<rparr>,
        replace_paper_position (sample_paper_position\<lparr>qp_funding := qp_funding sample_paper_position + 0\<rparr>) (?db\<lparr>rt_accruals := [?a]\<rparr>))"
      using v by (simp add: applyPaperFundingRates_def sort_by_def decimal_def to_column_def sample_runtime_env_def)
    then show ?thesis by (rule that) simp
  qed
  from r funding_applied_once [OF r(1), of "\<lambda>_. ''a2''"] show ?thesis by blast
qed

end
