(* ===== verification/RuntimeRun.thy ===== *)
theory RuntimeRun
  imports RuntimeJobs DeploymentStore PerpetualPaper
begin

text \<open>
  The transactions of \<open>lib/strategy-runtime-repository.ts\<close> on deployments and cycles, as steps of workers and
  owners in any order, and what holds along every sequence of them: a lease token is given once, a
  worker that has lost its lease changes nothing, and the cycles of a deployment form one history.
\<close>

inductive runtime_step :: "runtime_db \<Rightarrow> runtime_db \<Rightarrow> bool" where
  lease_step: "leaseNextStrategyDeployment (env :: runtime_env) worker now seconds db = Inr (r, db') \<Longrightarrow> runtime_step db db'"
| renew_step: "renewStrategyRuntimeLease i worker token now seconds db = Inr (t, db') \<Longrightarrow> runtime_step db db'"
| defer_step: "deferStrategyRuntimeLease i worker token t db = Inr db' \<Longrightarrow> runtime_step db db'"
| fail_step: "runtime_step db (failStrategyRuntimeLease i worker token code t db)"
| complete_step: "runtime_step db (snd (completeStrategyRuntimeCycle env input db))"
| lease_job_step: "leaseNextRuntimeExplanationJob (env :: runtime_env) worker now seconds db = Inr (l, db') \<Longrightarrow> runtime_step db db'"
| complete_job_step: "completeRuntimeExplanationJob i worker token out db = Inr db' \<Longrightarrow> runtime_step db db'"
| fail_job_step: "failRuntimeExplanationJob i worker token code t db = Inr (s, db') \<Longrightarrow> runtime_step db db'"
| create_step: "createStrategyDeployment env request db = Inr (d, db') \<Longrightarrow> runtime_step db db'"
| status_step: "changeStrategyDeploymentStatus now i owner a db = Inr (d, db') \<Longrightarrow> runtime_step db db'"
| fund_step: "applyPaperFundingRates env ids dep rates db = Inr (n, db') \<Longrightarrow> runtime_step db db'"
| settle_step: "settlePendingPaperOrder env order db = Inr (x, db') \<Longrightarrow> runtime_step db db'"
| switch_step: "endConflictingOfficialStrategyDeployments (env :: runtime_env) w db = Inr (s, db') \<Longrightarrow> runtime_step db db'"

subsection \<open>What a step does to deployments and cycles\<close>

text \<open>A row after a step: the lease is new, kept or gone; only a new one has a new token.\<close>

definition lease_moves :: "deployment_row \<Rightarrow> deployment_row \<Rightarrow> bool" where
  "lease_moves d d' \<longleftrightarrow> ld_id d' = ld_id d \<and> ld_sequence d \<le> ld_sequence d'
     \<and> (ld_fencing d < ld_fencing d' \<or> ld_fencing d' = ld_fencing d \<and> (ld_leaseOwner d' \<noteq> None \<longrightarrow> ld_leaseOwner d \<noteq> None))"

text \<open>A step rows_move rows in place, adds a deployment, or completes a cycle and with it the lease.\<close>

definition completes :: "runtime_db \<Rightarrow> runtime_db \<Rightarrow> cycle_row \<Rightarrow> deployment_row \<Rightarrow> bool" where
  "completes db db' c d \<longleftrightarrow> d \<in> set (lv_deployments db) \<and> ld_id d = cy_deployment c \<and> ld_leaseOwner d \<noteq> None
     \<and> cy_fencing c = ld_fencing d \<and> cy_sequence c = ld_sequence d + 1
     \<and> (\<forall>x \<in> set (rt_cycles db). cy_id x \<noteq> cy_id c \<and> \<not> (cy_deployment x = cy_deployment c \<and> cy_closeTime x = cy_closeTime c))
     \<and> rt_cycles db' = rt_cycles db @ [c]
     \<and> (\<exists>f. lv_deployments db' = map (\<lambda>x. if ld_id x = ld_id d then f x else x) (lv_deployments db)
          \<and> (\<forall>x. ld_id (f x) = ld_id x \<and> ld_sequence (f x) = ld_sequence x + 1 \<and> ld_fencing (f x) = ld_fencing x \<and> ld_leaseOwner (f x) = None))"

lemma rows_step:
  assumes "lv_deployments db' = map f (lv_deployments db)" "\<And>d. lease_moves d (f d)" "rt_cycles db' = rt_cycles db"
  shows "(\<exists>f. lv_deployments db' = map f (lv_deployments db) \<and> (\<forall>d. lease_moves d (f d)) \<and> rt_cycles db' = rt_cycles db)"
  using assms by blast

lemma complete_row:
  assumes "completeStrategyRuntimeCycle env i db = (Inr cc, db')" "\<not> cc_duplicate cc"
  obtains (row) c d where "completes db db' c d" "cy_id c = cc_id cc" "cy_sequence c = cc_sequence cc"
    | (none) d where "d \<in> set (lv_deployments db)" "ld_leaseOwner d \<noteq> None" "ld_fencing d = ci_fencingToken i" "ld_id d = ci_deploymentId i"
        "rt_cycles db' = rt_cycles db"
        "lv_deployments db' = map (\<lambda>x. if ld_id x = ci_deploymentId i then completed i x else x) (lv_deployments db)"
  using assms(1)
proof (cases rule: complete_Inr)
  case (duplicate c)
  with assms(2) show ?thesis by simp
next
  case (fresh d)
  note d = fresh(2) [unfolded holds_lease_def]
  from fresh(6) show ?thesis
  proof (rule write_cycle_frame)
    fix cs js os
    assume w: "lv_deployments db' = lv_deployments (update_deployment (ci_deploymentId i) (completed i) db)"
      "rt_cycles db' = rt_cycles (update_deployment (ci_deploymentId i) (completed i) db) @ cs"
      "if persist_admission i then \<exists>c. cs = [c] \<and> cycle_row_of i (ld_sequence (completed i d)) c
       \<and> (\<forall>x \<in> set (rt_cycles (update_deployment (ci_deploymentId i) (completed i) db)). cy_id x \<noteq> ci_cycleId i
            \<and> \<not> (cy_deployment x = ci_deploymentId i \<and> (cy_sequence x = ld_sequence (completed i d) \<or> cy_closeTime x = ci_candleCloseTime i)))
     else cs = []"
    have m: "lv_deployments db' = map (\<lambda>x. if ld_id x = ci_deploymentId i then completed i x else x) (lv_deployments db)"
      using w(1) by simp
    show ?thesis
    proof (cases "persist_admission i")
      case False
      with w(2,3) have "rt_cycles db' = rt_cycles db" by simp
      with fresh(1) d m show ?thesis by (intro none [of d]) simp_all
    next
      case True
      with w(3) obtain c where c: "cs = [c]" "cycle_row_of i (ld_sequence d + 1) c"
        "\<forall>x \<in> set (rt_cycles db). cy_id x \<noteq> ci_cycleId i \<and> \<not> (cy_deployment x = ci_deploymentId i \<and> cy_closeTime x = ci_candleCloseTime i)"
        by (auto simp: completed_def released_def)
      have f: "ld_id (completed i x) = ld_id x \<and> ld_sequence (completed i x) = ld_sequence x + 1 \<and> ld_fencing (completed i x) = ld_fencing x
         \<and> ld_leaseOwner (completed i x) = None" for x by (simp add: completed_def released_def)
      have "completes db db' c d"
        unfolding completes_def using fresh(1) d c w(2) m f by (auto simp: cycle_row_of_def)
      then show ?thesis using c(2) fresh(5) by (intro row [of c d]) (simp_all add: cycle_row_of_def)
    qed
  qed
qed

definition rows_move :: "runtime_db \<Rightarrow> runtime_db \<Rightarrow> bool" where
  "rows_move db db' \<longleftrightarrow> (\<exists>f. lv_deployments db' = map f (lv_deployments db) \<and> (\<forall>d. lease_moves d (f d))) \<and> rt_cycles db' = rt_cycles db"

lemma rows_moveI: "lv_deployments db' = map f (lv_deployments db) \<Longrightarrow> (\<And>d. lease_moves d (f d)) \<Longrightarrow> rt_cycles db' = rt_cycles db \<Longrightarrow> rows_move db db'"
  by (auto simp: rows_move_def)

lemma rows_move_same: "lv_deployments db' = lv_deployments db \<Longrightarrow> rt_cycles db' = rt_cycles db \<Longrightarrow> rows_move db db'"
  by (rule rows_moveI [of _ id]) (simp_all add: lease_moves_def)

lemma rows_move_update: "(\<And>d. lease_moves d (f d)) \<Longrightarrow> rows_move db (update_deployment i f db)"
  by (rule rows_moveI [of _ "\<lambda>d. if ld_id d = i then f d else d"]) (simp_all add: lease_moves_def)

lemma lease_moves_risk: "f d = d\<lparr>ld_risk := r\<rparr> \<Longrightarrow> lease_moves d (f d)"
  by (simp add: lease_moves_def)

definition creates :: "runtime_db \<Rightarrow> runtime_db \<Rightarrow> deployment_row \<Rightarrow> bool" where
  "creates db db' d \<longleftrightarrow> lv_deployments db' = lv_deployments db @ [d] \<and> rt_cycles db' = rt_cycles db
     \<and> ld_id d \<notin> set (map ld_id (lv_deployments db)) \<and> ld_leaseOwner d = None"

lemma complete_effect:
  "rows_move db (snd (completeStrategyRuntimeCycle env i db)) \<or> (\<exists>c d. completes db (snd (completeStrategyRuntimeCycle env i db)) c d)"
proof (cases "completeStrategyRuntimeCycle env i db")
  case (Pair r db')
  show ?thesis
  proof (cases r)
    case (Inl e)
    with Pair complete_Inl [of env i db e db'] show ?thesis by (simp add: rows_move_same)
  next
    case (Inr cc)
    with Pair have c: "completeStrategyRuntimeCycle env i db = (Inr cc, db')" by simp
    have r: "rows_move db db' \<or> (\<exists>c d. completes db db' c d)"
    proof (cases "cc_duplicate cc")
      case True
      from c show ?thesis
      proof (cases rule: complete_Inr)
        case (duplicate c)
        have "rows_move db db'" unfolding duplicate(5)
          by (rule rows_move_update) (simp add: lease_moves_def released_def)
        then show ?thesis ..
      qed (use True in simp)
    next
      case False
      from c False show ?thesis
      proof (cases rule: complete_row)
        case (none d)
        have "rows_move db db'"
          by (rule rows_moveI [OF none(6) _ none(5)]) (simp add: lease_moves_def completed_def released_def)
        then show ?thesis ..
      qed blast
    qed
    with Pair show ?thesis by simp
  qed
qed

lemma step_effect:
  assumes "runtime_step db db'"
  shows "rows_move db db' \<or> (\<exists>d. creates db db' d) \<or> (\<exists>c d. completes db db' c d)"
  using assms
proof cases
  case (lease_step env worker now seconds r)
  then have "db' = db \<or> (\<exists>i. db' = update_deployment i (leased worker (now + milliseconds seconds)) db)"
    by (auto simp: leaseNextStrategyDeployment_def Let_def split: if_split_asm list.split_asm)
  moreover have "rows_move db (update_deployment i (leased worker t) db)" for i t
    by (rule rows_move_update) (simp add: lease_moves_def leased_def)
  ultimately show ?thesis using rows_move_same [of db db] by auto
next
  case (renew_step i worker token now seconds t)
  then have "db' = update_deployment i (\<lambda>d. d\<lparr>ld_leaseExpiresAt := Some (now + milliseconds seconds)\<rparr>) db"
    by (auto simp: renewStrategyRuntimeLease_def split: if_split_asm)
  then show ?thesis using rows_move_update [of "\<lambda>d. d\<lparr>ld_leaseExpiresAt := Some (now + milliseconds seconds)\<rparr>" db i]
    by (simp add: lease_moves_def)
next
  case (defer_step i worker token t)
  then have "db' = update_deployment i (released t) db" by (simp add: deferStrategyRuntimeLease_def split: if_split_asm)
  then show ?thesis using rows_move_update [of "released t" db i] by (simp add: lease_moves_def released_def)
next
  case (fail_step i worker token code t)
  have "rows_move db db'" unfolding fail_step failStrategyRuntimeLease_def
    by (rule rows_move_update) (simp add: lease_moves_def released_def)
  then show ?thesis ..
next
  case (complete_step env input)
  then show ?thesis using complete_effect by blast
next
  case (lease_job_step env worker now seconds l)
  then have "lv_deployments db' = lv_deployments db \<and> rt_cycles db' = rt_cycles db"
    by (auto simp: leaseNextRuntimeExplanationJob_def update_events_def update_job_def split: if_split_asm list.split_asm option.split_asm)
  then show ?thesis using rows_move_same by blast
next
  case (complete_job_step i worker token out)
  then have "lv_deployments db' = lv_deployments db \<and> rt_cycles db' = rt_cycles db"
    by (auto simp: completeRuntimeExplanationJob_def update_events_def update_job_def split: option.split_asm)
  then show ?thesis using rows_move_same by blast
next
  case (fail_job_step i worker token code t s)
  then have "lv_deployments db' = lv_deployments db \<and> rt_cycles db' = rt_cycles db"
    by (auto simp: failRuntimeExplanationJob_def update_events_def update_job_def split: option.split_asm)
  then show ?thesis using rows_move_same by blast
next
  case (create_step env request d)
  from create_step show ?thesis
  proof (cases rule: create_Inr)
    case kept
    then show ?thesis by (simp add: rows_move_same)
  next
    case created
    from created(5) have "ld_id d \<notin> set (map ld_id (lv_deployments db))" by (auto simp: list_ex_iff deployments_clash_def)
    with created(4,6) have "creates db db' d" by (simp add: creates_def deployment_of_def)
    then show ?thesis by blast
  qed
next
  case (status_step now i owner a d)
  then obtain "db' = update_deployment i (with_status a now) db" by (rule status_Inr)
  then show ?thesis using rows_move_update [of "with_status a now" db i] by (simp add: lease_moves_def with_status_def)
next
  case (fund_step env ids dep rates n)
  then show ?thesis using funding_frame [of env ids dep rates db n db'] by (simp add: rows_move_same)
next
  case (settle_step env order x)
  then obtain f where "lv_deployments db' = map f (lv_deployments db)" "\<And>d. \<exists>r. f d = d\<lparr>ld_risk := r\<rparr>" "rt_cycles db' = rt_cycles db"
    by (rule paper_settlement_frame) blast
  then show ?thesis using rows_moveI [of db' f db] by (metis lease_moves_risk)
next
  case (switch_step env w s)
  then have "db' = db \<or> (\<exists>P. db' = db\<lparr>lv_deployments := map (\<lambda>d. if P d then ended d else d) (lv_deployments db)\<rparr>)"
    by (auto simp: endConflictingOfficialStrategyDeployments_def Let_def split: if_split_asm)
  then show ?thesis
  proof (elim disjE exE)
    fix P assume e: "db' = db\<lparr>lv_deployments := map (\<lambda>d. if P d then ended d else d) (lv_deployments db)\<rparr>"
    have "rows_move db db'" by (rule rows_moveI [of _ "\<lambda>d. if P d then ended d else d"]) (simp_all add: e lease_moves_def ended_def)
    then show ?thesis ..
  qed (simp add: rows_move_same)
qed

subsection \<open>One history\<close>

definition cycle_before :: "cycle_row \<Rightarrow> cycle_row \<Rightarrow> bool" where
  "cycle_before a b \<longleftrightarrow> cy_id a \<noteq> cy_id b \<and> (cy_deployment a = cy_deployment b \<longrightarrow>
     cy_sequence a < cy_sequence b \<and> cy_fencing a < cy_fencing b \<and> cy_closeTime a \<noteq> cy_closeTime b)"

definition covered :: "cycle_row \<Rightarrow> deployment_row \<Rightarrow> bool" where
  "covered c d \<longleftrightarrow> ld_id d = cy_deployment c \<and> cy_sequence c \<le> ld_sequence d \<and> cy_fencing c \<le> ld_fencing d
     \<and> (ld_leaseOwner d \<noteq> None \<longrightarrow> cy_fencing c < ld_fencing d)"

definition cycles_ok :: "runtime_db \<Rightarrow> bool" where
  "cycles_ok db \<longleftrightarrow> distinct (map ld_id (lv_deployments db)) \<and> sorted_wrt cycle_before (rt_cycles db)
     \<and> (\<forall>c \<in> set (rt_cycles db). \<exists>d \<in> set (lv_deployments db). covered c d)"

lemma unique_row: "distinct (map ld_id ds) \<Longrightarrow> d \<in> set ds \<Longrightarrow> x \<in> set ds \<Longrightarrow> ld_id x = ld_id d \<Longrightarrow> x = d"
  by (auto simp: distinct_map inj_on_def)

lemma covered_moves: "covered c d \<Longrightarrow> lease_moves d d' \<Longrightarrow> covered c d'"
  by (auto simp: covered_def lease_moves_def)

lemma rows_move_ok: "cycles_ok db \<Longrightarrow> rows_move db db' \<Longrightarrow> cycles_ok db'"
proof -
  assume a: "cycles_ok db" "rows_move db db'"
  then obtain f where f: "lv_deployments db' = map f (lv_deployments db)" "\<And>d. lease_moves d (f d)" "rt_cycles db' = rt_cycles db"
    by (auto simp: rows_move_def)
  have "map ld_id (lv_deployments db') = map ld_id (lv_deployments db)" using f(2) by (simp add: f(1) lease_moves_def)
  moreover have "\<exists>d \<in> set (lv_deployments db'). covered c d" if c: "c \<in> set (rt_cycles db')" for c
  proof -
    from a(1) c f(3) obtain d where "d \<in> set (lv_deployments db)" "covered c d" by (auto simp: cycles_ok_def)
    with covered_moves [OF _ f(2)] show ?thesis by (auto simp: f(1))
  qed
  ultimately show ?thesis using a(1) f(3) by (simp add: cycles_ok_def)
qed

lemma completes_ok:
  assumes "cycles_ok db" "completes db db' c d"
  shows "cycles_ok db'"
proof -
  note ok = assms(1) [unfolded cycles_ok_def]
  note p = assms(2) [unfolded completes_def]
  from p obtain f where f: "lv_deployments db' = map (\<lambda>x. if ld_id x = ld_id d then f x else x) (lv_deployments db)"
    "\<And>x. ld_id (f x) = ld_id x \<and> ld_sequence (f x) = ld_sequence x + 1 \<and> ld_fencing (f x) = ld_fencing x \<and> ld_leaseOwner (f x) = None" by blast
  let ?f = "\<lambda>x. if ld_id x = ld_id d then f x else x"
  have "ld_id (?f x) = ld_id x" for x using f(2) [of x] by simp
  then have i: "map ld_id (lv_deployments db') = map ld_id (lv_deployments db)" unfolding f(1) map_map by (intro map_cong) simp_all
  have b: "cycle_before x c" if x: "x \<in> set (rt_cycles db)" for x
  proof -
    from ok x obtain e where e: "e \<in> set (lv_deployments db)" "covered x e" by blast
    have "cy_sequence x < cy_sequence c \<and> cy_fencing x < cy_fencing c" if "cy_deployment x = cy_deployment c"
    proof -
      have "e = d" using unique_row [of "lv_deployments db" d e] ok e p that by (simp add: covered_def)
      with e(2) p show ?thesis by (auto simp: covered_def)
    qed
    with p x show ?thesis by (auto simp: cycle_before_def)
  qed
  have "\<exists>e \<in> set (lv_deployments db'). covered x e" if x: "x \<in> set (rt_cycles db')" for x
  proof (cases "x = c")
    case True
    have "?f d \<in> set (lv_deployments db')" using p unfolding f(1) list.set_map by (intro imageI) blast
    moreover have "covered c (?f d)" using p f(2) [of d] by (simp add: covered_def)
    ultimately show ?thesis using True by blast
  next
    case False
    with x p have "x \<in> set (rt_cycles db)" by auto
    with ok obtain e where e: "e \<in> set (lv_deployments db)" "covered x e" by blast
    from e(1) have "?f e \<in> set (lv_deployments db')" unfolding f(1) list.set_map by (intro imageI)
    moreover have "covered x (?f e)" using e(2) f(2) [of e] by (auto simp: covered_def)
    ultimately show ?thesis by blast
  qed
  with ok i b p show ?thesis by (auto simp: cycles_ok_def sorted_wrt_append)
qed

lemma step_ok: "cycles_ok db \<Longrightarrow> runtime_step db db' \<Longrightarrow> cycles_ok db'"
proof -
  assume a: "cycles_ok db" "runtime_step db db'"
  from step_effect [OF a(2)] show ?thesis
  proof (elim disjE exE)
    fix d assume "creates db db' d"
    with a(1) show ?thesis by (fastforce simp: creates_def cycles_ok_def)
  qed (use a(1) rows_move_ok completes_ok in blast)+
qed

text \<open>C25. The cycles of a deployment are one history, whatever its workers and its owner do and in whatever order:
  their sequence numbers and the tokens of the leases that wrote them strictly increase, so that a lease
  completes at most one cycle, no candle has two, and the deployment's counters are never behind them.\<close>

theorem one_cycle_per_lease:
  assumes "cycles_ok db" "runtime_step\<^sup>*\<^sup>* db db'"
  shows "cycles_ok db'"
  using assms(2,1) by (induction rule: rtranclp_induct) (auto intro: step_ok)

subsection \<open>Lost leases\<close>

definition superseded :: "runtime_db \<Rightarrow> string \<Rightarrow> int \<Rightarrow> bool" where
  "superseded db i token \<longleftrightarrow> (\<exists>d \<in> set (lv_deployments db). ld_id d = i \<and> token < ld_fencing d)"

lemma superseded_step:
  assumes "superseded db i token" "runtime_step db db'"
  shows "superseded db' i token"
proof -
  from assms(1) obtain d where d: "d \<in> set (lv_deployments db)" "ld_id d = i" "token < ld_fencing d" by (auto simp: superseded_def)
  from step_effect [OF assms(2)] show ?thesis
  proof (elim disjE exE)
    assume "rows_move db db'"
    then obtain f where f: "lv_deployments db' = map f (lv_deployments db)" "\<And>d. lease_moves d (f d)" by (auto simp: rows_move_def)
    have "f d \<in> set (lv_deployments db')" "ld_id (f d) = i" "token < ld_fencing (f d)"
      using d f(2) [of d] by (auto simp: f(1) lease_moves_def)
    then show ?thesis by (auto simp: superseded_def)
  next
    fix x assume "creates db db' x"
    with d show ?thesis by (auto simp: superseded_def creates_def)
  next
    fix c x assume "completes db db' c x"
    then obtain f where f: "lv_deployments db' = map (\<lambda>y. if ld_id y = ld_id x then f y else y) (lv_deployments db)"
      "\<And>y. ld_id (f y) = ld_id y \<and> ld_fencing (f y) = ld_fencing y" unfolding completes_def by blast
    let ?f = "\<lambda>y. if ld_id y = ld_id x then f y else y"
    have "?f d \<in> set (lv_deployments db')" using d(1) unfolding f(1) list.set_map by (intro imageI)
    moreover have "ld_id (?f d) = i" "token < ld_fencing (?f d)" using d f(2) [of d] by auto
    ultimately show ?thesis unfolding superseded_def by blast
  qed
qed

lemma step_ids:
  assumes "runtime_step db db'" "distinct (map ld_id (lv_deployments db))"
  shows "distinct (map ld_id (lv_deployments db'))"
  using step_effect [OF assms(1)]
proof (elim disjE exE)
  assume "rows_move db db'"
  then obtain f where f: "lv_deployments db' = map f (lv_deployments db)" "\<And>d. lease_moves d (f d)" by (auto simp: rows_move_def)
  then have "map ld_id (lv_deployments db') = map ld_id (lv_deployments db)" by (simp add: lease_moves_def)
  with assms(2) show ?thesis by simp
next
  fix c x assume "completes db db' c x"
  then obtain f where f: "lv_deployments db' = map (\<lambda>y. if ld_id y = ld_id x then f y else y) (lv_deployments db)"
    "\<And>y. ld_id (f y) = ld_id y" unfolding completes_def by blast
  then have "map ld_id (lv_deployments db') = map ld_id (lv_deployments db)" unfolding f(1) map_map by (intro map_cong) simp_all
  with assms(2) show ?thesis by simp
qed (use assms(2) in \<open>simp add: creates_def\<close>)

lemma update_other: "(\<And>d. d \<in> set (lv_deployments db) \<Longrightarrow> ld_id d = i \<Longrightarrow> f d = d) \<Longrightarrow> update_deployment i f db = db"
proof -
  assume "\<And>d. d \<in> set (lv_deployments db) \<Longrightarrow> ld_id d = i \<Longrightarrow> f d = d"
  then have "map (\<lambda>d. if ld_id d = i then f d else d) (lv_deployments db) = lv_deployments db" by (intro map_idI) simp
  then show ?thesis by (simp add: update_deployment_def)
qed

text \<open>C26. A worker whose lease another one has taken over is inert for good: after any further steps, with the
  old token it can neither renew nor give back the lease, nor report a failure, and a cycle it completes
  is refused or found to be there already; none of these calls changes the tables.\<close>

theorem superseded_worker_inert:
  assumes "distinct (map ld_id (lv_deployments db))" "superseded db i token" "runtime_step\<^sup>*\<^sup>* db db'"
    and "ci_deploymentId input = i" "ci_fencingToken input = token"
  shows "snd (completeStrategyRuntimeCycle env input db') = db'
    \<and> (case fst (completeStrategyRuntimeCycle env input db') of Inl _ \<Rightarrow> True | Inr cc \<Rightarrow> cc_duplicate cc)
    \<and> failStrategyRuntimeLease i worker token code t db' = db'
    \<and> deferStrategyRuntimeLease i worker token t db' = Inl ''LEASE_LOST''
    \<and> renewStrategyRuntimeLease i worker token now seconds db' \<in> {Inl ''LEASE_INVALID'', Inl ''LEASE_LOST''}"
proof -
  have "superseded db' i token \<and> distinct (map ld_id (lv_deployments db'))"
    using assms(3,2,1)
  proof (induction rule: rtranclp_induct)
    case (step y z)
    from step.hyps(2) have "distinct (map ld_id (lv_deployments z))" if "distinct (map ld_id (lv_deployments y))"
      using that step_ids by blast
    with step superseded_step show ?case by blast
  qed simp
  then obtain d where d: "d \<in> set (lv_deployments db')" "ld_id d = i" "token < ld_fencing d"
    and i: "distinct (map ld_id (lv_deployments db'))" by (auto simp: superseded_def)
  have u: "x = d" if "x \<in> set (lv_deployments db')" "ld_id x = i" for x
    using unique_row [OF i d(1) that(1)] that(2) d(2) by simp
  have n: "\<not> holds_lease i w token x" if "x \<in> set (lv_deployments db')" for w x
    using u [OF that] d(3) by (auto simp: holds_lease_def)
  have f: "failStrategyRuntimeLease i worker token code t db' = db'"
    unfolding failStrategyRuntimeLease_def by (rule update_other) (simp add: n)
  have e: "filter (holds_lease i worker token) (lv_deployments db') = []"
    "filter (\<lambda>d. holds_lease i worker token d \<and> P d) (lv_deployments db') = []" for P using n by (auto simp: filter_empty_conv)
  have c: "find (\<lambda>d. holds_lease i (ci_workerId input) token d \<and> ld_status d = Active) (lv_deployments db') = None"
    using n by (auto simp: find_None_iff)
  have k: "update_deployment i (\<lambda>d. if ld_fencing d = token then released (ci_nextCycleAt input) d else d) db' = db'"
    by (rule update_other) (use u d(3) in auto)
  show ?thesis
    by (simp add: f e deferStrategyRuntimeLease_def renewStrategyRuntimeLease_def completeStrategyRuntimeCycle_def assms(4,5) c k split: option.split)
qed

subsection \<open>Orders of a cycle\<close>

lemma access_cong:
  assumes "lv_portfolios db' = lv_portfolios db" "lv_memberships db' = lv_memberships db" "lv_users db' = lv_users db"
    and "lv_attributions db' = lv_attributions db" "lv_stops db' = lv_stops db" "lv_positions db' = lv_positions db"
  shows "resolveOfficialPaperAccess db' portfolio t = resolveOfficialPaperAccess db portfolio t"
proof -
  have "portfolio_membership db' = portfolio_membership db" "officialPaperHasOpenPositions db' = officialPaperHasOpenPositions db"
    by (rule ext, simp add: portfolio_membership_def officialPaperHasOpenPositions_def assms)+
  moreover have "isOfficialPaperCustomerEmergencyStopped db' = isOfficialPaperCustomerEmergencyStopped db"
    unfolding isOfficialPaperCustomerEmergencyStopped_def assms ..
  ultimately show ?thesis unfolding resolveOfficialPaperAccess_def assms by (simp only:)
qed

text \<open>C27. The order that a cycle leaves for a spot deployment is decided by the access in force when the cycle
  started: it is stored as rejected exactly when it is a buy of a paper deployment and the portfolio
  may not open; an exit is never rejected, and neither is anything of another mode.\<close>

theorem cycle_order_follows_access:
  assumes "completeStrategyRuntimeCycle env i db = (Inr cc, db')"
    and "x \<in> set (lv_orders db')" "x \<notin> set (lv_orders db)"
    and "d \<in> set (lv_deployments db)" "ld_id d = ci_deploymentId i" "distinct (map ld_id (lv_deployments db))"
  shows "\<exists>portfolio access. ld_portfolio d = Some portfolio \<and> bo_portfolio x = portfolio
    \<and> resolveOfficialPaperAccess db portfolio (ci_startedAt i) = Inr access
    \<and> (bo_status x = ''rejected'' \<longleftrightarrow> ld_mode d = ''paper'' \<and> bo_action x = ''buy'' \<and> pa_access access \<noteq> AccessActive)"
  using assms(1)
proof (cases rule: complete_Inr)
  case (duplicate c)
  with assms(2,3) show ?thesis by simp
next
  case (fresh e)
  have "e = d" using unique_row [OF assms(6,4) fresh(1)] fresh(2) assms(5) by (simp add: holds_lease_def)
  let ?u = "update_deployment (ci_deploymentId i) (completed i) db"
  from fresh(6) obtain created db1 db2 db3 db4 es where s: "join_round i ?u = Inr (created, db1)"
    "(if persist_admission i then insert_cycle i (ld_sequence (completed i e)) db1 else Inr db1) = Inr db2"
    "efold (insert_event (if persist_admission i then Some (ci_cycleId i) else None) (round_id i)) es db2 = Inr db3"
    "enqueueRuntimeExplanationJobs env i db3 = Inr db4" "insert_cycle_order env i (completed i e) db4 = Inr db'"
    by (rule write_cycle_steps)
  from join_round_frame [OF s(1)] obtain rs where 1: "db1 = ?u\<lparr>rt_rounds := rs\<rparr>" ..
  have "\<exists>cs. db2 = db1\<lparr>rt_cycles := cs\<rparr>"
  proof (cases "persist_admission i")
    case False
    with s(2) have "db2 = db1\<lparr>rt_cycles := rt_cycles db1\<rparr>" by simp
    then show ?thesis ..
  qed (use s(2) in \<open>auto simp: insert_cycle_def checked_Inr\<close>)
  then obtain cs where 2: "db2 = db1\<lparr>rt_cycles := cs\<rparr>" ..
  from insert_events_frame [OF s(3)] obtain xs where 3: "db3 = db2\<lparr>rt_events := rt_events db2 @ xs\<rparr>" by blast
  from enqueue_frame [OF s(4) [unfolded enqueueRuntimeExplanationJobs_def]] obtain js es' where
    4: "db4 = db3\<lparr>rt_jobs := rt_jobs db3 @ js, rt_events := es'\<rparr>" by blast
  have o: "lv_orders db4 = lv_orders db" by (simp add: 4 3 2 1)
  have a: "resolveOfficialPaperAccess db4 portfolio t = resolveOfficialPaperAccess db portfolio t" for portfolio t
    by (rule access_cong) (simp_all add: 4 3 2 1 update_deployment_def)
  show ?thesis
  proof (cases "ci_orderIntent i")
    case None
    with s(5) o assms(2,3) show ?thesis by (simp add: insert_cycle_order_def)
  next
    case (Some o')
    show ?thesis
    proof (cases "ld_product (completed i e) = ''spot_usdt''")
      case False
      with Some s(5) have "insert_perpetual_order env i (completed i e) o' db4 = Inr db'" by (simp add: insert_cycle_order_def)
      from insert_perpetual_order_frame [OF this] o assms(2,3) show ?thesis by auto
    next
      case True
      with Some s(5) have "insert_spot_order env i (completed i e) o' db4 = Inr db'" by (simp add: insert_cycle_order_def)
      then obtain portfolio smb risk price access where r: "resolveOfficialPaperAccess db4 portfolio (ci_startedAt i) = Inr access"
        "ld_portfolio (completed i e) = Some portfolio" "json_to_string (field o' ''action'') \<in> {''enter_long'', ''exit''}"
        "store_spot_order (spot_order env i (completed i e) o' portfolio smb risk price
           (rejection_code (completed i e) (json_to_string (field o' ''action'')) access)) db4 = Inr db'"
        by (rule insert_spot_order_Inr)
      have "x = spot_order env i (completed i e) o' portfolio smb risk price
           (rejection_code (completed i e) (json_to_string (field o' ''action'')) access)"
        using r(4)
      proof (cases rule: store_spot_order_Inr)
        case kept
        with o assms(2,3) show ?thesis by simp
      next
        case added
        with o assms(2,3) show ?thesis by simp
      qed
      moreover have "ld_mode (completed i e) = ld_mode d" "ld_portfolio (completed i e) = ld_portfolio d"
        using \<open>e = d\<close> by (simp_all add: completed_def released_def)
      ultimately show ?thesis using r(1-3) a
        by (intro exI [of _ portfolio] exI [of _ access]) (auto simp: spot_order_def rejection_code_def)
    qed
  qed
qed

subsection \<open>Sample runs\<close>

lemma sample_joined_cycles: "cycles_ok sample_joined"
  by (simp add: cycles_ok_def sample_joined_def sample_runtime_def)

lemma sample_joined_run: "runtime_step\<^sup>*\<^sup>* sample_joined sample_joined_after"
  using complete_step [of sample_joined sample_runtime_env "sample_cycle False None"] by (auto simp: sample_joined_complete)

theorem one_cycle_per_lease_witness: "length (rt_cycles sample_joined_after) = 1 \<and> cycles_ok sample_joined_after"
  using one_cycle_per_lease [OF sample_joined_cycles sample_joined_run] by (simp add: sample_joined_after_def)

theorem superseded_worker_inert_witness:
  "deferStrategyRuntimeLease ''d1'' ''w1'' 3 0 sample_joined_after = Inl ''LEASE_LOST''
   \<and> failStrategyRuntimeLease ''d1'' ''w1'' 3 ''E'' 0 sample_joined_after = sample_joined_after"
proof -
  have d: "distinct (map ld_id (lv_deployments sample_joined))" "superseded sample_joined ''d1'' 3"
    by (simp_all add: sample_joined_def sample_runtime_def superseded_def sample_leased_def)
  show ?thesis
    using superseded_worker_inert [OF d sample_joined_run, of "(sample_cycle False None)\<lparr>ci_fencingToken := 3\<rparr>" sample_runtime_env "''w1''" "''E''" 0]
    by simp
qed

definition sample_exit :: fields where
  "sample_exit = [(''action'', JStr ''exit''), (''executionTiming'', JStr ''next_candle_open''), (''idempotencyKey'', JStr ''k9'')]"

definition sample_exit_start :: runtime_db where
  "sample_exit_start = sample_runtime [sample_round_row] [] []"

lemma sample_exit_persist: "persist_admission (sample_cycle False (Some f))"
  by (simp add: persist_admission_def shouldPersistAdmission_def)

lemma sample_exit_access: "lv_portfolios db = lv_portfolios sample_exit_start \<Longrightarrow> lv_memberships db = lv_memberships sample_exit_start \<Longrightarrow>
    \<exists>access. resolveOfficialPaperAccess db ''p1'' t = Inr access"
  by (simp add: resolveOfficialPaperAccess_def portfolio_membership_def sample_exit_start_def sample_runtime_def Let_def)

lemma sample_exit_complete:
  "\<exists>cc db' x. completeStrategyRuntimeCycle sample_runtime_env (sample_cycle False (Some sample_exit)) sample_exit_start = (Inr cc, db')
     \<and> lv_orders db' = [x] \<and> bo_action x = ''sell''"
proof -
  let ?i = "sample_cycle False (Some sample_exit)"
  let ?u = "update_deployment ''d1'' (completed ?i) sample_exit_start"
  let ?d = "completed ?i sample_leased"
  have j: "join_round ?i ?u = Inr (False, ?u)"
    by (simp add: join_round_def sample_cycle_def) (simp add: insert_round_def Let_def sample_round_row_def round_checks_def official_symbols_def sample_exit_start_def sample_runtime_def)
  have "rt_cycles ?u = []" by (simp add: sample_exit_start_def sample_runtime_def)
  then obtain c where c: "insert_cycle ?i 8 ?u = Inr (?u\<lparr>rt_cycles := [c]\<rparr>)" "cy_id c = ''c1''"
    by (simp add: insert_cycle_def checked_def)
  let ?v = "?u\<lparr>rt_cycles := [c]\<rparr>"
  have q: "enqueueRuntimeExplanationJobs sample_runtime_env ?i ?v = Inr ?v"
    by (simp add: enqueueRuntimeExplanationJobs_def sample_exit_start_def sample_runtime_def)
  obtain access where a: "resolveOfficialPaperAccess ?v ''p1'' 3600001 = Inr access"
    using sample_exit_access [of ?v 3600001] by (auto simp: update_deployment_def)
  have p: "requested_price sample_runtime_env sample_exit = Inr None" by (simp add: requested_price_def sample_exit_def field_def)
  have f: "ld_portfolio ?d = Some ''p1''" "ld_product ?d = ''spot_usdt''" "ld_sequence ?d = 8"
    "json_to_string (field sample_exit ''action'') = ''exit''" "json_to_string (field sample_exit ''executionTiming'') = ''next_candle_open''"
    "ci_riskPerTradePct ?i = Some (N 1)"
    by (simp_all add: completed_def released_def sample_leased_def sample_exit_def field_def sample_cycle_def)
  let ?x = "spot_order sample_runtime_env ?i ?d sample_exit ''p1'' ''BTCUSDT'' (N 1) None (rejection_code ?d ''exit'' access)"
  have x: "bo_timing ?x = ''next_candle_open''" "bo_symbol ?x = ''BTCUSDT''" "bo_cycle ?x = ''c1''" "bo_action ?x = ''sell''"
    by (simp_all add: spot_order_def f)
  have "lv_orders ?v = []" "rt_cycles ?v = [c]" by (simp_all add: sample_exit_start_def sample_runtime_def)
  then have s: "store_spot_order ?x ?v = Inr (?v\<lparr>lv_orders := [?x]\<rparr>)"
    using x c(2) by (simp add: store_spot_order_def official_symbols_def checked_def)
  have "insert_spot_order sample_runtime_env ?i ?d sample_exit ?v = Inr (?v\<lparr>lv_orders := [?x]\<rparr>)"
    using f s a p by (simp add: insert_spot_order_def Let_def)
  then have o: "insert_cycle_order sample_runtime_env ?i ?d ?v = Inr (?v\<lparr>lv_orders := [?x]\<rparr>)"
    using f(2) by (simp add: insert_cycle_order_def)
  have w: "write_cycle sample_runtime_env ?i ?d ?u = Inr (?v\<lparr>lv_orders := [?x]\<rparr>)"
    using sample_round [of False "Some sample_exit"] c(1) q o f(3) by (simp add: write_cycle_def j sample_exit_persist)
  have "lv_deployments sample_exit_start = [sample_leased]" "rt_cycles sample_exit_start = []"
    by (simp_all add: sample_exit_start_def sample_runtime_def)
  then have "completeStrategyRuntimeCycle sample_runtime_env ?i sample_exit_start
      = (Inr \<lparr>cc_id = ''c1'', cc_sequence = ld_sequence sample_leased + 1, cc_duplicate = False\<rparr>, ?v\<lparr>lv_orders := [?x]\<rparr>)"
    using w by (simp add: completeStrategyRuntimeCycle_def) (simp add: holds_lease_def sample_leased_def)
  with x(4) show ?thesis by (intro exI conjI) (assumption, simp_all)
qed

theorem cycle_order_follows_access_witness:
  "\<exists>cc db' x. completeStrategyRuntimeCycle sample_runtime_env (sample_cycle False (Some sample_exit)) sample_exit_start = (Inr cc, db')
     \<and> x \<in> set (lv_orders db') \<and> bo_portfolio x = ''p1'' \<and> bo_status x \<noteq> ''rejected''"
proof -
  obtain cc db' x where c: "completeStrategyRuntimeCycle sample_runtime_env (sample_cycle False (Some sample_exit)) sample_exit_start = (Inr cc, db')"
    "lv_orders db' = [x]" "bo_action x = ''sell''" using sample_exit_complete by blast
  have d: "x \<in> set (lv_orders db')" "x \<notin> set (lv_orders sample_exit_start)" "sample_leased \<in> set (lv_deployments sample_exit_start)"
    "ld_id sample_leased = ci_deploymentId (sample_cycle False (Some sample_exit))" "distinct (map ld_id (lv_deployments sample_exit_start))"
    using c(2) by (simp_all add: sample_exit_start_def sample_runtime_def sample_leased_def)
  have "ld_portfolio sample_leased = Some ''p1''" by (simp add: sample_leased_def)
  with cycle_order_follows_access [OF c(1) d] c d(1) show ?thesis by auto
qed

end
