(* ===== verification/Spec2Isabelle.thy ===== *)
theory Spec2Isabelle
  imports Prelude Binary64 JsNumber JsString JsDate
    OrderIntent IntentTranslation FillAccounting Reconciliation ReconciliationStore LiveAdmission
    RateLimit CanonicalJson ClientOrderId LiveExecutionPort
    DslRules StrategyDsl Indicators StrategyEvaluator Backtest PerpetualBacktest
    RuntimeAdmission OfficialStrategies RiskState RuntimeEngine
    Ledger MembershipFees Credits CreditStore CreditBooks CreditLife Inference
    OfficialPortfolio PortfolioRisk BookTables LiveBook PaperBook
    RuntimeStore RuntimeJobs DeploymentStore PerpetualPaper RuntimeRun
begin

text \<open>
  The trading core and the billing of the platform, modelled in Isabelle/HOL from its TypeScript sources.

  The platform runs trading strategies for its customers. A stored specification is evaluated on
  closed candles once per cycle; a signal becomes an intent; an intent passes a row of gates and
  becomes orders on exchange accounts; what an order really filled is settled from the receipt and,
  where the receipt says nothing, by a reconciliation with the exchange. Before a strategy is
  offered it is judged by backtests that use the same evaluator. The development models that path
  from the specification's JSON to the settled fill, and beside it the credits that a customer buys
  and the AI services consume:

    \<^item> one cycle: \<open>RuntimeAdmission\<close>, \<open>RiskState\<close>, \<open>OfficialStrategies\<close>, \<open>StrategyDsl\<close> and
      \<open>StrategyEvaluator\<close> feed \<open>RuntimeEngine\<close>;
    \<^item> its intent: \<open>IntentTranslation\<close> turns the engine's intent into the execution port's,
      \<open>OrderIntent\<close>;
    \<^item> its orders: \<open>LiveAdmission\<close> holds the gates, \<open>LiveExecutionPort\<close> passes them, derives the order
      id (\<open>ClientOrderId\<close>), paces the calls (\<open>RateLimit\<close>) and writes receipts (\<open>FillAccounting\<close>);
    \<^item> its doubts: \<open>Reconciliation\<close> decides about an order whose fate is unknown,
      \<open>ReconciliationStore\<close> keeps the pending decisions and the worker that takes them;
    \<^item> research: \<open>Backtest\<close> (spot) and \<open>PerpetualBacktest\<close>;
    \<^item> billing: \<open>Ledger\<close> and \<open>MembershipFees\<close> hold the arithmetic, \<open>Credits\<close> the rules of an account,
      \<open>CreditStore\<close> the tables and transactions on them.

  \<^bold>\<open>Theories and sources.\<close> The paths are under \<open>src/\<close>; \<open>domain\<close> is \<open>packages/domain/src\<close> and \<open>server\<close>
  is \<open>lib/execution/server\<close>. Definitions have the names of the source where the logic allows.

    \<^item> \<open>Prelude\<close>: the error-or-value type of functions that throw, the lemma collections.
    \<^item> \<open>Binary64\<close>, \<open>JsNumber\<close>, \<open>JsString\<close>, \<open>JsDate\<close>: the language's numbers, strings and dates.
    \<^item> \<open>OrderIntent\<close>: \<open>domain/execution/order-intent.ts\<close>, \<open>execution-port.ts\<close>.
    \<^item> \<open>IntentTranslation\<close>: \<open>domain/execution/intent-translation.ts\<close>.
    \<^item> \<open>FillAccounting\<close>: \<open>domain/execution/fill-accounting.ts\<close>, \<open>effective-fill.ts\<close>.
    \<^item> \<open>Reconciliation\<close>: \<open>domain/execution/reconciliation.ts\<close>.
    \<^item> \<open>ReconciliationStore\<close>: \<open>server/reconciliation-repository.ts\<close>, \<open>reconciliation-worker.ts\<close> and the
      constraints and trigger of \<open>postgres/migrations/0050_execution_reconciliations.sql\<close> and
      \<open>0061_reconciled_fee_amount.sql\<close>. Every statement of the repository is one atomic operation on
      the table; an update that breaks a constraint changes no row.
    \<^item> \<open>LiveAdmission\<close>: \<open>domain/execution/kill-switch.ts\<close>, \<open>live-routing.ts\<close>, \<open>live-readiness.ts\<close>,
      \<open>live-activation.ts\<close>.
    \<^item> \<open>RateLimit\<close>: \<open>domain/execution/rate-limit.ts\<close>.
    \<^item> \<open>CanonicalJson\<close>: \<open>domain/canonical-hash.ts\<close> and the JSON values of every component.
    \<^item> \<open>ClientOrderId\<close>: \<open>domain/execution/client-order-id.ts\<close>.
    \<^item> \<open>LiveExecutionPort\<close>: \<open>server/live-execution-port.ts\<close>. A computation is the trace of its calls
      with a value or an error, so the order of effects is part of what is proved.
    \<^item> \<open>DslRules\<close>, \<open>StrategyDsl\<close>, \<open>Indicators\<close>, \<open>StrategyEvaluator\<close>: \<open>domain/strategy-dsl.ts\<close>.
    \<^item> \<open>Backtest\<close>, \<open>PerpetualBacktest\<close>: \<open>domain/backtest-engine.ts\<close>.
    \<^item> \<open>RuntimeAdmission\<close>: \<open>domain/runtime/market-cache.ts\<close>, \<open>market-admission.ts\<close>, \<open>admission.ts\<close>,
      \<open>cycle-planning.ts\<close>, \<open>deployment-overrides.ts\<close>, \<open>explanation-retry.ts\<close>.
    \<^item> \<open>OfficialStrategies\<close>: \<open>packages/contracts/src/trading-hall.ts\<close>,
      \<open>domain/platform-ai-strategies.ts\<close>, \<open>platform-strategy-v3.ts\<close>.
    \<^item> \<open>RiskState\<close>: \<open>domain/runtime/risk-state.ts\<close>.
    \<^item> \<open>RuntimeEngine\<close>: \<open>domain/strategy-runtime-engine.ts\<close>.
    \<^item> \<open>OfficialPortfolio\<close>: \<open>domain/official-paper-portfolio.ts\<close>, the books of paper and live portfolios.
    \<^item> \<open>PortfolioRisk\<close>: the refresh of a deployment's risk readings in
      \<open>lib/official-paper-repository.ts\<close>.
    \<^item> \<open>BookTables\<close>: the tables of the books (migrations 0007, 0024, 0053, 0060, 0062) and the statements
      that paper settlement and live posting share.
    \<^item> \<open>PaperBook\<close>: \<open>lib/official-paper-repository.ts\<close> (access, settlement, marks, opening),
      \<open>lib/membership-rules.ts\<close>, \<open>lib/trading-emergency-scope.ts\<close> and the route that switches an emergency.
    \<^item> \<open>LiveBook\<close>: \<open>lib/live-book-posting.ts\<close>, which
      books what \<open>FillAccounting\<close> settles into the portfolio of \<open>OfficialPortfolio\<close>, one transaction each.
    \<^item> \<open>RuntimeStore\<close>, \<open>RuntimeJobs\<close>, \<open>DeploymentStore\<close>, \<open>PerpetualPaper\<close>: the transactions of
      \<open>lib/strategy-runtime-repository.ts\<close> (leases and cycles; the queue of explanations; the life of a
      deployment; perpetual paper positions) on the tables of the migrations 0007, 0009, 0013, 0024, 0046,
      0047, 0048, 0053 and 0060. \<open>RuntimeRun\<close>: those transactions as the steps of workers and owners.
    \<^item> \<open>Ledger\<close>: \<open>packages/ledger/src/ledger.ts\<close>, decimals as integers with a scale, and the balance
      of a double entry.
    \<^item> \<open>MembershipFees\<close>: \<open>domain/commercial-membership-domain.ts\<close> and the accounting step of
      \<open>lib/performance-fee-service.ts\<close>.
    \<^item> \<open>Credits\<close>: \<open>domain/credits/credit-ledger.ts\<close>.
    \<^item> \<open>CreditStore\<close>: \<open>lib/ai-credit-service.ts\<close>, \<open>lib/credit-adjustment-service.ts\<close>,
      \<open>lib/client-credit-view.ts\<close>, \<open>lib/commercial-idempotency.ts\<close>, the grant of
      \<open>lib/membership-wallet-payment.ts\<close>, and the constraints of the migrations 0023 and 0031. Every
      exported function is one transaction: it answers with a new state of the tables or with an
      error and the old one.
    \<^item> \<open>CreditBooks\<close> and \<open>CreditLife\<close>: the invariant of the credit tables, and the life of
      reservations and adjustments under any sequence of operations.
    \<^item> \<open>Inference\<close>: \<open>lib/client-ai-inference-service.ts\<close> and the table of migration 0038.

  \<^bold>\<open>Interfaces.\<close> The contracts between components are stated as locales and interpreted on the definitions that provide
  them: \<open>rounding\<close> (what number proofs rely on; provided by the binary64 rounding), \<open>exit_gate\<close> (a
  query that closes a position passes; provided by the gates of the live path),
  \<open>dispatch_planner\<close> (a planned call never starts early and the planner's clock never goes back;
  provided by the two-level bucket), \<open>trading_loop\<close> (a loop over candles whose step may throw;
  provided by both backtests).

  \<^bold>\<open>What the lemmas show.\<close>

    \<^item> The engine: when a cycle enters, with every condition on the evidence, the readings and the
      signal; that nothing about risk readings or the market's age stops a required exit; that the
      converted form of an official strategy decides as the original one does.
    \<^item> Intents: which intents are valid, that translation yields only valid ones, that a quantity
      never exceeds what the account's capital and the price band allow.
    \<^item> The live path: an order is placed at most once and behind open gates, with the derived id;
      every request of a batch has its receipt; the port returns whatever its adapters throw.
    \<^item> Fills: classification and the effective fill, branch by branch; no fill without a word of
      the exchange.
    \<^item> Reconciliation: no resolution without evidence, retries bounded, settled facts immutable, the
      table's invariant kept by every operation, the store a refinement of a map from orders to their
      fates, and the worker's drain bounded.
    \<^item> The language: normalising the JSON of a rule or specification gives it back; indicators and
      condition trees look at no candle after the one they decide; backtests return, end flat, open
      nothing after a halt, and depend on no later candle.
    \<^item> Portfolios: the cash, results and fees of a portfolio are the replay of its fills; its positions
      and entries stay within the strategy's contract; a buy stays within the limits, and only exits
      are booked once the access is closed. Live fills are booked in the order of their execution and
      once each; a fill that the books refuse blocks all later ones; a halt for a drawdown outlives
      every refresh of the readings. On paper an entry is rejected under an emergency stop, a lapsed
      membership or closed access, and an exit never is.
    \<^item> The runtime's store: whatever workers and owners do, the cycles of a deployment have strictly
      increasing sequence numbers and lease tokens and distinct candles; a worker whose lease was taken
      over changes nothing any more; a buy is stored as rejected exactly when the access in force
      forbids it; a deployment request can be repeated; a switch of a card leaves the requested
      deployment only; funding is charged once. Two theorems show where the code does not do what it
      means to: a hold that writes no cycle fails when a market summary is due, and a job of a joined
      round blocks the queue.
    \<^item> Billing: a decimal is read, added and printed exactly; the sums of an account's ledger are its
      balances after any sequence of operations; a settlement charges the metered cost once, never
      more than was reserved, and gives the rest back; a second call with the same key changes
      nothing and another call under the key is refused; a reservation that is closed stays as it
      is; a manual adjustment takes effect by the word of a second person; a performance fee is
      charged once for a gain. An AI request has a reservation of its own, which is settled for the
      tokens its row notes exactly when it has succeeded and released when it has failed; a key
      starts one request; the estimate that is reserved covers every usage within its limits.

  \<^bold>\<open>Numbers.\<close> A JavaScript number is NaN, an infinity or a rational (\<open>jsnum\<close>); every operation rounds
  the exact result to binary64, ties to even, with gradual underflow and overflow to infinity.
  \<open>is_double\<close> says that a rational is a binary64 value; where a lemma needs it, it is a hypothesis.
  The two zeros are one value, the positive zero; the sign of a zero is not modelled. Instants are numbers of milliseconds; \<open>JsDate\<close> has the calendar arithmetic of
  \<open>toISOString\<close> and \<open>Date.parse\<close>.

  \<^bold>\<open>Strings.\<close> A string is a list of 8-bit characters and case conversion changes the letters of ASCII
  only. The texts that operators and customers read are codes: the ASCII name of the branch they
  belong to, so that distinct texts stay distinct.

  \<^bold>\<open>Termination.\<close> Loops over candles, accounts and rows are structural recursions, and no fuel is
  used. The worker's drain takes the environment of each cycle (its clock reading and the
  exchange's answer) from a list, which is as long as the bound of the source; the bound itself is
  a property.

  \<^bold>\<open>Parameters.\<close> What is not code of the repository or not readable there is an argument: the digest and
  the collation of \<open>localeCompare\<close>, the exchange adapters, credentials, the clocks, the slots of the
  rate limiter, the metering function of the database, the truncation of a timestamp and the rounding of a decimal to a column by the database, and the conversion of a legacy brief.

  \<^bold>\<open>Not modelled.\<close>

    \<^item> The user interface, the routes and the HTTP plumbing: no logic beyond lookups and rendering.
    \<^item> The repositories' SQL, other than the reconciliation table: their logic is the database's.
    \<^item> The messages of agents and the evidence attached to events and results, which copy values of
      the result, and the evidence digest of a backtest.
    \<^item> Memory that is not visible in results: the caches of the evaluator.
    \<^item> Membership orders, wallet payments and entitlements: workflows of SQL statements around the
      fee rules modelled here.
    \<^item> The journal of the release pipeline, database role scripts and deployment scripts.
\<close>

end
